(* ===== verification/LiteIM_Prelude.thy ===== *)
theory LiteIM_Prelude
  imports Main "HOL-Library.Word" "HOL-Library.Monad_Syntax"
begin

unbundle bit_operations_syntax

text \<open>
  Shared vocabulary of the development.

  \<^item> Machine integers and byte strings (\<open>include/liteim/base/Types.hpp\<close>): \<open>Byte\<close> is an 8-bit word,
    \<open>Bytes\<close> a list of them; \<open>std::string\<close> is a list of characters, which are bytes too.
  \<^item> A C pointer to readable memory is \<open>None\<close> for \<open>nullptr\<close> and otherwise the bytes that may be read
    from it on. A read past them is undefined behaviour in C++, and the value \<open>None\<close> here.
  \<^item> \<open>ErrorCode\<close> and \<open>Status\<close> (\<open>src/base\<close>). A function that returns a \<open>Status\<close> and fills output
    parameters is modelled by a sum: \<open>Inl\<close> a status that is not ok, \<open>Inr\<close> the outputs. No caller in
    the program reads an output parameter after a failed call.
  \<^item> Programs that change state and may return early with a status: the state-passing type
    \<open>('s, 'a) prog\<close> with sequencing, reading the status of a call, and loops over a container.
  \<^item> Generic lemmas and the rule collections that the component theories use.
\<close>

named_theorems codec_simps \<open>equations of the wire format\<close>
named_theorems prog_simps \<open>equations of state-passing programs\<close>
named_theorems inv_intros \<open>operations that keep a component invariant\<close>

section \<open>Machine integers, bytes and pointers\<close>

type_synonym byte = "8 word"
type_synonym u16 = "16 word"
type_synonym u32 = "32 word"
type_synonym u64 = "64 word"
type_synonym bytes = "byte list"
type_synonym cptr = "bytes option"

definition bytes_of_string :: "string \<Rightarrow> bytes" where
  "bytes_of_string s = map of_char s"

definition string_of_bytes :: "bytes \<Rightarrow> string" where
  "string_of_bytes bs = map (\<lambda>b. char_of (unat b)) bs"

lemma of_char_word_nat: "(of_char c :: byte) = of_nat (of_char c)"
  by (simp add: of_nat_of_char)

lemma unat_of_char [simp]: "unat (of_char c :: byte) = of_char c"
  unfolding of_char_word_nat by (subst unat_of_nat) simp

lemma unat_byte_less: "unat (b :: byte) < 256"
  by (rule order_less_le_trans [OF unsigned_less]) simp

lemma of_char_char_of_byte [simp]: "(of_char (char_of (unat (b :: byte))) :: byte) = b"
proof -
  have "(of_char (char_of (unat b)) :: nat) = unat b mod 256"
    by simp
  also have "\<dots> = unat b"
    using unat_byte_less [of b] by simp
  finally show ?thesis
    unfolding of_char_word_nat by simp
qed

lemma string_of_bytes_of_string [simp]: "string_of_bytes (bytes_of_string s) = s"
  by (simp add: string_of_bytes_def bytes_of_string_def comp_def)

lemma bytes_of_string_of_bytes [simp]: "bytes_of_string (string_of_bytes bs) = bs"
  by (simp add: string_of_bytes_def bytes_of_string_def comp_def)

lemma length_bytes_of_string [simp]: "length (bytes_of_string s) = length s"
  by (simp add: bytes_of_string_def)

lemma length_string_of_bytes [simp]: "length (string_of_bytes bs) = length bs"
  by (simp add: string_of_bytes_def)

lemma bytes_of_string_empty [simp]: "bytes_of_string [] = []" "string_of_bytes [] = []"
  by (simp_all add: bytes_of_string_def string_of_bytes_def)

lemma string_of_bytes_eq_Nil [simp]: "string_of_bytes bs = [] \<longleftrightarrow> bs = []"
  by (simp add: string_of_bytes_def)

section \<open>Error codes and statuses\<close>

datatype error_code =
    Ok | InvalidArgument | NotFound | AlreadyExists | IoError | ParseError | ConfigError
  | InternalError | ResourceExhausted

fun error_code_value :: "error_code \<Rightarrow> nat" where
  "error_code_value Ok = 0"
| "error_code_value InvalidArgument = 1"
| "error_code_value NotFound = 2"
| "error_code_value AlreadyExists = 3"
| "error_code_value IoError = 4"
| "error_code_value ParseError = 5"
| "error_code_value ConfigError = 6"
| "error_code_value InternalError = 7"
| "error_code_value ResourceExhausted = 8"

fun error_code_toString :: "error_code \<Rightarrow> string" where
  "error_code_toString Ok = ''Ok''"
| "error_code_toString InvalidArgument = ''InvalidArgument''"
| "error_code_toString NotFound = ''NotFound''"
| "error_code_toString AlreadyExists = ''AlreadyExists''"
| "error_code_toString IoError = ''IoError''"
| "error_code_toString ParseError = ''ParseError''"
| "error_code_toString ConfigError = ''ConfigError''"
| "error_code_toString InternalError = ''InternalError''"
| "error_code_toString ResourceExhausted = ''ResourceExhausted''"

record status =
  code :: error_code
  message :: string

definition status_ok :: status where
  "status_ok = \<lparr>code = Ok, message = []\<rparr>"

definition status_error :: "error_code \<Rightarrow> string \<Rightarrow> status" where
  "status_error c m = \<lparr>code = c, message = m\<rparr>"

definition isOk :: "status \<Rightarrow> bool" where
  "isOk st \<longleftrightarrow> code st = Ok"

lemma code_status_error [simp]: "code (status_error c m) = c"
  by (simp add: status_error_def)

lemma message_status_error [simp]: "message (status_error c m) = m"
  by (simp add: status_error_def)

lemma status_error_eq_iff [simp]: "status_error c m = status_error c' m' \<longleftrightarrow> c = c' \<and> m = m'"
  by (simp add: status_error_def)

lemma isOk_simps [simp]: "isOk status_ok" "isOk (status_error c m) \<longleftrightarrow> c = Ok"
  by (simp_all add: isOk_def status_ok_def)

lemma error_code_value_less: "error_code_value c < 9"
  by (cases c) simp_all

lemma error_code_value_inject: "error_code_value c = error_code_value d \<longleftrightarrow> c = d"
  by (cases c; cases d) simp_all

section \<open>Results and state-passing programs\<close>

type_synonym 'a result = "status + 'a"

abbreviation err :: "error_code \<Rightarrow> string \<Rightarrow> 'a result" where
  "err c m \<equiv> Inl (status_error c m)"

definition bindR :: "'a result \<Rightarrow> ('a \<Rightarrow> 'b result) \<Rightarrow> 'b result" where
  "bindR r f = (case r of Inl e \<Rightarrow> Inl e | Inr x \<Rightarrow> f x)"

lemma bindR_simps [simp]: "bindR (Inl e) f = Inl e" "bindR (Inr x) f = f x"
  by (simp_all add: bindR_def)

lemma bindR_eq_Inr: "bindR r f = Inr y \<longleftrightarrow> (\<exists>x. r = Inr x \<and> f x = Inr y)"
  by (cases r) simp_all

lemma bindR_eq_Inl: "bindR r f = Inl e \<longleftrightarrow> r = Inl e \<or> (\<exists>x. r = Inr x \<and> f x = Inl e)"
  by (cases r) simp_all

lemma bindR_assoc: "bindR (bindR r f) g = bindR r (\<lambda>x. bindR (f x) g)"
  by (cases r) simp_all

type_synonym ('s, 'a) prog = "'s \<Rightarrow> 'a result \<times> 's"

definition retP :: "'a \<Rightarrow> ('s, 'a) prog" where
  "retP x = (\<lambda>s. (Inr x, s))"

definition failP :: "status \<Rightarrow> ('s, 'a) prog" where
  "failP e = (\<lambda>s. (Inl e, s))"

definition liftP :: "'a result \<Rightarrow> ('s, 'a) prog" where
  "liftP r = (\<lambda>s. (r, s))"

definition getsP :: "('s \<Rightarrow> 'a) \<Rightarrow> ('s, 'a) prog" where
  "getsP f = (\<lambda>s. (Inr (f s), s))"

definition bindP :: "('s, 'a) prog \<Rightarrow> ('a \<Rightarrow> ('s, 'b) prog) \<Rightarrow> ('s, 'b) prog" where
  "bindP m f = (\<lambda>s. case m s of (Inl e, t) \<Rightarrow> (Inl e, t) | (Inr x, t) \<Rightarrow> f x t)"

definition statusP :: "('s, 'a) prog \<Rightarrow> ('s, 'a result) prog" where
  "statusP m = (\<lambda>s. case m s of (r, t) \<Rightarrow> (Inr r, t))"

fun forP :: "('a \<Rightarrow> ('s, unit) prog) \<Rightarrow> 'a list \<Rightarrow> ('s, unit) prog" where
  "forP f [] = retP ()"
| "forP f (x # xs) = bindP (f x) (\<lambda>_. forP f xs)"

lemma retP_apply [simp, prog_simps]: "retP x s = (Inr x, s)"
  by (simp add: retP_def)

lemma failP_apply [simp, prog_simps]: "failP e s = (Inl e, s)"
  by (simp add: failP_def)

lemma liftP_apply [simp, prog_simps]: "liftP r s = (r, s)"
  by (simp add: liftP_def)

lemma getsP_apply [simp, prog_simps]: "getsP f s = (Inr (f s), s)"
  by (simp add: getsP_def)

lemma bindP_apply [prog_simps]:
  "bindP m f s = (case m s of (Inl e, t) \<Rightarrow> (Inl e, t) | (Inr x, t) \<Rightarrow> f x t)"
  by (simp add: bindP_def)

lemma statusP_apply [simp, prog_simps]: "statusP m s = (Inr (fst (m s)), snd (m s))"
  by (simp add: statusP_def split: prod.splits)

lemma bindP_retP [simp]: "bindP (retP x) f = f x"
  by (rule ext) (simp add: bindP_apply)

lemma bindP_failP [simp]: "bindP (failP e) f = failP e"
  by (rule ext) (simp add: bindP_apply)

lemma bindP_Inr:
  "bindP m f s = (Inr y, t) \<longleftrightarrow> (\<exists>x s'. m s = (Inr x, s') \<and> f x s' = (Inr y, t))"
  by (auto simp: bindP_apply split: prod.splits sum.splits)

lemma bindP_Inl:
  "bindP m f s = (Inl e, t) \<longleftrightarrow>
     m s = (Inl e, t) \<or> (\<exists>x s'. m s = (Inr x, s') \<and> f x s' = (Inl e, t))"
  by (auto simp: bindP_apply split: prod.splits sum.splits)

lemma bindP_run: "m s = (Inr x, s') \<Longrightarrow> bindP m f s = f x s'"
  by (simp add: bindP_apply)

lemma bindP_stop: "m s = (Inl e, s') \<Longrightarrow> bindP m f s = (Inl e, s')"
  by (simp add: bindP_apply)

text \<open>
  A state predicate (or a relation between the start and the current state) kept by every call is
  kept by the composed program: the rules that lift invariants through handlers.
\<close>

definition keepsP :: "('s \<Rightarrow> bool) \<Rightarrow> ('s, 'a) prog \<Rightarrow> bool" where
  "keepsP I m \<longleftrightarrow> (\<forall>s. I s \<longrightarrow> I (snd (m s)))"

lemma keepsPD: "keepsP I m \<Longrightarrow> I s \<Longrightarrow> I (snd (m s))"
  by (simp add: keepsP_def)

lemma keepsP_retP [inv_intros]: "keepsP I (retP x)"
  by (simp add: keepsP_def)

lemma keepsP_failP [inv_intros]: "keepsP I (failP e)"
  by (simp add: keepsP_def)

lemma keepsP_liftP [inv_intros]: "keepsP I (liftP r)"
  by (simp add: keepsP_def)

lemma keepsP_getsP [inv_intros]: "keepsP I (getsP f)"
  by (simp add: keepsP_def)

lemma keepsP_bindP [inv_intros]:
  "keepsP I m \<Longrightarrow> (\<And>x. keepsP I (f x)) \<Longrightarrow> keepsP I (bindP m f)"
  by (fastforce simp: keepsP_def bindP_apply split: prod.splits sum.splits)

lemma keepsP_statusP [inv_intros]: "keepsP I m \<Longrightarrow> keepsP I (statusP m)"
  by (simp add: keepsP_def)

lemma keepsP_if [inv_intros]:
  "(c \<Longrightarrow> keepsP I m) \<Longrightarrow> (\<not> c \<Longrightarrow> keepsP I n) \<Longrightarrow> keepsP I (if c then m else n)"
  by simp

lemma keepsP_forP [inv_intros]: "(\<And>x. keepsP I (f x)) \<Longrightarrow> keepsP I (forP f xs)"
  by (induction xs) (auto intro: inv_intros)

section \<open>Hash maps\<close>

text \<open>
  A \<open>std::unordered_map\<close> is an association list with distinct keys, read with \<open>map_of\<close>; its size is
  the length of the list. \<open>emplace\<close> keeps an existing entry, assignment through \<open>operator[]\<close>
  replaces it. No code of the program depends on the iteration order of such a map.
\<close>

definition al_emplace :: "'k \<Rightarrow> 'v \<Rightarrow> ('k \<times> 'v) list \<Rightarrow> ('k \<times> 'v) list" where
  "al_emplace k v xs = (if map_of xs k = None then (k, v) # xs else xs)"

definition al_erase :: "'k \<Rightarrow> ('k \<times> 'v) list \<Rightarrow> ('k \<times> 'v) list" where
  "al_erase k xs = filter (\<lambda>e. fst e \<noteq> k) xs"

definition al_assign :: "'k \<Rightarrow> 'v \<Rightarrow> ('k \<times> 'v) list \<Rightarrow> ('k \<times> 'v) list" where
  "al_assign k v xs = (k, v) # al_erase k xs"

abbreviation al_keys :: "('k \<times> 'v) list \<Rightarrow> 'k list" where
  "al_keys xs \<equiv> map fst xs"

lemma map_of_al_erase [simp]: "map_of (al_erase k xs) = (map_of xs)(k := None)"
  by (induction xs) (auto simp: al_erase_def)

lemma map_of_al_assign [simp]: "map_of (al_assign k v xs) = (map_of xs)(k \<mapsto> v)"
  by (simp add: al_assign_def)

lemma map_of_al_emplace:
  "map_of (al_emplace k v xs) = (if map_of xs k = None then (map_of xs)(k \<mapsto> v) else map_of xs)"
  by (simp add: al_emplace_def)

lemma set_al_erase [simp]: "set (al_erase k xs) = {e \<in> set xs. fst e \<noteq> k}"
  by (auto simp: al_erase_def)

lemma distinct_al_erase [simp]: "distinct (al_keys xs) \<Longrightarrow> distinct (al_keys (al_erase k xs))"
  by (simp add: al_erase_def distinct_map_filter)

lemma distinct_al_assign [simp]: "distinct (al_keys xs) \<Longrightarrow> distinct (al_keys (al_assign k v xs))"
  by (auto simp: al_assign_def)

lemma distinct_al_emplace [simp]: "distinct (al_keys xs) \<Longrightarrow> distinct (al_keys (al_emplace k v xs))"
  by (auto simp: al_emplace_def map_of_eq_None_iff)

lemma al_erase_absent: "map_of xs k = None \<Longrightarrow> al_erase k xs = xs"
  by (auto simp: al_erase_def map_of_eq_None_iff intro!: filter_True)

section \<open>Runs over a list of inputs\<close>

text \<open>Outputs in order and the final state of a transducer that is fed a list of inputs.\<close>

fun run_list :: "('d \<Rightarrow> 'c \<Rightarrow> 'p list \<times> 'd) \<Rightarrow> 'd \<Rightarrow> 'c list \<Rightarrow> 'p list \<times> 'd" where
  "run_list step d [] = ([], d)"
| "run_list step d (c # cs) =
     (let (ps, d') = step d c; (qs, d'') = run_list step d' cs in (ps @ qs, d''))"

lemma run_list_append:
  "run_list step d (xs @ ys) =
     (let (ps, d') = run_list step d xs; (qs, d'') = run_list step d' ys in (ps @ qs, d''))"
  by (induction xs arbitrary: d) (simp_all split: prod.splits)

section \<open>Lists and words\<close>

lemma take_append_exact [simp]: "length xs = n \<Longrightarrow> take n (xs @ ys) = xs"
  by simp

lemma drop_append_exact [simp]: "length xs = n \<Longrightarrow> drop n (xs @ ys) = ys"
  by simp

lemma unat_of_nat_small:
  "n < 2 ^ LENGTH('a) \<Longrightarrow> unat (of_nat n :: 'a::len word) = n"
  by (simp add: unat_of_nat)

lemma zero_less_word_iff: "(0 :: 'a::len word) < w \<longleftrightarrow> w \<noteq> 0"
  by (simp add: word_neq_0_conv)

lemma unat_widen: "unat (ucast (m :: u32) :: u64) = unat m"
proof -
  have "unat m < 2 ^ 64" using unsigned_less [of m, where ?'a = nat] by simp
  then show ?thesis by (simp add: unsigned_ucast_eq take_bit_nat_eq_self)
qed

end
