(* ===== verification/Byte_Order.thy ===== *)
theory Byte_Order
  imports LiteIM_Prelude
begin

text \<open>
  Network byte order (\<open>include/liteim/protocol/ByteOrder.hpp\<close>): the three writers append the
  big-endian bytes of a 16, 32 or 64 bit value to an output vector, the three readers take them from
  a pointer. A reader reads exactly 2, 4 or 8 bytes; the value \<open>None\<close> is a read past the readable
  memory. The lemmas show that each reader inverts its writer and that each writer inverts its
  reader, so the two formats are bijective, and how many bytes either side touches.
\<close>

section \<open>Writers\<close>

definition low_byte :: "'a::len word \<Rightarrow> byte" where
  "low_byte w = ucast (w AND 0xFF)"

definition appendUint16BE :: "bytes \<Rightarrow> u16 \<Rightarrow> bytes" where
  "appendUint16BE out v = (out @ [low_byte (drop_bit 8 v)]) @ [low_byte v]"

definition appendUint32BE :: "bytes \<Rightarrow> u32 \<Rightarrow> bytes" where
  "appendUint32BE out v =
     (((out @ [low_byte (drop_bit 24 v)]) @ [low_byte (drop_bit 16 v)])
        @ [low_byte (drop_bit 8 v)]) @ [low_byte v]"

fun appendUint64BE_loop :: "nat list \<Rightarrow> bytes \<Rightarrow> u64 \<Rightarrow> bytes" where
  "appendUint64BE_loop [] out v = out"
| "appendUint64BE_loop (shift # shifts) out v =
     appendUint64BE_loop shifts (out @ [low_byte (drop_bit shift v)]) v"

definition appendUint64BE :: "bytes \<Rightarrow> u64 \<Rightarrow> bytes" where
  "appendUint64BE out v = appendUint64BE_loop [56, 48, 40, 32, 24, 16, 8, 0] out v"

section \<open>Readers\<close>

definition readUint16BE :: "bytes \<Rightarrow> u16 option" where
  "readUint16BE d = (case d of
      b0 # b1 # _ \<Rightarrow> Some (push_bit 8 (ucast b0) OR ucast b1)
    | _ \<Rightarrow> None)"

definition readUint32BE :: "bytes \<Rightarrow> u32 option" where
  "readUint32BE d = (case d of
      b0 # b1 # b2 # b3 # _ \<Rightarrow>
        Some (push_bit 24 (ucast b0) OR push_bit 16 (ucast b1) OR push_bit 8 (ucast b2) OR ucast b3)
    | _ \<Rightarrow> None)"

fun readUint64BE_loop :: "nat \<Rightarrow> bytes \<Rightarrow> u64 \<Rightarrow> u64 option" where
  "readUint64BE_loop 0 d v = Some v"
| "readUint64BE_loop (Suc n) [] v = None"
| "readUint64BE_loop (Suc n) (b # d) v = readUint64BE_loop n d (push_bit 8 v OR ucast b)"

definition readUint64BE :: "bytes \<Rightarrow> u64 option" where
  "readUint64BE d = readUint64BE_loop 8 d 0"

section \<open>Bits of the encoded bytes\<close>

lemma bit_low_byte: "bit (low_byte w) j \<longleftrightarrow> j < 8 \<and> bit (w :: 'a::len word) j"
proof -
  have mask: "(0xFF :: 'a word) = mask 8" by (simp add: mask_eq_exp_minus_1)
  show ?thesis
    unfolding low_byte_def mask by (auto simp: bit_simps dest: bit_imp_le_length)
qed

lemmas word_bits = bit_low_byte bit_or_iff bit_push_bit_iff bit_drop_bit_eq bit_ucast_iff

lemma low_byte_ucast: "8 \<le> LENGTH('a) \<Longrightarrow> low_byte (ucast (b :: byte) :: 'a::len word) = b"
  by (rule bit_word_eqI) (auto simp: word_bits)

lemma u16_of_low_bytes: "push_bit 8 (ucast (low_byte (drop_bit 8 v))) OR ucast (low_byte v) = (v :: u16)"
  by (rule bit_word_eqI) (auto simp: word_bits)

lemma u32_of_low_bytes:
  "push_bit 24 (ucast (low_byte (drop_bit 24 v))) OR push_bit 16 (ucast (low_byte (drop_bit 16 v))) OR
   push_bit 8 (ucast (low_byte (drop_bit 8 v))) OR ucast (low_byte v) = (v :: u32)"
  (is "?w = v")
proof (rule bit_word_eqI)
  fix n :: nat
  assume "n < LENGTH(32)"
  then consider "n < 8" | "8 \<le> n" "n < 16" | "16 \<le> n" "n < 24" | "24 \<le> n" "n < 32"
    by fastforce
  then show "bit ?w n = bit v n"
    by cases (auto simp: word_bits)
qed

lemma shift_in_low_byte:
  "push_bit 8 (drop_bit (8 + k) v) OR ucast (low_byte (drop_bit k v)) = drop_bit k (v :: u64)"
proof (rule bit_word_eqI)
  fix n :: nat
  assume n: "n < LENGTH(64)"
  show "bit (push_bit 8 (drop_bit (8 + k) v) OR ucast (low_byte (drop_bit k v))) n =
      bit (drop_bit k v) n"
  proof (cases "n < 8")
    case True
    then show ?thesis by (simp add: word_bits)
  next
    case False
    then have "8 + k + (n - 8) = k + n" by simp
    with False n show ?thesis by (simp add: word_bits)
  qed
qed

lemma low_bytes_of_u16:
  "low_byte (drop_bit 8 (push_bit 8 (ucast b0) OR ucast b1 :: u16)) = b0"
  "low_byte (push_bit 8 (ucast b0) OR ucast b1 :: u16) = b1"
  by (rule bit_word_eqI; auto simp: word_bits dest: bit_imp_le_length)+

lemma low_bytes_of_u32:
  fixes b0 b1 b2 b3 :: byte
  defines "w \<equiv> (push_bit 24 (ucast b0) OR push_bit 16 (ucast b1) OR push_bit 8 (ucast b2) OR ucast b3 :: u32)"
  shows "low_byte (drop_bit 24 w) = b0" "low_byte (drop_bit 16 w) = b1"
    "low_byte (drop_bit 8 w) = b2" "low_byte w = b3"
  unfolding w_def by (rule bit_word_eqI; auto simp: word_bits dest: bit_imp_le_length)+

lemma low_byte_shifted_in:
  "low_byte (push_bit 8 (v :: u64) OR ucast (b :: byte)) = b"
  "k + 16 \<le> 64 \<Longrightarrow> low_byte (drop_bit (8 + k) (push_bit 8 v OR ucast b)) = low_byte (drop_bit k v)"
  by (rule bit_word_eqI; auto simp: word_bits dest: bit_imp_le_length)+

section \<open>Lengths and appends\<close>

lemma append_uint_append:
  "appendUint16BE out v = out @ appendUint16BE [] v"
  "appendUint32BE out w = out @ appendUint32BE [] w"
  "appendUint64BE out x = out @ appendUint64BE [] x"
  by (simp_all add: appendUint16BE_def appendUint32BE_def appendUint64BE_def)

lemma append_uint_snoc [codec_simps]:
  "appendUint16BE (a @ b) v = a @ appendUint16BE b v"
  "appendUint32BE (a @ b) w = a @ appendUint32BE b w"
  "appendUint64BE (a @ b) x = a @ appendUint64BE b x"
  "b \<noteq> [] \<Longrightarrow> appendUint16BE b v = b @ appendUint16BE [] v"
  "b \<noteq> [] \<Longrightarrow> appendUint32BE b w = b @ appendUint32BE [] w"
  "b \<noteq> [] \<Longrightarrow> appendUint64BE b x = b @ appendUint64BE [] x"
  by (simp_all add: appendUint16BE_def appendUint32BE_def appendUint64BE_def)

lemma length_append_uint [simp]:
  "length (appendUint16BE out v) = length out + 2"
  "length (appendUint32BE out w) = length out + 4"
  "length (appendUint64BE out x) = length out + 8"
  by (simp_all add: appendUint16BE_def appendUint32BE_def appendUint64BE_def)

lemma read_uint_None_iff:
  "readUint16BE d = None \<longleftrightarrow> length d < 2"
  "readUint32BE d = None \<longleftrightarrow> length d < 4"
  by (auto simp: readUint16BE_def readUint32BE_def split: list.splits)

lemma readUint64BE_loop_None_iff: "readUint64BE_loop n d v = None \<longleftrightarrow> length d < n"
  by (induction n d v rule: readUint64BE_loop.induct) auto

lemma readUint64BE_None_iff: "readUint64BE d = None \<longleftrightarrow> length d < 8"
  by (simp add: readUint64BE_def readUint64BE_loop_None_iff)

section \<open>Round trips\<close>

lemma readUint16BE_append [simp, codec_simps]: "readUint16BE (appendUint16BE [] v @ rest) = Some v"
  by (simp add: readUint16BE_def appendUint16BE_def u16_of_low_bytes)

lemma readUint32BE_append [simp, codec_simps]: "readUint32BE (appendUint32BE [] v @ rest) = Some v"
  by (simp add: readUint32BE_def appendUint32BE_def u32_of_low_bytes)

lemma readUint64BE_unroll:
  "readUint64BE_loop 8 (b0 # b1 # b2 # b3 # b4 # b5 # b6 # b7 # d) 0 =
     Some (push_bit 8 (push_bit 8 (push_bit 8 (push_bit 8 (push_bit 8 (push_bit 8 (push_bit 8
       (ucast b0) OR ucast b1) OR ucast b2) OR ucast b3) OR ucast b4) OR ucast b5) OR ucast b6)
       OR ucast b7)"
  by (simp add: eval_nat_numeral)

lemma readUint64BE_append [simp, codec_simps]: "readUint64BE (appendUint64BE [] v @ rest) = Some v"
proof -
  have zero: "drop_bit 64 v = 0"
    by (rule bit_word_eqI) (auto simp: bit_drop_bit_eq dest: bit_imp_le_length)
  note steps = shift_in_low_byte [of 56 v, simplified zero] shift_in_low_byte [of 48 v]
    shift_in_low_byte [of 40 v] shift_in_low_byte [of 32 v] shift_in_low_byte [of 24 v]
    shift_in_low_byte [of 16 v] shift_in_low_byte [of 8 v] shift_in_low_byte [of 0 v]
  show ?thesis
    using steps zero by (simp add: readUint64BE_def appendUint64BE_def readUint64BE_unroll)
qed

lemma append_readUint16BE: "readUint16BE d = Some v \<Longrightarrow> appendUint16BE [] v = take 2 d"
  by (auto simp: readUint16BE_def appendUint16BE_def low_bytes_of_u16 simp del: drop_bit_or split: list.splits)

lemma append_readUint32BE: "readUint32BE d = Some v \<Longrightarrow> appendUint32BE [] v = take 4 d"
  by (auto simp: readUint32BE_def appendUint32BE_def low_bytes_of_u32 simp del: drop_bit_or split: list.splits)

lemma list_of_length_8:
  assumes "8 \<le> length d"
  obtains b0 b1 b2 b3 b4 b5 b6 b7 r where "d = b0 # b1 # b2 # b3 # b4 # b5 # b6 # b7 # r"
  using assms by (auto simp: Suc_le_length_iff eval_nat_numeral)

lemma append_readUint64BE:
  assumes "readUint64BE d = Some v"
  shows "appendUint64BE [] v = take 8 d"
proof -
  from assms have "8 \<le> length d"
    using readUint64BE_None_iff [of d] by (simp add: not_less)
  then obtain b0 b1 b2 b3 b4 b5 b6 b7 r where d: "d = b0 # b1 # b2 # b3 # b4 # b5 # b6 # b7 # r"
    by (rule list_of_length_8)
  define sh :: "u64 \<Rightarrow> byte \<Rightarrow> u64" where "sh x b = push_bit 8 x OR ucast b" for x b
  have last: "low_byte (sh x b) = b" for x b
    unfolding sh_def by (rule low_byte_shifted_in(1))
  have shift: "low_byte (drop_bit (8 + k) (sh x b)) = low_byte (drop_bit k x)" if "k + 16 \<le> 64" for k x b
    unfolding sh_def using that by (rule low_byte_shifted_in(2))
  note shifts = shift [of 0] shift [of 8] shift [of 16] shift [of 24] shift [of 32] shift [of 40]
    shift [of 48]
  have "v = sh (sh (sh (sh (sh (sh (sh (sh 0 b0) b1) b2) b3) b4) b5) b6) b7"
    using assms unfolding sh_def
    by (simp add: d readUint64BE_def readUint64BE_unroll)
  then show ?thesis
    by (simp add: d appendUint64BE_def last shifts [simplified])
qed

end
