(* ===== verification/Message_Types.thy ===== *)
theory Message_Types
  imports LiteIM_Prelude
begin

text \<open>
  The two scoped enumerations of the protocol, \<open>MessageType\<close> (\<open>include/liteim/protocol/MessageType.hpp\<close>,
  \<open>src/protocol/MessageType.cpp\<close>) and \<open>TlvType\<close> (\<open>include/liteim/protocol/Tlv.hpp\<close>,
  \<open>src/protocol/Tlv.cpp\<close>). Both have a fixed 16 bit underlying type, so a value read from the wire
  need not be one of the enumerators. The enumerators are a datatype, \<open>mt\<close> and \<open>tlv\<close> give their
  values, and a variable of the enumeration type is a 16 bit word; a switch over it first finds the
  enumerator, if there is one. The lemmas show that the enumerators have distinct values and that the
  three classifications of message types exclude each other and leave out only \<open>Unknown\<close>.
\<close>

section \<open>Message types\<close>

type_synonym message_type = u16

datatype message_name =
    UnknownMessage | HeartbeatRequest | HeartbeatResponse | RegisterRequest | RegisterResponse
    | LoginRequest | LoginResponse | LogoutRequest | LogoutResponse | AddFriendRequest
    | AddFriendResponse | ListFriendsRequest | ListFriendsResponse | AcceptFriendRequest
    | AcceptFriendResponse | RejectFriendRequest | RejectFriendResponse | PrivateMessageRequest
    | PrivateMessageResponse | PrivateMessagePush | CreateGroupRequest | CreateGroupResponse
    | JoinGroupRequest | JoinGroupResponse | ListGroupsRequest | ListGroupsResponse
    | GroupMessageRequest | GroupMessageResponse | GroupMessagePush | OfflineMessagesRequest
    | OfflineMessagesResponse | HistoryRequest | HistoryResponse | OfflineMessagesAckRequest
    | OfflineMessagesAckResponse | DeliveryAckRequest | DeliveryAckResponse | ErrorResponse

primrec mt :: "message_name \<Rightarrow> message_type" where
  "mt UnknownMessage = 0"
| "mt HeartbeatRequest = 1"
| "mt HeartbeatResponse = 2"
| "mt RegisterRequest = 100"
| "mt RegisterResponse = 101"
| "mt LoginRequest = 102"
| "mt LoginResponse = 103"
| "mt LogoutRequest = 104"
| "mt LogoutResponse = 105"
| "mt AddFriendRequest = 200"
| "mt AddFriendResponse = 201"
| "mt ListFriendsRequest = 202"
| "mt ListFriendsResponse = 203"
| "mt AcceptFriendRequest = 204"
| "mt AcceptFriendResponse = 205"
| "mt RejectFriendRequest = 206"
| "mt RejectFriendResponse = 207"
| "mt PrivateMessageRequest = 300"
| "mt PrivateMessageResponse = 301"
| "mt PrivateMessagePush = 302"
| "mt CreateGroupRequest = 400"
| "mt CreateGroupResponse = 401"
| "mt JoinGroupRequest = 402"
| "mt JoinGroupResponse = 403"
| "mt ListGroupsRequest = 404"
| "mt ListGroupsResponse = 405"
| "mt GroupMessageRequest = 406"
| "mt GroupMessageResponse = 407"
| "mt GroupMessagePush = 408"
| "mt OfflineMessagesRequest = 500"
| "mt OfflineMessagesResponse = 501"
| "mt HistoryRequest = 502"
| "mt HistoryResponse = 503"
| "mt OfflineMessagesAckRequest = 504"
| "mt OfflineMessagesAckResponse = 505"
| "mt DeliveryAckRequest = 506"
| "mt DeliveryAckResponse = 507"
| "mt ErrorResponse = 900"

definition message_names :: "message_name list" where
  "message_names = [
     UnknownMessage, HeartbeatRequest, HeartbeatResponse, RegisterRequest, RegisterResponse
     , LoginRequest, LoginResponse, LogoutRequest, LogoutResponse, AddFriendRequest
     , AddFriendResponse, ListFriendsRequest, ListFriendsResponse, AcceptFriendRequest
     , AcceptFriendResponse, RejectFriendRequest, RejectFriendResponse, PrivateMessageRequest
     , PrivateMessageResponse, PrivateMessagePush, CreateGroupRequest, CreateGroupResponse
     , JoinGroupRequest, JoinGroupResponse, ListGroupsRequest, ListGroupsResponse
     , GroupMessageRequest, GroupMessageResponse, GroupMessagePush, OfflineMessagesRequest
     , OfflineMessagesResponse, HistoryRequest, HistoryResponse, OfflineMessagesAckRequest
     , OfflineMessagesAckResponse, DeliveryAckRequest, DeliveryAckResponse, ErrorResponse]"

definition message_name_of :: "message_type \<Rightarrow> message_name option" where
  "message_name_of t = find (\<lambda>n. mt n = t) message_names"

primrec message_label :: "message_name \<Rightarrow> string" where
  "message_label UnknownMessage = ''UNKNOWN''"
| "message_label HeartbeatRequest = ''HEARTBEAT_REQUEST''"
| "message_label HeartbeatResponse = ''HEARTBEAT_RESPONSE''"
| "message_label RegisterRequest = ''REGISTER_REQUEST''"
| "message_label RegisterResponse = ''REGISTER_RESPONSE''"
| "message_label LoginRequest = ''LOGIN_REQUEST''"
| "message_label LoginResponse = ''LOGIN_RESPONSE''"
| "message_label LogoutRequest = ''LOGOUT_REQUEST''"
| "message_label LogoutResponse = ''LOGOUT_RESPONSE''"
| "message_label AddFriendRequest = ''ADD_FRIEND_REQUEST''"
| "message_label AddFriendResponse = ''ADD_FRIEND_RESPONSE''"
| "message_label ListFriendsRequest = ''LIST_FRIENDS_REQUEST''"
| "message_label ListFriendsResponse = ''LIST_FRIENDS_RESPONSE''"
| "message_label AcceptFriendRequest = ''ACCEPT_FRIEND_REQUEST''"
| "message_label AcceptFriendResponse = ''ACCEPT_FRIEND_RESPONSE''"
| "message_label RejectFriendRequest = ''REJECT_FRIEND_REQUEST''"
| "message_label RejectFriendResponse = ''REJECT_FRIEND_RESPONSE''"
| "message_label PrivateMessageRequest = ''PRIVATE_MESSAGE_REQUEST''"
| "message_label PrivateMessageResponse = ''PRIVATE_MESSAGE_RESPONSE''"
| "message_label PrivateMessagePush = ''PRIVATE_MESSAGE_PUSH''"
| "message_label CreateGroupRequest = ''CREATE_GROUP_REQUEST''"
| "message_label CreateGroupResponse = ''CREATE_GROUP_RESPONSE''"
| "message_label JoinGroupRequest = ''JOIN_GROUP_REQUEST''"
| "message_label JoinGroupResponse = ''JOIN_GROUP_RESPONSE''"
| "message_label ListGroupsRequest = ''LIST_GROUPS_REQUEST''"
| "message_label ListGroupsResponse = ''LIST_GROUPS_RESPONSE''"
| "message_label GroupMessageRequest = ''GROUP_MESSAGE_REQUEST''"
| "message_label GroupMessageResponse = ''GROUP_MESSAGE_RESPONSE''"
| "message_label GroupMessagePush = ''GROUP_MESSAGE_PUSH''"
| "message_label OfflineMessagesRequest = ''OFFLINE_MESSAGES_REQUEST''"
| "message_label OfflineMessagesResponse = ''OFFLINE_MESSAGES_RESPONSE''"
| "message_label HistoryRequest = ''HISTORY_REQUEST''"
| "message_label HistoryResponse = ''HISTORY_RESPONSE''"
| "message_label OfflineMessagesAckRequest = ''OFFLINE_MESSAGES_ACK_REQUEST''"
| "message_label OfflineMessagesAckResponse = ''OFFLINE_MESSAGES_ACK_RESPONSE''"
| "message_label DeliveryAckRequest = ''DELIVERY_ACK_REQUEST''"
| "message_label DeliveryAckResponse = ''DELIVERY_ACK_RESPONSE''"
| "message_label ErrorResponse = ''ERROR_RESPONSE''"

definition message_toString :: "message_type \<Rightarrow> string" where
  "message_toString t = (case message_name_of t of Some n \<Rightarrow> message_label n | None \<Rightarrow> ''UNKNOWN'')"

primrec request_name :: "message_name \<Rightarrow> bool" where
  "request_name UnknownMessage = False"
| "request_name HeartbeatRequest = True"
| "request_name HeartbeatResponse = False"
| "request_name RegisterRequest = True"
| "request_name RegisterResponse = False"
| "request_name LoginRequest = True"
| "request_name LoginResponse = False"
| "request_name LogoutRequest = True"
| "request_name LogoutResponse = False"
| "request_name AddFriendRequest = True"
| "request_name AddFriendResponse = False"
| "request_name ListFriendsRequest = True"
| "request_name ListFriendsResponse = False"
| "request_name AcceptFriendRequest = True"
| "request_name AcceptFriendResponse = False"
| "request_name RejectFriendRequest = True"
| "request_name RejectFriendResponse = False"
| "request_name PrivateMessageRequest = True"
| "request_name PrivateMessageResponse = False"
| "request_name PrivateMessagePush = False"
| "request_name CreateGroupRequest = True"
| "request_name CreateGroupResponse = False"
| "request_name JoinGroupRequest = True"
| "request_name JoinGroupResponse = False"
| "request_name ListGroupsRequest = True"
| "request_name ListGroupsResponse = False"
| "request_name GroupMessageRequest = True"
| "request_name GroupMessageResponse = False"
| "request_name GroupMessagePush = False"
| "request_name OfflineMessagesRequest = True"
| "request_name OfflineMessagesResponse = False"
| "request_name HistoryRequest = True"
| "request_name HistoryResponse = False"
| "request_name OfflineMessagesAckRequest = True"
| "request_name OfflineMessagesAckResponse = False"
| "request_name DeliveryAckRequest = True"
| "request_name DeliveryAckResponse = False"
| "request_name ErrorResponse = False"

definition isRequestType :: "message_type \<Rightarrow> bool" where
  "isRequestType t = (case message_name_of t of Some n \<Rightarrow> request_name n | None \<Rightarrow> False)"

primrec response_name :: "message_name \<Rightarrow> bool" where
  "response_name UnknownMessage = False"
| "response_name HeartbeatRequest = False"
| "response_name HeartbeatResponse = True"
| "response_name RegisterRequest = False"
| "response_name RegisterResponse = True"
| "response_name LoginRequest = False"
| "response_name LoginResponse = True"
| "response_name LogoutRequest = False"
| "response_name LogoutResponse = True"
| "response_name AddFriendRequest = False"
| "response_name AddFriendResponse = True"
| "response_name ListFriendsRequest = False"
| "response_name ListFriendsResponse = True"
| "response_name AcceptFriendRequest = False"
| "response_name AcceptFriendResponse = True"
| "response_name RejectFriendRequest = False"
| "response_name RejectFriendResponse = True"
| "response_name PrivateMessageRequest = False"
| "response_name PrivateMessageResponse = True"
| "response_name PrivateMessagePush = False"
| "response_name CreateGroupRequest = False"
| "response_name CreateGroupResponse = True"
| "response_name JoinGroupRequest = False"
| "response_name JoinGroupResponse = True"
| "response_name ListGroupsRequest = False"
| "response_name ListGroupsResponse = True"
| "response_name GroupMessageRequest = False"
| "response_name GroupMessageResponse = True"
| "response_name GroupMessagePush = False"
| "response_name OfflineMessagesRequest = False"
| "response_name OfflineMessagesResponse = True"
| "response_name HistoryRequest = False"
| "response_name HistoryResponse = True"
| "response_name OfflineMessagesAckRequest = False"
| "response_name OfflineMessagesAckResponse = True"
| "response_name DeliveryAckRequest = False"
| "response_name DeliveryAckResponse = True"
| "response_name ErrorResponse = True"

definition isResponseType :: "message_type \<Rightarrow> bool" where
  "isResponseType t = (case message_name_of t of Some n \<Rightarrow> response_name n | None \<Rightarrow> False)"

primrec push_name :: "message_name \<Rightarrow> bool" where
  "push_name UnknownMessage = False"
| "push_name HeartbeatRequest = False"
| "push_name HeartbeatResponse = False"
| "push_name RegisterRequest = False"
| "push_name RegisterResponse = False"
| "push_name LoginRequest = False"
| "push_name LoginResponse = False"
| "push_name LogoutRequest = False"
| "push_name LogoutResponse = False"
| "push_name AddFriendRequest = False"
| "push_name AddFriendResponse = False"
| "push_name ListFriendsRequest = False"
| "push_name ListFriendsResponse = False"
| "push_name AcceptFriendRequest = False"
| "push_name AcceptFriendResponse = False"
| "push_name RejectFriendRequest = False"
| "push_name RejectFriendResponse = False"
| "push_name PrivateMessageRequest = False"
| "push_name PrivateMessageResponse = False"
| "push_name PrivateMessagePush = True"
| "push_name CreateGroupRequest = False"
| "push_name CreateGroupResponse = False"
| "push_name JoinGroupRequest = False"
| "push_name JoinGroupResponse = False"
| "push_name ListGroupsRequest = False"
| "push_name ListGroupsResponse = False"
| "push_name GroupMessageRequest = False"
| "push_name GroupMessageResponse = False"
| "push_name GroupMessagePush = True"
| "push_name OfflineMessagesRequest = False"
| "push_name OfflineMessagesResponse = False"
| "push_name HistoryRequest = False"
| "push_name HistoryResponse = False"
| "push_name OfflineMessagesAckRequest = False"
| "push_name OfflineMessagesAckResponse = False"
| "push_name DeliveryAckRequest = False"
| "push_name DeliveryAckResponse = False"
| "push_name ErrorResponse = False"

definition isPushType :: "message_type \<Rightarrow> bool" where
  "isPushType t = (case message_name_of t of Some n \<Rightarrow> push_name n | None \<Rightarrow> False)"

section \<open>TLV field types\<close>

type_synonym tlv_type = u16

datatype tlv_name =
    TlvUnknown | TlvUsername | TlvPassword | TlvUserId | TlvNickname | TlvToken | TlvSessionId
    | TlvFriendId | TlvTargetUserId | TlvOnlineStatus | TlvFriendRequestStatus | TlvGroupId
    | TlvGroupName | TlvConversationType | TlvConversationId | TlvMessageId | TlvMessageText
    | TlvSenderId | TlvReceiverId | TlvTimestampMs | TlvOffset | TlvLimit | TlvUnreadCount
    | TlvDeliveryStatus | TlvClientMessageId | TlvErrorCode | TlvErrorMessage

primrec tlv :: "tlv_name \<Rightarrow> tlv_type" where
  "tlv TlvUnknown = 0"
| "tlv TlvUsername = 1"
| "tlv TlvPassword = 2"
| "tlv TlvUserId = 3"
| "tlv TlvNickname = 4"
| "tlv TlvToken = 5"
| "tlv TlvSessionId = 6"
| "tlv TlvFriendId = 20"
| "tlv TlvTargetUserId = 21"
| "tlv TlvOnlineStatus = 22"
| "tlv TlvFriendRequestStatus = 23"
| "tlv TlvGroupId = 30"
| "tlv TlvGroupName = 31"
| "tlv TlvConversationType = 40"
| "tlv TlvConversationId = 41"
| "tlv TlvMessageId = 42"
| "tlv TlvMessageText = 43"
| "tlv TlvSenderId = 44"
| "tlv TlvReceiverId = 45"
| "tlv TlvTimestampMs = 46"
| "tlv TlvOffset = 47"
| "tlv TlvLimit = 48"
| "tlv TlvUnreadCount = 49"
| "tlv TlvDeliveryStatus = 50"
| "tlv TlvClientMessageId = 51"
| "tlv TlvErrorCode = 90"
| "tlv TlvErrorMessage = 91"

definition tlv_names :: "tlv_name list" where
  "tlv_names = [
     TlvUnknown, TlvUsername, TlvPassword, TlvUserId, TlvNickname, TlvToken, TlvSessionId
     , TlvFriendId, TlvTargetUserId, TlvOnlineStatus, TlvFriendRequestStatus, TlvGroupId
     , TlvGroupName, TlvConversationType, TlvConversationId, TlvMessageId, TlvMessageText
     , TlvSenderId, TlvReceiverId, TlvTimestampMs, TlvOffset, TlvLimit, TlvUnreadCount
     , TlvDeliveryStatus, TlvClientMessageId, TlvErrorCode, TlvErrorMessage]"

definition tlv_name_of :: "tlv_type \<Rightarrow> tlv_name option" where
  "tlv_name_of t = find (\<lambda>n. tlv n = t) tlv_names"

primrec tlv_label :: "tlv_name \<Rightarrow> string" where
  "tlv_label TlvUnknown = ''UNKNOWN''"
| "tlv_label TlvUsername = ''USERNAME''"
| "tlv_label TlvPassword = ''PASSWORD''"
| "tlv_label TlvUserId = ''USER_ID''"
| "tlv_label TlvNickname = ''NICKNAME''"
| "tlv_label TlvToken = ''TOKEN''"
| "tlv_label TlvSessionId = ''SESSION_ID''"
| "tlv_label TlvFriendId = ''FRIEND_ID''"
| "tlv_label TlvTargetUserId = ''TARGET_USER_ID''"
| "tlv_label TlvOnlineStatus = ''ONLINE_STATUS''"
| "tlv_label TlvFriendRequestStatus = ''FRIEND_REQUEST_STATUS''"
| "tlv_label TlvGroupId = ''GROUP_ID''"
| "tlv_label TlvGroupName = ''GROUP_NAME''"
| "tlv_label TlvConversationType = ''CONVERSATION_TYPE''"
| "tlv_label TlvConversationId = ''CONVERSATION_ID''"
| "tlv_label TlvMessageId = ''MESSAGE_ID''"
| "tlv_label TlvMessageText = ''MESSAGE_TEXT''"
| "tlv_label TlvSenderId = ''SENDER_ID''"
| "tlv_label TlvReceiverId = ''RECEIVER_ID''"
| "tlv_label TlvTimestampMs = ''TIMESTAMP_MS''"
| "tlv_label TlvOffset = ''OFFSET''"
| "tlv_label TlvLimit = ''LIMIT''"
| "tlv_label TlvUnreadCount = ''UNREAD_COUNT''"
| "tlv_label TlvDeliveryStatus = ''DELIVERY_STATUS''"
| "tlv_label TlvClientMessageId = ''CLIENT_MESSAGE_ID''"
| "tlv_label TlvErrorCode = ''ERROR_CODE''"
| "tlv_label TlvErrorMessage = ''ERROR_MESSAGE''"

definition tlv_toString :: "tlv_type \<Rightarrow> string" where
  "tlv_toString t = (case tlv_name_of t of Some n \<Rightarrow> tlv_label n | None \<Rightarrow> ''UNKNOWN'')"

section \<open>The enumerators have distinct values\<close>

lemma message_name_of_mt [simp]: "message_name_of (mt n) = Some n"
  by (cases n) (simp_all add: message_name_of_def message_names_def)

lemma mt_inject [simp]: "mt m = mt n \<longleftrightarrow> m = n"
  by (metis message_name_of_mt option.inject)

lemma message_name_of_Some: "message_name_of t = Some n \<Longrightarrow> t = mt n"
  by (auto simp: message_name_of_def find_Some_iff)

lemma tlv_name_of_tlv [simp]: "tlv_name_of (tlv n) = Some n"
  by (cases n) (simp_all add: tlv_name_of_def tlv_names_def)

lemma tlv_inject [simp]: "tlv m = tlv n \<longleftrightarrow> m = n"
  by (metis tlv_name_of_tlv option.inject)

lemma classify_mt [simp]:
  "isRequestType (mt n) = request_name n"
  "isResponseType (mt n) = response_name n"
  "isPushType (mt n) = push_name n"
  by (simp_all add: isRequestType_def isResponseType_def isPushType_def)

lemma name_classes:
  "\<not> (request_name n \<and> response_name n)" "\<not> (request_name n \<and> push_name n)"
  "\<not> (response_name n \<and> push_name n)"
  "request_name n \<or> response_name n \<or> push_name n \<longleftrightarrow> n \<noteq> UnknownMessage"
  by (cases n; simp)+

declare mt.simps [simp del] tlv.simps [simp del]

end
