(* ===== verification/Packet_Codec.thy ===== *)
theory Packet_Codec
  imports Byte_Order Message_Types
begin

text \<open>
  The packet layer (\<open>include/liteim/protocol/Packet.hpp\<close>, \<open>src/protocol/Packet.cpp\<close>): a 20 byte
  big-endian header in front of an opaque body. \<open>validateHeader\<close>, \<open>encodePacket\<close> and \<open>parseHeader\<close> are
  translated check by check; \<open>parseHeader\<close> returns \<open>None\<close> where the C++ would read memory that the
  caller did not provide. The lemmas give the exact layout of an encoded packet, the round trip in
  both directions, which headers are accepted, and that 20 readable bytes are enough for the parser.
\<close>

section \<open>Data\<close>

record packet_header =
  magic :: u32
  version :: byte
  flags :: byte
  msg_type :: message_type
  seq_id :: u64
  body_len :: u32

record packet =
  header :: packet_header
  body :: bytes

definition kPacketMagic :: u32 where "kPacketMagic = 0x4C494D31"
definition kPacketVersion :: byte where "kPacketVersion = 1"
definition kPacketFlagsNone :: byte where "kPacketFlagsNone = 0"
definition kPacketHeaderSize :: nat where "kPacketHeaderSize = 20"
definition kMaxPacketBodyLength :: u32 where "kMaxPacketBodyLength = 1024 * 1024"

lemmas packet_consts = kPacketMagic_def kPacketVersion_def kPacketFlagsNone_def
  kPacketHeaderSize_def kMaxPacketBodyLength_def

definition default_header :: packet_header where
  "default_header = \<lparr>magic = kPacketMagic, version = kPacketVersion, flags = kPacketFlagsNone,
     msg_type = mt UnknownMessage, seq_id = 0, body_len = 0\<rparr>"

definition default_packet :: packet where
  "default_packet = \<lparr>header = default_header, body = []\<rparr>"

section \<open>Operations\<close>

definition validateHeader :: "packet_header \<Rightarrow> status" where
  "validateHeader h =
     (if magic h \<noteq> kPacketMagic then status_error ParseError ''invalid packet magic''
      else if version h \<noteq> kPacketVersion then status_error ParseError ''unsupported packet version''
      else if flags h \<noteq> kPacketFlagsNone then status_error ParseError ''unsupported packet flags''
      else if body_len h > kMaxPacketBodyLength then status_error ParseError ''packet body is too large''
      else status_ok)"

definition encodePacket :: "packet \<Rightarrow> bytes result" where
  "encodePacket p =
     (if length (body p) > unat kMaxPacketBodyLength
      then err InvalidArgument ''packet body is too large''
      else
        let h = (header p)\<lparr>body_len := of_nat (length (body p))\<rparr>;
            st = validateHeader h
        in if \<not> isOk st then Inl st
           else
             let out = appendUint32BE [] (magic h);
                 out = out @ [version h];
                 out = out @ [flags h];
                 out = appendUint16BE out (msg_type h);
                 out = appendUint64BE out (seq_id h);
                 out = appendUint32BE out (body_len h)
             in Inr (out @ body p))"

definition byte_at :: "bytes \<Rightarrow> nat \<Rightarrow> byte option" where
  "byte_at d i = (if i < length d then Some (d ! i) else None)"

definition parseHeader :: "cptr \<Rightarrow> nat \<Rightarrow> packet_header result option" where
  "parseHeader data len =
     (case data of
        None \<Rightarrow> Some (err InvalidArgument ''packet header data is null'')
      | Some d \<Rightarrow>
          if len < kPacketHeaderSize then Some (err ParseError ''packet header is incomplete'')
          else do {
            mg \<leftarrow> readUint32BE d;
            ver \<leftarrow> byte_at d 4;
            fl \<leftarrow> byte_at d 5;
            ty \<leftarrow> readUint16BE (drop 6 d);
            sq \<leftarrow> readUint64BE (drop 8 d);
            bl \<leftarrow> readUint32BE (drop 16 d);
            let h = \<lparr>magic = mg, version = ver, flags = fl, msg_type = ty, seq_id = sq, body_len = bl\<rparr>;
                st = validateHeader h
            in Some (if isOk st then Inr h else Inl st)
          })"

section \<open>Header bytes\<close>

text \<open>The 20 bytes of a header, whatever its field values are.\<close>

definition header_bytes :: "packet_header \<Rightarrow> bytes" where
  "header_bytes h = appendUint32BE [] (magic h) @ [version h, flags h] @ appendUint16BE [] (msg_type h) @
     appendUint64BE [] (seq_id h) @ appendUint32BE [] (body_len h)"

definition read_header :: "bytes \<Rightarrow> packet_header option" where
  "read_header d = do {
     mg \<leftarrow> readUint32BE d;
     ver \<leftarrow> byte_at d 4;
     fl \<leftarrow> byte_at d 5;
     ty \<leftarrow> readUint16BE (drop 6 d);
     sq \<leftarrow> readUint64BE (drop 8 d);
     bl \<leftarrow> readUint32BE (drop 16 d);
     Some \<lparr>magic = mg, version = ver, flags = fl, msg_type = ty, seq_id = sq, body_len = bl\<rparr>
   }"

lemma length_header_bytes [simp]: "length (header_bytes h) = 20"
  by (simp add: header_bytes_def)

lemma read_header_None_iff: "read_header d = None \<longleftrightarrow> length d < 20"
  using read_uint_None_iff(2) [of "drop 16 d"] read_uint_None_iff(2) [of d]
    read_uint_None_iff(1) [of "drop 6 d"] readUint64BE_None_iff [of "drop 8 d"]
  by (auto simp: read_header_def byte_at_def Option.bind_eq_None_conv)

lemma read_header_bytes [simp]: "read_header (header_bytes h @ rest) = Some h"
proof -
  define a where "a = appendUint32BE [] (magic h)"
  define b where "b = appendUint16BE [] (msg_type h)"
  define c where "c = appendUint64BE [] (seq_id h)"
  define d where "d = appendUint32BE [] (body_len h)"
  note parts = a_def [symmetric] b_def [symmetric] c_def [symmetric] d_def [symmetric]
  have len: "length a = 4" "length b = 2" "length c = 8" "length d = 4"
    by (simp_all add: a_def b_def c_def d_def)
  have bytes: "header_bytes h @ rest = a @ [version h, flags h] @ b @ c @ d @ rest"
    by (simp add: header_bytes_def parts)
  have drops: "drop 6 (a @ [version h, flags h] @ b @ c @ d @ rest) = b @ c @ d @ rest"
    "drop 8 (a @ [version h, flags h] @ b @ c @ d @ rest) = c @ d @ rest"
    "drop 16 (a @ [version h, flags h] @ b @ c @ d @ rest) = d @ rest"
    by (simp_all add: len)
  have nths: "byte_at (a @ [version h, flags h] @ b @ c @ d @ rest) 4 = Some (version h)"
    "byte_at (a @ [version h, flags h] @ b @ c @ d @ rest) 5 = Some (flags h)"
    by (simp_all add: byte_at_def len nth_append)
  show ?thesis
    unfolding bytes read_header_def drops nths
    by (simp add: a_def b_def c_def d_def)
qed

lemma header_bytes_read:
  assumes "read_header d = Some h"
  shows "header_bytes h = take 20 d"
proof -
  have len: "20 \<le> length d"
    using assms read_header_None_iff [of d] by (simp add: not_less)
  have split: "take 20 d = take 4 d @ [d ! 4, d ! 5] @ take 2 (drop 6 d) @ take 8 (drop 8 d) @ take 4 (drop 16 d)"
  proof -
    have "take 20 d = take (4 + (1 + (1 + (2 + (8 + 4))))) d" by simp
    also have "\<dots> = take 4 d @ take 1 (drop 4 d) @ take 1 (drop 5 d) @ take 2 (drop 6 d) @ take 8 (drop 8 d) @ take 4 (drop 16 d)"
      unfolding take_add by simp
    finally have eq: "take 20 d = take 4 d @ take 1 (drop 4 d) @ take 1 (drop 5 d) @ take 2 (drop 6 d) @
      take 8 (drop 8 d) @ take 4 (drop 16 d)" .
    have "take 1 (drop 4 d) = [d ! 4]" "take 1 (drop 5 d) = [d ! 5]"
      using len by (simp_all add: take_Suc hd_drop_conv_nth)
    with eq show ?thesis by simp
  qed
  from assms show ?thesis
    unfolding split header_bytes_def read_header_def
    by (auto simp: bind_eq_Some_conv byte_at_def append_readUint32BE append_readUint16BE
        append_readUint64BE split: if_splits)
qed

section \<open>Behaviour of the operations\<close>

lemma parseHeader_alt:
  "parseHeader (Some d) len =
     (if len < kPacketHeaderSize then Some (err ParseError ''packet header is incomplete'')
      else map_option (\<lambda>h. if isOk (validateHeader h) then Inr h else Inl (validateHeader h)) (read_header d))"
  by (auto simp: parseHeader_def read_header_def Let_def map_option_case bind_eq_None_conv
      split: option.splits Option.bind_splits)

lemma encodePacket_alt:
  "encodePacket p =
     (let h = (header p)\<lparr>body_len := of_nat (length (body p))\<rparr> in
      if length (body p) > unat kMaxPacketBodyLength
      then err InvalidArgument ''packet body is too large''
      else if isOk (validateHeader h) then Inr (header_bytes h @ body p) else Inl (validateHeader h))"
  unfolding encodePacket_def Let_def header_bytes_def
  by (simp add: codec_simps)

lemma validateHeader_ok_iff:
  "isOk (validateHeader h) \<longleftrightarrow>
     magic h = kPacketMagic \<and> version h = kPacketVersion \<and> flags h = kPacketFlagsNone \<and>
     body_len h \<le> kMaxPacketBodyLength"
  by (auto simp: validateHeader_def not_less not_le)

lemma validateHeader_code: "code (validateHeader h) \<in> {Ok, ParseError}"
  by (simp add: validateHeader_def status_ok_def)

lemma unat_kMaxPacketBodyLength [simp]: "unat kMaxPacketBodyLength = 1048576"
  by (simp add: kMaxPacketBodyLength_def)

lemma body_len_of_length:
  "n \<le> 1048576 \<Longrightarrow> unat (of_nat n :: u32) = n"
  "n \<le> 1048576 \<Longrightarrow> (of_nat n :: u32) \<le> kMaxPacketBodyLength"
  by (simp_all add: unat_of_nat_small word_le_nat_alt)

lemma encodePacket_Inr_iff:
  "encodePacket p = Inr out \<longleftrightarrow>
     length (body p) \<le> 1048576 \<and> magic (header p) = kPacketMagic \<and> version (header p) = kPacketVersion \<and>
     flags (header p) = kPacketFlagsNone \<and>
     out = header_bytes ((header p)\<lparr>body_len := of_nat (length (body p))\<rparr>) @ body p"
  by (auto simp: encodePacket_alt Let_def validateHeader_ok_iff body_len_of_length not_less)

lemma parseHeader_Inr_iff:
  "parseHeader (Some d) len = Some (Inr h) \<longleftrightarrow>
     20 \<le> len \<and> read_header d = Some h \<and> isOk (validateHeader h)"
  by (auto simp: parseHeader_alt kPacketHeaderSize_def split: if_splits)

lemma parseHeader_Inl_iff:
  "parseHeader (Some d) len = Some (Inl st) \<longleftrightarrow>
     len < 20 \<and> st = status_error ParseError ''packet header is incomplete'' \<or>
     20 \<le> len \<and> (\<exists>h. read_header d = Some h \<and> \<not> isOk (validateHeader h) \<and> st = validateHeader h)"
  by (auto simp: parseHeader_alt kPacketHeaderSize_def not_less)

lemma parseHeader_header_bytes:
  "isOk (validateHeader h) \<Longrightarrow> 20 \<le> len \<Longrightarrow> parseHeader (Some (header_bytes h @ rest)) len = Some (Inr h)"
  by (simp add: parseHeader_Inr_iff)

text \<open>The bytes after the header do not influence the header that is parsed.\<close>

lemma read_header_append:
  assumes "20 \<le> length d"
  shows "read_header (d @ e) = read_header d"
proof -
  obtain h where h: "read_header d = Some h"
    using assms read_header_None_iff [of d] by (cases "read_header d") auto
  then have "d = header_bytes h @ drop 20 d"
    by (simp add: header_bytes_read)
  then have "read_header (d @ e) = read_header (header_bytes h @ drop 20 d @ e)"
    by (metis append.assoc)
  with h show ?thesis by simp
qed

section \<open>Properties\<close>

text \<open>
  Packet round trip: whatever \<open>encodePacket\<close> produces, possibly followed by more bytes of the
  stream, is accepted by \<open>parseHeader\<close>; the parsed header is the packet's own with \<open>body_len\<close> set to
  the length of the body, and the body is found behind the 20 header bytes.
\<close>

theorem encodePacket_parseHeader:
  assumes "encodePacket p = Inr out"
  shows "parseHeader (Some (out @ rest)) (length (out @ rest)) =
           Some (Inr ((header p)\<lparr>body_len := of_nat (length (body p))\<rparr>)) \<and>
         take (length (body p)) (drop kPacketHeaderSize (out @ rest)) = body p \<and>
         length out = kPacketHeaderSize + length (body p)"
  using assms
  by (simp add: encodePacket_Inr_iff parseHeader_Inr_iff validateHeader_ok_iff body_len_of_length
      kPacketHeaderSize_def)

text \<open>A heartbeat request with an empty body, followed by one byte of the next packet.\<close>

theorem encodePacket_parseHeader_witness:
  "parseHeader (Some (header_bytes default_header @ [7])) 21 = Some (Inr default_header)"
  using encodePacket_parseHeader [of default_packet "header_bytes default_header" "[7]"]
  by (simp add: encodePacket_Inr_iff default_packet_def default_header_def)

text \<open>
  Canonical headers: a header is accepted exactly when the caller offers at least 20 bytes, the
  20 bytes are the encoding of that header, and magic, version, flags and body length are the
  supported ones. So no two byte sequences parse to the same header and re-encoding is the identity.
\<close>

theorem parseHeader_canonical:
  "parseHeader (Some d) len = Some (Inr h) \<longleftrightarrow>
     kPacketHeaderSize \<le> len \<and> take kPacketHeaderSize d = header_bytes h \<and>
     magic h = kPacketMagic \<and> version h = kPacketVersion \<and> flags h = kPacketFlagsNone \<and>
     body_len h \<le> kMaxPacketBodyLength"
proof -
  have "read_header d = Some h \<longleftrightarrow> take 20 d = header_bytes h"
  proof
    assume "take 20 d = header_bytes h"
    then have "d = header_bytes h @ drop 20 d" by (metis append_take_drop_id)
    then show "read_header d = Some h" by (metis read_header_bytes)
  qed (simp add: header_bytes_read)
  then show ?thesis
    by (auto simp: parseHeader_Inr_iff validateHeader_ok_iff kPacketHeaderSize_def)
qed

text \<open>
  Memory safety of the header parser: if the caller's pointer is null or at least \<open>len\<close> bytes are
  readable behind it, \<open>parseHeader\<close> never reads outside that memory and returns a status; a rejected
  header carries \<open>InvalidArgument\<close> or \<open>ParseError\<close>.
\<close>

theorem parseHeader_total:
  assumes "case data of None \<Rightarrow> True | Some d \<Rightarrow> len \<le> length d"
  shows "\<exists>r. parseHeader data len = Some r \<and>
           (case r of Inl st \<Rightarrow> code st \<in> {InvalidArgument, ParseError} | Inr h \<Rightarrow> isOk (validateHeader h))"
proof (cases data)
  case None
  then show ?thesis by (simp add: parseHeader_def)
next
  case (Some d)
  show ?thesis
  proof (cases "len < 20")
    case True
    with Some show ?thesis by (simp add: parseHeader_alt kPacketHeaderSize_def)
  next
    case False
    then obtain h where "read_header d = Some h"
      using assms Some read_header_None_iff [of d] by (cases "read_header d") auto
    with Some False show ?thesis
      using validateHeader_code [of h] by (auto simp: parseHeader_alt kPacketHeaderSize_def isOk_def)
  qed
qed

theorem parseHeader_total_witness:
  "\<exists>r. parseHeader (Some (replicate 20 0)) 20 = Some r \<and>
     (case r of Inl st \<Rightarrow> code st \<in> {InvalidArgument, ParseError} | Inr h \<Rightarrow> isOk (validateHeader h))"
  using parseHeader_total [where data = "Some (replicate 20 0)" and len = 20] by simp

end
