(* ===== verification/Tlv_Codec.thy ===== *)
theory Tlv_Codec
  imports Packet_Codec
begin

text \<open>
  The TLV codec of packet bodies (\<open>include/liteim/protocol/TlvCodec.hpp\<close>,
  \<open>src/protocol/TlvCodec.cpp\<close>). A body is a sequence of fields: a 16 bit type, a 32 bit length and
  the value. \<open>parseTlvMap\<close> is the source's offset loop, with \<open>None\<close> for a read outside the caller's
  memory; its result groups the values of a type in the order of the body. The lemmas relate the
  loop to a specification in terms of lists of fields: the parser accepts exactly the encodings of
  field lists, and the getters return what the appenders wrote.
\<close>

section \<open>Data\<close>

definition kTlvHeaderSize :: nat where "kTlvHeaderSize = 6"
definition kMaxTlvValueLength :: u32 where "kMaxTlvValueLength = 1024 * 1024"

type_synonym tlv_map = "tlv_type \<rightharpoonup> bytes list"

section \<open>Operations\<close>

text \<open>Both callers pass a whole string or vector, so the inserted range is a prefix of the data.\<close>

definition appendValue :: "tlv_type \<Rightarrow> cptr \<Rightarrow> nat \<Rightarrow> bytes \<Rightarrow> bytes result" where
  "appendValue type data len out =
     (if type = tlv TlvUnknown then err InvalidArgument ''cannot encode unknown tlv type''
      else if data = None \<and> len \<noteq> 0 then err InvalidArgument ''tlv value data is null''
      else if len > unat kMaxTlvValueLength then err InvalidArgument ''tlv value is too large''
      else
        let out = appendUint16BE out type;
            out = appendUint32BE out (of_nat len)
        in Inr (if len \<noteq> 0 then out @ take len (the data) else out))"

definition findValues :: "tlv_map \<Rightarrow> tlv_type \<Rightarrow> bytes list option" where
  "findValues m type =
     (case m type of None \<Rightarrow> None | Some vs \<Rightarrow> if vs = [] then None else Some vs)"

definition appendString :: "tlv_type \<Rightarrow> string \<Rightarrow> bytes \<Rightarrow> bytes result" where
  "appendString type value out = appendValue type (Some (bytes_of_string value)) (length value) out"

definition appendUint64 :: "tlv_type \<Rightarrow> u64 \<Rightarrow> bytes \<Rightarrow> bytes result" where
  "appendUint64 type value out =
     (let bs = appendUint64BE [] value in appendValue type (Some bs) (length bs) out)"

definition read_range :: "bytes \<Rightarrow> nat \<Rightarrow> nat \<Rightarrow> bytes option" where
  "read_range d off n = (if off + n \<le> length d then Some (take n (drop off d)) else None)"

definition tlv_emplace :: "tlv_map \<Rightarrow> tlv_type \<Rightarrow> bytes \<Rightarrow> tlv_map" where
  "tlv_emplace m type v = m(type \<mapsto> (case m type of None \<Rightarrow> [] | Some vs \<Rightarrow> vs) @ [v])"

function tlv_loop :: "bytes \<Rightarrow> nat \<Rightarrow> nat \<Rightarrow> tlv_map \<Rightarrow> tlv_map result option" where
  "tlv_loop d len off out =
     (if off < len then
        if len - off < kTlvHeaderSize then Some (err ParseError ''tlv header is incomplete'')
        else do {
          type \<leftarrow> readUint16BE (drop off d);
          value_len \<leftarrow> readUint32BE (drop (off + 2) d);
          let off' = off + kTlvHeaderSize in
          if value_len > kMaxTlvValueLength then Some (err ParseError ''tlv value is too large'')
          else if unat value_len > len - off' then Some (err ParseError ''tlv length exceeds body size'')
          else do {
            v \<leftarrow> read_range d off' (unat value_len);
            tlv_loop d len (off' + unat value_len) (tlv_emplace out type v)
          }
        }
      else Some (Inr out))"
  by pat_completeness auto
termination
  by (relation "measure (\<lambda>(d, len, off, out). len - off)") (auto simp: kTlvHeaderSize_def)

declare tlv_loop.simps [simp del]

definition parseTlvMap :: "cptr \<Rightarrow> nat \<Rightarrow> tlv_map result option" where
  "parseTlvMap data len =
     (case data of
        None \<Rightarrow> if len \<noteq> 0 then Some (err InvalidArgument ''tlv body data is null'') else Some (Inr Map.empty)
      | Some d \<Rightarrow> tlv_loop d len 0 Map.empty)"

definition getString :: "tlv_map \<Rightarrow> tlv_type \<Rightarrow> string result" where
  "getString m type =
     (case findValues m type of
        None \<Rightarrow> err NotFound ''missing required string field''
      | Some vs \<Rightarrow> Inr (string_of_bytes (hd vs)))"

text \<open>A value of 8 bytes is always readable as a 64 bit integer (\<open>readUint64BE_None_iff\<close>).\<close>

definition getUint64 :: "tlv_map \<Rightarrow> tlv_type \<Rightarrow> u64 result" where
  "getUint64 m type =
     (case findValues m type of
        None \<Rightarrow> err NotFound ''missing required uint64 field''
      | Some vs \<Rightarrow>
          if length (hd vs) \<noteq> 8 then err ParseError ''uint64 tlv field must be 8 bytes''
          else Inr (the (readUint64BE (hd vs))))"

definition getRepeatedString :: "tlv_map \<Rightarrow> tlv_type \<Rightarrow> string list result" where
  "getRepeatedString m type =
     (case findValues m type of
        None \<Rightarrow> err NotFound ''missing required repeated string field''
      | Some vs \<Rightarrow> Inr (map string_of_bytes vs))"

fun repeated_uint64_loop :: "bytes list \<Rightarrow> u64 list \<Rightarrow> u64 list result" where
  "repeated_uint64_loop [] out = Inr out"
| "repeated_uint64_loop (v # vs) out =
     (if length v \<noteq> 8 then err ParseError ''uint64 tlv field must be 8 bytes''
      else repeated_uint64_loop vs (out @ [the (readUint64BE v)]))"

definition getRepeatedUint64 :: "tlv_map \<Rightarrow> tlv_type \<Rightarrow> u64 list result" where
  "getRepeatedUint64 m type =
     (case findValues m type of
        None \<Rightarrow> err NotFound ''missing required repeated uint64 field''
      | Some vs \<Rightarrow> repeated_uint64_loop vs [])"

text \<open>The overload on a vector: \<open>body.data(), body.size()\<close> always names readable memory.\<close>

definition parseTlvBody :: "bytes \<Rightarrow> tlv_map result option" where
  "parseTlvBody bs = parseTlvMap (Some bs) (length bs)"

section \<open>Specification: bodies as lists of fields\<close>

type_synonym field = "tlv_type \<times> bytes"

definition field_bytes :: "field \<Rightarrow> bytes" where
  "field_bytes f = appendUint16BE [] (fst f) @ appendUint32BE [] (of_nat (length (snd f))) @ snd f"

definition fields_bytes :: "field list \<Rightarrow> bytes" where
  "fields_bytes fs = concat (map field_bytes fs)"

definition field_ok :: "field \<Rightarrow> bool" where
  "field_ok f \<longleftrightarrow> length (snd f) \<le> 1048576"

definition values_of :: "field list \<Rightarrow> tlv_type \<Rightarrow> bytes list" where
  "values_of fs t = map snd (filter (\<lambda>f. fst f = t) fs)"

definition map_of_fields :: "field list \<Rightarrow> tlv_map" where
  "map_of_fields fs t = (if values_of fs t = [] then None else Some (values_of fs t))"

lemma unat_kMaxTlvValueLength [simp]: "unat kMaxTlvValueLength = 1048576"
  by (simp add: kMaxTlvValueLength_def)

lemma length_field_bytes [simp]: "length (field_bytes f) = 6 + length (snd f)"
  by (simp add: field_bytes_def)

lemma values_of_simps [simp]:
  "values_of [] t = []"
  "values_of (f # fs) t = (if fst f = t then [snd f] else []) @ values_of fs t"
  "values_of (fs @ gs) t = values_of fs t @ values_of gs t"
  by (auto simp: values_of_def)

lemma fields_bytes_simps [simp]:
  "fields_bytes [] = []"
  "fields_bytes (f # fs) = field_bytes f @ fields_bytes fs"
  "fields_bytes (fs @ gs) = fields_bytes fs @ fields_bytes gs"
  by (simp_all add: fields_bytes_def)

lemma map_of_fields_Nil [simp]: "map_of_fields [] = Map.empty"
  by (rule ext) (simp add: map_of_fields_def)

lemma tlv_emplace_map_of_fields: "tlv_emplace (map_of_fields fs) t v = map_of_fields (fs @ [(t, v)])"
  by (rule ext) (auto simp: tlv_emplace_def map_of_fields_def)

lemma findValues_map_of_fields [simp]:
  "findValues (map_of_fields fs) t = (if values_of fs t = [] then None else Some (values_of fs t))"
  by (simp add: findValues_def map_of_fields_def)

section \<open>The loop against the specification\<close>

text \<open>One iteration on memory that holds the encoding of a field at the current offset.\<close>

lemma tlv_loop_field:
  assumes ok: "field_ok f" and len: "length pre + length (field_bytes f) \<le> len"
  shows "tlv_loop (pre @ field_bytes f @ post) len (length pre) out =
         tlv_loop (pre @ field_bytes f @ post) len (length pre + length (field_bytes f))
           (tlv_emplace out (fst f) (snd f))"
proof -
  let ?n = "length (snd f)"
  define d where "d = pre @ field_bytes f @ post"
  have n: "unat (of_nat ?n :: u32) = ?n" "\<not> kMaxTlvValueLength < (of_nat ?n :: u32)"
    using ok by (simp_all add: field_ok_def body_len_of_length word_less_nat_alt)
  have type: "readUint16BE (drop (length pre) d) = Some (fst f)"
    by (simp add: d_def field_bytes_def)
  have value_len: "readUint32BE (drop (length pre + 2) d) = Some (of_nat ?n)"
    by (simp add: d_def field_bytes_def)
  have "drop (length pre + 6) d = snd f @ post"
    by (simp add: d_def field_bytes_def)
  then have val: "read_range d (length pre + 6) ?n = Some (snd f)"
    by (simp add: read_range_def d_def)
  have guards: "length pre < len" "\<not> len - length pre < 6" "\<not> len - (length pre + 6) < ?n"
    using len by auto
  show ?thesis
    unfolding d_def [symmetric] using guards type value_len val n
    by (subst tlv_loop.simps) (simp add: kTlvHeaderSize_def Let_def add.assoc)
qed

lemma tlv_loop_complete:
  assumes "list_all field_ok fs"
  shows "tlv_loop (pre @ fields_bytes fs @ post) (length pre + length (fields_bytes fs)) (length pre)
           (map_of_fields gs) = Some (Inr (map_of_fields (gs @ fs)))"
  using assms
proof (induction fs arbitrary: pre gs)
  case Nil
  show ?case by (subst tlv_loop.simps) simp
next
  case (Cons f fs)
  then show ?case
    using tlv_loop_field [of f pre "length pre + length (fields_bytes (f # fs))" "fields_bytes fs @ post"]
      Cons.IH [of "pre @ field_bytes f" "gs @ [f]"]
    by (simp add: tlv_emplace_map_of_fields add.assoc)
qed

text \<open>The header and value that a successful iteration consumes are the encoding of a field.\<close>

lemma field_at:
  assumes "readUint16BE (drop off d) = Some t" "readUint32BE (drop (off + 2) d) = Some l"
    "read_range d (off + 6) (unat l) = Some v"
  shows "take (6 + unat l) (drop off d) = field_bytes (t, v)" "length v = unat l"
proof -
  have v: "v = take (unat l) (drop (off + 6) d)" "off + 6 + unat l \<le> length d"
    using assms(3) by (auto simp: read_range_def split: if_splits)
  then show len: "length v = unat l" by simp
  have "take (2 + (4 + unat l)) (drop off d) =
      take 2 (drop off d) @ take 4 (drop (off + 2) d) @ take (unat l) (drop (off + 6) d)"
    unfolding take_add by (simp add: add.commute)
  moreover have "(of_nat (length v) :: u32) = l" using len by simp
  ultimately show "take (6 + unat l) (drop off d) = field_bytes (t, v)"
    using append_readUint16BE [OF assms(1)] append_readUint32BE [OF assms(2)] v
    by (simp add: field_bytes_def)
qed

lemma tlv_loop_sound:
  assumes "tlv_loop d len off (map_of_fields gs) = Some (Inr m)" "off \<le> len" "len \<le> length d"
  shows "\<exists>fs. list_all field_ok fs \<and> take (len - off) (drop off d) = fields_bytes fs \<and>
           m = map_of_fields (gs @ fs)"
  using assms
proof (induction d len off "map_of_fields gs" arbitrary: gs rule: tlv_loop.induct)
  case (1 d len off)
  show ?case
  proof (cases "off < len")
    case False
    with 1(2,3) show ?thesis
      by (intro exI [of _ "[]"]) (simp add: tlv_loop.simps [of d len off])
  next
    case True
    obtain t l v where f: "readUint16BE (drop off d) = Some t" "readUint32BE (drop (off + 2) d) = Some l"
        "\<not> kMaxTlvValueLength < l" "\<not> len - (off + 6) < unat l" "\<not> len - off < 6"
        "read_range d (off + 6) (unat l) = Some v"
      and rest: "tlv_loop d len (off + 6 + unat l) (tlv_emplace (map_of_fields gs) t v) = Some (Inr m)"
      using 1(2) True
      by (subst (asm) tlv_loop.simps)
        (auto simp: bind_eq_Some_conv kTlvHeaderSize_def Let_def split: if_splits)
    have "off + 6 + unat l \<le> len" using f by simp
    with 1(1) [OF True _ f(1) f(2) refl _ _ _, of v "gs @ [(t, v)]"] rest f 1(4)
    obtain fs where fs: "list_all field_ok fs" "m = map_of_fields ((gs @ [(t, v)]) @ fs)"
        "take (len - (off + 6 + unat l)) (drop (off + 6 + unat l) d) = fields_bytes fs"
      by (auto simp: kTlvHeaderSize_def tlv_emplace_map_of_fields)
    have "take (len - off) (drop off d) = take (6 + unat l) (drop off d) @ fields_bytes fs"
      unfolding fs(3) [symmetric] using take_add [of "6 + unat l" "len - (off + 6 + unat l)" "drop off d"]
      \<open>off + 6 + unat l \<le> len\<close> by (simp add: add_ac)
    with field_at [OF f(1,2,6)] f(3) fs show ?thesis
      by (intro exI [of _ "(t, v) # fs"]) (simp add: field_ok_def word_less_nat_alt)
  qed
qed

lemma tlv_loop_total:
  assumes "off \<le> len" "len \<le> length d"
  shows "\<exists>r. tlv_loop d len off out = Some r \<and> (\<forall>st. r = Inl st \<longrightarrow> code st = ParseError)"
  using assms
proof (induction d len off out rule: tlv_loop.induct)
  case (1 d len off out)
  show ?case
  proof (cases "off < len \<and> 6 \<le> len - off")
    case False
    then show ?thesis by (auto simp: tlv_loop.simps [of d len off] kTlvHeaderSize_def)
  next
    case True
    obtain t where t: "readUint16BE (drop off d) = Some t"
      using True 1(3) read_uint_None_iff(1) [of "drop off d"]
      by (cases "readUint16BE (drop off d)") auto
    obtain l where l: "readUint32BE (drop (off + 2) d) = Some l"
      using True 1(3) read_uint_None_iff(2) [of "drop (off + 2) d"]
      by (cases "readUint32BE (drop (off + 2) d)") auto
    show ?thesis
    proof (cases "kMaxTlvValueLength < l \<or> len - (off + 6) < unat l")
      case True
      then show ?thesis
        using \<open>off < len \<and> 6 \<le> len - off\<close> t l
        by (auto simp: tlv_loop.simps [of d len off] kTlvHeaderSize_def Let_def)
    next
      case False
      then have "off + 6 + unat l \<le> len" using True by auto
      have v: "read_range d (off + 6) (unat l) = Some (take (unat l) (drop (off + 6) d))"
        using \<open>off + 6 + unat l \<le> len\<close> 1(3) by (simp add: read_range_def)
      have "tlv_loop d len off out =
          tlv_loop d len (off + 6 + unat l) (tlv_emplace out t (take (unat l) (drop (off + 6) d)))"
        using True False t l v by (subst tlv_loop.simps) (simp add: kTlvHeaderSize_def Let_def)
      moreover have "\<exists>r. tlv_loop d len (off + 6 + unat l)
          (tlv_emplace out t (take (unat l) (drop (off + 6) d))) = Some r \<and> (\<forall>st. r = Inl st \<longrightarrow> code st = ParseError)"
        using True False v \<open>off + 6 + unat l \<le> len\<close>
        by (intro 1(1) [OF _ _ t l refl, unfolded kTlvHeaderSize_def] 1(3)) auto
      ultimately show ?thesis by simp
    qed
  qed
qed

lemma parseTlvBody_iff:
  "parseTlvBody bs = Some (Inr m) \<longleftrightarrow>
     (\<exists>fs. list_all field_ok fs \<and> bs = fields_bytes fs \<and> m = map_of_fields fs)"
proof
  assume "parseTlvBody bs = Some (Inr m)"
  then show "\<exists>fs. list_all field_ok fs \<and> bs = fields_bytes fs \<and> m = map_of_fields fs"
    using tlv_loop_sound [of bs "length bs" 0 "[]" m] by (simp add: parseTlvBody_def parseTlvMap_def)
next
  assume "\<exists>fs. list_all field_ok fs \<and> bs = fields_bytes fs \<and> m = map_of_fields fs"
  then show "parseTlvBody bs = Some (Inr m)"
    using tlv_loop_complete [of _ "[]" "[]" "[]"] by (auto simp: parseTlvBody_def parseTlvMap_def)
qed

section \<open>Appenders and getters\<close>

lemma appendValue_Inr_iff:
  "appendValue t (Some bs) (length bs) out = Inr out' \<longleftrightarrow>
     t \<noteq> tlv TlvUnknown \<and> field_ok (t, bs) \<and> out' = out @ field_bytes (t, bs)"
proof -
  have "appendUint32BE (appendUint16BE out t) n = out @ appendUint16BE [] t @ appendUint32BE [] n" for n
    by (simp add: appendUint16BE_def appendUint32BE_def)
  then show ?thesis
    by (auto simp: appendValue_def Let_def field_ok_def field_bytes_def)
qed

lemma appendString_Inr_iff:
  "appendString t s out = Inr out' \<longleftrightarrow>
     t \<noteq> tlv TlvUnknown \<and> length s \<le> 1048576 \<and> out' = out @ field_bytes (t, bytes_of_string s)"
  using appendValue_Inr_iff [of t "bytes_of_string s"] by (auto simp: appendString_def field_ok_def)

lemma appendUint64_Inr_iff:
  "appendUint64 t v out = Inr out' \<longleftrightarrow>
     t \<noteq> tlv TlvUnknown \<and> out' = out @ field_bytes (t, appendUint64BE [] v)"
  using appendValue_Inr_iff [of t "appendUint64BE [] v"]
  by (simp add: appendUint64_def field_ok_def)

lemma read_appendUint64BE [simp]: "readUint64BE (appendUint64BE [] v) = Some v"
  using readUint64BE_append [of v "[]"] by simp

lemma repeated_uint64_loop_map [simp]:
  "repeated_uint64_loop (map (appendUint64BE []) vs) out = Inr (out @ vs)"
  by (induction vs arbitrary: out) simp_all

text \<open>A body as the program builds it: a sequence of \<open>appendString\<close> and \<open>appendUint64\<close> calls.\<close>

datatype tlv_arg = StrArg string | U64Arg u64

fun arg_bytes :: "tlv_arg \<Rightarrow> bytes" where
  "arg_bytes (StrArg s) = bytes_of_string s"
| "arg_bytes (U64Arg v) = appendUint64BE [] v"

fun appendField :: "tlv_type \<Rightarrow> tlv_arg \<Rightarrow> bytes \<Rightarrow> bytes result" where
  "appendField t (StrArg s) out = appendString t s out"
| "appendField t (U64Arg v) out = appendUint64 t v out"

fun appendFields :: "(tlv_type \<times> tlv_arg) list \<Rightarrow> bytes \<Rightarrow> bytes result" where
  "appendFields [] out = Inr out"
| "appendFields ((t, a) # fs) out = bindR (appendField t a out) (appendFields fs)"

definition args_of :: "(tlv_type \<times> tlv_arg) list \<Rightarrow> tlv_type \<Rightarrow> tlv_arg list" where
  "args_of as t = map snd (filter (\<lambda>a. fst a = t) as)"

definition arg_fields :: "(tlv_type \<times> tlv_arg) list \<Rightarrow> field list" where
  "arg_fields as = map (\<lambda>(t, a). (t, arg_bytes a)) as"

lemma appendField_Inr_iff:
  "appendField t a out = Inr out' \<longleftrightarrow>
     t \<noteq> tlv TlvUnknown \<and> field_ok (t, arg_bytes a) \<and> out' = out @ field_bytes (t, arg_bytes a)"
  by (cases a)
    (auto simp: appendString_Inr_iff appendUint64_Inr_iff field_ok_def)

lemma appendFields_Inr_iff:
  "appendFields as out = Inr out' \<longleftrightarrow>
     list_all (\<lambda>(t, a). t \<noteq> tlv TlvUnknown \<and> field_ok (t, arg_bytes a)) as \<and>
     out' = out @ fields_bytes (arg_fields as)"
proof (induction as arbitrary: out)
  case (Cons x as)
  then show ?case
    by (cases x) (auto simp: bindR_eq_Inr appendField_Inr_iff arg_fields_def)
qed (auto simp: arg_fields_def)

lemma values_of_arg_fields: "values_of (arg_fields as) t = map arg_bytes (args_of as t)"
  by (induction as) (auto simp: arg_fields_def args_of_def)

lemma appendFields_parse:
  assumes "appendFields as [] = Inr bs"
  shows "parseTlvBody bs = Some (Inr (map_of_fields (arg_fields as)))"
proof -
  have "list_all field_ok (arg_fields as)"
    using assms by (auto simp: appendFields_Inr_iff arg_fields_def list_all_iff)
  with assms show ?thesis
    by (auto simp: parseTlvBody_iff appendFields_Inr_iff)
qed

lemma get_map_of_fields:
  "getString (map_of_fields (arg_fields as)) t =
     (case args_of as t of [] \<Rightarrow> err NotFound ''missing required string field''
      | a # _ \<Rightarrow> Inr (string_of_bytes (arg_bytes a)))"
  "args_of as t = U64Arg v # rest \<Longrightarrow> getUint64 (map_of_fields (arg_fields as)) t = Inr v"
  "args_of as t = [] \<Longrightarrow>
     getUint64 (map_of_fields (arg_fields as)) t = err NotFound ''missing required uint64 field''"
  by (auto simp: getString_def getUint64_def values_of_arg_fields split: list.splits)

lemma get_repeated:
  "args_of as t = map U64Arg vs \<Longrightarrow> vs \<noteq> [] \<Longrightarrow> getRepeatedUint64 (map_of_fields (arg_fields as)) t = Inr vs"
  "args_of as t = map StrArg ss \<Longrightarrow> ss \<noteq> [] \<Longrightarrow> getRepeatedString (map_of_fields (arg_fields as)) t = Inr ss"
  using repeated_uint64_loop_map [of vs "[]"]
  by (simp_all add: getRepeatedUint64_def getRepeatedString_def values_of_arg_fields comp_def)

lemma args_of_append: "args_of (as @ bs) t = args_of as t @ args_of bs t"
  by (simp add: args_of_def)

lemma args_of_concat: "args_of (concat (map f xs)) t = concat (map (\<lambda>x. args_of (f x) t) xs)"
  by (induction xs) (simp_all add: args_of_append, simp add: args_of_def)

section \<open>Properties\<close>

text \<open>
  C28. The parser accepts exactly the well-formed bodies: \<open>parseTlvMap\<close> succeeds on a body if and only
  if the body is the concatenation of encoded fields with values of at most 1 MiB, and the map it
  then returns holds, for each type, the values of that type in their order in the body.
\<close>

theorem parseTlvMap_exact:
  "parseTlvBody bs = Some (Inr m) \<longleftrightarrow>
     (\<exists>fs. list_all field_ok fs \<and> bs = fields_bytes fs \<and> m = map_of_fields fs)"
  by (rule parseTlvBody_iff)

text \<open>
  Memory safety and termination of the TLV parser: if \<open>len\<close> bytes are readable behind \<open>data\<close>, or
  \<open>data\<close> is null, the loop ends without reading outside of them; a rejected body is reported with
  \<open>ParseError\<close>, a null pointer with \<open>InvalidArgument\<close>.
\<close>

theorem parseTlvMap_safe:
  assumes "case data of None \<Rightarrow> True | Some d \<Rightarrow> len \<le> length d"
  shows "\<exists>r. parseTlvMap data len = Some r \<and>
    (\<forall>st. r = Inl st \<longrightarrow> code st = (if data = None then InvalidArgument else ParseError))"
  using assms tlv_loop_total [of 0 len] by (auto simp: parseTlvMap_def split: option.splits)

theorem parseTlvMap_safe_witness:
  "\<exists>r. parseTlvMap (Some [0, 1, 0xFF, 0xFF, 0xFF, 0xFF, 9]) 7 = Some r \<and>
     (\<forall>st. r = Inl st \<longrightarrow> code st = ParseError)"
  using parseTlvMap_safe [where data = "Some [0, 1, 0xFF, 0xFF, 0xFF, 0xFF, 9]" and len = 7] by simp

text \<open>
  TLV round trip: a body built by any sequence of \<open>appendString\<close> and \<open>appendUint64\<close> calls that
  succeeded is parsed back, and the getters return the strings and integers of a type that were
  appended, the first one for the single getters and all of them in order for the repeated ones;
  a type that was never appended is reported as \<open>NotFound\<close>.
\<close>

theorem tlv_roundtrip:
  assumes "appendFields as [] = Inr bs"
  shows "\<exists>m. parseTlvBody bs = Some (Inr m) \<and>
    (\<forall>t ss. args_of as t = map StrArg ss \<longrightarrow> ss \<noteq> [] \<longrightarrow>
       getString m t = Inr (hd ss) \<and> getRepeatedString m t = Inr ss) \<and>
    (\<forall>t vs. args_of as t = map U64Arg vs \<longrightarrow> vs \<noteq> [] \<longrightarrow>
       getUint64 m t = Inr (hd vs) \<and> getRepeatedUint64 m t = Inr vs) \<and>
    (\<forall>t. args_of as t = [] \<longrightarrow>
       getString m t = err NotFound ''missing required string field'' \<and>
       getUint64 m t = err NotFound ''missing required uint64 field'')"
proof -
  note get_repeated
  moreover note appendFields_parse [OF assms]
  ultimately show ?thesis
    by (intro exI [of _ "map_of_fields (arg_fields as)"])
      (auto simp: get_map_of_fields neq_Nil_conv)
qed

text \<open>Two friend ids around a user name, as a response body holds them.\<close>

theorem tlv_roundtrip_witness:
  "\<exists>m. parseTlvBody (fields_bytes [(tlv TlvFriendId, appendUint64BE [] 7), (tlv TlvUsername, [104, 105]),
          (tlv TlvFriendId, appendUint64BE [] 9)]) = Some (Inr m) \<and>
     getRepeatedUint64 m (tlv TlvFriendId) = Inr [7, 9] \<and> getString m (tlv TlvUsername) = Inr ''hi''"
proof -
  let ?as = "[(tlv TlvFriendId, U64Arg 7), (tlv TlvUsername, StrArg ''hi''), (tlv TlvFriendId, U64Arg 9)]"
  have "appendFields ?as [] = Inr (fields_bytes [(tlv TlvFriendId, appendUint64BE [] 7),
      (tlv TlvUsername, [104, 105]), (tlv TlvFriendId, appendUint64BE [] 9)])"
    unfolding appendFields_Inr_iff
    by (simp add: arg_fields_def field_ok_def bytes_of_string_def of_char_def)
  from tlv_roundtrip [OF this] show ?thesis
  proof (elim exE conjE, intro exI conjI)
    fix m
    assume str: "\<forall>t ss. args_of ?as t = map StrArg ss \<longrightarrow> ss \<noteq> [] \<longrightarrow>
        getString m t = Inr (hd ss) \<and> getRepeatedString m t = Inr ss"
      and num: "\<forall>t vs. args_of ?as t = map U64Arg vs \<longrightarrow> vs \<noteq> [] \<longrightarrow>
        getUint64 m t = Inr (hd vs) \<and> getRepeatedUint64 m t = Inr vs"
    show "getRepeatedUint64 m (tlv TlvFriendId) = Inr [7, 9]"
      using num [rule_format, of "tlv TlvFriendId" "[7, 9]"] by (simp add: args_of_def)
    show "getString m (tlv TlvUsername) = Inr ''hi''"
      using str [rule_format, of "tlv TlvUsername" "[''hi'']"] by (simp add: args_of_def)
  qed
qed

end
