(* ===== verification/Frame_Decoder.thy ===== *)
theory Frame_Decoder
  imports Packet_Codec
begin

text \<open>
  The stream decoder (\<open>include/liteim/protocol/FrameDecoder.hpp\<close>, \<open>src/protocol/FrameDecoder.cpp\<close>):
  TCP delivers arbitrary chunks, \<open>feed\<close> appends a chunk to the buffer and cuts complete packets off
  its front. The read loop is translated with its \<open>read_index\<close>; \<open>split_frames\<close> is the specification
  it refines. The locale \<open>chunked_decoder\<close> is the contract that a reader of a stream relies on: how
  the stream was cut into chunks cannot be observed in the packets.
\<close>

section \<open>State and operations\<close>

record frame_decoder =
  dec_buffer :: bytes
  dec_error :: bool

definition new_decoder :: frame_decoder where
  "new_decoder = \<lparr>dec_buffer = [], dec_error = False\<rparr>"

definition compact_consumed :: "nat \<Rightarrow> frame_decoder \<Rightarrow> frame_decoder" where
  "compact_consumed consumed d =
     (if consumed = 0 then d
      else if consumed = length (dec_buffer d) then d\<lparr>dec_buffer := []\<rparr>
      else d\<lparr>dec_buffer := drop consumed (dec_buffer d)\<rparr>)"

text \<open>
  The loop on a fixed buffer. It returns the status, the packets appended to \<open>output\<close> and the final
  \<open>read_index\<close>; \<open>None\<close> is a read outside of the buffer.
\<close>

function feed_loop :: "bytes \<Rightarrow> nat \<Rightarrow> packet list \<Rightarrow> (status \<times> packet list \<times> nat) option" where
  "feed_loop buf i out =
     (if length buf - i \<ge> kPacketHeaderSize then do {
        r \<leftarrow> parseHeader (Some (drop i buf)) kPacketHeaderSize;
        case r of
          Inl header_status \<Rightarrow> Some (header_status, out, i)
        | Inr h \<Rightarrow>
            let frame_size = kPacketHeaderSize + unat (body_len h) in
            if length buf - i < frame_size then Some (status_ok, out, i)
            else
              let p = \<lparr>header = h,
                       body = take (unat (body_len h)) (drop (i + kPacketHeaderSize) buf)\<rparr>
              in feed_loop buf (i + frame_size) (out @ [p])
      }
      else Some (status_ok, out, i))"
  by pat_completeness auto
termination
  by (relation "measure (\<lambda>(buf, i, out). length buf - i)") (auto simp: kPacketHeaderSize_def)

declare feed_loop.simps [simp del]

definition feed ::
  "frame_decoder \<Rightarrow> cptr \<Rightarrow> nat \<Rightarrow> (status \<times> packet list \<times> frame_decoder) option" where
  "feed d data len =
     (if dec_error d then Some (status_error ParseError ''frame decoder is in error state'', [], d)
      else if data = None \<and> len \<noteq> 0
      then Some (status_error InvalidArgument ''frame decoder input is null'', [], d)
      else do {
        chunk \<leftarrow> (if len \<noteq> 0 then (if len \<le> length (the data) then Some (take len (the data)) else None)
                 else Some []);
        let d = d\<lparr>dec_buffer := dec_buffer d @ chunk\<rparr> in do {
          (st, out, read_index) \<leftarrow> feed_loop (dec_buffer d) 0 [];
          let d = compact_consumed read_index d in
          Some (if isOk st then (st, out, d) else (st, out, d\<lparr>dec_error := True\<rparr>))
        }
      })"

definition feed_bytes :: "frame_decoder \<Rightarrow> bytes \<Rightarrow> (status \<times> packet list \<times> frame_decoder) option" where
  "feed_bytes d data = feed d (Some data) (length data)"

definition hasError :: "frame_decoder \<Rightarrow> bool" where
  "hasError d = dec_error d"

definition bufferedBytes :: "frame_decoder \<Rightarrow> nat" where
  "bufferedBytes d = length (dec_buffer d)"

definition reset_decoder :: "frame_decoder \<Rightarrow> frame_decoder" where
  "reset_decoder d = d\<lparr>dec_buffer := [], dec_error := False\<rparr>"

section \<open>Specification\<close>

text \<open>
  The frames at the front of a byte stream: the complete packets, the bytes that are left, and the
  status of the first malformed header, if the scan met one.
\<close>

function split_frames :: "bytes \<Rightarrow> packet list \<times> bytes \<times> status option" where
  "split_frames bs =
     (if length bs < 20 then ([], bs, None)
      else
        let h = the (read_header bs); n = unat (body_len h) in
        if \<not> isOk (validateHeader h) then ([], bs, Some (validateHeader h))
        else if length bs < 20 + n then ([], bs, None)
        else
          let (ps, rest, e) = split_frames (drop (20 + n) bs)
          in (\<lparr>header = h, body = take n (drop 20 bs)\<rparr> # ps, rest, e))"
  by pat_completeness auto
termination
  by (relation "measure length") auto

declare split_frames.simps [simp del]

lemma read_header_the: "20 \<le> length bs \<Longrightarrow> read_header bs = Some (the (read_header bs))"
  using read_header_None_iff [of bs] by (cases "read_header bs") auto

lemma feed_loop_refines:
  "i \<le> length buf \<Longrightarrow>
   feed_loop buf i out =
     (case split_frames (drop i buf) of (ps, rest, e) \<Rightarrow>
        Some (case e of None \<Rightarrow> status_ok | Some st \<Rightarrow> st, out @ ps, length buf - length rest))"
proof (induction buf i out rule: feed_loop.induct)
  case (1 buf i out)
  let ?bs = "drop i buf"
  show ?case
  proof (cases "length ?bs < 20")
    case True
    with 1(2) show ?thesis
      by (subst feed_loop.simps, subst split_frames.simps) (simp add: kPacketHeaderSize_def)
  next
    case long: False
    then obtain h where h: "read_header ?bs = Some h"
      using read_header_the [of ?bs] by simp
    show ?thesis
    proof (cases "isOk (validateHeader h) \<and> 20 + unat (body_len h) \<le> length ?bs")
      case False
      with long h 1(2) show ?thesis
        by (subst feed_loop.simps, subst split_frames.simps)
          (auto simp: kPacketHeaderSize_def parseHeader_alt Let_def)
    next
      case True
      let ?p = "\<lparr>header = h, body = take (unat (body_len h)) (drop (i + 20) buf)\<rparr>"
      let ?j = "i + (20 + unat (body_len h))"
      have parse: "parseHeader (Some ?bs) 20 = Some (Inr h)"
        using h True by (simp add: parseHeader_Inr_iff)
      have guards: "20 \<le> length buf - i" "\<not> length buf - i < 20 + unat (body_len h)"
        using long True by simp_all
      have split: "split_frames ?bs = (case split_frames (drop ?j buf) of (ps, rest, e) \<Rightarrow> (?p # ps, rest, e))"
        using True long h by (subst split_frames.simps) (simp add: Let_def add_ac)
      have "feed_loop buf i out = feed_loop buf ?j (out @ [?p])"
        using guards parse by (subst feed_loop.simps) (simp add: kPacketHeaderSize_def Let_def)
      also have "\<dots> = (case split_frames (drop ?j buf) of (ps, rest, e) \<Rightarrow>
          Some (case e of None \<Rightarrow> status_ok | Some st \<Rightarrow> st, (out @ [?p]) @ ps, length buf - length rest))"
        using guards by (intro 1(1) [OF _ parse [folded kPacketHeaderSize_def],
              unfolded kPacketHeaderSize_def]) auto
      finally show ?thesis
        unfolding split by (simp split: prod.splits)
    qed
  qed
qed

text \<open>The remaining bytes are a suffix; a reported status is an error.\<close>

lemma split_frames_rest:
  "split_frames bs = (ps, rest, e) \<Longrightarrow>
     (\<exists>pre. bs = pre @ rest) \<and> (\<forall>st. e = Some st \<longrightarrow> code st = ParseError) \<and>
     (e = None \<longrightarrow> length rest < 20 + 1048576)"
proof (induction bs arbitrary: ps rest e rule: split_frames.induct)
  case (1 bs)
  show ?case
  proof (cases "length bs < 20")
    case True
    with 1(2) show ?thesis by (simp add: split_frames.simps [of bs])
  next
    case long: False
    then obtain h where h: "read_header bs = Some h"
      using read_header_the [of bs] by simp
    show ?thesis
    proof (cases "isOk (validateHeader h) \<and> 20 + unat (body_len h) \<le> length bs")
      case False
      then show ?thesis
        using 1(2) long h validateHeader_code [of h]
        by (auto simp: split_frames.simps [of bs] Let_def isOk_def validateHeader_ok_iff [unfolded isOk_def]
            word_le_nat_alt split: if_splits)
    next
      case True
      then obtain qs where "split_frames (drop (20 + unat (body_len h)) bs) = (qs, rest, e)"
        using 1(2) long h by (auto simp: split_frames.simps [of bs] Let_def split: prod.splits)
      with 1(1) [OF long refl refl, of qs rest e] True h show ?thesis
        by (metis append.assoc append_take_drop_id not_less option.sel)
    qed
  qed
qed

text \<open>Appending bytes to a stream only continues the scan where it stopped.\<close>

lemma split_frames_append:
  "split_frames (a @ b) =
     (case split_frames a of
        (ps, r, None) \<Rightarrow> (case split_frames (r @ b) of (qs, r', e) \<Rightarrow> (ps @ qs, r', e))
      | (ps, r, Some st) \<Rightarrow> (ps, r @ b, Some st))"
proof (induction a rule: split_frames.induct)
  case (1 a)
  show ?case
  proof (cases "length a < 20")
    case True
    then show ?thesis by (simp add: split_frames.simps [of a] split: prod.splits)
  next
    case long: False
    then obtain h where h: "read_header a = Some h"
      using read_header_the [of a] by simp
    with long have h': "read_header (a @ b) = Some h"
      by (simp add: read_header_append)
    show ?thesis
    proof (cases "isOk (validateHeader h)")
      case False
      with long h h' show ?thesis
        by (simp add: split_frames.simps [of a] split_frames.simps [of "a @ b"] Let_def)
    next
      case ok: True
      show ?thesis
      proof (cases "20 + unat (body_len h) \<le> length a")
        case False
        with ok long h show ?thesis
          by (simp add: split_frames.simps [of a] Let_def split: prod.splits)
      next
        case True
        with 1 [OF long refl refl] ok h have IH: "split_frames (drop (20 + unat (body_len h)) a @ b) =
            (case split_frames (drop (20 + unat (body_len h)) a) of
               (ps, r, None) \<Rightarrow> (case split_frames (r @ b) of (qs, r', e) \<Rightarrow> (ps @ qs, r', e))
             | (ps, r, Some st) \<Rightarrow> (ps, r @ b, Some st))"
          by (simp split: prod.splits option.splits)
        have "split_frames a = (case split_frames (drop (20 + unat (body_len h)) a) of
            (ps, r, e) \<Rightarrow> (\<lparr>header = h, body = take (unat (body_len h)) (drop 20 a)\<rparr> # ps, r, e))"
          using True ok long h by (subst split_frames.simps) (simp add: Let_def)
        moreover have "split_frames (a @ b) = (case split_frames (drop (20 + unat (body_len h)) a @ b) of
            (ps, r, e) \<Rightarrow> (\<lparr>header = h, body = take (unat (body_len h)) (drop 20 a)\<rparr> # ps, r, e))"
          using True ok long h' by (subst split_frames.simps) (simp add: Let_def)
        ultimately show ?thesis
          unfolding IH by (simp split: prod.splits option.splits)
      qed
    qed
  qed
qed

lemma split_frames_packet:
  assumes "encodePacket p = Inr bs"
  shows "split_frames (bs @ rest) = (case split_frames rest of (ps, r, e) \<Rightarrow>
    (p\<lparr>header := (header p)\<lparr>body_len := of_nat (length (body p))\<rparr>\<rparr> # ps, r, e))"
proof -
  let ?h = "(header p)\<lparr>body_len := of_nat (length (body p))\<rparr>"
  have bs: "bs = header_bytes ?h @ body p" "length (body p) \<le> 1048576" "isOk (validateHeader ?h)"
    using assms by (simp_all add: encodePacket_Inr_iff validateHeader_ok_iff body_len_of_length)
  then have n: "unat (body_len ?h) = length (body p)"
    by (simp add: body_len_of_length)
  have "split_frames (bs @ rest) = (case split_frames (drop (20 + length (body p)) (bs @ rest)) of
      (ps, r, e) \<Rightarrow> (\<lparr>header = ?h, body = take (length (body p)) (drop 20 (bs @ rest))\<rparr> # ps, r, e))"
    using n bs(3) by (subst split_frames.simps) (simp add: bs(1) Let_def)
  moreover have "\<lparr>header = ?h, body = body p\<rparr> = p\<lparr>header := ?h\<rparr>"
    by (cases p) simp
  ultimately show ?thesis by (simp add: bs(1))
qed

section \<open>Behaviour of feed\<close>

lemma compact_consumed_suffix:
  "dec_buffer d = pre @ rest \<Longrightarrow>
     compact_consumed (length (dec_buffer d) - length rest) d = d\<lparr>dec_buffer := rest\<rparr>"
  by (auto simp: compact_consumed_def)

lemma feed_bytes_eq:
  "feed_bytes d bs =
     Some (if dec_error d then (status_error ParseError ''frame decoder is in error state'', [], d)
       else case split_frames (dec_buffer d @ bs) of (ps, rest, e) \<Rightarrow>
         (case e of None \<Rightarrow> status_ok | Some st \<Rightarrow> st, ps,
          d\<lparr>dec_buffer := rest, dec_error := (e \<noteq> None)\<rparr>))"
proof (cases "dec_error d")
  case False
  let ?d = "d\<lparr>dec_buffer := dec_buffer d @ bs\<rparr>"
  obtain ps rest e where split: "split_frames (dec_buffer d @ bs) = (ps, rest, e)"
    by (cases "split_frames (dec_buffer d @ bs)")
  then obtain pre where pre: "dec_buffer d @ bs = pre @ rest"
    and st: "\<And>st. e = Some st \<Longrightarrow> \<not> isOk st"
    using split_frames_rest [OF split] by (auto simp: isOk_def)
  have "compact_consumed (length (dec_buffer ?d) - length rest) ?d = d\<lparr>dec_buffer := rest\<rparr>"
    using compact_consumed_suffix [of ?d pre rest] pre by simp
  with False split st show ?thesis
    by (cases e) (auto simp: feed_bytes_def feed_def feed_loop_refines Let_def)
qed (simp add: feed_bytes_def feed_def)

definition feed_step :: "frame_decoder \<Rightarrow> bytes \<Rightarrow> packet list \<times> frame_decoder" where
  "feed_step d bs = snd (the (feed_bytes d bs))"

text \<open>What later calls can see of a decoder: nothing of the buffer once the error flag is set.\<close>

definition decoder_view :: "frame_decoder \<Rightarrow> bytes option" where
  "decoder_view d = (if dec_error d then None else Some (dec_buffer d))"

text \<open>No complete packet is waiting in the buffer; true of a new decoder and after every call.\<close>

definition drained :: "frame_decoder \<Rightarrow> bool" where
  "drained d \<longleftrightarrow> (\<not> dec_error d \<longrightarrow> split_frames (dec_buffer d) = ([], dec_buffer d, None))"

lemma feed_step_eq:
  "feed_step d bs =
     (if dec_error d then ([], d)
      else case split_frames (dec_buffer d @ bs) of (ps, rest, e) \<Rightarrow>
        (ps, d\<lparr>dec_buffer := rest, dec_error := (e \<noteq> None)\<rparr>))"
  by (simp add: feed_step_def feed_bytes_eq split: prod.splits)

lemma split_frames_rest_drained:
  "split_frames bs = (ps, rest, None) \<Longrightarrow> split_frames rest = ([], rest, None)"
  using split_frames_append [of bs "[]"] by (simp split: prod.splits)

lemma drained_new [simp]: "drained new_decoder"
  by (simp add: drained_def new_decoder_def split_frames.simps)

section \<open>The contract of a stream decoder\<close>

locale chunked_decoder =
  fixes step :: "'d \<Rightarrow> 'b list \<Rightarrow> 'p list \<times> 'd"
    and view :: "'d \<Rightarrow> 'o"
    and ready :: "'d \<Rightarrow> bool"
  assumes step_view: "view d = view e \<Longrightarrow>
      fst (step d a) = fst (step e a) \<and> view (snd (step d a)) = view (snd (step e a))"
    and step_append: "fst (step d (a @ b)) = fst (step d a) @ fst (step (snd (step d a)) b)"
      "view (snd (step d (a @ b))) = view (snd (step (snd (step d a)) b))"
    and step_ready: "ready (snd (step d a))"
    and step_Nil: "ready d \<Longrightarrow> step d [] = ([], d)"
begin

lemma run_view:
  "view d = view e \<Longrightarrow>
     fst (run_list step d cs) = fst (run_list step e cs) \<and>
     view (snd (run_list step d cs)) = view (snd (run_list step e cs))"
proof (induction cs arbitrary: d e)
  case (Cons c cs)
  show ?case
    using step_view [OF Cons.prems, of c] Cons.IH [of "snd (step d c)" "snd (step e c)"]
    by (simp add: split_beta)
qed simp

lemma run_concat:
  "ready d \<Longrightarrow>
     fst (run_list step d cs) = fst (step d (concat cs)) \<and>
     view (snd (run_list step d cs)) = view (snd (step d (concat cs)))"
proof (induction cs arbitrary: d)
  case (Cons c cs)
  show ?case
    using Cons.IH [OF step_ready, of d c] step_append [of d c "concat cs"] by (simp add: split_beta)
qed (simp add: step_Nil)

lemma chunking:
  "ready d \<Longrightarrow> concat cs = concat cs' \<Longrightarrow>
     fst (run_list step d cs) = fst (run_list step d cs') \<and>
     view (snd (run_list step d cs)) = view (snd (run_list step d cs'))"
  by (simp add: run_concat)

end

interpretation fd: chunked_decoder feed_step decoder_view drained
proof
  fix d e :: frame_decoder and a b :: bytes
  show "decoder_view d = decoder_view e \<Longrightarrow>
      fst (feed_step d a) = fst (feed_step e a) \<and>
      decoder_view (snd (feed_step d a)) = decoder_view (snd (feed_step e a))"
    by (auto simp: feed_step_eq decoder_view_def split: if_splits prod.splits)
  show "fst (feed_step d (a @ b)) = fst (feed_step d a) @ fst (feed_step (snd (feed_step d a)) b)"
    by (auto simp: feed_step_eq split_frames_append [of "dec_buffer d @ a" b, simplified]
        split: prod.splits option.splits)
  show "decoder_view (snd (feed_step d (a @ b))) =
      decoder_view (snd (feed_step (snd (feed_step d a)) b))"
    by (auto simp: feed_step_eq decoder_view_def split_frames_append [of "dec_buffer d @ a" b, simplified]
        split: prod.splits option.splits)
  show "drained (snd (feed_step d a))"
    by (auto simp: feed_step_eq drained_def split: prod.splits intro: split_frames_rest_drained)
  show "drained d \<Longrightarrow> feed_step d [] = ([], d)"
    by (cases d) (auto simp: feed_step_eq drained_def)
qed

section \<open>Properties\<close>

definition framed :: "packet \<Rightarrow> packet" where
  "framed p = p\<lparr>header := (header p)\<lparr>body_len := of_nat (length (body p))\<rparr>\<rparr>"

lemma split_frames_packets:
  "list_all2 (\<lambda>p bs. encodePacket p = Inr bs) ps bss \<Longrightarrow>
     split_frames (concat bss) = (map framed ps, [], None)"
proof (induction ps bss rule: list_all2_induct)
  case Nil
  show ?case by (simp add: split_frames.simps)
next
  case (Cons p ps bs bss)
  then show ?case by (simp add: split_frames_packet framed_def)
qed

lemma run_feed_step:
  assumes "drained d" "\<not> dec_error d" "split_frames (dec_buffer d @ concat cs) = (ps, rest, e)"
  shows "fst (run_list feed_step d cs) = ps"
    "decoder_view (snd (run_list feed_step d cs)) = (if e = None then Some rest else None)"
  using fd.run_concat [OF assms(1), of cs] assms(2,3)
  by (simp_all add: feed_step_eq decoder_view_def)

text \<open>
  C2. Reliable framing: if a sender encodes a list of packets and the bytes arrive cut into chunks in
  any way, the decoder delivers exactly these packets in order (each with \<open>body_len\<close> set to the length
  of its body), reports no error and keeps no bytes back.
\<close>

theorem stream_roundtrip:
  assumes "list_all2 (\<lambda>p bs. encodePacket p = Inr bs) ps bss" and "concat chunks = concat bss"
  shows "run_list feed_step new_decoder chunks = (map framed ps, new_decoder)"
proof -
  have split: "split_frames (dec_buffer new_decoder @ concat chunks) = (map framed ps, [], None)"
    using split_frames_packets [OF assms(1)] assms(2) by (simp add: new_decoder_def)
  have "\<not> dec_error new_decoder" by (simp add: new_decoder_def)
  note run = run_feed_step [OF drained_new this split]
  from run(2) have "snd (run_list feed_step new_decoder chunks) = new_decoder"
    by (simp add: decoder_view_def new_decoder_def split: if_splits)
  with run(1) show ?thesis by (simp add: prod_eq_iff)
qed

theorem stream_roundtrip_witness:
  "run_list feed_step new_decoder
     [take 7 (header_bytes default_header), drop 7 (header_bytes default_header) @ header_bytes default_header] =
   ([default_packet, default_packet], new_decoder)"
  using stream_roundtrip [of "[default_packet, default_packet]"
      "[header_bytes default_header, header_bytes default_header]"
      "[take 7 (header_bytes default_header),
        drop 7 (header_bytes default_header) @ header_bytes default_header]"]
  by (simp add: encodePacket_Inr_iff default_packet_def default_header_def framed_def
      flip: append_assoc)



text \<open>
  Failure of a stream is final: if the bytes so far contain a malformed header, the packets in
  front of it have been delivered, the error flag is set, and every later chunk is answered with
  \<open>ParseError\<close> and no packets and leaves the decoder as it is, until \<open>reset\<close> makes it new.
\<close>

theorem feed_error_final:
  assumes "split_frames (concat cs) = (ps, rest, Some st)"
  shows "fst (run_list feed_step new_decoder cs) = ps \<and>
    (let d = snd (run_list feed_step new_decoder cs) in
       hasError d \<and> reset_decoder d = new_decoder \<and>
       feed_bytes d chunk = Some (status_error ParseError ''frame decoder is in error state'', [], d))"
proof -
  have "\<not> dec_error new_decoder" by (simp add: new_decoder_def)
  note run = run_feed_step [OF drained_new this, of cs ps rest "Some st"]
  have "split_frames (dec_buffer new_decoder @ concat cs) = (ps, rest, Some st)"
    using assms by (simp add: new_decoder_def)
  from run(1) [OF this] run(2) [OF this] show ?thesis
    by (simp add: Let_def decoder_view_def hasError_def reset_decoder_def new_decoder_def feed_bytes_eq
        split: if_splits)
qed

text \<open>Twenty zero bytes are not a header.\<close>

lemma split_frames_zeros:
  "split_frames (replicate 20 0) = ([], replicate 20 0, Some (status_error ParseError ''invalid packet magic''))"
proof -
  have "read_header (replicate 20 0) = Some \<lparr>magic = 0, version = 0, flags = 0, msg_type = 0, seq_id = 0, body_len = 0\<rparr>"
    by code_simp
  then show ?thesis
    by (subst split_frames.simps) (simp add: validateHeader_def kPacketMagic_def)
qed

theorem feed_error_final_witness:
  "hasError (snd (run_list feed_step new_decoder [replicate 20 0]))"
  using feed_error_final [of "[replicate 20 0]" "[]" "replicate 20 0"
      "status_error ParseError ''invalid packet magic''" "[]"]
  by (simp add: split_frames_zeros Let_def)

text \<open>
  The decoder is total and its memory is bounded: on a null pointer or on \<open>len\<close> readable bytes
  \<open>feed\<close> returns without reading outside of them; after a successful call fewer than 20 bytes plus
  the maximal body of 1 MiB are buffered, and a failing call never buffers more than it was given.
\<close>

theorem feed_bounded:
  assumes "case data of None \<Rightarrow> True | Some bs \<Rightarrow> len \<le> length bs"
  shows "\<exists>st ps d'. feed d data len = Some (st, ps, d') \<and>
    (isOk st \<longrightarrow> bufferedBytes d' < kPacketHeaderSize + unat kMaxPacketBodyLength) \<and>
    bufferedBytes d' \<le> bufferedBytes d + len"
proof -
  consider (null) "data = None" "len \<noteq> 0" | (read) bs where "feed d data len = feed_bytes d bs" "length bs = len"
  proof (cases data)
    case None
    then have "len = 0 \<Longrightarrow> feed d data len = feed_bytes d []"
      by (simp add: feed_def feed_bytes_def)
    with None that show ?thesis by (cases "len = 0") auto
  next
    case (Some bs)
    then have "feed d data len = feed_bytes d (take len bs)"
      using assms by (simp add: feed_def feed_bytes_def)
    with Some assms that(2) [of "take len bs"] show ?thesis by simp
  qed
  then show ?thesis
  proof cases
    case null
    then show ?thesis by (auto simp: feed_def)
  next
    case read
    obtain ps rest e where split: "split_frames (dec_buffer d @ bs) = (ps, rest, e)"
      by (cases "split_frames (dec_buffer d @ bs)")
    then have "length rest \<le> length (dec_buffer d) + length bs"
      using split_frames_rest [OF split] by (metis le_add2 length_append)
    with read split split_frames_rest [OF split] show ?thesis
      by (auto simp: feed_bytes_eq bufferedBytes_def kPacketHeaderSize_def isOk_def split: option.splits)
  qed
qed

theorem feed_bounded_witness:
  "\<exists>st ps d'. feed new_decoder (Some [1, 2, 3]) 2 = Some (st, ps, d') \<and> bufferedBytes d' \<le> 2"
  using feed_bounded [where data = "Some [1, 2, 3]" and len = 2 and d = new_decoder]
  by (auto simp: bufferedBytes_def new_decoder_def)

end
