(* ===== verification/Net_Buffer.thy ===== *)
theory Net_Buffer
  imports LiteIM_Prelude
begin

text \<open>
  The growable byte buffer of the network layer (\<open>include/liteim/net/Buffer.hpp\<close>,
  \<open>src/net/Buffer.cpp\<close>). The storage vector and its two indices are kept as they are in the class;
  \<open>None\<close> is a copy outside of the storage. The index invariant rules this out, and the interpretation
  of the locale \<open>byte_queue\<close> shows that the class is a FIFO queue of bytes. \<open>std::size_t\<close> is \<open>nat\<close>:
  the subtractions of the source are guarded by the invariant, and its sums are sizes of
  allocated memory.
\<close>

section \<open>State and operations\<close>

record net_buffer =
  nb_store :: bytes
  nb_read :: nat
  nb_write :: nat

definition kDefaultBufferSize :: nat where "kDefaultBufferSize = 1024"

definition new_buffer :: "nat \<Rightarrow> net_buffer" where
  "new_buffer initial_size =
     \<lparr>nb_store = replicate (if initial_size = 0 then 1 else initial_size) 0, nb_read = 0, nb_write = 0\<rparr>"

definition readableBytes :: "net_buffer \<Rightarrow> nat" where
  "readableBytes b = nb_write b - nb_read b"

definition writableBytes :: "net_buffer \<Rightarrow> nat" where
  "writableBytes b = length (nb_store b) - nb_write b"

text \<open>The pointer \<open>buffer_.data() + read_index_\<close>: the bytes that may be read from it on.\<close>

definition peek :: "net_buffer \<Rightarrow> bytes" where
  "peek b = drop (nb_read b) (nb_store b)"

definition move_to_front :: "net_buffer \<Rightarrow> net_buffer" where
  "move_to_front b =
     (let readable = readableBytes b in
      b\<lparr>nb_store := drop (nb_read b) (take (nb_write b) (nb_store b)) @ drop readable (nb_store b),
        nb_read := 0, nb_write := readable\<rparr>)"

definition resize_store :: "nat \<Rightarrow> net_buffer \<Rightarrow> net_buffer" where
  "resize_store n b = b\<lparr>nb_store := take n (nb_store b) @ replicate (n - length (nb_store b)) 0\<rparr>"

definition ensureWritableBytes :: "nat \<Rightarrow> net_buffer \<Rightarrow> net_buffer" where
  "ensureWritableBytes len b =
     (if writableBytes b \<ge> len then b
      else if nb_read b + writableBytes b \<ge> len then move_to_front b
      else
        let b = (if nb_read b \<noteq> 0 then move_to_front b else b)
        in resize_store (nb_write b + len) b)"

definition memcpy_at :: "bytes \<Rightarrow> nat \<Rightarrow> bytes \<Rightarrow> bytes option" where
  "memcpy_at dst off src =
     (if off + length src \<le> length dst then Some (take off dst @ src @ drop (off + length src) dst) else None)"

definition buffer_append :: "net_buffer \<Rightarrow> cptr \<Rightarrow> nat \<Rightarrow> (status \<times> net_buffer) option" where
  "buffer_append b data len =
     (if data = None \<and> len \<noteq> 0 then Some (status_error InvalidArgument ''buffer append input is null'', b)
      else if len = 0 then Some (status_ok, b)
      else if length (the data) < len then None
      else
        let b = ensureWritableBytes len b in do {
          store \<leftarrow> memcpy_at (nb_store b) (nb_write b) (take len (the data));
          Some (status_ok, b\<lparr>nb_store := store, nb_write := nb_write b + len\<rparr>)
        })"

definition append_bytes :: "net_buffer \<Rightarrow> bytes \<Rightarrow> (status \<times> net_buffer) option" where
  "append_bytes b data = buffer_append b (Some data) (length data)"

definition append_string :: "net_buffer \<Rightarrow> string \<Rightarrow> (status \<times> net_buffer) option" where
  "append_string b value = buffer_append b (Some (bytes_of_string value)) (length value)"

definition retrieveAll :: "net_buffer \<Rightarrow> net_buffer" where
  "retrieveAll b = b\<lparr>nb_read := 0, nb_write := 0\<rparr>"

definition retrieve :: "net_buffer \<Rightarrow> nat \<Rightarrow> status \<times> net_buffer" where
  "retrieve b len =
     (if len > readableBytes b
      then (status_error InvalidArgument ''buffer retrieve exceeds readable bytes'', b)
      else if len = readableBytes b then (status_ok, retrieveAll b)
      else (status_ok, b\<lparr>nb_read := nb_read b + len\<rparr>))"

definition retrieveAllAsString :: "net_buffer \<Rightarrow> string \<times> net_buffer" where
  "retrieveAllAsString b = (string_of_bytes (take (readableBytes b) (peek b)), retrieveAll b)"

section \<open>Invariant and contents\<close>

definition buffer_inv :: "net_buffer \<Rightarrow> bool" where
  "buffer_inv b \<longleftrightarrow> nb_read b \<le> nb_write b \<and> nb_write b \<le> length (nb_store b) \<and> nb_store b \<noteq> []"

definition contents :: "net_buffer \<Rightarrow> bytes" where
  "contents b = take (readableBytes b) (peek b)"

lemma length_contents: "buffer_inv b \<Longrightarrow> length (contents b) = readableBytes b"
  by (auto simp: buffer_inv_def contents_def readableBytes_def peek_def)

lemma contents_alt: "contents b = drop (nb_read b) (take (nb_write b) (nb_store b))"
  by (simp add: contents_def readableBytes_def peek_def drop_take)

lemma new_buffer_inv: "buffer_inv (new_buffer n)" "contents (new_buffer n) = []"
  by (simp_all add: buffer_inv_def new_buffer_def contents_alt)

lemma move_to_front_props:
  assumes "buffer_inv b"
  shows "buffer_inv (move_to_front b)" "contents (move_to_front b) = contents b"
    "length (nb_store (move_to_front b)) = length (nb_store b)"
    "nb_read (move_to_front b) = 0" "nb_write (move_to_front b) = readableBytes b"
  using assms
  by (auto simp: buffer_inv_def move_to_front_def Let_def readableBytes_def contents_alt min_def)

lemma resize_store_props:
  assumes "buffer_inv b" "nb_write b \<le> n" "0 < n"
  shows "buffer_inv (resize_store n b)" "contents (resize_store n b) = contents b"
    "length (nb_store (resize_store n b)) = n"
    "nb_read (resize_store n b) = nb_read b" "nb_write (resize_store n b) = nb_write b"
  using assms
  by (auto simp: buffer_inv_def resize_store_def contents_alt min_def take_append)

lemma ensureWritableBytes_props:
  assumes "buffer_inv b" "0 < len"
  shows "buffer_inv (ensureWritableBytes len b)" "contents (ensureWritableBytes len b) = contents b"
    "len \<le> writableBytes (ensureWritableBytes len b)"
proof -
  let ?c = "if nb_read b \<noteq> 0 then move_to_front b else b"
  have c: "buffer_inv ?c" "contents ?c = contents b"
    using assms move_to_front_props by auto
  note r = resize_store_props [OF c(1), of "nb_write ?c + len"]
  note m = move_to_front_props [OF assms(1)]
  show "buffer_inv (ensureWritableBytes len b)" "contents (ensureWritableBytes len b) = contents b"
    using assms r(1,2) m(1,2) c(2) by (simp_all add: ensureWritableBytes_def Let_def)
  show "len \<le> writableBytes (ensureWritableBytes len b)"
    using assms r(3,5) m(3,5)
    by (auto simp: ensureWritableBytes_def Let_def writableBytes_def readableBytes_def buffer_inv_def)
qed

lemma memcpy_at_props:
  assumes "buffer_inv b" "length src \<le> writableBytes b"
  shows "\<exists>store. memcpy_at (nb_store b) (nb_write b) src = Some store \<and>
    buffer_inv (b\<lparr>nb_store := store, nb_write := nb_write b + length src\<rparr>) \<and>
    contents (b\<lparr>nb_store := store, nb_write := nb_write b + length src\<rparr>) = contents b @ src"
  using assms
  by (auto simp: memcpy_at_def buffer_inv_def writableBytes_def contents_alt min_def)

text \<open>Appending to a valid buffer always succeeds and never copies outside of the storage.\<close>

lemma append_bytes_props:
  assumes "buffer_inv b"
  shows "\<exists>b'. append_bytes b data = Some (status_ok, b') \<and> buffer_inv b' \<and> contents b' = contents b @ data"
proof (cases "data = []")
  case True
  with assms show ?thesis by (simp add: append_bytes_def buffer_append_def)
next
  case False
  then have len: "0 < length data" by simp
  note e = ensureWritableBytes_props [OF assms len]
  from memcpy_at_props [OF e(1,3)] e(2) False show ?thesis
    by (auto simp: append_bytes_def buffer_append_def Let_def)
qed

lemma retrieve_props:
  assumes "buffer_inv b"
  shows "buffer_inv (snd (retrieve b n))"
    "contents (snd (retrieve b n)) = (if n \<le> readableBytes b then drop n (contents b) else contents b)"
    "isOk (fst (retrieve b n)) \<longleftrightarrow> n \<le> readableBytes b"
  using assms
  by (auto simp: retrieve_def retrieveAll_def buffer_inv_def readableBytes_def contents_alt drop_drop add.commute)

section \<open>The contract of a byte queue\<close>

datatype 'b queue_op = Push "'b list" | Pop nat

fun pushed :: "'b queue_op list \<Rightarrow> 'b list" where
  "pushed [] = []"
| "pushed (Push xs # ops) = xs @ pushed ops"
| "pushed (Pop n # ops) = pushed ops"

locale byte_queue =
  fixes push :: "'q \<Rightarrow> 'b list \<Rightarrow> 'q"
    and pop :: "'q \<Rightarrow> nat \<Rightarrow> 'q"
    and abs_queue :: "'q \<Rightarrow> 'b list"
    and valid :: "'q \<Rightarrow> bool"
  assumes valid_push: "valid q \<Longrightarrow> valid (push q xs)"
    and valid_pop: "valid q \<Longrightarrow> valid (pop q n)"
    and abs_push: "valid q \<Longrightarrow> abs_queue (push q xs) = abs_queue q @ xs"
    and abs_pop: "valid q \<Longrightarrow>
      abs_queue (pop q n) = (if n \<le> length (abs_queue q) then drop n (abs_queue q) else abs_queue q)"
begin

definition queue_step :: "'q \<Rightarrow> 'b queue_op \<Rightarrow> 'b list \<times> 'q" where
  "queue_step q op = (case op of
      Push xs \<Rightarrow> ([], push q xs)
    | Pop n \<Rightarrow> (if n \<le> length (abs_queue q) then take n (abs_queue q) else [], pop q n))"

lemma queue_step_props:
  assumes "valid q"
  shows "valid (snd (queue_step q op))"
    "fst (queue_step q op) @ abs_queue (snd (queue_step q op)) = abs_queue q @ pushed [op]"
  using assms
  by (cases op; simp add: queue_step_def valid_push valid_pop abs_push abs_pop)+

text \<open>Over any sequence of operations, what was taken out and what is left is what was put in.\<close>

lemma queue_fifo:
  "valid q \<Longrightarrow>
     valid (snd (run_list queue_step q ops)) \<and>
     fst (run_list queue_step q ops) @ abs_queue (snd (run_list queue_step q ops)) =
       abs_queue q @ pushed ops"
proof (induction ops arbitrary: q)
  case (Cons op ops)
  have "pushed (op # ops) = pushed [op] @ pushed ops"
    by (cases op) simp_all
  with Cons.IH [OF queue_step_props(1) [OF Cons.prems], of op] queue_step_props(2) [OF Cons.prems, of op]
  show ?case by (simp add: split_beta)
qed simp

end

definition buffer_push :: "net_buffer \<Rightarrow> bytes \<Rightarrow> net_buffer" where
  "buffer_push b data = snd (the (append_bytes b data))"

definition buffer_pop :: "net_buffer \<Rightarrow> nat \<Rightarrow> net_buffer" where
  "buffer_pop b n = snd (retrieve b n)"

lemma buffer_push_props:
  assumes "buffer_inv b"
  shows "buffer_inv (buffer_push b data)" "contents (buffer_push b data) = contents b @ data"
  using append_bytes_props [OF assms, of data] by (auto simp: buffer_push_def)

interpretation nb: byte_queue buffer_push buffer_pop contents buffer_inv
  by unfold_locales
    (auto simp: buffer_push_props buffer_pop_def retrieve_props length_contents split: if_splits)

section \<open>Properties\<close>

definition buffer_step :: "net_buffer \<Rightarrow> byte queue_op \<Rightarrow> bytes \<times> net_buffer" where
  "buffer_step b op = (case op of
      Push data \<Rightarrow> ([], snd (the (append_bytes b data)))
    | Pop n \<Rightarrow> (if isOk (fst (retrieve b n)) then take n (peek b) else [], snd (retrieve b n)))"

lemma readable_peek: "buffer_inv b \<Longrightarrow> n \<le> readableBytes b \<Longrightarrow> n \<le> length (peek b)"
  by (auto simp: buffer_inv_def readableBytes_def peek_def)

lemma buffer_step_queue: "buffer_inv b \<Longrightarrow> buffer_step b op = nb.queue_step b op"
  by (cases op)
    (auto simp: buffer_step_def nb.queue_step_def buffer_push_def buffer_pop_def retrieve_props
      length_contents contents_def min_def readable_peek)

lemma run_buffer_step:
  "buffer_inv b \<Longrightarrow> run_list buffer_step b ops = run_list nb.queue_step b ops"
proof (induction ops arbitrary: b)
  case (Cons op ops)
  then show ?case
    by (simp add: buffer_step_queue nb.queue_step_props(1) split_beta)
qed simp

text \<open>
  C30. The buffer is a FIFO byte queue: starting from a new buffer of any size, for any sequence of
  \<open>append\<close> and \<open>retrieve\<close> calls, the bytes retrieved so far followed by the bytes still readable are
  exactly the bytes appended, in order; compaction and growth lose, duplicate or reorder nothing,
  and the indices stay inside the storage.
\<close>

theorem buffer_refines_fifo:
  "fst (run_list buffer_step (new_buffer n) ops) @ contents (snd (run_list buffer_step (new_buffer n) ops)) =
     pushed ops \<and>
   buffer_inv (snd (run_list buffer_step (new_buffer n) ops))"
  using nb.queue_fifo [OF new_buffer_inv(1) [of n], of ops] run_buffer_step [OF new_buffer_inv(1) [of n], of ops]
  by (simp add: new_buffer_inv(2))

text \<open>
  \<open>append\<close> is safe: on a buffer whose indices are valid and on a null pointer or \<open>len\<close> readable
  bytes it never copies outside of the storage; a null pointer with a length is refused with
  \<open>InvalidArgument\<close> and changes nothing, everything else succeeds and puts the bytes at the end.
\<close>

theorem append_safe:
  assumes "buffer_inv b" and "case data of None \<Rightarrow> True | Some bs \<Rightarrow> len \<le> length bs"
  shows "buffer_append b data len =
           Some (status_error InvalidArgument ''buffer append input is null'', b) \<and> data = None \<and> len \<noteq> 0 \<or>
         (\<exists>b'. buffer_append b data len = Some (status_ok, b') \<and> buffer_inv b' \<and>
            contents b' = contents b @ (case data of None \<Rightarrow> [] | Some bs \<Rightarrow> take len bs))"
proof (cases data)
  case None
  with assms(1) show ?thesis by (cases "len = 0") (auto simp: buffer_append_def)
next
  case (Some bs)
  then have "buffer_append b data len = append_bytes b (take len bs)"
    using assms(2) by (auto simp: buffer_append_def append_bytes_def)
  with append_bytes_props [OF assms(1), of "take len bs"] Some show ?thesis by auto
qed

theorem append_safe_witness:
  "\<exists>b'. buffer_append (new_buffer 1) (Some [1, 2, 3]) 2 = Some (status_ok, b') \<and> contents b' = [1, 2]"
  using append_safe [where b = "new_buffer 1" and data = "Some [1, 2, 3]" and len = 2]
  by (auto simp: new_buffer_inv)

end
