(* ===== verification/Session_Core.thy ===== *)
theory Session_Core
  imports Frame_Decoder Net_Buffer "HOL-Library.Sublist"
begin

text \<open>
  A connection (\<open>include/liteim/net/Session.hpp\<close>, \<open>src/net/Session.cpp\<close>). The record holds the fields
  of the class that its operations read or write; the channel is represented by its existence, its
  registration and its two interest flags. Work for the owner loop is queued in \<open>ss_tasks\<close>, the part
  of the loop's queue that belongs to this session. \<open>in_loop\<close> says whether the caller is on the
  owner's thread (\<open>isInLoopThread\<close>). The results of \<open>read\<close> and \<open>write\<close> are arguments. Callbacks are
  functions on the session and a world \<open>'w\<close>. The last fields are history: how often the close
  callback ran, the bytes handed to the kernel, and the bytes of the packets accepted for output.
\<close>

section \<open>State\<close>

datatype session_state = kNew | kStarted | kClosing | kClosed

datatype session_task = TaskStart | TaskSend bytes | TaskClose | TaskResetChannel

definition kSessionDefaultOutputHighWaterMark :: nat where
  "kSessionDefaultOutputHighWaterMark = 4 * 1024 * 1024"

record session =
  ss_id :: u64
  ss_peer_ip :: string
  ss_fd :: bool
  ss_channel :: bool
  ss_registered :: bool
  ss_reading :: bool
  ss_writing :: bool
  ss_decoder :: frame_decoder
  ss_output :: net_buffer
  ss_high_water_mark :: nat
  ss_closed :: bool
  ss_state :: session_state
  ss_last_active :: int
  ss_tasks :: "session_task list"
  ss_close_calls :: nat
  ss_wire :: bytes
  ss_accepted :: bytes

record 'w session_callbacks =
  on_message :: "(packet \<Rightarrow> session \<times> 'w \<Rightarrow> session \<times> 'w) option"
  on_close :: "(session \<times> 'w \<Rightarrow> session \<times> 'w) option"

definition new_session :: "u64 \<Rightarrow> string \<Rightarrow> int \<Rightarrow> session" where
  "new_session i peer_ip now_ms =
     \<lparr>ss_id = i, ss_peer_ip = peer_ip, ss_fd = True, ss_channel = True, ss_registered = False,
      ss_reading = False, ss_writing = False, ss_decoder = new_decoder,
      ss_output = new_buffer kDefaultBufferSize,
      ss_high_water_mark = kSessionDefaultOutputHighWaterMark, ss_closed = False, ss_state = kNew,
      ss_last_active = now_ms, ss_tasks = [], ss_close_calls = 0, ss_wire = [], ss_accepted = []\<rparr>"

section \<open>Operations on the owner's thread\<close>

definition closeInLoop :: "'w session_callbacks \<Rightarrow> session \<times> 'w \<Rightarrow> session \<times> 'w" where
  "closeInLoop cbs sw =
     (let (s, w) = sw in
      if ss_closed s then (s, w)
      else
        let s = s\<lparr>ss_closed := True\<rparr>;
            s = s\<lparr>ss_state := kClosing\<rparr>;
            s = (if ss_channel s \<and> ss_registered s then s\<lparr>ss_registered := False\<rparr> else s);
            s = s\<lparr>ss_fd := False\<rparr>;
            s = s\<lparr>ss_output := retrieveAll (ss_output s)\<rparr>;
            s = s\<lparr>ss_tasks := ss_tasks s @ [TaskResetChannel]\<rparr>;
            (s, w) = (case on_close cbs of
                        None \<Rightarrow> (s, w)
                      | Some f \<Rightarrow> f (s\<lparr>ss_close_calls := ss_close_calls s + 1\<rparr>, w))
        in (s\<lparr>ss_state := kClosed\<rparr>, w))"

definition session_startInLoop :: "session \<Rightarrow> session" where
  "session_startInLoop s =
     (if ss_state s \<noteq> kNew \<or> ss_closed s then s
      else s\<lparr>ss_reading := True, ss_registered := True, ss_state := kStarted\<rparr>)"

text \<open>\<open>append\<close> on a valid buffer never leaves the storage (\<open>append_bytes_props\<close>), hence \<open>the\<close>.\<close>

definition sendEncodedInLoop ::
  "'w session_callbacks \<Rightarrow> bytes \<Rightarrow> session \<times> 'w \<Rightarrow> status \<times> session \<times> 'w" where
  "sendEncodedInLoop cbs encoded sw =
     (let (s, w) = sw in
      if ss_state s \<noteq> kStarted \<or> ss_closed s \<or> encoded = []
      then (status_error InvalidArgument ''session is not writable'', s, w)
      else
        let pending_bytes = readableBytes (ss_output s) in
        if length encoded > ss_high_water_mark s \<or> pending_bytes > ss_high_water_mark s - length encoded
        then (status_error ResourceExhausted ''session output high water mark exceeded'', closeInLoop cbs (s, w))
        else
          let (st, out) = the (append_bytes (ss_output s) encoded) in
          if \<not> isOk st then (st, closeInLoop cbs (s, w))
          else
            let s = s\<lparr>ss_output := out, ss_accepted := ss_accepted s @ encoded\<rparr>;
                s = (if ss_state s = kStarted \<and> ss_channel s \<and> \<not> ss_writing s
                     then s\<lparr>ss_writing := True\<rparr> else s)
            in (status_ok, s, w))"

datatype read_result = ReadBytes bytes | ReadEof | ReadIntr | ReadWouldBlock | ReadFailed

text \<open>The loop over the packets of one chunk: \<open>None\<close> when it returned because the session closed.\<close>

fun deliver :: "'w session_callbacks \<Rightarrow> int \<Rightarrow> packet list \<Rightarrow> session \<times> 'w \<Rightarrow> bool \<times> session \<times> 'w" where
  "deliver cbs now_ms [] sw = (True, sw)"
| "deliver cbs now_ms (p # ps) (s, w) =
     (if ss_closed s then (False, s, w)
      else
        let s = s\<lparr>ss_last_active := now_ms\<rparr> in
        case on_message cbs of
          None \<Rightarrow> deliver cbs now_ms ps (s, w)
        | Some f \<Rightarrow> deliver cbs now_ms ps (f p (s, w)))"

text \<open>An exhausted list of results is a socket that has nothing more to read.\<close>

fun read_loop :: "'w session_callbacks \<Rightarrow> int \<Rightarrow> read_result list \<Rightarrow> session \<times> 'w \<Rightarrow> session \<times> 'w" where
  "read_loop cbs now_ms [] sw = sw"
| "read_loop cbs now_ms (r # rs) (s, w) =
     (if \<not> ss_fd s then (s, w)
      else (case r of
          ReadBytes bs \<Rightarrow>
            let (st, packets, d) = the (feed_bytes (ss_decoder s) bs);
                s = s\<lparr>ss_decoder := d\<rparr>
            in if \<not> isOk st then closeInLoop cbs (s, w)
               else (case deliver cbs now_ms packets (s, w) of
                       (True, sw) \<Rightarrow> read_loop cbs now_ms rs sw
                     | (False, sw) \<Rightarrow> sw)
        | ReadEof \<Rightarrow> closeInLoop cbs (s, w)
        | ReadIntr \<Rightarrow> read_loop cbs now_ms rs (s, w)
        | ReadWouldBlock \<Rightarrow> (s, w)
        | ReadFailed \<Rightarrow> closeInLoop cbs (s, w)))"

definition session_handleRead ::
  "'w session_callbacks \<Rightarrow> int \<Rightarrow> read_result list \<Rightarrow> session \<times> 'w \<Rightarrow> session \<times> 'w" where
  "session_handleRead cbs now_ms reads sw =
     (let (s, w) = sw in
      if ss_state s \<noteq> kStarted \<or> ss_closed s \<or> \<not> ss_fd s then (s, w)
      else read_loop cbs now_ms reads (s, w))"

datatype write_result = Wrote nat | WroteNothing | WriteIntr | WriteWouldBlock | WriteFailed

text \<open>
  The write loop: \<open>True\<close> when it ended normally, \<open>False\<close> when it closed the session. An exhausted
  list of results is a socket that accepts nothing more.
\<close>

fun write_loop :: "'w session_callbacks \<Rightarrow> write_result list \<Rightarrow> session \<times> 'w \<Rightarrow> bool \<times> session \<times> 'w" where
  "write_loop cbs [] sw = (True, sw)"
| "write_loop cbs (r # rs) (s, w) =
     (if readableBytes (ss_output s) = 0 then (True, s, w)
      else (case r of
          Wrote n \<Rightarrow>
            let (st, out) = retrieve (ss_output s) n;
                s = s\<lparr>ss_wire := ss_wire s @ take n (contents (ss_output s)), ss_output := out\<rparr>
            in if \<not> isOk st then (False, closeInLoop cbs (s, w)) else write_loop cbs rs (s, w)
        | WroteNothing \<Rightarrow> (True, s, w)
        | WriteIntr \<Rightarrow> write_loop cbs rs (s, w)
        | WriteWouldBlock \<Rightarrow> (True, s, w)
        | WriteFailed \<Rightarrow> (False, closeInLoop cbs (s, w))))"

definition session_handleWrite ::
  "'w session_callbacks \<Rightarrow> write_result list \<Rightarrow> session \<times> 'w \<Rightarrow> session \<times> 'w" where
  "session_handleWrite cbs writes sw =
     (let (s, w) = sw in
      if ss_state s \<noteq> kStarted \<or> ss_closed s \<or> \<not> ss_fd s then (s, w)
      else case write_loop cbs writes (s, w) of
          (False, sw) \<Rightarrow> sw
        | (True, s, w) \<Rightarrow>
            if readableBytes (ss_output s) = 0 \<and> ss_channel s \<and> ss_writing s
            then (s\<lparr>ss_writing := False\<rparr>, w) else (s, w))"

section \<open>Operations of any thread\<close>

definition session_start :: "bool \<Rightarrow> session \<Rightarrow> session" where
  "session_start in_loop s =
     (if in_loop then session_startInLoop s else s\<lparr>ss_tasks := ss_tasks s @ [TaskStart]\<rparr>)"

definition session_close :: "'w session_callbacks \<Rightarrow> bool \<Rightarrow> session \<times> 'w \<Rightarrow> session \<times> 'w" where
  "session_close cbs in_loop sw =
     (if in_loop then closeInLoop cbs sw
      else ((fst sw)\<lparr>ss_tasks := ss_tasks (fst sw) @ [TaskClose]\<rparr>, snd sw))"

definition sendPacket ::
  "'w session_callbacks \<Rightarrow> bool \<Rightarrow> packet \<Rightarrow> session \<times> 'w \<Rightarrow> status \<times> session \<times> 'w" where
  "sendPacket cbs in_loop p sw =
     (let (s, w) = sw in
      if ss_closed s then (status_error NotFound ''session is closed'', s, w)
      else case encodePacket p of
          Inl st \<Rightarrow> (st, s, w)
        | Inr encoded \<Rightarrow>
            if length encoded > ss_high_water_mark s
            then (status_error ResourceExhausted ''session output high water mark would be exceeded'',
                  session_close cbs in_loop (s, w))
            else if in_loop then sendEncodedInLoop cbs encoded (s, w)
            else (status_ok, s\<lparr>ss_tasks := ss_tasks s @ [TaskSend encoded]\<rparr>, w))"

definition setOutputHighWaterMark :: "nat \<Rightarrow> session \<Rightarrow> session option" where
  "setOutputHighWaterMark mark s = (if mark = 0 then None else Some (s\<lparr>ss_high_water_mark := mark\<rparr>))"

text \<open>The owner loop runs the oldest task of the session.\<close>

definition run_session_task :: "'w session_callbacks \<Rightarrow> session \<times> 'w \<Rightarrow> session \<times> 'w" where
  "run_session_task cbs sw =
     (let (s, w) = sw in
      case ss_tasks s of
        [] \<Rightarrow> (s, w)
      | t # ts \<Rightarrow>
          let s = s\<lparr>ss_tasks := ts\<rparr> in
          (case t of
             TaskStart \<Rightarrow> (session_startInLoop s, w)
           | TaskSend encoded \<Rightarrow> snd (sendEncodedInLoop cbs encoded (s, w))
           | TaskClose \<Rightarrow> closeInLoop cbs (s, w)
           | TaskResetChannel \<Rightarrow> (if ss_closed s then s\<lparr>ss_channel := False\<rparr> else s, w)))"

section \<open>Invariant\<close>

text \<open>
  An open session has its descriptor and channel, is registered exactly when started, keeps its
  pending output within the high water mark, and the bytes accepted for output are those handed to
  the kernel followed by those buffered. A closed session has released all of it and its close
  callback, if there is one, has been called once.
\<close>

definition session_inv :: "'w session_callbacks \<Rightarrow> session \<Rightarrow> bool" where
  "session_inv cbs s \<longleftrightarrow>
     buffer_inv (ss_output s) \<and>
     ss_close_calls s = (if ss_closed s \<and> on_close cbs \<noteq> None then 1 else 0) \<and>
     (if ss_closed s
      then contents (ss_output s) = [] \<and> \<not> ss_fd s \<and> \<not> ss_registered s \<and>
        ss_state s \<in> {kClosing, kClosed} \<and> prefix (ss_wire s) (ss_accepted s)
      else ss_fd s \<and> ss_channel s \<and> ss_state s \<in> {kNew, kStarted} \<and>
        (ss_registered s \<longleftrightarrow> ss_state s = kStarted) \<and>
        readableBytes (ss_output s) \<le> ss_high_water_mark s \<and>
        ss_accepted s = ss_wire s @ contents (ss_output s))"

text \<open>Steps only add to the output; a closed session stays closed and sends nothing more.\<close>

definition advances :: "session \<Rightarrow> session \<Rightarrow> bool" where
  "advances s s' \<longleftrightarrow> prefix (ss_wire s) (ss_wire s') \<and> prefix (ss_accepted s) (ss_accepted s') \<and>
     (ss_closed s \<longrightarrow> ss_closed s' \<and> ss_wire s' = ss_wire s \<and> ss_accepted s' = ss_accepted s)"

definition goes_to :: "'w session_callbacks \<Rightarrow> session \<Rightarrow> session \<Rightarrow> bool" where
  "goes_to cbs s s' \<longleftrightarrow> session_inv cbs s' \<and> advances s s'"

text \<open>Callbacks that use a session through its operations keep it well formed.\<close>

definition callbacks_ok :: "'w session_callbacks \<Rightarrow> bool" where
  "callbacks_ok cbs \<longleftrightarrow>
     (\<forall>f s w. on_close cbs = Some f \<longrightarrow> session_inv cbs s \<longrightarrow> goes_to cbs s (fst (f (s, w)))) \<and>
     (\<forall>f p s w. on_message cbs = Some f \<longrightarrow> session_inv cbs s \<longrightarrow> goes_to cbs s (fst (f p (s, w))))"

lemma advances_refl [simp]: "advances s s"
  by (simp add: advances_def)

lemma advances_trans: "advances s t \<Longrightarrow> advances t u \<Longrightarrow> advances s u"
  by (auto simp: advances_def)

lemma goes_to_refl: "session_inv cbs s \<Longrightarrow> goes_to cbs s s"
  by (simp add: goes_to_def)

lemma goes_to_trans: "goes_to cbs s t \<Longrightarrow> goes_to cbs t u \<Longrightarrow> goes_to cbs s u"
  by (auto simp: goes_to_def intro: advances_trans)

lemma goes_to_inv: "goes_to cbs s t \<Longrightarrow> session_inv cbs t"
  by (simp add: goes_to_def)

lemma retrieveAll_props: "buffer_inv b \<Longrightarrow> buffer_inv (retrieveAll b) \<and> contents (retrieveAll b) = []"
  by (auto simp: buffer_inv_def retrieveAll_def contents_def readableBytes_def)

lemma new_session_inv: "session_inv cbs (new_session i ip now_ms)"
  using length_contents [OF new_buffer_inv(1), of kDefaultBufferSize]
  by (simp add: session_inv_def new_session_def new_buffer_inv)

text \<open>Only the fields that the invariant mentions matter.\<close>

lemma session_inv_tasks [simp]: "session_inv cbs (s\<lparr>ss_tasks := ts\<rparr>) = session_inv cbs s"
  by (simp add: session_inv_def)

lemma session_inv_last_active [simp]: "session_inv cbs (s\<lparr>ss_last_active := t\<rparr>) = session_inv cbs s"
  by (simp add: session_inv_def)

lemma session_inv_decoder [simp]: "session_inv cbs (s\<lparr>ss_decoder := d\<rparr>) = session_inv cbs s"
  by (simp add: session_inv_def)

lemma session_inv_writing [simp]: "session_inv cbs (s\<lparr>ss_writing := b\<rparr>) = session_inv cbs s"
  by (simp add: session_inv_def)

lemma advances_irrelevant [simp]:
  "advances s (t\<lparr>ss_tasks := ts\<rparr>) = advances s t"
  "advances s (t\<lparr>ss_last_active := n\<rparr>) = advances s t"
  "advances s (t\<lparr>ss_decoder := d\<rparr>) = advances s t"
  "advances s (t\<lparr>ss_writing := b\<rparr>) = advances s t"
  "advances s (t\<lparr>ss_state := k\<rparr>) = advances s t"
  by (simp_all add: advances_def)

text \<open>Closing only needs that nothing was handed to the kernel that had not been accepted.\<close>

definition closable :: "session \<Rightarrow> bool" where
  "closable s \<longleftrightarrow> \<not> ss_closed s \<and> buffer_inv (ss_output s) \<and> ss_close_calls s = 0 \<and>
     (ss_registered s \<longrightarrow> ss_channel s) \<and> prefix (ss_wire s) (ss_accepted s)"

lemma closeInLoop_closable:
  assumes "callbacks_ok cbs" "closable s"
  shows "goes_to cbs s (fst (closeInLoop cbs (s, w)))" "ss_closed (fst (closeInLoop cbs (s, w)))"
proof -
  have "goes_to cbs s (fst (closeInLoop cbs (s, w))) \<and> ss_closed (fst (closeInLoop cbs (s, w)))"
  proof -
    have False: "\<not> ss_closed s" using assms(2) by (simp add: closable_def)
    define c where "c = (let t = s\<lparr>ss_closed := True, ss_state := kClosing\<rparr>;
        t = (if ss_channel t \<and> ss_registered t then t\<lparr>ss_registered := False\<rparr> else t)
      in t\<lparr>ss_fd := False, ss_output := retrieveAll (ss_output t), ss_tasks := ss_tasks t @ [TaskResetChannel]\<rparr>)"
    define d where "d = (case on_close cbs of None \<Rightarrow> c | Some f \<Rightarrow> c\<lparr>ss_close_calls := ss_close_calls c + 1\<rparr>)"
    define r where "r = (case on_close cbs of None \<Rightarrow> (c, w) | Some f \<Rightarrow> f (d, w))"
    have close: "closeInLoop cbs (s, w) = ((fst r)\<lparr>ss_state := kClosed\<rparr>, snd r)"
      using False
      by (simp add: closeInLoop_def Let_def r_def d_def c_def split: option.splits prod.splits)
    have d: "session_inv cbs d" "advances s d" "ss_closed d"
      using assms(2) False retrieveAll_props [of "ss_output s"]
      by (auto simp: closable_def session_inv_def advances_def d_def c_def Let_def split: option.splits)
    have "goes_to cbs d (fst r)"
      using assms(1) d(1) by (auto simp: callbacks_ok_def r_def d_def goes_to_refl split: option.splits)
    then have "session_inv cbs (fst r)" "advances d (fst r)" by (simp_all add: goes_to_def)
    moreover from this d(3) have "ss_closed (fst r)" by (simp add: advances_def)
    ultimately show ?thesis
      using close advances_trans [OF d(2)] by (auto simp: goes_to_def session_inv_def)
  qed
  then show "goes_to cbs s (fst (closeInLoop cbs (s, w)))" "ss_closed (fst (closeInLoop cbs (s, w)))"
    by simp_all
qed

lemma session_inv_closable: "session_inv cbs s \<Longrightarrow> \<not> ss_closed s \<Longrightarrow> closable s"
  by (auto simp: session_inv_def closable_def)

lemma closeInLoop_goes:
  assumes "callbacks_ok cbs" "session_inv cbs s"
  shows "goes_to cbs s (fst (closeInLoop cbs (s, w)))" "ss_closed (fst (closeInLoop cbs (s, w)))"
  using assms closeInLoop_closable [OF assms(1) session_inv_closable [OF assms(2)], of w]
  by (cases "ss_closed s"; simp add: closeInLoop_def goes_to_refl)+

lemma startInLoop_goes: "session_inv cbs s \<Longrightarrow> goes_to cbs s (session_startInLoop s)"
  by (auto simp: goes_to_def session_inv_def session_startInLoop_def advances_def)

text \<open>What a successful send does: the bytes are accepted, within the mark, and writing is enabled.\<close>

lemma sendEncoded_accept:
  assumes "session_inv cbs s" "ss_state s = kStarted" "\<not> ss_closed s" "encoded \<noteq> []"
    "length encoded + readableBytes (ss_output s) \<le> ss_high_water_mark s"
  shows "\<exists>out. sendEncodedInLoop cbs encoded (s, w) =
      (status_ok, s\<lparr>ss_output := out, ss_accepted := ss_accepted s @ encoded, ss_writing := True\<rparr>, w) \<and>
    buffer_inv out \<and> contents out = contents (ss_output s) @ encoded"
proof -
  have inv: "buffer_inv (ss_output s)" "ss_channel s"
    using assms(1,3) by (simp_all add: session_inv_def)
  from append_bytes_props [OF inv(1), of encoded] obtain out where
    out: "append_bytes (ss_output s) encoded = Some (status_ok, out)" "buffer_inv out"
      "contents out = contents (ss_output s) @ encoded" by blast
  moreover have "\<not> length encoded > ss_high_water_mark s"
    "\<not> readableBytes (ss_output s) > ss_high_water_mark s - length encoded"
    using assms(5) by simp_all
  ultimately show ?thesis
    using assms(2,3,4) inv(2)
    by (intro exI [of _ out]) (cases "ss_writing s"; simp add: sendEncodedInLoop_def Let_def)
qed

lemma sendEncodedInLoop_goes:
  assumes "callbacks_ok cbs" "session_inv cbs s"
  shows "goes_to cbs s (fst (snd (sendEncodedInLoop cbs encoded (s, w))))"
proof (cases "ss_state s \<noteq> kStarted \<or> ss_closed s \<or> encoded = []")
  case True
  with assms(2) show ?thesis by (simp add: sendEncodedInLoop_def goes_to_refl)
next
  case open_: False
  show ?thesis
  proof (cases "length encoded + readableBytes (ss_output s) \<le> ss_high_water_mark s")
    case True
    with open_ sendEncoded_accept [OF assms(2), of encoded w] obtain out where
      out: "sendEncodedInLoop cbs encoded (s, w) =
        (status_ok, s\<lparr>ss_output := out, ss_accepted := ss_accepted s @ encoded, ss_writing := True\<rparr>, w)"
        "buffer_inv out" "contents out = contents (ss_output s) @ encoded" by blast
    then have "readableBytes out = readableBytes (ss_output s) + length encoded"
      using assms(2) length_contents [of out] length_contents [of "ss_output s"] by (simp add: session_inv_def)
    with out open_ True assms(2) show ?thesis
      by (auto simp: goes_to_def session_inv_def advances_def)
  next
    case False
    then have "length encoded > ss_high_water_mark s \<or>
        readableBytes (ss_output s) > ss_high_water_mark s - length encoded" by auto
    with open_ closeInLoop_goes(1) [OF assms] show ?thesis
      by (simp add: sendEncodedInLoop_def Let_def)
  qed
qed

lemma deliver_goes:
  assumes "callbacks_ok cbs" "session_inv cbs s"
  shows "goes_to cbs s (fst (snd (deliver cbs now_ms ps (s, w))))"
  using assms(2)
proof (induction ps arbitrary: s w)
  case Nil
  then show ?case by (simp add: goes_to_refl)
next
  case (Cons p ps)
  show ?case
  proof (cases "ss_closed s")
    case True
    with Cons.prems show ?thesis by (simp add: goes_to_refl)
  next
    case False
    let ?s = "s\<lparr>ss_last_active := now_ms\<rparr>"
    have a: "goes_to cbs s ?s" using Cons.prems by (simp add: goes_to_def)
    show ?thesis
    proof (cases "on_message cbs")
      case None
      with False goes_to_trans [OF a Cons.IH [OF goes_to_inv [OF a]]] show ?thesis by simp
    next
      case (Some f)
      then have b: "goes_to cbs ?s (fst (f p (?s, w)))"
        using assms(1) goes_to_inv [OF a] by (simp add: callbacks_ok_def)
      obtain t v where f: "f p (?s, w) = (t, v)" by force
      with b have c: "goes_to cbs s t" using goes_to_trans [OF a] by simp
      with False Some f goes_to_trans [OF c Cons.IH [OF goes_to_inv [OF c]]] show ?thesis by simp
    qed
  qed
qed

lemma read_loop_goes:
  assumes "callbacks_ok cbs" "session_inv cbs s"
  shows "goes_to cbs s (fst (read_loop cbs now_ms rs (s, w)))"
  using assms(2)
proof (induction rs arbitrary: s w)
  case Nil
  then show ?case by (simp add: goes_to_refl)
next
  case (Cons r rs)
  show ?case
  proof (cases r)
    case (ReadBytes bs)
    obtain st ps d where feed: "feed_bytes (ss_decoder s) bs = Some (st, ps, d)"
      by (cases "the (feed_bytes (ss_decoder s) bs)") (auto simp: feed_bytes_eq split: prod.splits)
    let ?s = "s\<lparr>ss_decoder := d\<rparr>"
    have a: "goes_to cbs s ?s" using Cons.prems by (simp add: goes_to_def)
    note close = goes_to_trans [OF a closeInLoop_goes(1) [OF assms(1) goes_to_inv [OF a], of w]]
    note del = goes_to_trans [OF a deliver_goes [OF assms(1) goes_to_inv [OF a], of now_ms ps w]]
    obtain go t v where dl: "deliver cbs now_ms ps (?s, w) = (go, t, v)" by (metis prod_cases3)
    with del have "goes_to cbs s t" by simp
    from this goes_to_trans [OF this Cons.IH [OF goes_to_inv [OF this]]] show ?thesis
      using ReadBytes feed close dl Cons.prems by (auto simp: goes_to_refl Let_def split: bool.splits)
  qed (use Cons closeInLoop_goes(1) [OF assms(1)] in \<open>auto simp: goes_to_refl\<close>)
qed

lemma handleRead_goes:
  "callbacks_ok cbs \<Longrightarrow> session_inv cbs s \<Longrightarrow> goes_to cbs s (fst (session_handleRead cbs now_ms rs (s, w)))"
  by (simp add: session_handleRead_def goes_to_refl read_loop_goes)

text \<open>One write: what the kernel takes moves from the buffer to the wire.\<close>

lemma wrote_goes:
  assumes "session_inv cbs s" "\<not> ss_closed s"
  shows "goes_to cbs s (s\<lparr>ss_wire := ss_wire s @ take n (contents (ss_output s)),
      ss_output := snd (retrieve (ss_output s) n)\<rparr>) \<or> \<not> isOk (fst (retrieve (ss_output s) n))"
proof (cases "isOk (fst (retrieve (ss_output s) n))")
  case True
  have b: "buffer_inv (ss_output s)" using assms(1) by (simp add: session_inv_def)
  note r = retrieve_props [OF b, of n]
  from True have "n \<le> readableBytes (ss_output s)" using r(3) by simp
  with r(2) have c: "contents (snd (retrieve (ss_output s) n)) = drop n (contents (ss_output s))" by simp
  with r(1) length_contents [OF r(1)] length_contents [OF b]
  have "readableBytes (snd (retrieve (ss_output s) n)) \<le> readableBytes (ss_output s)" by simp
  with r(1) c assms show ?thesis
    by (auto simp: goes_to_def session_inv_def advances_def)
qed simp

lemma write_loop_goes:
  assumes "callbacks_ok cbs" "session_inv cbs s"
  shows "goes_to cbs s (fst (snd (write_loop cbs rs (s, w))))"
  using assms(2)
proof (induction rs arbitrary: s w)
  case Nil
  then show ?case by (simp add: goes_to_refl)
next
  case (Cons r rs)
  show ?case
  proof (cases "readableBytes (ss_output s) = 0 \<or> (\<forall>n. r \<noteq> Wrote n)")
    case True
    with Cons closeInLoop_goes(1) [OF assms(1) Cons.prems, of w] show ?thesis
      by (cases r) (auto simp: goes_to_refl)
  next
    case False
    then obtain n where r: "r = Wrote n" "readableBytes (ss_output s) \<noteq> 0" by blast
    let ?s = "s\<lparr>ss_wire := ss_wire s @ take n (contents (ss_output s)), ss_output := snd (retrieve (ss_output s) n)\<rparr>"
    have op: "\<not> ss_closed s" "buffer_inv (ss_output s)"
      using Cons.prems r(2) length_contents [of "ss_output s"] by (auto simp: session_inv_def split: if_splits)
    show ?thesis
    proof (cases "isOk (fst (retrieve (ss_output s) n))")
      case True
      with wrote_goes [OF Cons.prems op(1), of n] have "goes_to cbs s ?s" by simp
      from goes_to_trans [OF this Cons.IH [OF goes_to_inv [OF this]], of w] True r show ?thesis
        by (simp add: split_beta Let_def)
    next
      case False
      have "closable ?s" "advances s ?s"
        using Cons.prems op retrieve_props(1) [OF op(2), of n]
        by (auto simp: session_inv_def closable_def advances_def take_is_prefix)
      with closeInLoop_closable(1) [OF assms(1), of ?s w] False r show ?thesis
        by (auto simp: split_beta Let_def goes_to_def intro: advances_trans)
    qed
  qed
qed

lemma handleWrite_goes:
  assumes "callbacks_ok cbs" "session_inv cbs s"
  shows "goes_to cbs s (fst (session_handleWrite cbs rs (s, w)))"
proof -
  obtain go t v where wl: "write_loop cbs rs (s, w) = (go, t, v)" by (metis prod_cases3)
  with write_loop_goes [OF assms, of rs w] have "goes_to cbs s t" by simp
  then have "goes_to cbs s (t\<lparr>ss_writing := False\<rparr>)" by (simp add: goes_to_def)
  with \<open>goes_to cbs s t\<close> wl show ?thesis
    by (auto simp: session_handleWrite_def goes_to_refl [OF assms(2)] split: bool.splits)
qed

lemma session_close_goes:
  "callbacks_ok cbs \<Longrightarrow> session_inv cbs s \<Longrightarrow> goes_to cbs s (fst (session_close cbs in_loop (s, w)))"
  by (auto simp: session_close_def closeInLoop_goes) (simp add: goes_to_def)

lemma sendPacket_goes:
  "callbacks_ok cbs \<Longrightarrow> session_inv cbs s \<Longrightarrow> goes_to cbs s (fst (snd (sendPacket cbs in_loop p (s, w))))"
  by (auto simp: sendPacket_def goes_to_refl session_close_goes sendEncodedInLoop_goes split: sum.splits)
    (simp add: goes_to_def)

lemma run_session_task_goes:
  assumes "callbacks_ok cbs" "session_inv cbs s"
  shows "goes_to cbs s (fst (run_session_task cbs (s, w)))"
proof (cases "ss_tasks s")
  case Nil
  with assms(2) show ?thesis by (simp add: run_session_task_def goes_to_refl)
next
  case (Cons t ts)
  let ?s = "s\<lparr>ss_tasks := ts\<rparr>"
  have a: "goes_to cbs s ?s" using assms(2) by (simp add: goes_to_def)
  note b = goes_to_inv [OF a]
  have "goes_to cbs ?s (?s\<lparr>ss_channel := False\<rparr>)" if "ss_closed s"
    using b that by (auto simp: goes_to_def session_inv_def advances_def)
  with Cons goes_to_trans [OF a] startInLoop_goes [OF b] closeInLoop_goes(1) [OF assms(1) b]
    sendEncodedInLoop_goes [OF assms(1) b] a show ?thesis
    by (cases t) (auto simp: run_session_task_def Let_def)
qed

section \<open>Life of a session\<close>

datatype session_event =
    EvStart bool | EvClose bool | EvSend bool packet | EvRead int "read_result list"
  | EvWrite "write_result list" | EvTask

fun session_step :: "'w session_callbacks \<Rightarrow> session_event \<Rightarrow> session \<times> 'w \<Rightarrow> session \<times> 'w" where
  "session_step cbs (EvStart in_loop) (s, w) = (session_start in_loop s, w)"
| "session_step cbs (EvClose in_loop) sw = session_close cbs in_loop sw"
| "session_step cbs (EvSend in_loop p) sw = snd (sendPacket cbs in_loop p sw)"
| "session_step cbs (EvRead now_ms reads) sw = session_handleRead cbs now_ms reads sw"
| "session_step cbs (EvWrite writes) sw = session_handleWrite cbs writes sw"
| "session_step cbs EvTask sw = run_session_task cbs sw"

lemma session_step_goes:
  assumes "callbacks_ok cbs" "session_inv cbs s"
  shows "goes_to cbs s (fst (session_step cbs e (s, w)))"
proof (cases e)
  case (EvStart b)
  then show ?thesis
    using assms startInLoop_goes by (cases b) (auto simp: session_start_def goes_to_def)
qed (simp_all add: assms session_close_goes sendPacket_goes handleRead_goes handleWrite_goes
      run_session_task_goes)

lemma session_run_goes:
  "callbacks_ok cbs \<Longrightarrow> session_inv cbs s \<Longrightarrow> goes_to cbs s (fst (fold (session_step cbs) es (s, w)))"
proof (induction es arbitrary: s w)
  case Nil
  then show ?case by (simp add: goes_to_refl)
next
  case (Cons e es)
  obtain t v where step: "session_step cbs e (s, w) = (t, v)" by force
  with session_step_goes [OF Cons.prems, of e w] have t: "goes_to cbs s t" by simp
  from goes_to_trans [OF t Cons.IH [OF Cons.prems(1) goes_to_inv [OF t]]] step show ?case by simp
qed

lemma marked_session_inv:
  "setOutputHighWaterMark m (new_session i ip t0) = Some s \<Longrightarrow> session_inv cbs s \<and> ss_high_water_mark s = m"
  using new_session_inv [of cbs i ip t0] length_contents [OF new_buffer_inv(1), of kDefaultBufferSize]
  by (auto simp: setOutputHighWaterMark_def session_inv_def new_session_def new_buffer_inv split: if_splits)

section \<open>Sending and delivering\<close>

lemma sendPacket_accepts:
  assumes "session_inv cbs s" "sendPacket cbs True p (s, w) = (st, s', w')" "isOk st"
  shows "\<exists>bs. encodePacket p = Inr bs \<and> ss_accepted s' = ss_accepted s @ bs"
proof -
  obtain bs where bs: "encodePacket p = Inr bs" "\<not> length bs > ss_high_water_mark s" "\<not> ss_closed s"
    "sendEncodedInLoop cbs bs (s, w) = (st, s', w')"
  proof (cases "encodePacket p")
    case (Inl e)
    then have "\<not> isOk e"
      by (auto simp: encodePacket_alt Let_def split: if_splits)
    with Inl assms show ?thesis by (auto simp: sendPacket_def split: if_splits)
  next
    case (Inr bs)
    with assms that show ?thesis by (auto simp: sendPacket_def split: if_splits)
  qed
  have "ss_state s = kStarted" "bs \<noteq> []" "length bs + readableBytes (ss_output s) \<le> ss_high_water_mark s"
    using bs assms(3) by (auto simp: sendEncodedInLoop_def Let_def split: if_splits)
  from sendEncoded_accept [OF assms(1) this(1) bs(3) this(2,3), of w] bs show ?thesis by auto
qed

fun send_all :: "'w session_callbacks \<Rightarrow> packet list \<Rightarrow> session \<times> 'w \<Rightarrow> (session \<times> 'w) option" where
  "send_all cbs [] sw = Some sw"
| "send_all cbs (p # ps) sw =
     (case sendPacket cbs True p sw of (st, sw') \<Rightarrow> if isOk st then send_all cbs ps sw' else None)"

lemma send_all_accepts:
  assumes "callbacks_ok cbs" "session_inv cbs s" "send_all cbs ps (s, w) = Some (s', w')"
  shows "\<exists>bss. list_all2 (\<lambda>p bs. encodePacket p = Inr bs) ps bss \<and> ss_accepted s' = ss_accepted s @ concat bss \<and>
    session_inv cbs s'"
  using assms(2,3)
proof (induction ps arbitrary: s w)
  case Nil
  then show ?case by simp
next
  case (Cons p ps)
  from Cons.prems(2) obtain st t v where send: "sendPacket cbs True p (s, w) = (st, t, v)" "isOk st"
    "send_all cbs ps (t, v) = Some (s', w')" by (auto split: prod.splits if_splits)
  have "session_inv cbs t"
    using goes_to_inv [OF sendPacket_goes [OF assms(1) Cons.prems(1), of True p w]] send(1) by simp
  from Cons.IH [OF this send(3)] sendPacket_accepts [OF Cons.prems(1) send(1,2)] show ?case
    by (force simp: list_all2_Cons1)
qed

text \<open>A message callback that only logs leaves the session alone.\<close>

definition logs_messages :: "packet list session_callbacks \<Rightarrow> bool" where
  "logs_messages cbs \<longleftrightarrow> on_message cbs = Some (\<lambda>p (s, w). (s, w @ [p]))"

lemma deliver_logs:
  "logs_messages cbs \<Longrightarrow> \<not> ss_closed s \<Longrightarrow>
     \<exists>t. deliver cbs now_ms ps (s, w) = (True, s\<lparr>ss_last_active := t\<rparr>, w @ ps)"
proof (induction ps arbitrary: s w)
  case Nil
  then show ?case by (auto intro!: exI [of _ "ss_last_active s"])
next
  case (Cons p ps)
  from Cons.IH [of "s\<lparr>ss_last_active := now_ms\<rparr>" "w @ [p]"] Cons.prems show ?case
    by (auto simp: logs_messages_def)
qed

lemma read_loop_logs:
  assumes "logs_messages cbs"
  shows "\<not> ss_closed s \<Longrightarrow> ss_fd s \<Longrightarrow>
    \<not> hasError (snd (run_list feed_step (ss_decoder s) chunks)) \<Longrightarrow>
    snd (read_loop cbs now_ms (map ReadBytes chunks) (s, w)) = w @ fst (run_list feed_step (ss_decoder s) chunks)"
proof (induction chunks arbitrary: s w)
  case (Cons c chunks)
  obtain st ps d where feed: "feed_bytes (ss_decoder s) c = Some (st, ps, d)"
    by (cases "the (feed_bytes (ss_decoder s) c)") (auto simp: feed_bytes_eq split: prod.splits)
  then have step: "feed_step (ss_decoder s) c = (ps, d)" by (simp add: feed_step_def)
  have noerr: "\<not> dec_error d"
  proof
    assume "dec_error d"
    then have "run_list feed_step d chunks = ([], d)"
      by (induction chunks) (simp_all add: feed_step_eq)
    with Cons.prems(3) step \<open>dec_error d\<close> show False by (simp add: hasError_def)
  qed
  then have ok: "isOk st"
    using feed by (auto simp: feed_bytes_eq isOk_def split: if_splits prod.splits option.splits)
      (metis isOk_def isOk_simps(1))
  from deliver_logs [OF assms, of "s\<lparr>ss_decoder := d\<rparr>" now_ms ps w] Cons.prems(1) obtain t where
    del: "deliver cbs now_ms ps (s\<lparr>ss_decoder := d\<rparr>, w) =
      (True, s\<lparr>ss_decoder := d, ss_last_active := t\<rparr>, w @ ps)" by auto
  have "snd (read_loop cbs now_ms (map ReadBytes chunks) (s\<lparr>ss_decoder := d, ss_last_active := t\<rparr>, w @ ps)) =
      (w @ ps) @ fst (run_list feed_step d chunks)"
    using Cons.IH [of "s\<lparr>ss_decoder := d, ss_last_active := t\<rparr>" "w @ ps"] Cons.prems step
    by (simp add: split_beta)
  with feed ok del Cons.prems(2) step show ?case by (simp add: split_beta Let_def)
qed simp

text \<open>Writing accepts nothing; it ends normally or has closed the session.\<close>

lemma write_loop_accepted:
  "fst (write_loop cbs rs (s, w)) \<Longrightarrow> ss_accepted (fst (snd (write_loop cbs rs (s, w)))) = ss_accepted s"
proof (induction rs arbitrary: s)
  case (Cons r rs)
  then show ?case
    by (cases r) (auto simp: Let_def split: if_splits prod.splits)
qed simp

lemma write_loop_closed:
  assumes "callbacks_ok cbs" "session_inv cbs s" "\<not> fst (write_loop cbs rs (s, w))"
  shows "ss_closed (fst (snd (write_loop cbs rs (s, w))))"
  using assms(2,3)
proof (induction rs arbitrary: s)
  case (Cons r rs)
  have pending: "readableBytes (ss_output s) \<noteq> 0"
    using Cons.prems(2) by (auto split: if_splits)
  then have op: "\<not> ss_closed s" "buffer_inv (ss_output s)"
    using Cons.prems(1) length_contents [of "ss_output s"] by (auto simp: session_inv_def split: if_splits)
  show ?case
  proof (cases r)
    case (Wrote n)
    let ?s = "s\<lparr>ss_wire := ss_wire s @ take n (contents (ss_output s)), ss_output := snd (retrieve (ss_output s) n)\<rparr>"
    have "closable ?s"
      using Cons.prems(1) op retrieve_props(1) [OF op(2), of n]
      by (auto simp: session_inv_def closable_def take_is_prefix)
    note close = closeInLoop_closable(2) [OF assms(1) this, of w]
    from wrote_goes [OF Cons.prems(1) op(1), of n] show ?thesis
      using Cons.IH [of ?s] Cons.prems(2) Wrote pending close
      by (auto simp: Let_def split_beta goes_to_inv split: if_splits)
  next
    case WriteFailed
    with pending closeInLoop_goes(2) [OF assms(1) Cons.prems(1)] show ?thesis by simp
  qed (use Cons pending in auto)
qed simp

lemma handleWrite_accepted:
  assumes "callbacks_ok cbs" "session_inv cbs s" "\<not> ss_closed (fst (session_handleWrite cbs rs (s, w)))"
  shows "ss_accepted (fst (session_handleWrite cbs rs (s, w))) = ss_accepted s"
proof -
  obtain go t v where wl: "write_loop cbs rs (s, w) = (go, t, v)" by (metis prod_cases3)
  with assms write_loop_accepted [of cbs rs s w] write_loop_closed [of cbs s rs w] show ?thesis
    by (cases go) (auto simp: session_handleWrite_def)
qed

lemma started_reader_logs:
  assumes "logs_messages cbs" "split_frames (concat chunks) = (ps, rest, None)"
  shows "snd (session_handleRead cbs now_ms (map ReadBytes chunks)
    (session_startInLoop (new_session i ip t0), w)) = w @ ps"
proof -
  let ?r = "session_startInLoop (new_session i ip t0)"
  have r: "ss_state ?r = kStarted" "\<not> ss_closed ?r" "ss_fd ?r" "ss_decoder ?r = new_decoder"
    by (simp_all add: session_startInLoop_def new_session_def)
  have "split_frames (dec_buffer new_decoder @ concat chunks) = (ps, rest, None)" "\<not> dec_error new_decoder"
    using assms(2) by (simp_all add: new_decoder_def)
  note run = run_feed_step [OF drained_new this(2) this(1)]
  then have "\<not> hasError (snd (run_list feed_step (ss_decoder ?r) chunks))"
    using r(4) by (auto simp: decoder_view_def hasError_def split: if_splits)
  from read_loop_logs [OF assms(1) r(2,3) this, of now_ms w] run(1) r show ?thesis
    by (simp add: session_handleRead_def)
qed

text \<open>All output of a session that has written everything.\<close>

lemma written_packets:
  assumes "callbacks_ok scbs" and "session_inv scbs s" and "ss_accepted s = []"
    and "send_all scbs ps (s, v) = Some (t, v')"
    and "session_handleWrite scbs writes (t, v') = (u, v'')" and "\<not> ss_closed u" and "contents (ss_output u) = []"
  shows "\<exists>bss. list_all2 (\<lambda>p bs. encodePacket p = Inr bs) ps bss \<and> ss_wire u = concat bss"
proof -
  from send_all_accepts [OF assms(1,2,4)] assms(3) obtain bss where
    bss: "list_all2 (\<lambda>p bs. encodePacket p = Inr bs) ps bss" "ss_accepted t = concat bss" "session_inv scbs t"
    by auto
  have "ss_accepted u = concat bss" "session_inv scbs u"
    using handleWrite_accepted [OF assms(1) bss(3), of writes v'] handleWrite_goes [OF assms(1) bss(3), of writes v']
      assms(5,6) bss(2) by (auto dest: goes_to_inv)
  with assms(6,7) bss(1) show ?thesis by (auto simp: session_inv_def)
qed

section \<open>Properties\<close>

definition logging_callbacks :: "packet list session_callbacks" where
  "logging_callbacks = \<lparr>on_message = Some (\<lambda>p (s, w). (s, w @ [p])), on_close = Some (\<lambda>sw. sw)\<rparr>"

lemma logging_callbacks_ok: "callbacks_ok logging_callbacks" "logs_messages logging_callbacks"
  by (auto simp: callbacks_ok_def logging_callbacks_def goes_to_refl logs_messages_def)

text \<open>
  C3. Output discipline of a connection: over any sequence of starts, sends, reads, writes, loop tasks
  and closes, from any threads, the bytes handed to the kernel are a prefix of the bytes of the
  accepted packets in the order of acceptance; while the session is open the rest of them is
  buffered and never exceeds the high water mark; and the close callback has run exactly once if
  the session is closed and not at all before.
\<close>

theorem session_output:
  assumes "callbacks_ok cbs" and "setOutputHighWaterMark m (new_session i ip t0) = Some s0"
    and "fold (session_step cbs) es (s0, w0) = (s, w)"
  shows "prefix (ss_wire s) (ss_accepted s) \<and>
    (\<not> ss_closed s \<longrightarrow> ss_accepted s = ss_wire s @ contents (ss_output s) \<and>
       readableBytes (ss_output s) \<le> ss_high_water_mark s) \<and>
    ss_close_calls s = (if ss_closed s \<and> on_close cbs \<noteq> None then 1 else 0)"
proof -
  have "session_inv cbs s"
    using goes_to_inv [OF session_run_goes [OF assms(1) conjunct1 [OF marked_session_inv [OF assms(2)]], of es w0]]
      assms(3) by simp
  then show ?thesis by (auto simp: session_inv_def split: if_splits)
qed

theorem session_output_witness:
  "\<exists>s w. fold (session_step logging_callbacks) [EvStart True, EvSend True default_packet, EvWrite [Wrote 3]]
      (new_session 1 [] 0 \<lparr>ss_high_water_mark := 100\<rparr>, []) = (s, w) \<and> prefix (ss_wire s) (ss_accepted s)"
proof -
  let ?es = "[EvStart True, EvSend True default_packet, EvWrite [Wrote 3]]"
  obtain s w where run: "fold (session_step logging_callbacks) ?es
      (new_session 1 [] 0 \<lparr>ss_high_water_mark := 100\<rparr>, []) = (s, w)" by force
  have "setOutputHighWaterMark 100 (new_session 1 [] 0) = Some (new_session 1 [] 0 \<lparr>ss_high_water_mark := 100\<rparr>)"
    by (simp add: setOutputHighWaterMark_def)
  from session_output [OF logging_callbacks_ok(1) this run] run show ?thesis by auto
qed

text \<open>
  Closing is final: once a session is closed, nothing that happens later reopens it, hands a
  further byte to the kernel, accepts a further packet or calls the close callback again.
\<close>

theorem session_close_final:
  assumes "callbacks_ok cbs" and "session_inv cbs s" and "ss_closed s"
    and "fold (session_step cbs) es (s, w) = (s', w')"
  shows "ss_closed s' \<and> ss_wire s' = ss_wire s \<and> ss_accepted s' = ss_accepted s \<and>
    ss_close_calls s' = ss_close_calls s \<and> \<not> ss_fd s'"
  using session_run_goes [OF assms(1,2), of es w] assms(2-4)
  by (auto simp: goes_to_def advances_def session_inv_def)

theorem session_close_final_witness:
  "\<exists>s' w'. fold (session_step logging_callbacks) [EvSend True default_packet, EvTask, EvClose True]
      (closeInLoop logging_callbacks (new_session 1 [] 0, [])) = (s', w') \<and> ss_closed s' \<and> ss_wire s' = []"
proof -
  let ?c = "closeInLoop logging_callbacks (new_session 1 [] 0, [])"
  obtain s w where c: "?c = (s, w)" by force
  obtain s' w' where run: "fold (session_step logging_callbacks) [EvSend True default_packet, EvTask, EvClose True]
      (s, w) = (s', w')" by force
  have "session_inv logging_callbacks s" "ss_closed s"
    using goes_to_inv [OF closeInLoop_goes(1) [OF logging_callbacks_ok(1) new_session_inv, of 1 "[]" 0 "[]"]]
      closeInLoop_goes(2) [OF logging_callbacks_ok(1) new_session_inv, of 1 "[]" 0 "[]"] c by simp_all
  moreover have "ss_wire s = []"
    using c by (auto simp: closeInLoop_def logging_callbacks_def new_session_def Let_def)
  ultimately show ?thesis
    using session_close_final [OF logging_callbacks_ok(1) _ _ run] c run by auto
qed


text \<open>A started session that accepted one empty packet and wrote it in one piece.\<close>

lemma one_packet_written:
  obtains t u where "send_all logging_callbacks [default_packet] (session_startInLoop (new_session 1 [] 0), []) = Some (t, [])"
    "session_handleWrite logging_callbacks [Wrote 20] (t, []) = (u, [])" "\<not> ss_closed u" "contents (ss_output u) = []"
    "ss_wire u = header_bytes default_header"
proof -
  let ?s = "session_startInLoop (new_session 1 [] 0)"
  have inv: "session_inv logging_callbacks ?s"
    by (rule goes_to_inv [OF startInLoop_goes [OF new_session_inv]])
  have s: "ss_state ?s = kStarted" "\<not> ss_closed ?s" "ss_accepted ?s = []" "ss_wire ?s = []" "ss_fd ?s" "ss_channel ?s"
      "ss_high_water_mark ?s = 4194304" "ss_output ?s = new_buffer 1024"
    by (simp_all add: session_startInLoop_def new_session_def kSessionDefaultOutputHighWaterMark_def
        kDefaultBufferSize_def)
  have enc: "encodePacket default_packet = Inr (header_bytes default_header)"
    by (simp add: encodePacket_Inr_iff default_packet_def default_header_def)
  have read0: "readableBytes (ss_output ?s) = 0"
    using length_contents [OF new_buffer_inv(1), of 1024] s(8) by (simp add: new_buffer_inv)
  have "header_bytes default_header \<noteq> []"
    using length_header_bytes [of default_header] by (auto simp del: length_header_bytes)
  from sendEncoded_accept [OF inv s(1,2) this, of "[]"] read0 s(7) obtain out where
    out: "sendEncodedInLoop logging_callbacks (header_bytes default_header) (?s, []) = (status_ok,
        ?s\<lparr>ss_output := out, ss_accepted := ss_accepted ?s @ header_bytes default_header, ss_writing := True\<rparr>, [])"
      "buffer_inv out" "contents out = contents (ss_output ?s) @ header_bytes default_header" by auto
  have cont: "contents out = header_bytes default_header" "readableBytes out = 20"
    using out(2,3) s(8) length_contents [OF out(2)] by (simp_all add: new_buffer_inv)
  let ?t = "?s\<lparr>ss_output := out, ss_accepted := header_bytes default_header, ss_writing := True\<rparr>"
  have send: "send_all logging_callbacks [default_packet] (?s, []) = Some (?t, [])"
    using out(1) s enc by (simp add: sendPacket_def)
  let ?u = "?t\<lparr>ss_wire := header_bytes default_header, ss_output := retrieveAll out, ss_writing := False\<rparr>"
  have "readableBytes (retrieveAll out) = 0" by (simp add: readableBytes_def retrieveAll_def)
  then have written: "session_handleWrite logging_callbacks [Wrote 20] (?t, []) = (?u, [])"
    using s cont by (simp add: session_handleWrite_def retrieve_def Let_def)
  show ?thesis
    by (rule that [OF send written]) (use retrieveAll_props [OF out(2)] s in simp_all)
qed

lemma started_session_inv:
  "session_inv logging_callbacks (session_startInLoop (new_session 1 [] 0))"
  "ss_accepted (session_startInLoop (new_session 1 [] 0)) = []"
  by (rule goes_to_inv [OF startInLoop_goes [OF new_session_inv]]) (simp add: session_startInLoop_def new_session_def)

text \<open>
  C1. End to end over one connection: if a sender's \<open>sendPacket\<close> accepted a list of packets and all of
  its output was written, and the receiver's socket delivers those bytes in any chunks, then the
  receiver's message callback is called with exactly these packets, in order.
\<close>

theorem session_end_to_end:
  assumes "callbacks_ok scbs" and "session_inv scbs s" and "ss_accepted s = []"
    and "send_all scbs ps (s, v) = Some (t, v')"
    and "session_handleWrite scbs writes (t, v') = (u, v'')" and "\<not> ss_closed u" and "contents (ss_output u) = []"
    and "concat chunks = ss_wire u"
    and "logs_messages cbs"
  shows "snd (session_handleRead cbs now_ms (map ReadBytes chunks)
    (session_startInLoop (new_session i ip t0), w)) = w @ map framed ps"
proof -
  from written_packets [OF assms(1-7)] obtain bss where
    bss: "list_all2 (\<lambda>p bs. encodePacket p = Inr bs) ps bss" "ss_wire u = concat bss" by blast
  with assms(8) have "concat chunks = concat bss" by simp
  with split_frames_packets [OF bss(1)] started_reader_logs [OF assms(9)] show ?thesis by metis
qed

text \<open>One empty packet, written in one piece and read back in two.\<close>

theorem session_end_to_end_witness:
  "\<exists>u v chunks. session_handleWrite logging_callbacks [Wrote 20]
      (the (send_all logging_callbacks [default_packet] (session_startInLoop (new_session 1 [] 0), []))) = (u, v) \<and>
     concat chunks = ss_wire u \<and>
     snd (session_handleRead logging_callbacks 5 (map ReadBytes chunks)
       (session_startInLoop (new_session 2 [] 0), [])) = [default_packet]"
proof (rule one_packet_written)
  fix t u
  assume send: "send_all logging_callbacks [default_packet] (session_startInLoop (new_session 1 [] 0), []) = Some (t, [])"
    and written: "session_handleWrite logging_callbacks [Wrote 20] (t, []) = (u, [])"
    and "\<not> ss_closed u" "contents (ss_output u) = []"
  then have "snd (session_handleRead logging_callbacks 5 (map ReadBytes [take 7 (ss_wire u), drop 7 (ss_wire u)])
      (session_startInLoop (new_session 2 [] 0), [])) = [] @ map framed [default_packet]"
    by (intro session_end_to_end [OF logging_callbacks_ok(1) started_session_inv send written _ _ _ logging_callbacks_ok(2)])
      simp_all
  moreover have "framed default_packet = default_packet"
    by (simp add: framed_def default_packet_def default_header_def)
  ultimately show ?thesis
    using send written
    by (intro exI [of _ u] exI [of _ "[]"] exI [of _ "[take 7 (ss_wire u), drop 7 (ss_wire u)]"]) simp
qed

end
