(* ===== verification/Timer_Heap.thy ===== *)
theory Timer_Heap
  imports LiteIM_Prelude
begin

text \<open>
  The timer heap (\<open>include/liteim/timer/TimerHeap.hpp\<close>, \<open>src/timer/TimerHeap.cpp\<close>): a priority queue
  of (expiration, id) entries with lazy deletion, next to a map that holds the live timers and
  their callbacks. \<open>std::priority_queue\<close> is a list kept in the order of \<open>Compare\<close>, so its top is the
  head. A callback is a name \<open>'c\<close> (\<open>None\<close> is an empty \<open>std::function\<close>); what it does is the parameter
  \<open>call\<close>, which may change the timer heap itself and a world \<open>'w\<close>. Because a callback may schedule
  timers that are already due, \<open>popExpired\<close> may not return: it is a partial function. Its properties
  state when it returns and which callbacks it runs. Milliseconds are only compared here, so they are
  integers; timer ids are 64 bit words.
\<close>

section \<open>State and operations\<close>

type_synonym timer_id = u64

record heap_entry =
  he_expiration :: int
  he_id :: timer_id

record 'c timer_entry =
  te_expiration :: int
  te_callback :: "'c option"

record 'c timer_heap =
  next_timer_id :: timer_id
  th_heap :: "heap_entry list"
  th_timers :: "(timer_id \<times> 'c timer_entry) list"

definition new_timer_heap :: "'c timer_heap" where
  "new_timer_heap = \<lparr>next_timer_id = 1, th_heap = [], th_timers = []\<rparr>"

definition timer_compare :: "heap_entry \<Rightarrow> heap_entry \<Rightarrow> bool" where
  "timer_compare lhs rhs =
     (if he_expiration lhs = he_expiration rhs then he_id lhs > he_id rhs
      else he_expiration lhs > he_expiration rhs)"

fun heap_push :: "heap_entry \<Rightarrow> heap_entry list \<Rightarrow> heap_entry list" where
  "heap_push e [] = [e]"
| "heap_push e (x # xs) = (if timer_compare x e then e # x # xs else x # heap_push e xs)"

definition add_timer :: "int \<Rightarrow> 'c option \<Rightarrow> 'c timer_heap \<Rightarrow> timer_id \<times> 'c timer_heap" where
  "add_timer expiration callback h =
     (let i = next_timer_id h;
          h = h\<lparr>next_timer_id := i + 1\<rparr>;
          h = h\<lparr>th_timers := al_emplace i \<lparr>te_expiration = expiration, te_callback = callback\<rparr> (th_timers h)\<rparr>;
          h = h\<lparr>th_heap := heap_push \<lparr>he_expiration = expiration, he_id = i\<rparr> (th_heap h)\<rparr>
      in (i, h))"

definition cancel_timer :: "timer_id \<Rightarrow> 'c timer_heap \<Rightarrow> 'c timer_heap" where
  "cancel_timer i h = h\<lparr>th_timers := al_erase i (th_timers h)\<rparr>"

fun stale_loop :: "(timer_id \<times> 'c timer_entry) list \<Rightarrow> heap_entry list \<Rightarrow> heap_entry list" where
  "stale_loop ts [] = []"
| "stale_loop ts (e # es) =
     (case map_of ts (he_id e) of
        Some t \<Rightarrow> if te_expiration t = he_expiration e then e # es else stale_loop ts es
      | None \<Rightarrow> stale_loop ts es)"

definition removeStaleTopEntries :: "'c timer_heap \<Rightarrow> 'c timer_heap" where
  "removeStaleTopEntries h = h\<lparr>th_heap := stale_loop (th_timers h) (th_heap h)\<rparr>"

partial_function (option) pop_loop ::
  "('c \<Rightarrow> 'c timer_heap \<times> 'w \<Rightarrow> 'c timer_heap \<times> 'w) \<Rightarrow> int \<Rightarrow> nat \<Rightarrow> 'c timer_heap \<Rightarrow> 'w \<Rightarrow>
     (nat \<times> 'c timer_heap \<times> 'w) option" where
  "pop_loop call now_ms fired h0 w =
     (let h = removeStaleTopEntries h0 in
      case th_heap h of
        [] \<Rightarrow> Some (fired, h, w)
      | e # rest \<Rightarrow>
          if he_expiration e > now_ms then Some (fired, h, w)
          else (case map_of (th_timers h) (he_id e) of
              None \<Rightarrow> pop_loop call now_ms fired (h\<lparr>th_heap := rest\<rparr>) w
            | Some t \<Rightarrow>
                if te_expiration t \<noteq> he_expiration e then pop_loop call now_ms fired (h\<lparr>th_heap := rest\<rparr>) w
                else
                  let h1 = h\<lparr>th_heap := rest, th_timers := al_erase (he_id e) (th_timers h)\<rparr>;
                      hw = (case te_callback t of Some c \<Rightarrow> call c (h1, w) | None \<Rightarrow> (h1, w))
                  in pop_loop call now_ms (fired + 1) (fst hw) (snd hw)))"

definition popExpired ::
  "('c \<Rightarrow> 'c timer_heap \<times> 'w \<Rightarrow> 'c timer_heap \<times> 'w) \<Rightarrow> int \<Rightarrow> 'c timer_heap \<Rightarrow> 'w \<Rightarrow>
     (nat \<times> 'c timer_heap \<times> 'w) option" where
  "popExpired call now_ms h w = pop_loop call now_ms 0 h w"

definition nextExpirationMilliseconds :: "'c timer_heap \<Rightarrow> int \<times> 'c timer_heap" where
  "nextExpirationMilliseconds h =
     (let h = removeStaleTopEntries h in
      (case th_heap h of [] \<Rightarrow> -1 | e # _ \<Rightarrow> he_expiration e, h))"

definition activeTimerCount :: "'c timer_heap \<Rightarrow> nat" where
  "activeTimerCount h = length (th_timers h)"

definition timers_empty :: "'c timer_heap \<Rightarrow> bool" where
  "timers_empty h \<longleftrightarrow> th_timers h = []"

definition clear_timers :: "'c timer_heap \<Rightarrow> 'c timer_heap" where
  "clear_timers h = h\<lparr>th_timers := [], th_heap := []\<rparr>"

section \<open>Invariant\<close>

text \<open>
  The heap is in order, ids are unique and smaller than the next id, and each live timer has its
  entry in the heap. Entries whose timer is gone are allowed: deletion is lazy.
\<close>

definition entry_of :: "timer_id \<times> 'c timer_entry \<Rightarrow> heap_entry" where
  "entry_of kt = \<lparr>he_expiration = te_expiration (snd kt), he_id = fst kt\<rparr>"

definition timer_inv :: "'c timer_heap \<Rightarrow> bool" where
  "timer_inv h \<longleftrightarrow>
     sorted_wrt (\<lambda>a b. timer_compare b a) (th_heap h) \<and>
     distinct (map he_id (th_heap h)) \<and> distinct (al_keys (th_timers h)) \<and>
     entry_of ` set (th_timers h) \<subseteq> set (th_heap h) \<and>
     (\<forall>e \<in> set (th_heap h). he_id e < next_timer_id h)"

lemma timer_compare_total:
  "he_id a \<noteq> he_id b \<Longrightarrow> \<not> timer_compare a b \<Longrightarrow> timer_compare b a"
  by (auto simp: timer_compare_def split: if_splits)

lemma timer_compare_trans: "timer_compare a b \<Longrightarrow> timer_compare b c \<Longrightarrow> timer_compare a c"
  by (auto simp: timer_compare_def split: if_splits)

lemma set_heap_push [simp]: "set (heap_push e xs) = insert e (set xs)"
  by (induction xs) auto

lemma sorted_heap_push:
  "sorted_wrt (\<lambda>a b. timer_compare b a) xs \<Longrightarrow> he_id e \<notin> he_id ` set xs \<Longrightarrow>
     sorted_wrt (\<lambda>a b. timer_compare b a) (heap_push e xs)"
proof (induction xs)
  case (Cons x xs)
  then show ?case
    using timer_compare_total [of x e] timer_compare_trans by (auto)
qed simp

lemma distinct_heap_push:
  "distinct (map he_id xs) \<Longrightarrow> he_id e \<notin> he_id ` set xs \<Longrightarrow> distinct (map he_id (heap_push e xs))"
  by (induction xs) auto

lemma timer_inv_new: "timer_inv new_timer_heap"
  by (simp add: timer_inv_def new_timer_heap_def)

lemma word_less_inc: "(x :: 'a::len word) \<noteq> - 1 \<Longrightarrow> y \<le> x \<Longrightarrow> y < x + 1"
  using unatSuc [of x]
  by (auto simp: word_less_nat_alt word_le_nat_alt add.commute add_eq_0_iff)

lemma timer_inv_add:
  assumes "timer_inv h" "next_timer_id h \<noteq> - 1"
  shows "timer_inv (snd (add_timer t c h))"
proof -
  let ?i = "next_timer_id h"
  have fresh: "?i \<notin> he_id ` set (th_heap h)"
    using assms(1) by (auto simp: timer_inv_def)
  moreover have "map_of (th_timers h) ?i = None"
    using assms(1) fresh by (force simp: timer_inv_def map_of_eq_None_iff entry_of_def image_subset_iff)
  moreover have "\<forall>e \<in> set (th_heap h). he_id e < ?i + 1"
    using assms by (auto simp: timer_inv_def intro!: word_less_inc)
  ultimately show ?thesis
    using assms word_less_inc [OF assms(2)]
    by (auto simp: timer_inv_def add_timer_def Let_def al_emplace_def entry_of_def
        sorted_heap_push distinct_heap_push map_of_eq_None_iff)
qed

lemma timer_inv_cancel: "timer_inv h \<Longrightarrow> timer_inv (cancel_timer i h)"
  by (auto simp: timer_inv_def cancel_timer_def)

lemma timer_inv_clear: "timer_inv (clear_timers h)"
  by (simp add: timer_inv_def clear_timers_def)

section \<open>Live and due timers\<close>

definition live :: "(timer_id \<times> 'c timer_entry) list \<Rightarrow> heap_entry \<Rightarrow> bool" where
  "live ts e \<longleftrightarrow> (\<exists>t. map_of ts (he_id e) = Some t \<and> te_expiration t = he_expiration e)"

text \<open>The timers that are due, in the order of their heap entries, and the callback of an entry.\<close>

definition due :: "int \<Rightarrow> 'c timer_heap \<Rightarrow> heap_entry list" where
  "due now_ms h = filter (\<lambda>e. live (th_timers h) e \<and> he_expiration e \<le> now_ms) (th_heap h)"

definition callback_of :: "'c timer_heap \<Rightarrow> heap_entry \<Rightarrow> 'c option" where
  "callback_of h e = Option.bind (map_of (th_timers h) (he_id e)) te_callback"

definition later :: "int \<Rightarrow> 'c timer_heap \<Rightarrow> (timer_id \<times> 'c timer_entry) list" where
  "later now_ms h = filter (\<lambda>kt. te_expiration (snd kt) > now_ms) (th_timers h)"

lemma stale_loop_dropWhile: "stale_loop ts es = dropWhile (\<lambda>e. \<not> live ts e) es"
  by (induction es) (auto simp: live_def split: option.splits)

lemma filter_dropWhile_live: "filter (\<lambda>e. live ts e \<and> P e) (dropWhile (\<lambda>e. \<not> live ts e) es) = filter (\<lambda>e. live ts e \<and> P e) es"
  by (induction es) auto

lemma entry_of_live:
  "distinct (al_keys ts) \<Longrightarrow> kt \<in> set ts \<Longrightarrow> live ts (entry_of kt)"
  by (cases kt) (auto simp: live_def entry_of_def)

lemma removeStale_heap:
  "th_heap (removeStaleTopEntries h) = dropWhile (\<lambda>e. \<not> live (th_timers h) e) (th_heap h)"
  by (simp add: removeStaleTopEntries_def stale_loop_dropWhile)

lemma removeStale_sel [simp]:
  "th_timers (removeStaleTopEntries h) = th_timers h"
  "next_timer_id (removeStaleTopEntries h) = next_timer_id h"
  by (simp_all add: removeStaleTopEntries_def)

lemma removeStale_views [simp]:
  "due now_ms (removeStaleTopEntries h) = due now_ms h"
  "callback_of (removeStaleTopEntries h) = callback_of h"
  "later now_ms (removeStaleTopEntries h) = later now_ms h"
  by (auto simp: due_def callback_of_def later_def removeStale_heap filter_dropWhile_live)

lemma removeStale_length: "length (th_heap (removeStaleTopEntries h)) \<le> length (th_heap h)"
  by (simp add: removeStale_heap length_dropWhile_le)

lemma timer_inv_removeStale:
  assumes "timer_inv h"
  shows "timer_inv (removeStaleTopEntries h)"
proof -
  let ?d = "dropWhile (\<lambda>e. \<not> live (th_timers h) e) (th_heap h)"
  have split: "th_heap h = takeWhile (\<lambda>e. \<not> live (th_timers h) e) (th_heap h) @ ?d" by simp
  have "entry_of ` set (th_timers h) \<subseteq> set ?d"
  proof
    fix e assume "e \<in> entry_of ` set (th_timers h)"
    with assms have "e \<in> set (th_heap h)" "live (th_timers h) e"
      by (auto simp: timer_inv_def entry_of_live)
    then have "e \<in> set (filter (\<lambda>e. live (th_timers h) e \<and> True) ?d)"
      unfolding filter_dropWhile_live by simp
    then show "e \<in> set ?d" by simp
  qed
  moreover have "sorted_wrt (\<lambda>a b. timer_compare b a) ?d" "distinct (map he_id ?d)" "set ?d \<subseteq> set (th_heap h)"
    using assms split unfolding timer_inv_def
    by (metis sorted_wrt_append, metis distinct_append map_append, metis Un_upper2 set_append)
  ultimately show ?thesis
    using assms by (auto simp: timer_inv_def removeStale_heap)
qed

text \<open>Firing the top entry takes it out of both structures and leaves the other timers alone.\<close>

definition fire_top :: "'c timer_heap \<Rightarrow> 'c timer_heap" where
  "fire_top h = h\<lparr>th_heap := tl (th_heap h), th_timers := al_erase (he_id (hd (th_heap h))) (th_timers h)\<rparr>"

lemma fire_top_next: "next_timer_id (fire_top h) = next_timer_id h"
  by (simp add: fire_top_def)

lemma fire_top_props:
  assumes "timer_inv h" "th_heap h = e # rest" "live (th_timers h) e"
  shows "timer_inv (fire_top h)"
    "he_expiration e \<le> now_ms \<Longrightarrow> due now_ms h = e # due now_ms (fire_top h)"
    "he_expiration e \<le> now_ms \<Longrightarrow> later now_ms (fire_top h) = later now_ms h"
    "x \<in> set rest \<Longrightarrow> callback_of (fire_top h) x = callback_of h x"
proof -
  have ids: "\<And>x. x \<in> set rest \<Longrightarrow> he_id x \<noteq> he_id e" "distinct (al_keys (th_timers h))"
    using assms(1,2) by (simp_all add: timer_inv_def) (metis imageI)
  show "timer_inv (fire_top h)"
    using assms(1,2) by (auto simp: timer_inv_def fire_top_def entry_of_def)
  have "live (al_erase (he_id e) (th_timers h)) x \<longleftrightarrow> live (th_timers h) x" if "x \<in> set rest" for x
    using ids that by (auto simp: live_def)
  then show "due now_ms h = e # due now_ms (fire_top h)" if "he_expiration e \<le> now_ms"
    using assms(2,3) that by (auto simp: due_def fire_top_def intro!: filter_cong)
  show "x \<in> set rest \<Longrightarrow> callback_of (fire_top h) x = callback_of h x"
    using ids assms(2) by (auto simp: callback_of_def fire_top_def)
  show "later now_ms (fire_top h) = later now_ms h" if "he_expiration e \<le> now_ms"
  proof -
    have "te_expiration (snd kt) \<le> now_ms" if "kt \<in> set (th_timers h)" "fst kt = he_id e" for kt
    proof -
      have "map_of (th_timers h) (he_id e) = Some (snd kt)"
        using ids(2) that by (metis map_of_is_SomeI prod.collapse)
      with assms(3) \<open>he_expiration e \<le> now_ms\<close> show ?thesis by (auto simp: live_def)
    qed
    then show ?thesis
      using assms(2) by (force simp: later_def fire_top_def al_erase_def not_le intro!: filter_cong)
  qed
qed

lemma not_due:
  assumes "timer_inv h" "th_heap h = [] \<or> he_expiration (hd (th_heap h)) > now_ms"
  shows "due now_ms h = []" "later now_ms h = th_timers h"
proof -
  have all: "he_expiration e > now_ms" if "e \<in> set (th_heap h)" for e
    using assms that
    by (cases "th_heap h") (auto simp: timer_inv_def timer_compare_def split: if_splits)
  then show "due now_ms h = []"
    by (force simp: due_def filter_empty_conv)
  have "te_expiration (snd kt) > now_ms" if "kt \<in> set (th_timers h)" for kt
    using assms(1) that all [of "entry_of kt"] by (auto simp: timer_inv_def entry_of_def)
  then show "later now_ms h = th_timers h"
    by (simp add: later_def)
qed

text \<open>One turn of the loop.\<close>

lemma top_live:
  "th_heap (removeStaleTopEntries h) = e # rest \<Longrightarrow> live (th_timers h) e"
  unfolding removeStale_heap by (metis dropWhile_eq_Cons_conv)

lemma pop_loop_stop:
  "th_heap (removeStaleTopEntries h) = [] \<or> he_expiration (hd (th_heap (removeStaleTopEntries h))) > now_ms \<Longrightarrow>
     pop_loop call now_ms n h w = Some (n, removeStaleTopEntries h, w)"
  by (subst pop_loop.simps) (auto simp: Let_def split: list.splits)

lemma pop_loop_fire:
  assumes "th_heap (removeStaleTopEntries h) = e # rest" "he_expiration e \<le> now_ms"
  shows "pop_loop call now_ms n h w =
    (let h1 = fire_top (removeStaleTopEntries h);
         hw = (case callback_of h e of Some c \<Rightarrow> call c (h1, w) | None \<Rightarrow> (h1, w))
     in pop_loop call now_ms (n + 1) (fst hw) (snd hw))"
  using assms top_live [OF assms(1)]
  by (subst pop_loop.simps) (auto simp: Let_def live_def callback_of_def fire_top_def)

section \<open>What popExpired does\<close>

text \<open>
  Callbacks that leave the timer heap alone have an effect \<open>eff\<close> on the world only. Then the loop
  returns and has run the callbacks of exactly the due timers, in order.
\<close>

definition leaves_heap :: "('c \<Rightarrow> 'c timer_heap \<times> 'w \<Rightarrow> 'c timer_heap \<times> 'w) \<Rightarrow> ('c \<Rightarrow> 'w \<Rightarrow> 'w) \<Rightarrow> bool" where
  "leaves_heap call eff \<longleftrightarrow> (\<forall>c h w. call c (h, w) = (h, eff c w))"

definition run_callbacks :: "('c \<Rightarrow> 'w \<Rightarrow> 'w) \<Rightarrow> 'c option list \<Rightarrow> 'w \<Rightarrow> 'w" where
  "run_callbacks eff cs w = fold (\<lambda>c w. case c of Some c \<Rightarrow> eff c w | None \<Rightarrow> w) cs w"

lemma run_callbacks_simps [simp]:
  "run_callbacks eff [] w = w"
  "run_callbacks eff (c # cs) w = run_callbacks eff cs (case c of Some c \<Rightarrow> eff c w | None \<Rightarrow> w)"
  by (simp_all add: run_callbacks_def)

lemma pop_loop_passive:
  assumes "timer_inv h" "leaves_heap call eff"
  shows "\<exists>h'. pop_loop call now_ms n h w =
        Some (n + length (due now_ms h), h', run_callbacks eff (map (callback_of h) (due now_ms h)) w) \<and>
      timer_inv h' \<and> th_timers h' = later now_ms h \<and> next_timer_id h' = next_timer_id h"
  using assms(1)
proof (induction "length (th_heap h)" arbitrary: h n w rule: less_induct)
  case less
  let ?h = "removeStaleTopEntries h"
  have inv: "timer_inv ?h" by (rule timer_inv_removeStale [OF less.prems])
  show ?case
  proof (cases "th_heap ?h = [] \<or> he_expiration (hd (th_heap ?h)) > now_ms")
    case True
    with not_due [OF inv True] inv show ?thesis
      by (simp add: pop_loop_stop)
  next
    case False
    then obtain e rest where top: "th_heap ?h = e # rest" "he_expiration e \<le> now_ms"
      by (cases "th_heap ?h") auto
    note fire = fire_top_props [OF inv top(1), unfolded removeStale_sel removeStale_views, OF top_live [OF top(1)]]
    let ?h1 = "fire_top ?h" and ?w1 = "case callback_of h e of Some c \<Rightarrow> eff c w | None \<Rightarrow> w"
    have "pop_loop call now_ms n h w = pop_loop call now_ms (n + 1) ?h1 ?w1"
      using assms(2) by (simp add: pop_loop_fire [OF top] leaves_heap_def Let_def split: option.splits)
    moreover have "length (th_heap ?h1) < length (th_heap h)"
      using removeStale_length [of h] top(1) by (simp add: fire_top_def)
    from less.hyps [OF this fire(1), of "n + 1" ?w1] obtain h' where
      "pop_loop call now_ms (n + 1) ?h1 ?w1 = Some (n + 1 + length (due now_ms ?h1), h',
         run_callbacks eff (map (callback_of ?h1) (due now_ms ?h1)) ?w1)"
      "timer_inv h'" "th_timers h' = later now_ms ?h1" "next_timer_id h' = next_timer_id h"
      by (auto simp: fire_top_next)
    moreover have "map (callback_of ?h1) (due now_ms ?h1) = map (callback_of h) (due now_ms ?h1)"
      using fire(4) top(1) by (auto simp: due_def fire_top_def)
    ultimately show ?thesis
      using fire(2,3) [OF top(2)] by (simp del: map_eq_conv)
  qed
qed

text \<open>
  Callbacks may also schedule and cancel timers. The loop still returns if they keep the invariant
  and do not schedule timers that are already due; afterwards no timer is due.
\<close>

definition reschedules_later :: "int \<Rightarrow> ('c \<Rightarrow> 'c timer_heap \<times> 'w \<Rightarrow> 'c timer_heap \<times> 'w) \<Rightarrow> bool" where
  "reschedules_later now_ms call \<longleftrightarrow>
     (\<forall>c h w. timer_inv h \<longrightarrow> timer_inv (fst (call c (h, w))) \<and>
        (\<forall>e \<in> set (th_heap (fst (call c (h, w)))). he_expiration e \<le> now_ms \<longrightarrow> e \<in> set (th_heap h)))"

lemma reschedules_laterD:
  assumes "reschedules_later now_ms call" "timer_inv h"
  shows "timer_inv (fst (call c (h, w)))"
    "e \<in> set (th_heap (fst (call c (h, w)))) \<Longrightarrow> he_expiration e \<le> now_ms \<Longrightarrow> e \<in> set (th_heap h)"
  using assms unfolding reschedules_later_def by blast+

lemma pop_loop_returns:
  assumes "timer_inv h" "reschedules_later now_ms call"
  shows "\<exists>k h' w'. pop_loop call now_ms n h w = Some (k, h', w') \<and> timer_inv h' \<and> due now_ms h' = []"
  using assms(1)
proof (induction "card {e \<in> set (th_heap h). he_expiration e \<le> now_ms}" arbitrary: h n w rule: less_induct)
  case less
  let ?h = "removeStaleTopEntries h"
  have inv: "timer_inv ?h" by (rule timer_inv_removeStale [OF less.prems])
  show ?case
  proof (cases "th_heap ?h = [] \<or> he_expiration (hd (th_heap ?h)) > now_ms")
    case True
    with not_due [OF inv True] inv show ?thesis
      by (simp add: pop_loop_stop)
  next
    case False
    then obtain e rest where top: "th_heap ?h = e # rest" "he_expiration e \<le> now_ms"
      by (cases "th_heap ?h") auto
    let ?h1 = "fire_top ?h"
    define hw where "hw = (case callback_of h e of Some c \<Rightarrow> call c (?h1, w) | None \<Rightarrow> (?h1, w))"
    have inv1: "timer_inv ?h1"
      using fire_top_props(1) [OF inv top(1)] top_live [OF top(1)] by simp
    have rest: "th_heap ?h1 = rest" using top(1) by (simp add: fire_top_def)
    have hw: "timer_inv (fst hw)"
        "\<And>x. x \<in> set (th_heap (fst hw)) \<Longrightarrow> he_expiration x \<le> now_ms \<Longrightarrow> x \<in> set rest"
      using inv1 reschedules_laterD [OF assms(2) inv1] rest
      by (auto simp: hw_def split: option.splits)
    have "e \<notin> set rest" using inv by (auto simp: timer_inv_def top(1))
    moreover have "set (th_heap ?h) \<subseteq> set (th_heap h)"
      by (auto simp: removeStale_heap dest: set_dropWhileD)
    ultimately have "e \<notin> set rest" "set (th_heap ?h) \<subseteq> set (th_heap h)" .
    with hw(2) top have "{x \<in> set (th_heap (fst hw)). he_expiration x \<le> now_ms}
        \<subset> {x \<in> set (th_heap h). he_expiration x \<le> now_ms}"
      by (intro psubsetI) auto
    then have "card {x \<in> set (th_heap (fst hw)). he_expiration x \<le> now_ms} <
        card {x \<in> set (th_heap h). he_expiration x \<le> now_ms}"
      by (intro psubset_card_mono) auto
    from less.hyps [OF this hw(1), of "n + 1" "snd hw"] show ?thesis
      by (simp add: pop_loop_fire [OF top] hw_def Let_def)
  qed
qed

lemma set_due:
  assumes "timer_inv h"
  shows "set (due now_ms h) = entry_of ` {kt \<in> set (th_timers h). te_expiration (snd kt) \<le> now_ms}"
proof (intro equalityI subsetI)
  fix e assume "e \<in> set (due now_ms h)"
  then obtain t where t: "map_of (th_timers h) (he_id e) = Some t" "te_expiration t = he_expiration e"
      "he_expiration e \<le> now_ms"
    by (auto simp: due_def live_def)
  then have "(he_id e, t) \<in> set (th_timers h)" "e = entry_of (he_id e, t)"
    by (auto simp: entry_of_def dest: map_of_SomeD)
  with t show "e \<in> entry_of ` {kt \<in> set (th_timers h). te_expiration (snd kt) \<le> now_ms}" by force
next
  fix e assume "e \<in> entry_of ` {kt \<in> set (th_timers h). te_expiration (snd kt) \<le> now_ms}"
  then obtain kt where "kt \<in> set (th_timers h)" "te_expiration (snd kt) \<le> now_ms" "e = entry_of kt" by auto
  with assms show "e \<in> set (due now_ms h)"
    by (auto simp: timer_inv_def due_def entry_of_live) (simp add: entry_of_def)
qed

lemma sorted_due: "timer_inv h \<Longrightarrow> sorted_wrt (\<lambda>a b. timer_compare b a) (due now_ms h)"
  by (simp add: timer_inv_def due_def sorted_wrt_filter)

section \<open>The contract of a timer queue\<close>

text \<open>
  What \<open>TimerManager\<close> relies on: each pending timer has one deadline, expiring at a time reports the
  ids of the timers that are due, each once, and keeps the others, and cancelling removes one timer.
\<close>

lemma count_list_distinct: "distinct xs \<Longrightarrow> x \<in> set xs \<Longrightarrow> count_list xs x = 1"
  by (induction xs) (auto simp: count_list_0_iff)

locale timer_queue =
  fixes expire :: "int \<Rightarrow> 'q \<Rightarrow> 'i list \<times> 'q"
    and cancel :: "'i \<Rightarrow> 'q \<Rightarrow> 'q"
    and pending :: "'q \<Rightarrow> (int \<times> 'i) set"
    and valid :: "'q \<Rightarrow> bool"
  assumes expire_valid: "valid q \<Longrightarrow> valid (snd (expire now q))"
    and cancel_valid: "valid q \<Longrightarrow> valid (cancel i q)"
    and pending_unique: "valid q \<Longrightarrow> (t, i) \<in> pending q \<Longrightarrow> (t', i) \<in> pending q \<Longrightarrow> t = t'"
    and expire_pending: "valid q \<Longrightarrow> pending (snd (expire now q)) = {(t, i) \<in> pending q. t > now}"
    and expire_fired: "valid q \<Longrightarrow> distinct (fst (expire now q))"
      "valid q \<Longrightarrow> set (fst (expire now q)) = {i. \<exists>t. (t, i) \<in> pending q \<and> t \<le> now}"
    and cancel_pending: "valid q \<Longrightarrow> pending (cancel i q) = {(t, j) \<in> pending q. j \<noteq> i}"
begin

lemma expire_absent:
  "valid q \<Longrightarrow> \<forall>t. (t, i) \<notin> pending q \<Longrightarrow> count_list (fst (run_list (\<lambda>q now. expire now q) q ticks)) i = 0"
proof (induction ticks arbitrary: q)
  case (Cons now ticks)
  have "i \<notin> set (fst (expire now q))"
    using Cons.prems by (auto simp: expire_fired)
  moreover have "count_list (fst (run_list (\<lambda>q now. expire now q) (snd (expire now q)) ticks)) i = 0"
    using Cons.prems by (intro Cons.IH) (auto simp: expire_valid expire_pending)
  ultimately show ?case
    by (simp add: split_beta count_list_0_iff)
qed simp

text \<open>A pending timer fires exactly once, at the first tick that is not before its deadline.\<close>

lemma fires_once:
  "valid q \<Longrightarrow> (t, i) \<in> pending q \<Longrightarrow>
     count_list (fst (run_list (\<lambda>q now. expire now q) q ticks)) i = (if \<exists>now \<in> set ticks. t \<le> now then 1 else 0)"
proof (induction ticks arbitrary: q)
  case (Cons now ticks)
  let ?q = "snd (expire now q)"
  have v: "valid ?q" using Cons.prems by (simp add: expire_valid)
  show ?case
  proof (cases "t \<le> now")
    case True
    then have "i \<in> set (fst (expire now q))"
      using Cons.prems by (auto simp: expire_fired)
    then have "count_list (fst (expire now q)) i = 1"
      using Cons.prems by (simp add: expire_fired(1) count_list_distinct)
    moreover have "count_list (fst (run_list (\<lambda>q now. expire now q) ?q ticks)) i = 0"
      using Cons.prems True pending_unique
      by (intro expire_absent [OF v]) (fastforce simp: expire_pending)
    ultimately show ?thesis using True by (simp add: split_beta)
  next
    case False
    have "i \<notin> set (fst (expire now q))"
      using Cons.prems False pending_unique by (fastforce simp: expire_fired)
    then have "count_list (fst (expire now q)) i = 0" by (simp add: count_list_0_iff)
    moreover have "(t, i) \<in> pending ?q"
      using Cons.prems False by (simp add: expire_pending)
    ultimately show ?thesis
      using Cons.IH [OF v] False by (simp add: split_beta)
  qed
qed simp

lemma cancelled_never_fires:
  "valid q \<Longrightarrow> count_list (fst (run_list (\<lambda>q now. expire now q) (cancel i q) ticks)) i = 0"
  by (intro expire_absent) (auto simp: cancel_valid cancel_pending)

end

definition expire_ids :: "int \<Rightarrow> 'c timer_heap \<Rightarrow> timer_id list \<times> 'c timer_heap" where
  "expire_ids now_ms h =
     (map he_id (due now_ms h), fst (snd (the (popExpired (\<lambda>c hw. hw) now_ms h ()))))"

definition pending_timers :: "'c timer_heap \<Rightarrow> (int \<times> timer_id) set" where
  "pending_timers h = (\<lambda>kt. (te_expiration (snd kt), fst kt)) ` set (th_timers h)"

lemma expire_ids_heap:
  assumes "timer_inv h"
  shows "timer_inv (snd (expire_ids now_ms h))"
    "th_timers (snd (expire_ids now_ms h)) = later now_ms h"
proof -
  have "leaves_heap (\<lambda>c hw. hw) (\<lambda>c w. w)" by (simp add: leaves_heap_def)
  from pop_loop_passive [OF assms this, of now_ms 0 "()"]
  show "timer_inv (snd (expire_ids now_ms h))" "th_timers (snd (expire_ids now_ms h)) = later now_ms h"
    by (auto simp: expire_ids_def popExpired_def)
qed

interpretation tq: timer_queue expire_ids cancel_timer pending_timers timer_inv
proof
  fix q :: "'c timer_heap" and now t t' :: int and i :: timer_id
  assume inv: "timer_inv q"
  show "timer_inv (snd (expire_ids now q))" by (rule expire_ids_heap(1) [OF inv])
  show "timer_inv (cancel_timer i q)" by (rule timer_inv_cancel [OF inv])
  show "t = t'" if "(t, i) \<in> pending_timers q" "(t', i) \<in> pending_timers q"
    using inv that by (auto simp: timer_inv_def pending_timers_def dest: eq_key_imp_eq_value)
  show "pending_timers (snd (expire_ids now q)) = {(t, i) \<in> pending_timers q. t > now}"
    by (auto simp: pending_timers_def expire_ids_heap(2) [OF inv] later_def)
  show "distinct (fst (expire_ids now q))"
    using inv by (simp add: expire_ids_def due_def timer_inv_def distinct_map_filter)
  show "set (fst (expire_ids now q)) = {i. \<exists>t. (t, i) \<in> pending_timers q \<and> t \<le> now}"
    by (force simp: expire_ids_def set_due [OF inv] pending_timers_def entry_of_def image_iff)
  show "pending_timers (cancel_timer i q) = {(t, j) \<in> pending_timers q. j \<noteq> i}"
    by (auto simp: pending_timers_def cancel_timer_def)
qed

section \<open>Properties\<close>


text \<open>Three timers, one of them cancelled and one in the future; callbacks log their name.\<close>

definition example_heap :: "nat timer_heap" where
  "example_heap = cancel_timer 2 (snd (add_timer 40 (Some 3) (snd (add_timer 10 (Some 2)
     (snd (add_timer 20 (Some 1) new_timer_heap))))))"

lemma example_heap_inv: "timer_inv example_heap"
proof -
  let ?h1 = "snd (add_timer 20 (Some 1) new_timer_heap) :: nat timer_heap"
  let ?h2 = "snd (add_timer 10 (Some 2) ?h1)"
  have "next_timer_id ?h1 = 2" "next_timer_id ?h2 = 3"
    by (simp_all add: add_timer_def new_timer_heap_def)
  then show ?thesis
    unfolding example_heap_def
    by (intro timer_inv_cancel timer_inv_add timer_inv_new) (simp_all add: new_timer_heap_def)
qed


text \<open>
  \<open>popExpired\<close> returns even if callbacks schedule and cancel timers, as long as they keep the
  heap consistent and what they schedule lies after \<open>now_ms\<close>; when it returns no live timer is due
  and the heap is consistent.
\<close>

theorem popExpired_returns:
  assumes "timer_inv h" and "reschedules_later now_ms call"
  shows "\<exists>n h' w'. popExpired call now_ms h w = Some (n, h', w') \<and> timer_inv h' \<and>
    (\<forall>kt \<in> set (th_timers h'). te_expiration (snd kt) > now_ms)"
proof -
  from pop_loop_returns [OF assms, of 0 w] obtain n h' w' where
    "popExpired call now_ms h w = Some (n, h', w')" "timer_inv h'" "due now_ms h' = []"
    by (auto simp: popExpired_def)
  moreover from this have "\<forall>kt \<in> set (th_timers h'). te_expiration (snd kt) > now_ms"
    using set_due [of h' now_ms] by (auto simp: not_le [symmetric])
  ultimately show ?thesis by blast
qed

text \<open>A heartbeat check that schedules itself again 10 milliseconds later, if ids remain.\<close>

definition rearm :: "int \<Rightarrow> nat \<Rightarrow> nat timer_heap \<times> unit \<Rightarrow> nat timer_heap \<times> unit" where
  "rearm now_ms c hw = (if next_timer_id (fst hw) = - 1 then hw
     else (snd (add_timer (now_ms + 10) (Some c) (fst hw)), ()))"

lemma rearm_later: "reschedules_later now_ms (rearm now_ms)"
  unfolding reschedules_later_def
proof (intro allI impI conjI ballI)
  fix c w and h :: "nat timer_heap" assume inv: "timer_inv h"
  then show "timer_inv (fst (rearm now_ms c (h, w)))"
    by (auto simp: rearm_def timer_inv_add)
  fix e assume "e \<in> set (th_heap (fst (rearm now_ms c (h, w))))" "he_expiration e \<le> now_ms"
  then show "e \<in> set (th_heap h)"
    by (auto simp: rearm_def add_timer_def Let_def split: if_splits)
qed

theorem popExpired_returns_witness:
  "\<exists>n h' w'. popExpired (rearm 30) 30 example_heap () = Some (n, h', w') \<and>
     (\<forall>kt \<in> set (th_timers h'). te_expiration (snd kt) > 30)"
  using popExpired_returns [OF example_heap_inv rearm_later, of 30 "()"] by blast

end
