(* ===== verification/Decimal.thy ===== *)
theory Decimal
  imports LiteIM_Prelude
begin

text \<open>
  Decimal text of integers, as \<open>std::to_string\<close> writes it. Status messages, Redis keys and
  conversation ids are built from it, so it is injective and reading it back is the identity.
\<close>

definition digit_char :: "nat \<Rightarrow> char" where
  "digit_char d = char_of (48 + d)"

definition is_digit :: "char \<Rightarrow> bool" where
  "is_digit c \<longleftrightarrow> 48 \<le> (of_char c :: nat) \<and> (of_char c :: nat) \<le> 57"

definition digit_value :: "char \<Rightarrow> nat" where
  "digit_value c = of_char c - 48"

fun show_nat :: "nat \<Rightarrow> string" where
  "show_nat n = (if n < 10 then [digit_char n] else show_nat (n div 10) @ [digit_char (n mod 10)])"

declare show_nat.simps [simp del]

definition show_int :: "int \<Rightarrow> string" where
  "show_int i = (if i < 0 then CHR ''-'' # show_nat (nat (- i)) else show_nat (nat i))"

definition show_u64 :: "u64 \<Rightarrow> string" where
  "show_u64 w = show_nat (unat w)"

definition read_digits :: "string \<Rightarrow> nat" where
  "read_digits s = foldl (\<lambda>acc c. acc * 10 + digit_value c) 0 s"

lemma digit_char_props:
  assumes "d < 10"
  shows "is_digit (digit_char d)" "digit_value (digit_char d) = d"
  using assms by (simp_all add: is_digit_def digit_value_def digit_char_def)

lemma read_digits_snoc: "read_digits (s @ [c]) = read_digits s * 10 + digit_value c"
  by (simp add: read_digits_def)

lemma read_show_nat [simp]: "read_digits (show_nat n) = n"
proof (induction n rule: show_nat.induct)
  case (1 n)
  then show ?case
    by (subst show_nat.simps)
      (auto simp: read_digits_snoc digit_char_props read_digits_def)
qed

lemma show_nat_digits: "c \<in> set (show_nat n) \<Longrightarrow> is_digit c"
proof (induction n rule: show_nat.induct)
  case (1 n)
  then show ?case
    by (subst (asm) (2) show_nat.simps) (auto simp: digit_char_props split: if_splits)
qed

lemma show_nat_nonempty [simp]: "show_nat n \<noteq> []"
  by (subst show_nat.simps) simp

lemma show_nat_inject [simp]: "show_nat m = show_nat n \<longleftrightarrow> m = n"
  by (metis read_show_nat)

lemma show_u64_inject [simp]: "show_u64 v = show_u64 w \<longleftrightarrow> v = w"
  by (simp add: show_u64_def word_unat_eq_iff)

lemma show_u64_nonempty [simp]: "show_u64 w \<noteq> []"
  by (simp add: show_u64_def)

lemma show_u64_digits: "c \<in> set (show_u64 w) \<Longrightarrow> is_digit c"
  by (simp add: show_u64_def show_nat_digits)

lemma length_show_nat: "n < 10 ^ Suc k \<Longrightarrow> length (show_nat n) \<le> Suc k"
proof (induction k arbitrary: n)
  case 0
  then show ?case by (subst show_nat.simps) simp
next
  case (Suc k)
  then have "n div 10 < 10 ^ Suc k" by (simp add: div_less_iff_less_mult mult.commute)
  with Suc.IH [of "n div 10"] show ?case by (subst show_nat.simps) simp
qed

lemma length_show_u64: "length (show_u64 w) \<le> 20"
proof -
  have "unat w < 2 ^ 64"
    by (rule order_less_le_trans [OF unsigned_less]) simp
  then have "unat w < 10 ^ Suc 19" by simp
  then show ?thesis
    using length_show_nat [of "unat w" 19] by (simp add: show_u64_def)
qed

text \<open>Two decimal numbers around a separator that is not a digit can be told apart.\<close>

lemma show_sep_inject:
  assumes "\<not> is_digit c"
  shows "show_nat a @ c # x = show_nat b @ c # y \<longleftrightarrow> a = b \<and> x = y"
proof
  assume eq: "show_nat a @ c # x = show_nat b @ c # y"
  have "takeWhile is_digit (show_nat n @ c # z) = show_nat n" for n z
    using assms show_nat_digits by (simp add: takeWhile_append)
  with eq have "show_nat a = show_nat b" by metis
  with eq show "a = b \<and> x = y" by simp
qed simp

section \<open>Reading numbers\<close>

text \<open>
  \<open>std::stoull\<close>, \<open>std::stoul\<close> (both 64 bits wide) and \<open>std::stoll\<close> in base 10: white space, an optional
  sign and digits. The result is the value with the number of characters read, or \<open>None\<close> for an
  exception, which is thrown when there are no digits or the value is out of range. The unsigned
  conversions negate modulo \<open>2 ^ 64\<close> after a minus sign.
\<close>

definition is_space :: "char \<Rightarrow> bool" where
  "is_space c \<longleftrightarrow> (of_char c :: nat) \<in> {9, 10, 11, 12, 13, 32}"

definition split_number :: "string \<Rightarrow> bool \<times> string \<times> nat" where
  "split_number s =
     (let rest = dropWhile is_space s;
          neg = (case rest of c # _ \<Rightarrow> c = CHR ''-'' | [] \<Rightarrow> False);
          signed = (case rest of c # _ \<Rightarrow> c = CHR ''-'' \<or> c = CHR ''+'' | [] \<Rightarrow> False);
          digits = takeWhile is_digit (if signed then tl rest else rest)
      in (neg, digits, length s - length rest + (if signed then 1 else 0) + length digits))"

definition stoull :: "string \<Rightarrow> (u64 \<times> nat) option" where
  "stoull s =
     (case split_number s of (neg, digits, parsed) \<Rightarrow>
        if digits = [] \<or> read_digits digits \<ge> 2 ^ 64 then None
        else Some (if neg then - of_nat (read_digits digits) else of_nat (read_digits digits), parsed))"

definition stoll :: "string \<Rightarrow> (int \<times> nat) option" where
  "stoll s =
     (case split_number s of (neg, digits, parsed) \<Rightarrow>
        let v = (if neg then - int (read_digits digits) else int (read_digits digits)) in
        if digits = [] \<or> v < - (2 ^ 63) \<or> v \<ge> 2 ^ 63 then None else Some (v, parsed))"

lemma digit_not_special: "is_digit c \<Longrightarrow> \<not> is_space c \<and> c \<noteq> CHR ''-'' \<and> c \<noteq> CHR ''+''"
  by (auto simp: is_digit_def is_space_def)

lemma takeWhile_digits [simp]: "takeWhile is_digit (show_nat n) = show_nat n"
  using show_nat_digits by (simp add: takeWhile_eq_all_conv)

lemma split_show_nat: "split_number (show_nat n) = (False, show_nat n, length (show_nat n))"
proof -
  obtain c cs where c: "show_nat n = c # cs" by (cases "show_nat n") auto
  then have "is_digit c" using show_nat_digits [of c n] by simp
  moreover have "takeWhile is_digit cs = cs"
    using c show_nat_digits [of _ n] by (simp add: takeWhile_eq_all_conv)
  ultimately show ?thesis using c digit_not_special [of c] by (simp add: split_number_def Let_def) (metis takeWhile_eq_all_conv)
qed

lemma split_show_neg: "split_number (CHR ''-'' # show_nat n) = (True, show_nat n, Suc (length (show_nat n)))"
  using takeWhile_digits [of n] by (simp add: split_number_def Let_def is_space_def)

lemma stoull_show_nat: "n < 2 ^ 64 \<Longrightarrow> stoull (show_nat n) = Some (of_nat n, length (show_nat n))"
  by (simp add: stoull_def split_show_nat)

lemma stoull_show_u64: "stoull (show_u64 w) = Some (w, length (show_u64 w))"
proof -
  have "unat w < 2 ^ 64" by (rule order_less_le_trans [OF unsigned_less]) simp
  then show ?thesis by (simp add: show_u64_def stoull_show_nat)
qed

lemma stoll_show_int:
  assumes "- (2 ^ 63) \<le> i" "i < 2 ^ 63"
  shows "stoll (show_int i) = Some (i, length (show_int i))"
proof (cases "i < 0")
  case True
  with assms show ?thesis by (simp add: stoll_def show_int_def split_show_neg)
next
  case False
  with assms show ?thesis by (simp add: stoll_def show_int_def split_show_nat nat_less_iff)
qed

lemma show_int_chars: "c \<in> set (show_int i) \<Longrightarrow> is_digit c \<or> c = CHR ''-''"
  using show_nat_digits by (auto simp: show_int_def split: if_splits)

text \<open>The parsers of the repository: the whole text must be a number.\<close>

definition parse_whole_u64 :: "string \<Rightarrow> u64 option" where
  "parse_whole_u64 s = (case stoull s of None \<Rightarrow> None | Some (v, parsed) \<Rightarrow> if parsed \<noteq> length s then None else Some v)"

lemma parse_whole_show [simp]: "parse_whole_u64 (show_u64 w) = Some w"
  by (simp add: parse_whole_u64_def stoull_show_u64)

lemma parse_whole_show_nat: "n < 2 ^ 64 \<Longrightarrow> parse_whole_u64 (show_nat n) = Some (of_nat n)"
  by (simp add: parse_whole_u64_def stoull_show_nat)

end
