(* ===== verification/Timer_Manager.thy ===== *)
theory Timer_Manager
  imports Timer_Heap Decimal
begin

text \<open>
  The timer manager (\<open>include/liteim/timer/TimerManager.hpp\<close>, \<open>src/timer/TimerManager.cpp\<close>): it owns
  a timer heap and drives it from a periodic \<open>timerfd\<close>. The system calls and the event loop are
  parameters: their results are arguments of the operations, and whether the caller is on the loop's
  thread is the argument \<open>in_loop\<close>; \<open>None\<close> is \<open>std::terminate\<close> or a violated thread assertion.
  Callbacks may use the manager that runs them. The lemmas build on the contract \<open>timer_queue\<close>.
\<close>

section \<open>State and operations\<close>

record 'c timer_manager =
  tm_tick_interval :: int
  tm_fd :: "int option"
  tm_channel :: bool
  tm_timers :: "'c timer_heap"
  tm_started :: bool
  tm_registered :: bool
  tm_handling :: bool

definition new_timer_manager :: "int \<Rightarrow> 'c timer_manager" where
  "new_timer_manager tick = \<lparr>tm_tick_interval = tick, tm_fd = None, tm_channel = False,
     tm_timers = new_timer_heap, tm_started = False, tm_registered = False, tm_handling = False\<rparr>"

definition timer_errnoStatus :: "string \<Rightarrow> int \<Rightarrow> status" where
  "timer_errnoStatus action error_number =
     status_error IoError (action @ '' failed with errno '' @ show_int error_number)"

text \<open>
  Results of the calls that \<open>startInLoop\<close> makes: the descriptor or errno of \<open>timerfd_create\<close>, the
  errno of \<open>timerfd_settime\<close> if it failed, and the message of the exception that registering the
  channel threw, if it threw one.
\<close>

record start_calls =
  sc_create :: "int + int"
  sc_settime :: "int option"
  sc_enable :: "string option"

definition startInLoop :: "start_calls \<Rightarrow> 'c timer_manager \<Rightarrow> status \<times> 'c timer_manager" where
  "startInLoop sc m =
     (if tm_started m then (status_ok, m)
      else if tm_tick_interval m \<le> 0
      then (status_error InvalidArgument ''TimerManager tick interval must be positive'', m)
      else
        let m = m\<lparr>tm_channel := False\<rparr> in
        case sc_create sc of
          Inl e \<Rightarrow> (timer_errnoStatus ''timerfd_create'' e, m\<lparr>tm_fd := None\<rparr>)
        | Inr fd \<Rightarrow>
            (case sc_settime sc of
               Some e \<Rightarrow> (timer_errnoStatus ''timerfd_settime'' e, m\<lparr>tm_fd := None\<rparr>)
             | None \<Rightarrow>
                 (case sc_enable sc of
                    Some what \<Rightarrow> (status_error IoError what, m\<lparr>tm_fd := None, tm_channel := False\<rparr>)
                  | None \<Rightarrow> (status_ok, m\<lparr>tm_fd := Some fd, tm_channel := True,
                               tm_registered := True, tm_started := True\<rparr>))))"

definition tm_start :: "bool \<Rightarrow> start_calls \<Rightarrow> 'c timer_manager \<Rightarrow> status \<times> 'c timer_manager" where
  "tm_start in_loop sc m =
     (if \<not> in_loop
      then (status_error InvalidArgument ''TimerManager must start in its owner EventLoop thread'', m)
      else startInLoop sc m)"

definition stopInLoop :: "'c timer_manager \<Rightarrow> 'c timer_manager" where
  "stopInLoop m =
     (if \<not> tm_started m \<and> tm_fd m = None \<and> \<not> tm_channel m
      then m\<lparr>tm_timers := clear_timers (tm_timers m)\<rparr>
      else
        let m = m\<lparr>tm_started := False\<rparr>;
            m = m\<lparr>tm_timers := clear_timers (tm_timers m)\<rparr>;
            m = (if tm_channel m \<and> tm_registered m then m\<lparr>tm_registered := False\<rparr> else m);
            m = m\<lparr>tm_fd := None\<rparr>
        in if \<not> tm_handling m then m\<lparr>tm_channel := False\<rparr> else m)"

definition tm_stop :: "bool \<Rightarrow> 'c timer_manager \<Rightarrow> 'c timer_manager option" where
  "tm_stop in_loop m = (if \<not> in_loop then None else Some (stopInLoop m))"

definition runAfter ::
  "bool \<Rightarrow> int \<Rightarrow> int \<Rightarrow> 'c option \<Rightarrow> 'c timer_manager \<Rightarrow> (timer_id \<times> 'c timer_manager) option" where
  "runAfter in_loop now_ms delay callback m =
     (if \<not> in_loop then None
      else
        let delay_ms = (if delay < 0 then 0 else delay);
            (i, h) = add_timer (now_ms + delay_ms) callback (tm_timers m)
        in Some (i, m\<lparr>tm_timers := h\<rparr>))"

definition tm_cancel :: "bool \<Rightarrow> timer_id \<Rightarrow> 'c timer_manager \<Rightarrow> 'c timer_manager option" where
  "tm_cancel in_loop i m =
     (if \<not> in_loop then None else Some (m\<lparr>tm_timers := cancel_timer i (tm_timers m)\<rparr>))"

text \<open>
  \<open>read\<close> on the descriptor: eight bytes, an interrupted call, nothing to read, or another failure
  (a short read or another errno). The loop retries interrupted calls.
\<close>

datatype timer_read = ReadFull | ReadEintr | ReadAgain | ReadOther

fun tm_read_loop :: "timer_read list \<Rightarrow> bool option" where
  "tm_read_loop [] = None"
| "tm_read_loop (ReadFull # rs) = Some True"
| "tm_read_loop (ReadEintr # rs) = tm_read_loop rs"
| "tm_read_loop (ReadAgain # rs) = Some False"
| "tm_read_loop (ReadOther # rs) = Some False"

text \<open>
  A callback runs with the manager it belongs to. While the loop runs, the timers of the manager are
  the heap that the loop works on; the copy in the manager record is not read.
\<close>

definition on_heap ::
  "('c \<Rightarrow> 'c timer_manager \<times> 'w \<Rightarrow> 'c timer_manager \<times> 'w) \<Rightarrow>
   'c \<Rightarrow> 'c timer_heap \<times> ('c timer_manager \<times> 'w) \<Rightarrow> 'c timer_heap \<times> ('c timer_manager \<times> 'w)" where
  "on_heap call c hw =
     (let (h, m, w) = hw; (m', w') = call c (m\<lparr>tm_timers := h\<rparr>, w) in (tm_timers m', m'\<lparr>tm_timers := tm_timers m\<rparr>, w'))"

definition tm_handleRead ::
  "('c \<Rightarrow> 'c timer_manager \<times> 'w \<Rightarrow> 'c timer_manager \<times> 'w) \<Rightarrow> timer_read list \<Rightarrow> int \<Rightarrow>
   'c timer_manager \<Rightarrow> 'w \<Rightarrow> ('c timer_manager \<times> 'w) option" where
  "tm_handleRead call reads now_ms m w =
     (if tm_fd m = None then Some (m, w)
      else do {
        full \<leftarrow> tm_read_loop reads;
        if \<not> full then Some (m, w)
        else do {
          (n, h, m', w') \<leftarrow> popExpired (on_heap call) now_ms (tm_timers m) (m\<lparr>tm_handling := True\<rparr>, w);
          Some (m'\<lparr>tm_timers := h, tm_handling := False\<rparr>, w')
        }
      })"

section \<open>Invariant\<close>

text \<open>Started means: a descriptor and a registered channel exist. Stopped means: neither does.\<close>

definition manager_inv :: "'c timer_manager \<Rightarrow> bool" where
  "manager_inv m \<longleftrightarrow> timer_inv (tm_timers m) \<and>
     (tm_started m \<longleftrightarrow> tm_fd m \<noteq> None) \<and> (tm_started m \<longleftrightarrow> tm_registered m) \<and> (tm_started m \<longrightarrow> tm_channel m)"

lemma manager_inv_new: "manager_inv (new_timer_manager tick)"
  by (simp add: manager_inv_def new_timer_manager_def timer_inv_new)

lemma manager_inv_start: "manager_inv m \<Longrightarrow> manager_inv (snd (tm_start in_loop sc m))"
  by (auto simp: manager_inv_def tm_start_def startInLoop_def Let_def split: sum.splits option.splits)

lemma manager_inv_stop: "manager_inv m \<Longrightarrow> manager_inv (stopInLoop m)"
  by (auto simp: manager_inv_def stopInLoop_def Let_def timer_inv_clear)

lemma manager_inv_runAfter:
  "manager_inv m \<Longrightarrow> next_timer_id (tm_timers m) \<noteq> - 1 \<Longrightarrow> runAfter in_loop now_ms d c m = Some (i, m') \<Longrightarrow>
     manager_inv m'"
  using timer_inv_add [of "tm_timers m" "now_ms + (if d < 0 then 0 else d)" c]
  by (auto simp: manager_inv_def runAfter_def split: if_splits prod.splits)

lemma manager_inv_cancel: "manager_inv m \<Longrightarrow> tm_cancel in_loop i m = Some m' \<Longrightarrow> manager_inv m'"
  by (auto simp: manager_inv_def tm_cancel_def timer_inv_cancel split: if_splits)

section \<open>Ticks\<close>

text \<open>Callbacks that only change the world.\<close>

definition leaves_manager ::
  "('c \<Rightarrow> 'c timer_manager \<times> 'w \<Rightarrow> 'c timer_manager \<times> 'w) \<Rightarrow> ('c \<Rightarrow> 'w \<Rightarrow> 'w) \<Rightarrow> bool" where
  "leaves_manager call eff \<longleftrightarrow> (\<forall>c m w. call c (m, w) = (m, eff c w))"

lemma leaves_heap_on_heap:
  "leaves_manager call eff \<Longrightarrow> leaves_heap (on_heap call) (\<lambda>c mw. (fst mw, eff c (snd mw)))"
  by (simp add: leaves_manager_def leaves_heap_def on_heap_def)

lemma run_callbacks_snd:
  "run_callbacks (\<lambda>c mw. (fst mw, eff c (snd mw))) cs (m, w) = (m, run_callbacks eff cs w)"
proof (induction cs arbitrary: w)
  case (Cons c cs)
  then show ?case by (cases c) simp_all
qed simp

lemma tm_handleRead_due:
  assumes inv: "manager_inv m" and "tm_started m" "leaves_manager call eff" "tm_read_loop reads = Some True"
  shows "\<exists>h'. tm_handleRead call reads now_ms m w =
      Some (m\<lparr>tm_timers := h', tm_handling := False\<rparr>,
            run_callbacks eff (map (callback_of (tm_timers m)) (due now_ms (tm_timers m))) w) \<and>
    timer_inv h' \<and> th_timers h' = later now_ms (tm_timers m)"
proof -
  have "timer_inv (tm_timers m)" "tm_fd m \<noteq> None"
    using assms(1,2) by (auto simp: manager_inv_def)
  with pop_loop_passive [OF this(1) leaves_heap_on_heap [OF assms(3)], of now_ms 0 "(m\<lparr>tm_handling := True\<rparr>, w)"]
  show ?thesis
    using assms(4)
    by (auto simp: tm_handleRead_def popExpired_def run_callbacks_snd)
qed

definition tick_ids :: "int \<Rightarrow> 'c timer_manager \<Rightarrow> timer_id list \<times> 'c timer_manager" where
  "tick_ids now_ms m =
     (map he_id (due now_ms (tm_timers m)), fst (the (tm_handleRead (\<lambda>c mw. mw) [ReadFull] now_ms m ())))"

definition running :: "'c timer_manager \<Rightarrow> bool" where
  "running m \<longleftrightarrow> manager_inv m \<and> tm_started m"

lemma tick_ids_manager:
  assumes "running m"
  shows "\<exists>h'. snd (tick_ids now_ms m) = m\<lparr>tm_timers := h', tm_handling := False\<rparr> \<and> timer_inv h' \<and>
    th_timers h' = later now_ms (tm_timers m)"
proof -
  have "leaves_manager (\<lambda>c mw. mw) (\<lambda>c (w :: unit). w)" by (simp add: leaves_manager_def)
  from tm_handleRead_due [OF _ _ this, of m "[ReadFull]" now_ms "()"] assms show ?thesis
    by (auto simp: tick_ids_def running_def)
qed

lemma tick_ids_timers:
  assumes "running m"
  shows "running (snd (tick_ids now_ms m))"
    "th_timers (tm_timers (snd (tick_ids now_ms m))) = later now_ms (tm_timers m)"
  using tick_ids_manager [OF assms, of now_ms] assms by (auto simp: running_def manager_inv_def)

interpretation tmq: timer_queue tick_ids
    "\<lambda>i m. m\<lparr>tm_timers := cancel_timer i (tm_timers m)\<rparr>" "\<lambda>m. pending_timers (tm_timers m)" running
proof
  fix q :: "'c timer_manager" and now t t' :: int and i :: timer_id
  assume run: "running q"
  then have inv: "timer_inv (tm_timers q)" by (simp add: running_def manager_inv_def)
  show "running (snd (tick_ids now q))" by (rule tick_ids_timers(1) [OF run])
  show "running (q\<lparr>tm_timers := cancel_timer i (tm_timers q)\<rparr>)"
    using run by (auto simp: running_def manager_inv_def timer_inv_cancel)
  show "t = t'" if "(t, i) \<in> pending_timers (tm_timers q)" "(t', i) \<in> pending_timers (tm_timers q)"
    using tq.pending_unique [OF inv] that .
  show "pending_timers (tm_timers (snd (tick_ids now q))) = {(t, i) \<in> pending_timers (tm_timers q). t > now}"
    by (auto simp: pending_timers_def tick_ids_timers(2) [OF run] later_def)
  have ids: "fst (tick_ids now q) = fst (expire_ids now (tm_timers q))"
    by (simp add: tick_ids_def expire_ids_def)
  show "distinct (fst (tick_ids now q))"
    unfolding ids by (rule tq.expire_fired(1) [OF inv])
  show "set (fst (tick_ids now q)) = {i. \<exists>t. (t, i) \<in> pending_timers (tm_timers q) \<and> t \<le> now}"
    unfolding ids by (rule tq.expire_fired(2) [OF inv])
  show "pending_timers (tm_timers (q\<lparr>tm_timers := cancel_timer i (tm_timers q)\<rparr>)) =
      {(t, j) \<in> pending_timers (tm_timers q). j \<noteq> i}"
    using tq.cancel_pending [OF inv] by simp
qed

section \<open>Properties\<close>

lemma runAfter_pending:
  assumes "running m" "next_timer_id (tm_timers m) \<noteq> - 1" "runAfter True now_ms delay c m = Some (i, m')"
  shows "running m'" "(now_ms + max 0 delay, i) \<in> pending_timers (tm_timers m')"
proof -
  have "tm_started m' = tm_started m" using assms(3) by (auto simp: runAfter_def split: prod.splits)
  with assms manager_inv_runAfter show "running m'" by (auto simp: running_def)
  have "map_of (th_timers (tm_timers m)) (next_timer_id (tm_timers m)) = None"
    using assms(1)
    by (force simp: running_def manager_inv_def timer_inv_def map_of_eq_None_iff entry_of_def image_subset_iff)
  with assms(3) show "(now_ms + max 0 delay, i) \<in> pending_timers (tm_timers m')"
    by (auto simp: runAfter_def add_timer_def Let_def pending_timers_def al_emplace_def max_def split: if_splits)
qed



text \<open>
  A tick runs the due callbacks and nothing else: if the read of the descriptor succeeds, possibly
  after interrupted attempts, and the callbacks only change the world, \<open>handleRead\<close> runs the callbacks
  of the due timers in order and changes nothing else of the manager.
\<close>

theorem handleRead_runs_due:
  assumes "running m" and "leaves_manager call eff"
  shows "\<exists>h'. tm_handleRead call (replicate k ReadEintr @ ReadFull # rs) now_ms m w =
      Some (m\<lparr>tm_timers := h', tm_handling := False\<rparr>,
            run_callbacks eff (map (callback_of (tm_timers m)) (due now_ms (tm_timers m))) w) \<and>
    th_timers h' = filter (\<lambda>kt. te_expiration (snd kt) > now_ms) (th_timers (tm_timers m))"
proof -
  have "tm_read_loop (replicate k ReadEintr @ ReadFull # rs) = Some True"
    by (induction k) simp_all
  with assms tm_handleRead_due [of m call eff "replicate k ReadEintr @ ReadFull # rs" now_ms w] show ?thesis
    by (auto simp: running_def later_def)
qed

theorem handleRead_runs_due_witness:
  "\<exists>h'. tm_handleRead (\<lambda>c (m, w). (m, c # w)) [ReadEintr, ReadFull] 5
     (snd (tm_start True \<lparr>sc_create = Inr 7, sc_settime = None, sc_enable = None\<rparr> (new_timer_manager 10)))
     ([] :: nat list) = Some (h', [])"
proof -
  let ?m = "snd (tm_start True \<lparr>sc_create = Inr 7, sc_settime = None, sc_enable = None\<rparr>
      (new_timer_manager 10)) :: nat timer_manager"
  have m: "tm_started ?m" "tm_timers ?m = new_timer_heap"
    by (simp_all add: tm_start_def startInLoop_def new_timer_manager_def)
  then have "running ?m"
    by (simp add: running_def manager_inv_start manager_inv_new)
  moreover have "leaves_manager (\<lambda>c (m, w). (m, c # w)) (\<lambda>c w. c # w)" by (simp add: leaves_manager_def)
  ultimately show ?thesis
    using handleRead_runs_due [of ?m "\<lambda>c (m, w). (m, c # w)" "\<lambda>c w. c # w" 1 "[]" 5 "[]"] m
    by (auto simp: due_def new_timer_heap_def)
qed

end
