(* ===== verification/Thread_Pool.thy ===== *)
theory Thread_Pool
  imports LiteIM_Prelude
begin

text \<open>
  The business thread pool (\<open>include/liteim/concurrency/ThreadPool.hpp\<close>,
  \<open>src/concurrency/ThreadPool.cpp\<close>). Each section of the source that holds \<open>mutex_\<close> is one function
  on the pool; \<open>pool_step\<close> interleaves the calls of any number of threads with the worker loops. A
  worker waits on the condition variable, runs a task, or has returned; it may take its next step
  exactly when the predicate of \<open>condition_.wait\<close> holds. Tasks are names, an empty \<open>std::function\<close> is
  \<open>None\<close>; a task may itself submit tasks or stop the pool, which is just another interleaved call.
  Results: accepted tasks are run once, in FIFO order, the queue bound holds, and a stopped pool
  drains its queue and its workers return.
\<close>

section \<open>State and critical sections\<close>

datatype 'k worker = Waiting | Busy 'k | Exited

record 'k thread_pool =
  tp_worker_count :: nat
  tp_max_pending :: nat
  tp_tasks :: "'k list"
  tp_workers :: "'k worker list"
  tp_running :: bool

definition new_thread_pool :: "nat \<Rightarrow> nat \<Rightarrow> 'k thread_pool" where
  "new_thread_pool worker_count max_pending =
     \<lparr>tp_worker_count = worker_count, tp_max_pending = max_pending, tp_tasks = [], tp_workers = [],
      tp_running = False\<rparr>"

text \<open>
  \<open>start\<close>: the argument says whether creating the threads throws. In that branch the workers that
  exist are joined before the vectors are cleared, all before another thread can use the pool.
\<close>

definition tp_start :: "bool \<Rightarrow> 'k thread_pool \<Rightarrow> status \<times> 'k thread_pool" where
  "tp_start create_fails p =
     (if tp_worker_count p = 0
      then (status_error InvalidArgument ''thread pool worker count must be greater than zero'', p)
      else if tp_running p \<or> tp_workers p \<noteq> []
      then (status_error InvalidArgument ''thread pool has already started'', p)
      else if create_fails
      then (status_error InternalError ''failed to start thread pool workers'',
            p\<lparr>tp_running := False, tp_workers := [], tp_tasks := []\<rparr>)
      else (status_ok, p\<lparr>tp_running := True, tp_workers := replicate (tp_worker_count p) Waiting\<rparr>))"

definition tp_submit :: "'k option \<Rightarrow> 'k thread_pool \<Rightarrow> status \<times> 'k thread_pool" where
  "tp_submit task p =
     (case task of
        None \<Rightarrow> (status_error InvalidArgument ''thread pool task must not be empty'', p)
      | Some t \<Rightarrow>
          if \<not> tp_running p
          then (status_error InvalidArgument ''thread pool is not accepting new tasks'', p)
          else if tp_max_pending p > 0 \<and> length (tp_tasks p) \<ge> tp_max_pending p
          then (status_error ResourceExhausted ''thread pool pending task queue is full'', p)
          else (status_ok, p\<lparr>tp_tasks := tp_tasks p @ [t]\<rparr>))"

text \<open>
  \<open>stop\<close>: the first section clears \<open>running_\<close>. A call from a worker ends there. Otherwise the caller
  joins the workers, which it can do once all of them have returned, and clears the vector.
\<close>

definition tp_stop_request :: "'k thread_pool \<Rightarrow> 'k thread_pool" where
  "tp_stop_request p = (if \<not> tp_running p \<and> tp_workers p = [] then p else p\<lparr>tp_running := False\<rparr>)"

definition tp_stop_join :: "'k thread_pool \<Rightarrow> 'k thread_pool option" where
  "tp_stop_join p =
     (if tp_workers p = [] then Some p
      else if list_all (\<lambda>w. w = Exited) (tp_workers p) then Some (p\<lparr>tp_workers := []\<rparr>)
      else None)"

definition pendingTaskCount :: "'k thread_pool \<Rightarrow> nat" where
  "pendingTaskCount p = length (tp_tasks p)"

text \<open>
  One step of worker \<open>i\<close>: the critical section of \<open>workerLoop\<close> when the wait predicate holds, which
  returns or takes the front task, or the end of a task, whether it returned or threw. The second
  component is the task taken, if any.
\<close>

definition worker_step :: "nat \<Rightarrow> 'k thread_pool \<Rightarrow> ('k thread_pool \<times> 'k option) option" where
  "worker_step i p =
     (if i < length (tp_workers p) then
        (case tp_workers p ! i of
           Waiting \<Rightarrow>
             if \<not> tp_running p \<or> tp_tasks p \<noteq> [] then
               (case tp_tasks p of
                  [] \<Rightarrow> Some (p\<lparr>tp_workers := (tp_workers p)[i := Exited]\<rparr>, None)
                | t # ts \<Rightarrow> Some (p\<lparr>tp_workers := (tp_workers p)[i := Busy t], tp_tasks := ts\<rparr>, Some t))
             else None
         | Busy t \<Rightarrow> Some (p\<lparr>tp_workers := (tp_workers p)[i := Waiting]\<rparr>, None)
         | Exited \<Rightarrow> None)
      else None)"

section \<open>Interleavings\<close>

text \<open>The pool together with the tasks accepted by \<open>submit\<close> and those taken by workers, in order.\<close>

record 'k pool_run =
  pool :: "'k thread_pool"
  accepted :: "'k list"
  taken :: "'k list"

inductive pool_step :: "'k pool_run \<Rightarrow> 'k pool_run \<Rightarrow> bool" where
  start: "pool_step r (r\<lparr>pool := snd (tp_start b (pool r))\<rparr>)"
| submit_ok: "tp_submit (Some t) (pool r) = (st, p') \<Longrightarrow> isOk st \<Longrightarrow>
    pool_step r (r\<lparr>pool := p', accepted := accepted r @ [t]\<rparr>)"
| submit_refused: "tp_submit task (pool r) = (st, p') \<Longrightarrow> \<not> isOk st \<Longrightarrow> pool_step r (r\<lparr>pool := p'\<rparr>)"
| stop_request: "pool_step r (r\<lparr>pool := tp_stop_request (pool r)\<rparr>)"
| stop_join: "tp_stop_join (pool r) = Some p' \<Longrightarrow> pool_step r (r\<lparr>pool := p'\<rparr>)"
| worker: "worker_step i (pool r) = Some (p', t) \<Longrightarrow>
    pool_step r (r\<lparr>pool := p', taken := taken r @ (case t of None \<Rightarrow> [] | Some t \<Rightarrow> [t])\<rparr>)"

definition initial_run :: "nat \<Rightarrow> nat \<Rightarrow> 'k pool_run" where
  "initial_run n m = \<lparr>pool = new_thread_pool n m, accepted = [], taken = []\<rparr>"

inductive pool_reachable :: "nat \<Rightarrow> nat \<Rightarrow> 'k pool_run \<Rightarrow> bool" for n m where
  init: "pool_reachable n m (initial_run n m)"
| step: "pool_reachable n m r \<Longrightarrow> pool_step r r' \<Longrightarrow> pool_reachable n m r'"

inductive_cases pool_stepE: "pool_step r r'"

section \<open>Invariant\<close>

text \<open>
  A pool that runs has workers and none of them has returned; a worker returns only when the pool was
  stopped and the queue was empty, and then it stays empty.
\<close>

definition pool_inv :: "'k pool_run \<Rightarrow> bool" where
  "pool_inv r \<longleftrightarrow>
     accepted r = taken r @ tp_tasks (pool r) \<and>
     (tp_running (pool r) \<longrightarrow> tp_workers (pool r) \<noteq> [] \<and> Exited \<notin> set (tp_workers (pool r))) \<and>
     (tp_workers (pool r) = [] \<or> Exited \<in> set (tp_workers (pool r)) \<longrightarrow> tp_tasks (pool r) = []) \<and>
     (tp_max_pending (pool r) > 0 \<longrightarrow> length (tp_tasks (pool r)) \<le> tp_max_pending (pool r))"

lemma pool_inv_initial: "pool_inv (initial_run n m)"
  by (simp add: pool_inv_def initial_run_def new_thread_pool_def)

lemma worker_step_cases:
  assumes "worker_step i p = Some (p', t)"
  obtains (exit) "tp_workers p ! i = Waiting" "i < length (tp_workers p)" "\<not> tp_running p" "tp_tasks p = []"
      "p' = p\<lparr>tp_workers := (tp_workers p)[i := Exited]\<rparr>" "t = None"
  | (take) x ts where "tp_workers p ! i = Waiting" "i < length (tp_workers p)" "tp_tasks p = x # ts"
      "p' = p\<lparr>tp_workers := (tp_workers p)[i := Busy x], tp_tasks := ts\<rparr>" "t = Some x"
  | (finish) x where "tp_workers p ! i = Busy x" "i < length (tp_workers p)"
      "p' = p\<lparr>tp_workers := (tp_workers p)[i := Waiting]\<rparr>" "t = None"
  using assms by (auto simp: worker_step_def split: if_splits worker.splits list.splits)

lemma Exited_update:
  "w \<noteq> Exited \<Longrightarrow> ws ! i \<noteq> Exited \<Longrightarrow> Exited \<in> set (ws[i := w]) \<longleftrightarrow> Exited \<in> set ws"
  by (metis in_set_conv_nth length_list_update nth_list_update_eq nth_list_update_neq)

lemma pool_inv_worker:
  assumes "pool_inv r" "worker_step i (pool r) = Some (p', t)"
  shows "pool_inv (r\<lparr>pool := p', taken := taken r @ (case t of None \<Rightarrow> [] | Some t \<Rightarrow> [t])\<rparr>)"
  using assms(2)
proof (cases rule: worker_step_cases)
  case exit
  with assms(1) show ?thesis by (auto simp: pool_inv_def)
next
  case (take x ts)
  with assms(1) have "Exited \<notin> set (tp_workers (pool r))" by (auto simp: pool_inv_def)
  with take assms(1) Exited_update [of "Busy x" "tp_workers (pool r)" i] show ?thesis
    by (auto simp: pool_inv_def)
next
  case (finish x)
  with assms(1) Exited_update [of Waiting "tp_workers (pool r)" i] show ?thesis
    by (auto simp: pool_inv_def)
qed

lemma pool_inv_step: "pool_step r r' \<Longrightarrow> pool_inv r \<Longrightarrow> pool_inv r'"
proof (induction rule: pool_step.induct)
  case (start r b)
  then show ?case by (auto simp: pool_inv_def tp_start_def)
next
  case (submit_ok t r st p')
  then show ?case by (auto simp: pool_inv_def tp_submit_def split: if_splits)
next
  case (submit_refused task r st p')
  then show ?case by (auto simp: pool_inv_def tp_submit_def split: if_splits option.splits)
next
  case (stop_request r)
  then show ?case by (auto simp: pool_inv_def tp_stop_request_def)
next
  case (stop_join r p')
  then show ?case
    by (auto simp: pool_inv_def tp_stop_join_def list_all_iff neq_Nil_conv split: if_splits)
next
  case (worker i r p' t)
  then show ?case by (simp add: pool_inv_worker)
qed

lemma pool_inv_reachable: "pool_reachable n m r \<Longrightarrow> pool_inv r"
  by (induction rule: pool_reachable.induct) (auto intro: pool_inv_initial pool_inv_step)

lemma pool_step_config:
  "pool_step r r' \<Longrightarrow> tp_max_pending (pool r') = tp_max_pending (pool r)"
  by (induction rule: pool_step.induct)
    (auto simp: tp_start_def tp_submit_def tp_stop_request_def tp_stop_join_def
      elim!: worker_step_cases split: if_splits option.splits)

lemma pool_reachable_config: "pool_reachable n m r \<Longrightarrow> tp_max_pending (pool r) = m"
  by (induction rule: pool_reachable.induct)
    (auto simp: initial_run_def new_thread_pool_def pool_step_config)

section \<open>Draining\<close>

fun worker_weight :: "'k worker \<Rightarrow> nat" where
  "worker_weight Waiting = 1"
| "worker_weight (Busy t) = 2"
| "worker_weight Exited = 0"

definition drain_measure :: "'k thread_pool \<Rightarrow> nat" where
  "drain_measure p = 3 * length (tp_tasks p) + sum_list (map worker_weight (tp_workers p))"

fun worker_run :: "nat list \<Rightarrow> 'k thread_pool \<Rightarrow> 'k thread_pool option" where
  "worker_run [] p = Some p"
| "worker_run (i # is) p = do { (p', t) \<leftarrow> worker_step i p; worker_run is p' }"

lemma weight_update:
  "i < length ws \<Longrightarrow>
     sum_list (map worker_weight (ws[i := w])) + worker_weight (ws ! i) =
     sum_list (map worker_weight ws) + worker_weight w"
  by (induction ws arbitrary: i) (auto split: nat.splits)

lemma worker_step_measure:
  assumes "worker_step i p = Some (p', t)"
  shows "drain_measure p' < drain_measure p" "tp_running p' = tp_running p"
proof -
  have "drain_measure p' < drain_measure p \<and> tp_running p' = tp_running p"
    using assms
  proof (cases rule: worker_step_cases)
    case exit
    with weight_update [of i "tp_workers p" Exited] show ?thesis by (simp add: drain_measure_def)
  next
    case (take x ts)
    with weight_update [of i "tp_workers p" "Busy x"] show ?thesis by (simp add: drain_measure_def)
  next
    case (finish x)
    with weight_update [of i "tp_workers p" Waiting] show ?thesis by (simp add: drain_measure_def)
  qed
  then show "drain_measure p' < drain_measure p" "tp_running p' = tp_running p" by simp_all
qed

lemma worker_run_measure:
  "worker_run is p = Some p' \<Longrightarrow> length is + drain_measure p' \<le> drain_measure p \<and> tp_running p' = tp_running p"
proof (induction "is" arbitrary: p)
  case (Cons i "is")
  from Cons.prems obtain q t where "worker_step i p = Some (q, t)" "worker_run is q = Some p'"
    by (auto simp: bind_eq_Some_conv)
  with Cons.IH [of q] worker_step_measure [of i p q t] show ?case by fastforce
qed simp

text \<open>A worker of a stopped pool that has not returned can always go on.\<close>

lemma stopped_progress:
  assumes "\<not> tp_running p" "tp_stop_join p = None"
  shows "\<exists>i. worker_step i p \<noteq> None"
proof -
  obtain i where "i < length (tp_workers p)" "tp_workers p ! i \<noteq> Exited"
    using assms(2) by (auto simp: tp_stop_join_def list_all_length split: if_splits)
  with assms(1) have "worker_step i p \<noteq> None"
    by (auto simp: worker_step_def split: worker.splits list.splits)
  then show ?thesis ..
qed

section \<open>Properties\<close>

text \<open>
  C25. Accepted work is done once and in order: in every reachable state the tasks that \<open>submit\<close>
  accepted are the tasks taken by workers followed by the queue, so no task is lost, duplicated or
  overtaken; the queue never exceeds a positive bound; and once \<open>stop\<close> has joined the workers, every
  accepted task has been taken.
\<close>

theorem pool_runs_accepted:
  assumes "pool_reachable n m r"
  shows "accepted r = taken r @ tp_tasks (pool r) \<and>
    (m > 0 \<longrightarrow> pendingTaskCount (pool r) \<le> m) \<and>
    (tp_workers (pool r) = [] \<longrightarrow> taken r = accepted r)"
  using pool_inv_reachable [OF assms] pool_reachable_config [OF assms]
  by (auto simp: pool_inv_def pendingTaskCount_def)

text \<open>One worker, one slot: the task is accepted, then taken.\<close>

lemma example_pool_run:
  "pool_reachable 1 1 \<lparr>pool = \<lparr>tp_worker_count = 1, tp_max_pending = 1, tp_tasks = [],
     tp_workers = [Busy (5 :: nat)], tp_running = True\<rparr>, accepted = [5], taken = [5]\<rparr>"
proof -
  let ?p = "\<lparr>tp_worker_count = 1, tp_max_pending = 1, tp_tasks = [], tp_workers = [Waiting],
      tp_running = True\<rparr> :: nat thread_pool"
  let ?q = "?p\<lparr>tp_tasks := [5]\<rparr>"
  have s1: "pool_step (initial_run 1 1) \<lparr>pool = ?p, accepted = [], taken = []\<rparr>"
    using pool_step.start [of "initial_run 1 1" False]
    by (simp add: initial_run_def new_thread_pool_def tp_start_def)
  have s2: "pool_step \<lparr>pool = ?p, accepted = [], taken = []\<rparr> \<lparr>pool = ?q, accepted = [5], taken = []\<rparr>"
    using pool_step.submit_ok [of 5 "\<lparr>pool = ?p, accepted = [], taken = []\<rparr>" status_ok ?q]
    by (simp add: tp_submit_def)
  have s3: "pool_step \<lparr>pool = ?q, accepted = [5], taken = []\<rparr>
      \<lparr>pool = ?p\<lparr>tp_workers := [Busy 5]\<rparr>, accepted = [5], taken = [5]\<rparr>"
    using pool_step.worker [of 0 "\<lparr>pool = ?q, accepted = [5], taken = []\<rparr>" "?p\<lparr>tp_workers := [Busy 5]\<rparr>" "Some 5"]
    by (simp add: worker_step_def)
  from pool_reachable.step [OF pool_reachable.step [OF pool_reachable.step [OF pool_reachable.init s1] s2] s3]
  show ?thesis by simp
qed

theorem pool_runs_accepted_witness:
  "pendingTaskCount \<lparr>tp_worker_count = 1, tp_max_pending = 1, tp_tasks = [],
     tp_workers = [Busy (5 :: nat)], tp_running = True\<rparr> \<le> 1"
  using pool_runs_accepted [OF example_pool_run] by simp

text \<open>
  C33. A stopped pool drains: once \<open>running_\<close> is false, after any steps of the workers either all of
  them have returned, so that the join in \<open>stop\<close> completes, or some worker can take its next step;
  and the workers can take only a bounded number of steps, at most three for each queued task and
  two for each worker. So \<open>stop\<close> returns if the tasks do.
\<close>

theorem stop_drains:
  assumes "\<not> tp_running p" and "worker_run is p = Some p'"
  shows "length is \<le> 3 * length (tp_tasks p) + 2 * length (tp_workers p) \<and>
    (tp_stop_join p' \<noteq> None \<or> (\<exists>i. worker_step i p' \<noteq> None))"
proof -
  have weight: "worker_weight w \<le> 2" for w :: "'a worker" by (cases w) simp_all
  have "sum_list (map worker_weight ws) \<le> 2 * length ws" for ws :: "'a worker list"
  proof (induction ws)
    case (Cons w ws)
    then show ?case using weight [of w] by simp
  qed simp
  then have "drain_measure p \<le> 3 * length (tp_tasks p) + 2 * length (tp_workers p)"
    by (simp add: drain_measure_def)
  with worker_run_measure [OF assms(2)] stopped_progress [of p'] assms(1) show ?thesis by fastforce
qed

theorem stop_drains_witness:
  "\<exists>p'. worker_run [0, 0, 0] \<lparr>tp_worker_count = 1, tp_max_pending = 0, tp_tasks = [7 :: nat],
     tp_workers = [Waiting], tp_running = False\<rparr> = Some p' \<and>
     (tp_stop_join p' \<noteq> None \<or> (\<exists>i. worker_step i p' \<noteq> None))"
proof -
  let ?p = "\<lparr>tp_worker_count = 1, tp_max_pending = 0, tp_tasks = [7 :: nat], tp_workers = [Waiting],
      tp_running = False\<rparr>"
  have "worker_run [0, 0, 0] ?p = Some (?p\<lparr>tp_tasks := [], tp_workers := [Exited]\<rparr>)"
    by (simp add: worker_step_def)
  with stop_drains [of ?p "[0, 0, 0]"] show ?thesis by auto
qed

end
