(* ===== verification/Session_Manager.thy ===== *)
theory Session_Manager
  imports Session_Core
begin

text \<open>
  The table of logged-in users (\<open>include/liteim/service/SessionManager.hpp\<close>,
  \<open>src/service/SessionManager.cpp\<close>). Sessions are shared objects: a \<open>Session::Ptr\<close> is a reference
  into the map of live sessions, \<open>nullptr\<close> is \<open>None\<close>, and locking a \<open>weak_ptr\<close> succeeds while the
  object is live. The services run on the threads of the business pool and not on the loop of any
  session, so \<open>Session::close\<close> and \<open>Session::sendPacket\<close> only queue work there; the router also answers
  on the loop of the session, where the effects of the close callback on the server's table of
  connections are outside of this store. Every method takes the
  mutex once, so each is one function. The invariant says that the two maps are inverse to each
  other; the locale \<open>session_registry\<close> is the contract that the services build on.
\<close>

declare map_of_eq_Some_iff [simp del] Some_eq_map_of_iff [simp del]

section \<open>Live sessions\<close>

type_synonym sref = nat
type_synonym session_store = "sref \<Rightarrow> session option"

definition idle_callbacks :: "unit session_callbacks" where
  "idle_callbacks = \<lparr>on_message = None, on_close = None\<rparr>"

text \<open>Off the owner's thread no callback runs, so any callbacks may stand for the session's own.\<close>

lemma off_loop_callbacks:
  "sendPacket cbs False p (s, w) =
     (let (st, s', u) = sendPacket idle_callbacks False p (s, ()) in (st, s', w))"
  "session_close cbs False (s, w) = (fst (session_close idle_callbacks False (s, ())), w)"
  by (simp_all add: sendPacket_def session_close_def split: sum.splits)

definition store_send :: "bool \<Rightarrow> sref \<Rightarrow> packet \<Rightarrow> session_store \<Rightarrow> status \<times> session_store" where
  "store_send in_loop r p h = (case h r of
      None \<Rightarrow> (status_error NotFound ''session is closed'', h)
    | Some s \<Rightarrow> (case sendPacket idle_callbacks in_loop p (s, ()) of (st, s', _) \<Rightarrow> (st, h(r \<mapsto> s'))))"

definition store_close :: "sref \<Rightarrow> session_store \<Rightarrow> session_store" where
  "store_close r h = (case h r of
      None \<Rightarrow> h
    | Some s \<Rightarrow> h(r \<mapsto> fst (session_close idle_callbacks False (s, ()))))"

definition alive :: "session_store \<Rightarrow> sref \<Rightarrow> bool" where
  "alive h r \<longleftrightarrow> (case h r of None \<Rightarrow> False | Some s \<Rightarrow> \<not> ss_closed s)"

section \<open>State and operations\<close>

record user_binding =
  ub_session_id :: u64
  ub_session :: sref

record session_manager =
  sm_users :: "(u64 \<times> user_binding) list"
  sm_sessions :: "(u64 \<times> u64) list"

definition new_session_manager :: session_manager where
  "new_session_manager = \<lparr>sm_users = [], sm_sessions = []\<rparr>"

definition eraseBindingLocked :: "u64 \<Rightarrow> u64 \<Rightarrow> session_manager \<Rightarrow> session_manager" where
  "eraseBindingLocked user_id session_id m =
     m\<lparr>sm_users := al_erase user_id (sm_users m), sm_sessions := al_erase session_id (sm_sessions m)\<rparr>"

text \<open>A pointer that a caller holds is live, so its fields may be read.\<close>

definition sm_bindUser ::
  "u64 \<Rightarrow> sref option \<Rightarrow> session_manager \<times> session_store \<Rightarrow> status \<times> session_manager \<times> session_store" where
  "sm_bindUser user_id session mh =
     (let (m, h) = mh in
      if user_id = 0 then (status_error InvalidArgument ''user id must be positive'', m, h)
      else case session of
        None \<Rightarrow> (status_error InvalidArgument ''session must not be null'', m, h)
      | Some r \<Rightarrow>
          let session_id = ss_id (the (h r)) in
          if session_id = 0 then (status_error InvalidArgument ''session id must be positive'', m, h)
          else if ss_closed (the (h r)) then (status_error InvalidArgument ''session is closed'', m, h)
          else if map_of (sm_sessions m) session_id \<notin> {None, Some user_id}
          then (status_error AlreadyExists ''session is already bound to another user'', m, h)
          else (case map_of (sm_users m) user_id of
              Some b \<Rightarrow>
                if ub_session_id b = session_id
                then (status_ok,
                      m\<lparr>sm_users := al_assign user_id (b\<lparr>ub_session := r\<rparr>) (sm_users m),
                        sm_sessions := al_assign session_id user_id (sm_sessions m)\<rparr>, h)
                else
                  let old_session = ub_session b;
                      m = m\<lparr>sm_sessions := al_erase (ub_session_id b) (sm_sessions m)\<rparr>;
                      m = m\<lparr>sm_users := al_assign user_id \<lparr>ub_session_id = session_id, ub_session = r\<rparr> (sm_users m)\<rparr>;
                      m = m\<lparr>sm_sessions := al_assign session_id user_id (sm_sessions m)\<rparr>
                  in (status_ok, m,
                      if h old_session \<noteq> None \<and> old_session \<noteq> r \<and> \<not> ss_closed (the (h old_session))
                      then store_close old_session h else h)
            | None \<Rightarrow>
                let m = m\<lparr>sm_users := al_assign user_id \<lparr>ub_session_id = session_id, ub_session = r\<rparr> (sm_users m)\<rparr>;
                    m = m\<lparr>sm_sessions := al_assign session_id user_id (sm_sessions m)\<rparr>
                in (status_ok, m, h)))"

text \<open>The overload with \<open>removed\<close>; the other one drops that output.\<close>

definition sm_unbindUser :: "u64 \<Rightarrow> u64 \<Rightarrow> session_manager \<Rightarrow> bool result \<times> session_manager" where
  "sm_unbindUser user_id session_id m =
     (if user_id = 0 then (err InvalidArgument ''user id must be positive'', m)
      else if session_id = 0 then (err InvalidArgument ''session id must be positive'', m)
      else (case map_of (sm_users m) user_id of
          None \<Rightarrow> (Inr False, m)
        | Some b \<Rightarrow>
            if ub_session_id b \<noteq> session_id then (Inr False, m)
            else (Inr True, eraseBindingLocked user_id session_id m)))"

definition sm_getSessionByUser ::
  "u64 \<Rightarrow> session_store \<Rightarrow> session_manager \<Rightarrow> sref result \<times> session_manager" where
  "sm_getSessionByUser user_id h m =
     (if user_id = 0 then (err InvalidArgument ''user id must be positive'', m)
      else (case map_of (sm_users m) user_id of
          None \<Rightarrow> (err NotFound ''user is not bound to a session'', m)
        | Some b \<Rightarrow>
            if h (ub_session b) = None \<or> ss_closed (the (h (ub_session b)))
            then (err NotFound ''user session is no longer alive'',
                  eraseBindingLocked user_id (ub_session_id b) m)
            else (Inr (ub_session b), m)))"

definition sm_getUserBySession ::
  "u64 \<Rightarrow> session_store \<Rightarrow> session_manager \<Rightarrow> u64 result \<times> session_manager" where
  "sm_getUserBySession session_id h m =
     (if session_id = 0 then (err InvalidArgument ''session id must be positive'', m)
      else (case map_of (sm_sessions m) session_id of
          None \<Rightarrow> (err NotFound ''session is not bound to a user'', m)
        | Some bound_user_id \<Rightarrow>
            (case map_of (sm_users m) bound_user_id of
               None \<Rightarrow> (err NotFound ''session binding is stale'',
                        m\<lparr>sm_sessions := al_erase session_id (sm_sessions m)\<rparr>)
             | Some b \<Rightarrow>
                 if ub_session_id b \<noteq> session_id
                 then (err NotFound ''session binding is stale'',
                       m\<lparr>sm_sessions := al_erase session_id (sm_sessions m)\<rparr>)
                 else if h (ub_session b) = None \<or> ss_closed (the (h (ub_session b)))
                 then (err NotFound ''session is no longer alive'',
                       eraseBindingLocked bound_user_id session_id m)
                 else (Inr bound_user_id, m))))"

definition sm_getBoundUserBySession :: "u64 \<Rightarrow> session_manager \<Rightarrow> u64 result" where
  "sm_getBoundUserBySession session_id m =
     (if session_id = 0 then err InvalidArgument ''session id must be positive''
      else (case map_of (sm_sessions m) session_id of
          None \<Rightarrow> err NotFound ''session is not bound to a user''
        | Some user_id \<Rightarrow> Inr user_id))"

definition userCount :: "session_manager \<Rightarrow> nat" where
  "userCount m = length (sm_users m)"

definition sessionCount :: "session_manager \<Rightarrow> nat" where
  "sessionCount m = length (sm_sessions m)"

section \<open>Invariant\<close>

text \<open>The session id a user is bound to, and the user a session id is bound to.\<close>

definition session_of :: "session_manager \<Rightarrow> u64 \<rightharpoonup> u64" where
  "session_of m u = map_option ub_session_id (map_of (sm_users m) u)"

definition user_of :: "session_manager \<Rightarrow> u64 \<rightharpoonup> u64" where
  "user_of m = map_of (sm_sessions m)"

definition sm_inv :: "session_manager \<Rightarrow> bool" where
  "sm_inv m \<longleftrightarrow> distinct (al_keys (sm_users m)) \<and> distinct (al_keys (sm_sessions m)) \<and>
     (\<forall>u i. session_of m u = Some i \<longleftrightarrow> user_of m i = Some u) \<and>
     (\<forall>u. session_of m u \<noteq> None \<longrightarrow> u \<noteq> 0)"

lemma sm_inv_new: "sm_inv new_session_manager"
  by (simp add: sm_inv_def new_session_manager_def session_of_def user_of_def)

lemma eraseBinding_views:
  "session_of (eraseBindingLocked u i m) = (session_of m)(u := None)"
  "user_of (eraseBindingLocked u i m) = (user_of m)(i := None)"
  by (auto simp: eraseBindingLocked_def session_of_def user_of_def fun_eq_iff)

lemma sm_inv_erase: "sm_inv m \<Longrightarrow> session_of m u = Some i \<Longrightarrow> sm_inv (eraseBindingLocked u i m)"
  unfolding sm_inv_def eraseBinding_views
  by (auto simp: eraseBindingLocked_def) (metis option.inject)+


text \<open>What a successful binding does to the two maps, and when it succeeds.\<close>

lemma sm_bindUser_guard:
  assumes "sm_bindUser u (Some r) (m, h) = (st, m', h')" "isOk st"
  shows "u \<noteq> 0" "ss_id (the (h r)) \<noteq> 0" "\<not> ss_closed (the (h r))"
    "user_of m (ss_id (the (h r))) \<in> {None, Some u}"
  using assms by (auto simp: sm_bindUser_def Let_def user_of_def split: if_splits)

lemma sm_bindUser_ok:
  assumes "sm_bindUser u (Some r) (m, h) = (st, m', h')" "isOk st" "sm_inv m"
  shows "session_of m' = (session_of m)(u \<mapsto> ss_id (the (h r)))"
    "user_of m' = (case session_of m u of None \<Rightarrow> user_of m | Some i \<Rightarrow> (user_of m)(i := None))
       (ss_id (the (h r)) \<mapsto> u)"
    "map_of (sm_users m') u = Some \<lparr>ub_session_id = ss_id (the (h r)), ub_session = r\<rparr>"
    "distinct (al_keys (sm_users m'))" "distinct (al_keys (sm_sessions m'))"
proof -
  note guard = sm_bindUser_guard [OF assms(1,2)]
  let ?i = "ss_id (the (h r))"
  let ?b = "\<lparr>ub_session_id = ?i, ub_session = r\<rparr>"
  have same: "b\<lparr>ub_session := r\<rparr> = \<lparr>ub_session_id = ub_session_id b, ub_session = r\<rparr>" for b
    by (cases b) simp
  have users: "sm_users m' = al_assign u ?b (sm_users m)"
    using assms(1) guard
    by (auto simp: sm_bindUser_def Let_def user_of_def same split: option.splits if_splits)
  have sessions: "sm_sessions m' = al_assign ?i u (case session_of m u of None \<Rightarrow> sm_sessions m
      | Some i \<Rightarrow> if i = ?i then sm_sessions m else al_erase i (sm_sessions m))"
    using assms(1) guard
    by (auto simp: sm_bindUser_def Let_def user_of_def session_of_def split: option.splits if_splits)
  have d: "distinct (al_keys (sm_users m))" "distinct (al_keys (sm_sessions m))"
    using assms(3) by (simp_all add: sm_inv_def)
  show "session_of m' = (session_of m)(u \<mapsto> ?i)"
    by (auto simp: session_of_def users)
  show "user_of m' = (case session_of m u of None \<Rightarrow> user_of m | Some i \<Rightarrow> (user_of m)(i := None))(?i \<mapsto> u)"
    by (auto simp: user_of_def sessions split: option.splits)
  show "map_of (sm_users m') u = Some ?b" by (simp add: users)
  show "distinct (al_keys (sm_users m'))" "distinct (al_keys (sm_sessions m'))"
    using d by (auto simp: users sessions split: option.splits)
qed

lemma sm_bindUser_refused:
  "sm_bindUser u r (m, h) = (st, m', h') \<Longrightarrow> \<not> isOk st \<Longrightarrow> m' = m \<and> h' = h"
  by (auto simp: sm_bindUser_def Let_def split: option.splits if_splits)

lemma inverse_update:
  assumes "\<forall>u i. f u = Some i \<longleftrightarrow> g i = Some u" "g j \<in> {None, Some v}"
  shows "\<forall>u i. (f(v \<mapsto> j)) u = Some i \<longleftrightarrow>
    ((case f v of None \<Rightarrow> g | Some k \<Rightarrow> g(k := None))(j \<mapsto> v)) i = Some u"
proof (intro allI)
  fix u i
  show "(f(v \<mapsto> j)) u = Some i \<longleftrightarrow>
    ((case f v of None \<Rightarrow> g | Some k \<Rightarrow> g(k := None))(j \<mapsto> v)) i = Some u"
    using assms(1) [rule_format, of u i] assms(1) [rule_format, of v i] assms(2)
    by (cases "f v"; cases "u = v"; cases "i = j") auto
qed

lemma sm_inv_bindUser:
  assumes "sm_inv m" "sm_bindUser u r (m, h) = (st, m', h')"
  shows "sm_inv m'"
proof (cases "isOk st")
  case False
  with sm_bindUser_refused [OF assms(2)] assms(1) show ?thesis by simp
next
  case True
  with assms(2) obtain r' where r: "r = Some r'"
    by (cases r) (auto simp: sm_bindUser_def Let_def split: if_splits)
  note b = assms(2) [unfolded r]
  note ok = sm_bindUser_ok [OF b True assms(1)]
  note guard = sm_bindUser_guard [OF b True]
  from inverse_update [of "session_of m" "user_of m" "ss_id (the (h r'))" u] guard(4) assms(1)
  have "\<forall>u i. session_of m' u = Some i \<longleftrightarrow> user_of m' i = Some u"
    unfolding ok(1,2) by (simp add: sm_inv_def)
  moreover have "session_of m' v \<noteq> None \<longrightarrow> v \<noteq> 0" for v
    using assms(1) guard(1) by (cases "v = u") (simp_all add: ok(1) sm_inv_def)
  ultimately show ?thesis
    using ok(4,5) by (simp add: sm_inv_def)
qed

lemma sm_inv_unbindUser: "sm_inv m \<Longrightarrow> sm_inv (snd (sm_unbindUser u i m))"
  by (auto simp: sm_unbindUser_def sm_inv_erase session_of_def split: option.splits)

lemma sm_inv_getSession: "sm_inv m \<Longrightarrow> sm_inv (snd (sm_getSessionByUser u h m))"
  by (auto simp: sm_getSessionByUser_def sm_inv_erase session_of_def split: option.splits)

text \<open>Under the invariant no binding is stale, so that branch of \<open>getUserBySession\<close> is dead.\<close>

lemma user_binding_of:
  assumes "sm_inv m" "map_of (sm_sessions m) i = Some u"
  obtains b where "map_of (sm_users m) u = Some b" "ub_session_id b = i"
proof -
  have "session_of m u = Some i"
    using assms by (simp add: sm_inv_def user_of_def)
  with that show thesis by (auto simp: session_of_def)
qed

lemma sm_getUserBySession_eq:
  assumes "sm_inv m" "i \<noteq> 0"
  shows "sm_getUserBySession i h m =
    (case user_of m i of
       None \<Rightarrow> (err NotFound ''session is not bound to a user'', m)
     | Some u \<Rightarrow>
         if alive h (ub_session (the (map_of (sm_users m) u))) then (Inr u, m)
         else (err NotFound ''session is no longer alive'', eraseBindingLocked u i m))"
proof (cases "map_of (sm_sessions m) i")
  case (Some u)
  with assms(1) obtain b where "map_of (sm_users m) u = Some b" "ub_session_id b = i"
    by (rule user_binding_of)
  with Some assms(2) show ?thesis
    by (auto simp: sm_getUserBySession_def user_of_def alive_def split: option.splits)
qed (use assms(2) in \<open>simp add: sm_getUserBySession_def user_of_def\<close>)

lemma sm_inv_getUser: "sm_inv m \<Longrightarrow> sm_inv (snd (sm_getUserBySession i h m))"
proof (cases "i = 0")
  case False
  assume inv: "sm_inv m"
  show ?thesis
  proof (cases "user_of m i")
    case (Some u)
    with inv have "session_of m u = Some i" by (simp add: sm_inv_def)
    with inv False Some show ?thesis by (simp add: sm_getUserBySession_eq sm_inv_erase)
  qed (use inv False in \<open>simp add: sm_getUserBySession_eq\<close>)
qed (simp add: sm_getUserBySession_def)

section \<open>The contract of a session registry\<close>

text \<open>
  What the online service and the request handlers rely on: users and session ids are in a
  one-to-one relation, binding replaces the user's session, and unbinding only removes the binding
  that it names.
\<close>

locale session_registry =
  fixes sess :: "'m \<Rightarrow> 'u \<Rightarrow> 'i option"
    and usr :: "'m \<Rightarrow> 'i \<Rightarrow> 'u option"
    and ident :: "'m \<Rightarrow> 'r \<Rightarrow> 'i"
    and bind_user :: "'u \<Rightarrow> 'r \<Rightarrow> 'm \<Rightarrow> 'm option"
    and unbind_user :: "'u \<Rightarrow> 'i \<Rightarrow> 'm \<Rightarrow> 'm"
    and valid :: "'m \<Rightarrow> bool"
  assumes inverse: "valid m \<Longrightarrow> sess m u = Some i \<longleftrightarrow> usr m i = Some u"
    and bind_valid: "valid m \<Longrightarrow> bind_user u r m = Some m' \<Longrightarrow> valid m'"
    and unbind_valid: "valid m \<Longrightarrow> valid (unbind_user u i m)"
    and bind_sess: "valid m \<Longrightarrow> bind_user u r m = Some m' \<Longrightarrow> sess m' = (sess m)(u \<mapsto> ident m r)"
    and unbind_sess: "valid m \<Longrightarrow>
      sess (unbind_user u i m) = (if sess m u = Some i then (sess m)(u := None) else sess m)"
begin

lemma one_user: "valid m \<Longrightarrow> sess m u = Some i \<Longrightarrow> sess m v = Some i \<Longrightarrow> u = v"
  by (simp add: inverse)

text \<open>A second login takes over: the old session is bound to nobody, the new one to the user.\<close>

lemma takeover:
  assumes "valid m" "bind_user u r m = Some m'" "sess m u = Some j" "j \<noteq> ident m r"
  shows "usr m' (ident m r) = Some u" "usr m' j = None"
proof -
  note b = bind_sess [OF assms(1,2)] and v = bind_valid [OF assms(1,2)]
  show "usr m' (ident m r) = Some u" using inverse [OF v, of u "ident m r"] b by simp
  show "usr m' j = None"
  proof (cases "usr m' j")
    case (Some w)
    then have "sess m' w = Some j" using inverse [OF v] by simp
    with b assms(4) have "sess m w = Some j" "w \<noteq> u" by (auto split: if_splits)
    with one_user [OF assms(1) assms(3)] show ?thesis by blast
  qed simp
qed

text \<open>The late cleanup of a replaced session does not log the user out.\<close>

lemma stale_cleanup:
  assumes "valid m" "bind_user u r m = Some m'" "j \<noteq> ident m r"
  shows "sess (unbind_user u j m') = sess m'"
  using unbind_sess [OF bind_valid [OF assms(1,2)]] bind_sess [OF assms(1,2)] assms(3) by simp

end

definition registry_bind ::
  "u64 \<Rightarrow> sref \<Rightarrow> session_manager \<times> session_store \<Rightarrow> (session_manager \<times> session_store) option" where
  "registry_bind u r mh = (case sm_bindUser u (Some r) mh of (st, mh') \<Rightarrow> if isOk st then Some mh' else None)"

lemma sm_unbindUser_views:
  assumes "sm_inv m"
  shows "session_of (snd (sm_unbindUser u i m)) = (if session_of m u = Some i \<and> i \<noteq> 0 then (session_of m)(u := None) else session_of m)"
proof (cases "map_of (sm_users m) u")
  case None
  then show ?thesis by (simp add: sm_unbindUser_def session_of_def)
next
  case (Some b)
  then have "session_of m u = Some (ub_session_id b)" by (simp add: session_of_def)
  moreover from this assms have "u \<noteq> 0" by (auto simp: sm_inv_def)
  ultimately show ?thesis
    using Some by (auto simp: sm_unbindUser_def eraseBinding_views)
qed

text \<open>Bound session ids are never zero, because \<open>bindUser\<close> refuses such sessions.\<close>

definition sm_ids :: "session_manager \<Rightarrow> bool" where
  "sm_ids m \<longleftrightarrow> (\<forall>u. session_of m u \<noteq> Some 0)"

lemma sm_ids_bindUser:
  assumes "sm_ids m" "sm_inv m" "sm_bindUser u r (m, h) = (st, m', h')"
  shows "sm_ids m'"
proof (cases "isOk st")
  case False
  with sm_bindUser_refused [OF assms(3)] assms(1) show ?thesis by simp
next
  case True
  with assms(3) obtain r' where r: "r = Some r'"
    by (cases r) (auto simp: sm_bindUser_def Let_def split: if_splits)
  from sm_bindUser_ok(1) [OF assms(3) [unfolded r] True assms(2)]
    sm_bindUser_guard(2) [OF assms(3) [unfolded r] True] assms(1)
  show ?thesis by (simp add: sm_ids_def)
qed

lemma sm_ids_erase: "sm_ids m \<Longrightarrow> sm_ids (eraseBindingLocked u i m)"
  by (simp add: sm_ids_def eraseBinding_views)

interpretation sr: session_registry "\<lambda>mh. session_of (fst mh)" "\<lambda>mh. user_of (fst mh)"
    "\<lambda>mh r. ss_id (the (snd mh r))" registry_bind
    "\<lambda>u i mh. (snd (sm_unbindUser u i (fst mh)), snd mh)" "\<lambda>mh. sm_inv (fst mh) \<and> sm_ids (fst mh)"
proof
  fix m m' :: "session_manager \<times> session_store" and u i :: u64 and r :: sref
  assume inv: "sm_inv (fst m) \<and> sm_ids (fst m)"
  show "(session_of (fst m) u = Some i) = (user_of (fst m) i = Some u)"
    using inv by (simp add: sm_inv_def)
  show "sm_inv (fst m') \<and> sm_ids (fst m')" if "registry_bind u r m = Some m'"
    using that inv sm_inv_bindUser [of "fst m" u "Some r" "snd m"] sm_ids_bindUser [of "fst m" u "Some r" "snd m"]
    by (auto simp: registry_bind_def split: prod.splits if_splits)
  show "sm_inv (fst (snd (sm_unbindUser u i (fst m)), snd m)) \<and> sm_ids (fst (snd (sm_unbindUser u i (fst m)), snd m))"
    using inv sm_inv_unbindUser [of "fst m" u i]
    by (auto simp: sm_unbindUser_def sm_ids_erase split: option.splits)
  show "session_of (fst m') = (session_of (fst m))(u \<mapsto> ss_id (the (snd m r)))" if "registry_bind u r m = Some m'"
    using that inv sm_bindUser_ok(1) [of u r "fst m" "snd m"]
    by (auto simp: registry_bind_def split: prod.splits if_splits)
  show "session_of (fst (snd (sm_unbindUser u i (fst m)), snd m)) =
      (if session_of (fst m) u = Some i then (session_of (fst m))(u := None) else session_of (fst m))"
    using inv sm_unbindUser_views [of "fst m" u i] by (auto simp: sm_ids_def)
qed

section \<open>Properties\<close>

datatype sm_op = OpBind u64 "sref option" | OpUnbind u64 u64 | OpGetSession u64 | OpGetUser u64

fun sm_step :: "session_manager \<times> session_store \<Rightarrow> sm_op \<Rightarrow> session_manager \<times> session_store" where
  "sm_step mh (OpBind u r) = snd (sm_bindUser u r mh)"
| "sm_step (m, h) (OpUnbind u i) = (snd (sm_unbindUser u i m), h)"
| "sm_step (m, h) (OpGetSession u) = (snd (sm_getSessionByUser u h m), h)"
| "sm_step (m, h) (OpGetUser i) = (snd (sm_getUserBySession i h m), h)"

lemma sm_step_inv: "sm_inv (fst mh) \<Longrightarrow> sm_inv (fst (sm_step mh op))"
proof -
  assume inv: "sm_inv (fst mh)"
  obtain m h where mh: "mh = (m, h)" by force
  have "sm_inv (fst (snd (sm_bindUser u r (m, h))))" for u r
    using inv mh sm_inv_bindUser [of m u r h] by (cases "sm_bindUser u r (m, h)") auto
  with inv mh show ?thesis
    by (cases op) (simp_all add: sm_inv_unbindUser sm_inv_getSession sm_inv_getUser)
qed

lemma sm_run_inv: "sm_inv m \<Longrightarrow> sm_inv (fold (\<lambda>(op, h) m. fst (sm_step (m, h) op)) ops m)"
proof (induction ops arbitrary: m)
  case (Cons oh ops)
  then show ?case using sm_step_inv [of "(m, snd oh)" "fst oh"] by (simp add: split_beta)
qed simp

lemma counts_agree:
  assumes "sm_inv m"
  shows "userCount m = sessionCount m"
proof -
  let ?f = "\<lambda>u. the (session_of m u)"
  have dom: "dom (session_of m) = set (al_keys (sm_users m))" "dom (user_of m) = set (al_keys (sm_sessions m))"
    by (simp_all add: session_of_def [abs_def] user_of_def dom_map_of_conv_image_fst [symmetric])
      (auto simp: dom_def)
  have inverse: "session_of m u = Some i \<longleftrightarrow> user_of m i = Some u" for u i
    using assms by (simp add: sm_inv_def)
  have "inj_on ?f (dom (session_of m))"
  proof (rule inj_onI)
    fix u v assume "u \<in> dom (session_of m)" "v \<in> dom (session_of m)" "?f u = ?f v"
    then obtain i where "session_of m u = Some i" "session_of m v = Some i" by auto
    then show "u = v" by (simp add: inverse)
  qed
  moreover have "?f ` dom (session_of m) = dom (user_of m)"
  proof (intro equalityI subsetI)
    fix i assume "i \<in> dom (user_of m)"
    then obtain u where "session_of m u = Some i" by (auto simp: inverse)
    then show "i \<in> ?f ` dom (session_of m)" by (force intro: rev_image_eqI)
  next
    fix i assume "i \<in> ?f ` dom (session_of m)"
    then obtain u where "session_of m u = Some i" by auto
    then show "i \<in> dom (user_of m)" by (auto simp: inverse)
  qed
  ultimately have "card (dom (session_of m)) = card (dom (user_of m))"
    using card_image by metis
  moreover have "distinct (al_keys (sm_users m))" "distinct (al_keys (sm_sessions m))"
    using assms by (simp_all add: sm_inv_def)
  note this [THEN distinct_card]
  ultimately show ?thesis
    unfolding dom userCount_def sessionCount_def by simp
qed

text \<open>
  The binding tables are inverse to each other: after any sequence of \<open>SessionManager\<close> calls, with
  any sessions dying or closing in between, user \<open>u\<close> is bound to session id \<open>i\<close> exactly when \<open>i\<close> is
  bound to \<open>u\<close>; in particular no two users share a session and both tables have the same size.
\<close>

theorem session_manager_bijection:
  assumes "fold (\<lambda>(op, h) m. fst (sm_step (m, h) op)) ops new_session_manager = m"
  shows "(session_of m u = Some i \<longleftrightarrow> user_of m i = Some u) \<and> userCount m = sessionCount m"
  using sm_run_inv [OF sm_inv_new, of ops] counts_agree [of m] assms by (simp add: sm_inv_def)

theorem session_manager_bijection_witness:
  "\<exists>m. fold (\<lambda>(op, h) m. fst (sm_step (m, h) op))
     [(OpBind 7 (Some 0), (\<lambda>r. Some (new_session 3 [] 0))), (OpGetUser 3, Map.empty)] new_session_manager = m \<and>
     userCount m = sessionCount m"
  using session_manager_bijection [of "[(OpBind 7 (Some 0), (\<lambda>r. Some (new_session 3 [] 0))), (OpGetUser 3, Map.empty)]"]
  by blast

text \<open>
  Kick the old connection, keep the new one: when a user who is bound to another live session logs
  in again, the call succeeds, the user and the new session are bound to each other, the old session
  is bound to nobody and is told to close; and when the cleanup of the old connection arrives later,
  it reports that nothing was removed and leaves the new binding in place.
\<close>

theorem relogin_takes_over:
  assumes "sm_inv m" and "sm_ids m" and "map_of (sm_users m) u = Some b" and "h (ub_session b) = Some old"
    and "\<not> ss_closed old" and "h r = Some s" and "\<not> ss_closed s" and "ss_id s \<noteq> 0"
    and "user_of m (ss_id s) = None" and "ub_session b \<noteq> r"
  shows "\<exists>m' h'. sm_bindUser u (Some r) (m, h) = (status_ok, m', h') \<and>
    session_of m' u = Some (ss_id s) \<and> user_of m' (ss_id s) = Some u \<and> user_of m' (ub_session_id b) = None \<and>
    h' (ub_session b) = Some (old\<lparr>ss_tasks := ss_tasks old @ [TaskClose]\<rparr>) \<and>
    sm_unbindUser u (ub_session_id b) m' = (Inr False, m')"
proof -
  have sid: "session_of m u = Some (ub_session_id b)" using assms(3) by (simp add: session_of_def)
  then have ne: "ub_session_id b \<noteq> ss_id s" using assms(1,9) by (auto simp: sm_inv_def)
  have u: "u \<noteq> 0" using assms(1) sid by (auto simp: sm_inv_def)
  have nz: "ub_session_id b \<noteq> 0" using assms(2) sid by (auto simp: sm_ids_def)
  obtain m' h' where bind: "sm_bindUser u (Some r) (m, h) = (status_ok, m', h')"
    and h': "h' = store_close (ub_session b) h"
    using assms u ne by (auto simp: sm_bindUser_def Let_def user_of_def)
  then have rb: "registry_bind u r (m, h) = Some (m', h')" by (simp add: registry_bind_def)
  have v: "sm_inv (fst (m, h)) \<and> sm_ids (fst (m, h))" using assms(1,2) by simp
  note take = sr.takeover [OF v rb, of "ub_session_id b"] sr.bind_sess [OF v rb]
  have "map_of (sm_users m') u = Some \<lparr>ub_session_id = ss_id s, ub_session = r\<rparr>"
    using sm_bindUser_ok(3) [OF bind _ assms(1)] assms(6) by simp
  then have "sm_unbindUser u (ub_session_id b) m' = (Inr False, m')"
    using u nz ne by (simp add: sm_unbindUser_def)
  with bind h' take sid ne assms show ?thesis
    by (simp add: store_close_def session_close_def)
qed

definition example_manager :: session_manager where
  "example_manager = \<lparr>sm_users = [(7, \<lparr>ub_session_id = 3, ub_session = 0\<rparr>)], sm_sessions = [(3, 7)]\<rparr>"

definition example_store :: session_store where
  "example_store = [0 \<mapsto> new_session 3 [] 0, 1 \<mapsto> new_session 4 [] 0]"

theorem relogin_takes_over_witness:
  "\<exists>m' h'. sm_bindUser 7 (Some 1) (example_manager, example_store) = (status_ok, m', h') \<and>
     session_of m' 7 = Some 4 \<and> user_of m' 3 = None"
proof -
  have "sm_inv example_manager" "sm_ids example_manager"
    by (auto simp: sm_inv_def sm_ids_def example_manager_def session_of_def user_of_def)
  from relogin_takes_over [OF this, of 7 "\<lparr>ub_session_id = 3, ub_session = 0\<rparr>" example_store
      "new_session 3 [] 0" 1 "new_session 4 [] 0"] show ?thesis
    by (auto simp: example_manager_def example_store_def new_session_def user_of_def)
qed

end
