(* ===== verification/Service_Base.thy ===== *)
theory Service_Base
  imports Session_Manager Tlv_Codec
begin

text \<open>
  What the services share: the records of \<open>include/liteim/storage/StorageTypes.hpp\<close> and
  \<open>include/liteim/cache/CacheTypes.hpp\<close>, the interfaces \<open>IStorage\<close> and \<open>ICache\<close> as records of operations
  over a database state \<open>'d\<close> and a cache state \<open>'c\<close> (the services receive them as references and know
  nothing else about them), the world that a handler runs in, field validation
  (\<open>include/liteim/service/Validation.hpp\<close>) and the message fields of a packet
  (\<open>src/service/MessagePacketBuilder.cpp\<close>). A handler is one step on the world.
\<close>

section \<open>Stored data\<close>

datatype conversation_type = kPrivate | kGroup
datatype delivery_status = DsPending | DsPushed | DsDelivered | DsReadReserved
datatype friend_request_status = FrPending | FrAccepted | FrRejected

fun conversation_type_value :: "conversation_type \<Rightarrow> u64" where
  "conversation_type_value kPrivate = 1"
| "conversation_type_value kGroup = 2"

fun delivery_status_value :: "delivery_status \<Rightarrow> u64" where
  "delivery_status_value DsPending = 0"
| "delivery_status_value DsPushed = 1"
| "delivery_status_value DsDelivered = 2"
| "delivery_status_value DsReadReserved = 3"

fun friend_request_status_value :: "friend_request_status \<Rightarrow> u64" where
  "friend_request_status_value FrPending = 0"
| "friend_request_status_value FrAccepted = 1"
| "friend_request_status_value FrRejected = 2"

record conversation_key =
  ck_type :: conversation_type
  ck_id :: u64

record create_user_request =
  cu_username :: string
  cu_password_hash :: string
  cu_password_salt :: string
  cu_nickname :: string

record user_record =
  ur_user_id :: u64
  ur_username :: string
  ur_password_hash :: string
  ur_password_salt :: string
  ur_nickname :: string
  ur_created_at_ms :: int

record user_profile_record =
  up_user_id :: u64
  up_username :: string
  up_nickname :: string
  up_created_at_ms :: int

record friend_request_record =
  fr_requester_id :: u64
  fr_target_user_id :: u64
  fr_status :: friend_request_status
  fr_created_at_ms :: int
  fr_updated_at_ms :: int

record create_group_request =
  cg_owner_id :: u64
  cg_group_name :: string

record group_record =
  gr_group_id :: u64
  gr_owner_id :: u64
  gr_group_name :: string
  gr_created_at_ms :: int

record group_member_record =
  gm_user_id :: u64
  gm_username :: string
  gm_nickname :: string
  gm_joined_at_ms :: int

record message_record =
  mr_message_id :: u64
  mr_conversation :: conversation_key
  mr_sender_id :: u64
  mr_receiver_id :: u64
  mr_text :: string
  mr_created_at_ms :: int
  mr_client_msg_id :: string

record offline_message_record =
  om_offline_message_id :: u64
  om_user_id :: u64
  om_message :: message_record
  om_created_at_ms :: int

record history_query =
  hq_conversation :: conversation_key
  hq_before_message_id :: u64
  hq_limit :: u32

record online_session =
  os_user_id :: u64
  os_session_id :: u64
  os_server_id :: string
  os_last_active_time_ms :: int

record unread_key =
  uk_user_id :: u64
  uk_conversation :: conversation_key

record login_attempt_key =
  la_username :: string
  la_remote_ip :: string

section \<open>Interfaces\<close>

record 'd storage_ops =
  createUser :: "create_user_request \<Rightarrow> ('d, user_record) prog"
  findUserByUsername :: "string \<Rightarrow> ('d, user_record) prog"
  findUserById :: "u64 \<Rightarrow> ('d, user_record) prog"
  findMessageByClientMessageId :: "u64 \<Rightarrow> string \<Rightarrow> ('d, message_record) prog"
  createFriendRequest :: "u64 \<Rightarrow> u64 \<Rightarrow> ('d, friend_request_record) prog"
  acceptFriendRequest :: "u64 \<Rightarrow> u64 \<Rightarrow> ('d, unit) prog"
  rejectFriendRequest :: "u64 \<Rightarrow> u64 \<Rightarrow> ('d, unit) prog"
  areFriends :: "u64 \<Rightarrow> u64 \<Rightarrow> ('d, bool) prog"
  addFriendship :: "u64 \<Rightarrow> u64 \<Rightarrow> ('d, unit) prog"
  getFriends :: "u64 \<Rightarrow> ('d, user_profile_record list) prog"
  createGroup :: "create_group_request \<Rightarrow> ('d, group_record) prog"
  addGroupMember :: "u64 \<Rightarrow> u64 \<Rightarrow> ('d, unit) prog"
  removeGroupMember :: "u64 \<Rightarrow> u64 \<Rightarrow> ('d, unit) prog"
  getGroupMembers :: "u64 \<Rightarrow> ('d, group_member_record list) prog"
  findGroupById :: "u64 \<Rightarrow> ('d, group_record) prog"
  getGroupsForUser :: "u64 \<Rightarrow> ('d, group_record list) prog"
  saveMessage :: "message_record \<Rightarrow> ('d, u64) prog"
  saveMessageWithOfflineRecipients :: "message_record \<Rightarrow> u64 list \<Rightarrow> ('d, message_record) prog"
  saveOfflineMessage :: "u64 \<Rightarrow> u64 \<Rightarrow> ('d, unit) prog"
  findDeliveryStatus :: "u64 \<Rightarrow> u64 \<Rightarrow> ('d, delivery_status) prog"
  getOfflineMessages :: "u64 \<Rightarrow> u32 \<Rightarrow> ('d, offline_message_record list) prog"
  markOfflineDelivered :: "u64 \<Rightarrow> u64 list \<Rightarrow> ('d, unit) prog"
  ackOfflineMessages :: "u64 \<Rightarrow> u64 list \<Rightarrow> ('d, offline_message_record list) prog"
  ackPrivateMessageDelivery :: "u64 \<Rightarrow> u64 \<Rightarrow> ('d, message_record) prog"
  getHistory :: "history_query \<Rightarrow> ('d, message_record list) prog"

record 'c cache_ops =
  setUserOnline :: "online_session \<Rightarrow> int \<Rightarrow> ('c, unit) prog"
  refreshUserOnline :: "u64 \<Rightarrow> int \<Rightarrow> ('c, unit) prog"
  setUserOffline :: "u64 \<Rightarrow> ('c, unit) prog"
  isUserOnline :: "u64 \<Rightarrow> ('c, bool) prog"
  getOnlineSession :: "u64 \<Rightarrow> ('c, online_session) prog"
  incrUnread :: "unread_key \<Rightarrow> u64 \<Rightarrow> ('c, u64) prog"
  getUnread :: "unread_key \<Rightarrow> ('c, u64) prog"
  clearUnread :: "unread_key \<Rightarrow> ('c, unit) prog"
  allowLoginAttempt :: "login_attempt_key \<Rightarrow> u32 \<Rightarrow> ('c, bool) prog"
  recordLoginFailure :: "login_attempt_key \<Rightarrow> int \<Rightarrow> ('c, unit) prog"
  clearLoginFailure :: "login_attempt_key \<Rightarrow> ('c, unit) prog"

section \<open>The world of a handler\<close>

record ('d, 'c) world =
  w_db :: 'd
  w_cache :: 'c
  w_sessions :: session_manager
  w_store :: session_store

record ('d, 'c) service_env =
  storage :: "'d storage_ops"
  cache :: "'c cache_ops"
  server_id :: string
  online_ttl :: int

record router_request =
  rq_session :: "sref option"
  rq_packet :: packet
  rq_fields :: tlv_map

type_synonym ('d, 'c, 'a) service = "(('d, 'c) world, 'a) prog"

definition dbP :: "('d, 'a) prog \<Rightarrow> ('d, 'c, 'a) service" where
  "dbP op w = (case op (w_db w) of (r, d) \<Rightarrow> (r, w\<lparr>w_db := d\<rparr>))"

definition cacheP :: "('c, 'a) prog \<Rightarrow> ('d, 'c, 'a) service" where
  "cacheP op w = (case op (w_cache w) of (r, c) \<Rightarrow> (r, w\<lparr>w_cache := c\<rparr>))"

definition sessionsP :: "(session_store \<Rightarrow> session_manager \<Rightarrow> 'a result \<times> session_manager) \<Rightarrow> ('d, 'c, 'a) service" where
  "sessionsP op w = (case op (w_store w) (w_sessions w) of (r, m) \<Rightarrow> (r, w\<lparr>w_sessions := m\<rparr>))"

text \<open>\<open>Session::sendPacket\<close> from a thread of the business pool.\<close>

definition sendP :: "sref \<Rightarrow> packet \<Rightarrow> ('d, 'c, unit) service" where
  "sendP r p w = (case store_send False r p (w_store w) of
      (st, h) \<Rightarrow> (if isOk st then Inr () else Inl st, w\<lparr>w_store := h\<rparr>))"

text \<open>A packet with a default header and a body that fits is queued on an open session.\<close>

lemma store_send_off:
  assumes "h r = Some s" "\<not> ss_closed s" "length (body p) \<le> 1048576" "magic (header p) = kPacketMagic"
    "version (header p) = kPacketVersion" "flags (header p) = kPacketFlagsNone"
    "20 + length (body p) \<le> ss_high_water_mark s"
  shows "store_send False r p h = (status_ok, h(r \<mapsto> s\<lparr>ss_tasks := ss_tasks s @
    [TaskSend (header_bytes ((header p)\<lparr>body_len := of_nat (length (body p))\<rparr>) @ body p)]\<rparr>))"
proof -
  have "encodePacket p = Inr (header_bytes ((header p)\<lparr>body_len := of_nat (length (body p))\<rparr>) @ body p)"
    using assms by (simp add: encodePacket_Inr_iff)
  with assms show ?thesis by (simp add: store_send_def sendPacket_def)
qed

lemma store_send_alive: "alive h q \<Longrightarrow> alive (snd (store_send False r p h)) q"
  by (auto simp: alive_def store_send_def sendPacket_def session_close_def split: option.splits sum.splits if_splits)

lemma store_close_alive: "alive h q \<Longrightarrow> alive (store_close r h) q"
  by (auto simp: alive_def store_close_def session_close_def split: option.splits)

text \<open>
  Small instances for examples: a database that is down, and a cache whose state is the map of online
  users and that counts nothing.
\<close>

definition down :: "('s, 'a) prog" where
  "down = failP (status_error IoError ''unavailable'')"

definition no_storage :: "'d storage_ops" where
  "no_storage = \<lparr>createUser = \<lambda>_. down, findUserByUsername = \<lambda>_. down, findUserById = \<lambda>_. down,
     findMessageByClientMessageId = \<lambda>_ _. down, createFriendRequest = \<lambda>_ _. down,
     acceptFriendRequest = \<lambda>_ _. down, rejectFriendRequest = \<lambda>_ _. down, areFriends = \<lambda>_ _. down,
     addFriendship = \<lambda>_ _. down, getFriends = \<lambda>_. down, createGroup = \<lambda>_. down,
     addGroupMember = \<lambda>_ _. down, removeGroupMember = \<lambda>_ _. down, getGroupMembers = \<lambda>_. down,
     findGroupById = \<lambda>_. down, getGroupsForUser = \<lambda>_. down, saveMessage = \<lambda>_. down,
     saveMessageWithOfflineRecipients = \<lambda>_ _. down, saveOfflineMessage = \<lambda>_ _. down,
     findDeliveryStatus = \<lambda>_ _. down, getOfflineMessages = \<lambda>_ _. down, markOfflineDelivered = \<lambda>_ _. down,
     ackOfflineMessages = \<lambda>_ _. down, ackPrivateMessageDelivery = \<lambda>_ _. down, getHistory = \<lambda>_. down\<rparr>"

definition map_cache :: "(u64 \<Rightarrow> online_session option) cache_ops" where
  "map_cache =
     \<lparr>setUserOnline = \<lambda>o_s ttl c. (Inr (), c(os_user_id o_s \<mapsto> o_s)),
      refreshUserOnline = \<lambda>u ttl. retP (),
      setUserOffline = \<lambda>u c. (Inr (), c(u := None)),
      isUserOnline = \<lambda>u c. (Inr (c u \<noteq> None), c),
      getOnlineSession = \<lambda>u c. (case c u of None \<Rightarrow> (err NotFound ''user is offline'', c) | Some x \<Rightarrow> (Inr x, c)),
      incrUnread = \<lambda>k d. retP d, getUnread = \<lambda>k. retP 0, clearUnread = \<lambda>k. retP (),
      allowLoginAttempt = \<lambda>k n. retP True, recordLoginFailure = \<lambda>k ttl. retP (), clearLoginFailure = \<lambda>k. retP ()\<rparr>"

definition example_env :: "'d storage_ops \<Rightarrow> ('d, u64 \<Rightarrow> online_session option) service_env" where
  "example_env st = \<lparr>storage = st, cache = map_cache, server_id = ''s1'', online_ttl = 60\<rparr>"

definition example_world :: "'d \<Rightarrow> ('d, u64 \<Rightarrow> online_session option) world" where
  "example_world d = \<lparr>w_db = d, w_cache = Map.empty, w_sessions = example_manager, w_store = example_store\<rparr>"

section \<open>Validation and message fields\<close>

definition kMaxUsernameBytes :: nat where "kMaxUsernameBytes = 64"
definition kMaxNicknameBytes :: nat where "kMaxNicknameBytes = 64"
definition kMaxPasswordBytes :: nat where "kMaxPasswordBytes = 128"
definition kMaxGroupNameBytes :: nat where "kMaxGroupNameBytes = 128"
definition kMaxClientMessageIdBytes :: nat where "kMaxClientMessageIdBytes = 64"
definition kMaxMessageTextBytes :: nat where "kMaxMessageTextBytes = 8 * 1024"

definition validateMaxBytes :: "string \<Rightarrow> nat \<Rightarrow> string \<Rightarrow> unit result" where
  "validateMaxBytes value max_bytes field_name =
     (if length value > max_bytes then err InvalidArgument (field_name @ '' is too long'') else Inr ())"

definition appendConversationType :: "conversation_type \<Rightarrow> bytes \<Rightarrow> bytes result" where
  "appendConversationType type out = appendUint64 (tlv TlvConversationType) (conversation_type_value type) out"

definition appendMessageFields :: "message_record \<Rightarrow> bytes \<Rightarrow> bytes result" where
  "appendMessageFields m out =
     bindR (appendUint64 (tlv TlvMessageId) (mr_message_id m) out) (\<lambda>out.
     bindR (appendConversationType (ck_type (mr_conversation m)) out) (\<lambda>out.
     bindR (appendUint64 (tlv TlvConversationId) (ck_id (mr_conversation m)) out) (\<lambda>out.
     bindR (appendUint64 (tlv TlvSenderId) (mr_sender_id m) out) (\<lambda>out.
     bindR (appendUint64 (tlv TlvReceiverId) (mr_receiver_id m) out) (\<lambda>out.
     bindR (appendString (tlv TlvMessageText) (mr_text m) out) (\<lambda>out.
     bindR (if mr_client_msg_id m \<noteq> [] then appendString (tlv TlvClientMessageId) (mr_client_msg_id m) out
            else Inr out) (\<lambda>out.
     appendUint64 (tlv TlvTimestampMs) (of_int (mr_created_at_ms m)) out)))))))"

text \<open>The response of a handler: type and sequence number in a default header, and a body.\<close>

definition reply :: "router_request \<Rightarrow> message_name \<Rightarrow> bytes \<Rightarrow> packet" where
  "reply rq type bs =
     \<lparr>header = default_header\<lparr>msg_type := mt type, seq_id := seq_id (header (rq_packet rq))\<rparr>, body = bs\<rparr>"

section \<open>Message bodies\<close>

lemma appendFields_append: "appendFields (as @ bs) out = bindR (appendFields as out) (appendFields bs)"
  by (induction as arbitrary: out) (auto simp: bindR_def split: sum.splits)

definition message_args :: "message_record \<Rightarrow> (tlv_type \<times> tlv_arg) list" where
  "message_args m =
     [(tlv TlvMessageId, U64Arg (mr_message_id m)),
      (tlv TlvConversationType, U64Arg (conversation_type_value (ck_type (mr_conversation m)))),
      (tlv TlvConversationId, U64Arg (ck_id (mr_conversation m))),
      (tlv TlvSenderId, U64Arg (mr_sender_id m)),
      (tlv TlvReceiverId, U64Arg (mr_receiver_id m)),
      (tlv TlvMessageText, StrArg (mr_text m))] @
     (if mr_client_msg_id m \<noteq> [] then [(tlv TlvClientMessageId, StrArg (mr_client_msg_id m))] else []) @
     [(tlv TlvTimestampMs, U64Arg (of_int (mr_created_at_ms m)))]"

lemma appendFields_single: "appendFields [(t, a)] out = appendField t a out"
  by (cases "appendField t a out") simp_all

lemma appendMessageFields_args: "appendMessageFields m out = appendFields (message_args m) out"
  by (simp add: appendMessageFields_def appendConversationType_def message_args_def appendFields_append
      appendFields_single del: appendFields.simps(2))
    (simp add: bindR_def split: sum.splits)

text \<open>Texts and client ids that passed validation make a body of bounded size.\<close>

definition message_small :: "message_record \<Rightarrow> bool" where
  "message_small m \<longleftrightarrow> length (mr_text m) \<le> kMaxMessageTextBytes \<and>
     length (mr_client_msg_id m) \<le> kMaxClientMessageIdBytes"

lemma appendMessageFields_small:
  assumes "message_small m"
  shows "\<exists>bs. appendMessageFields m out = Inr (out @ bs) \<and> bs = fields_bytes (arg_fields (message_args m)) \<and>
    length bs \<le> 8352"
proof -
  have "list_all (\<lambda>(t, a). t \<noteq> tlv TlvUnknown \<and> field_ok (t, arg_bytes a)) (message_args m)"
    using assms by (simp add: message_args_def message_small_def field_ok_def kMaxMessageTextBytes_def
        kMaxClientMessageIdBytes_def)
  moreover have "length (fields_bytes (arg_fields (message_args m))) \<le> 8352"
    using assms by (simp add: message_args_def arg_fields_def message_small_def kMaxMessageTextBytes_def
        kMaxClientMessageIdBytes_def)
  ultimately show ?thesis
    by (simp add: appendMessageFields_args appendFields_Inr_iff)
qed

section \<open>The login gate\<close>

text \<open>
  Every service first asks who is logged in on the session of the request. The contract: an answer is
  the user that the registry holds for that session and changes nothing; a refusal leaves database,
  cache and sessions alone. What a handler does behind the gate is then done for that user, and not
  at all for others.
\<close>

definition logged_in :: "router_request \<Rightarrow> ('d, 'c) world \<Rightarrow> u64 \<Rightarrow> bool" where
  "logged_in rq w u \<longleftrightarrow> (\<exists>r. rq_session rq = Some r \<and> user_of (w_sessions w) (ss_id (the (w_store w r))) = Some u)"

definition same_data :: "('d, 'c) world \<Rightarrow> ('d, 'c) world \<Rightarrow> bool" where
  "same_data w w' \<longleftrightarrow> w_db w' = w_db w \<and> w_cache w' = w_cache w \<and> w_store w' = w_store w"

locale login_gate =
  fixes gate :: "router_request \<Rightarrow> ('d, 'c, u64) service"
  assumes gate_ok: "sm_inv (w_sessions w) \<Longrightarrow> gate rq w = (Inr u, w') \<Longrightarrow> w' = w \<and> logged_in rq w u"
    and gate_refused: "gate rq w = (Inl st, w') \<Longrightarrow> same_data w w'"
begin

lemma guarded_not_logged_in:
  assumes "sm_inv (w_sessions w)" "\<forall>u. \<not> logged_in rq w u" "bindP (gate rq) f w = (res, w')"
  shows "(\<exists>st. res = Inl st) \<and> same_data w w'"
proof -
  obtain r v where gate: "gate rq w = (r, v)" by force
  show ?thesis
  proof (cases r)
    case (Inl st)
    with gate assms(3) gate_refused [of rq w st v] show ?thesis by (auto simp: bindP_apply)
  next
    case (Inr u)
    with gate gate_ok [OF assms(1)] assms(2) show ?thesis by blast
  qed
qed

lemma guarded_runs:
  assumes "sm_inv (w_sessions w)" "bindP (gate rq) f w = (Inr x, w')"
  obtains u where "logged_in rq w u" "f u w = (Inr x, w')"
  using assms gate_ok [OF assms(1)] by (auto simp: bindP_Inr)

end

end
