(* ===== verification/Online_Service.thy ===== *)
theory Online_Service
  imports Service_Base
begin

text \<open>
  The online service (\<open>include/liteim/service/OnlineService.hpp\<close>, \<open>src/service/OnlineService.cpp\<close>): it
  keeps the in-memory binding table and the online entries of the cache together. The theorems say
  what a login leaves behind in both places, that the rollback of the cache entry is never needed
  when calls do not overlap, and that the cleanup of a replaced connection cannot take a user
  offline.
\<close>

section \<open>Operations\<close>

text \<open>The constructor throws on these arguments.\<close>

definition online_service_error :: "string \<Rightarrow> int \<Rightarrow> string option" where
  "online_service_error server ttl =
     (if server = [] then Some ''server id must not be empty''
      else if ttl \<le> 0 then Some ''online ttl must be positive''
      else None)"

definition validateSession :: "u64 \<Rightarrow> sref option \<Rightarrow> ('d, 'c, unit) service" where
  "validateSession user_id session w =
     (if user_id = 0 then (err InvalidArgument ''user id must be positive'', w)
      else case session of
        None \<Rightarrow> (err InvalidArgument ''session must not be null'', w)
      | Some r \<Rightarrow>
          if ss_id (the (w_store w r)) = 0 then (err InvalidArgument ''session id must be positive'', w)
          else if ss_closed (the (w_store w r)) then (err InvalidArgument ''session is closed'', w)
          else (Inr (), w))"

definition bindUserP :: "u64 \<Rightarrow> sref option \<Rightarrow> ('d, 'c, unit) service" where
  "bindUserP user_id session w =
     (case sm_bindUser user_id session (w_sessions w, w_store w) of
        (st, m, h) \<Rightarrow> (if isOk st then Inr () else Inl st, w\<lparr>w_sessions := m, w_store := h\<rparr>))"

definition online_session_of :: "('d, 'c) service_env \<Rightarrow> u64 \<Rightarrow> session \<Rightarrow> online_session" where
  "online_session_of env user_id s =
     \<lparr>os_user_id = user_id, os_session_id = ss_id s, os_server_id = server_id env,
      os_last_active_time_ms = ss_last_active s\<rparr>"

definition os_bindUser :: "('d, 'c) service_env \<Rightarrow> u64 \<Rightarrow> sref option \<Rightarrow> ('d, 'c, unit) service" where
  "os_bindUser env user_id session =
     bindP (validateSession user_id session) (\<lambda>_.
     bindP (getsP (\<lambda>w. the (w_store w (the session)))) (\<lambda>s.
     bindP (statusP (sessionsP (sm_getUserBySession (ss_id s)))) (\<lambda>bound.
     bindP (case bound of
              Inr already_bound_user \<Rightarrow>
                if already_bound_user \<noteq> user_id
                then failP (status_error AlreadyExists ''session is already bound to another user'')
                else retP ()
            | Inl bound_status \<Rightarrow> if code bound_status \<noteq> NotFound then failP bound_status else retP ()) (\<lambda>_.
     bindP (cacheP (setUserOnline (cache env) (online_session_of env user_id s) (online_ttl env))) (\<lambda>_.
     bindP (statusP (bindUserP user_id session)) (\<lambda>bind_status.
       case bind_status of
         Inr _ \<Rightarrow> retP ()
       | Inl st \<Rightarrow>
           bindP (statusP (cacheP (setUserOffline (cache env) user_id))) (\<lambda>_. failP st)))))))"

definition os_unbindUser :: "('d, 'c) service_env \<Rightarrow> u64 \<Rightarrow> u64 \<Rightarrow> ('d, 'c, unit) service" where
  "os_unbindUser env user_id session_id =
     bindP (sessionsP (\<lambda>_. sm_unbindUser user_id session_id)) (\<lambda>removed.
       if \<not> removed then retP () else cacheP (setUserOffline (cache env) user_id))"

definition os_unbindSession :: "('d, 'c) service_env \<Rightarrow> u64 \<Rightarrow> ('d, 'c, unit) service" where
  "os_unbindSession env session_id =
     bindP (getsP (\<lambda>w. sm_getBoundUserBySession session_id (w_sessions w))) (\<lambda>bound.
       case bound of
         Inl bound_status \<Rightarrow> if code bound_status = NotFound then retP () else failP bound_status
       | Inr user_id \<Rightarrow> os_unbindUser env user_id session_id)"

definition os_refreshUserOnline :: "('d, 'c) service_env \<Rightarrow> u64 \<Rightarrow> u64 \<Rightarrow> ('d, 'c, unit) service" where
  "os_refreshUserOnline env user_id session_id =
     bindP (sessionsP (sm_getUserBySession session_id)) (\<lambda>bound_user_id.
       if bound_user_id \<noteq> user_id then failP (status_error NotFound ''session is not bound to this user'')
       else cacheP (refreshUserOnline (cache env) user_id (online_ttl env)))"

definition os_getSessionByUser :: "u64 \<Rightarrow> ('d, 'c, sref) service" where
  "os_getSessionByUser user_id = sessionsP (sm_getSessionByUser user_id)"

definition os_getUserBySession :: "u64 \<Rightarrow> ('d, 'c, u64) service" where
  "os_getUserBySession session_id = sessionsP (sm_getUserBySession session_id)"

section \<open>The registry under lookups\<close>

text \<open>A lookup that answers changes nothing; one that refuses only forgets a dead binding.\<close>

lemma getUser_Inr:
  assumes "sm_inv m" "sm_getUserBySession i h m = (Inr u, m')"
  shows "m' = m" "user_of m i = Some u" "session_of m u = Some i"
proof -
  have "i \<noteq> 0" using assms(2) by (auto simp: sm_getUserBySession_def)
  then show "m' = m" "user_of m i = Some u"
    using assms by (auto simp: sm_getUserBySession_eq split: option.splits if_splits)
  then show "session_of m u = Some i" using assms(1) by (simp add: sm_inv_def)
qed

lemma getUser_Inl:
  assumes "sm_inv m" "sm_ids m" "sm_getUserBySession i h m = (Inl st, m')"
  shows "sm_inv m'" "sm_ids m'" "i \<noteq> 0 \<Longrightarrow> code st = NotFound \<and> user_of m' i = None"
    "session_of m' u = session_of m u \<or> session_of m' u = None"
proof -
  show "sm_inv m'" using sm_inv_getUser [OF assms(1), of i h] assms(3) by simp
  have cases: "i = 0 \<and> m' = m \<or> (user_of m i = None \<and> m' = m \<and> code st = NotFound) \<or>
      (\<exists>v. user_of m i = Some v \<and> m' = eraseBindingLocked v i m \<and> code st = NotFound)"
    using assms(1,3)
    by (cases "i = 0") (auto simp: sm_getUserBySession_eq sm_getUserBySession_def [of 0] split: option.splits if_splits)
  then show "sm_ids m'" using assms(2) sm_ids_erase by auto
  from cases show "i \<noteq> 0 \<Longrightarrow> code st = NotFound \<and> user_of m' i = None"
    by (auto simp: eraseBinding_views)
  from cases show "session_of m' u = session_of m u \<or> session_of m' u = None"
    by (auto simp: eraseBinding_views split: if_splits)
qed

text \<open>After validation and the lookup, the in-memory binding cannot be refused.\<close>

lemma bind_accepted:
  assumes "u \<noteq> 0" "ss_id (the (h r)) \<noteq> 0" "\<not> ss_closed (the (h r))"
    "user_of m (ss_id (the (h r))) \<in> {None, Some u}"
  shows "isOk (fst (sm_bindUser u (Some r) (m, h)))"
  using assms by (auto simp: sm_bindUser_def Let_def user_of_def split: option.splits)

text \<open>The registry invariant survives every operation of the service.\<close>

definition registry_ok :: "('d, 'c) world \<Rightarrow> bool" where
  "registry_ok w \<longleftrightarrow> sm_inv (w_sessions w) \<and> sm_ids (w_sessions w)"

lemma registry_dbP [inv_intros]: "keepsP registry_ok (dbP op)"
  by (simp add: keepsP_def registry_ok_def dbP_def split: prod.splits)

lemma registry_cacheP [inv_intros]: "keepsP registry_ok (cacheP op)"
  by (simp add: keepsP_def registry_ok_def cacheP_def split: prod.splits)

lemma registry_sendP [inv_intros]: "keepsP registry_ok (sendP r p)"
  by (simp add: keepsP_def registry_ok_def sendP_def split: prod.splits)

lemma registry_getUser [inv_intros]: "keepsP registry_ok (sessionsP (sm_getUserBySession i))"
proof -
  have "sm_inv m' \<and> sm_ids m'" if "sm_inv m" "sm_ids m" "sm_getUserBySession i h m = (x, m')" for m h x m'
    using that getUser_Inl(1,2) [of m i h _ m'] getUser_Inr(1) [of m i h _ m'] by (cases x) auto
  then show ?thesis by (auto simp: keepsP_def registry_ok_def sessionsP_def split: prod.splits)
qed

lemma registry_getSession [inv_intros]: "keepsP registry_ok (sessionsP (sm_getSessionByUser u))"
proof -
  have "sm_inv (snd (sm_getSessionByUser u h m)) \<and> sm_ids (snd (sm_getSessionByUser u h m))"
    if "sm_inv m" "sm_ids m" for m h
    using that by (auto simp: sm_inv_erase session_of_def sm_getSessionByUser_def sm_ids_erase split: option.splits)
  then show ?thesis
    by (auto simp: keepsP_def registry_ok_def sessionsP_def split: prod.splits) (metis snd_conv)+
qed

lemma registry_unbind [inv_intros]: "keepsP registry_ok (sessionsP (\<lambda>_. sm_unbindUser u i))"
proof -
  have "sm_inv (snd (sm_unbindUser u i m)) \<and> sm_ids (snd (sm_unbindUser u i m))"
    if "sm_inv m" "sm_ids m" for m
    using that by (auto simp: sm_inv_erase session_of_def sm_unbindUser_def sm_ids_erase split: option.splits)
  then show ?thesis
    by (auto simp: keepsP_def registry_ok_def sessionsP_def split: prod.splits) (metis snd_conv)+
qed

lemma registry_bindUserP [inv_intros]: "keepsP registry_ok (bindUserP u r)"
  by (auto simp: keepsP_def registry_ok_def bindUserP_def sm_inv_bindUser sm_ids_bindUser split: prod.splits)

lemma validateSession_state [simp]: "snd (validateSession u r w) = w"
  by (auto simp: validateSession_def split: option.splits)

lemma validateSession_ok:
  "validateSession u r w = (Inr x, w') \<longleftrightarrow> w' = w \<and> u \<noteq> 0 \<and> r \<noteq> None \<and>
     ss_id (the (w_store w (the r))) \<noteq> 0 \<and> \<not> ss_closed (the (w_store w (the r)))"
  by (cases r) (auto simp: validateSession_def)

lemma registry_validate [inv_intros]: "keepsP registry_ok (validateSession u r)"
  by (simp add: keepsP_def)

lemma keepsP_sum [inv_intros]:
  "(\<And>e. keepsP I (f e)) \<Longrightarrow> (\<And>x. keepsP I (g x)) \<Longrightarrow> keepsP I (case r of Inl e \<Rightarrow> f e | Inr x \<Rightarrow> g x)"
  by (cases r) simp_all

lemma registry_os_bindUser [inv_intros]: "keepsP registry_ok (os_bindUser env u r)"
  unfolding os_bindUser_def by (intro inv_intros)

lemma registry_os_unbindUser [inv_intros]: "keepsP registry_ok (os_unbindUser env u i)"
  unfolding os_unbindUser_def by (intro inv_intros)

lemma registry_os_unbindSession [inv_intros]: "keepsP registry_ok (os_unbindSession env i)"
  unfolding os_unbindSession_def by (intro inv_intros)

lemma registry_os_refresh [inv_intros]: "keepsP registry_ok (os_refreshUserOnline env u i)"
  unfolding os_refreshUserOnline_def by (intro inv_intros)

lemma registry_os_get [inv_intros]:
  "keepsP registry_ok (os_getSessionByUser u)" "keepsP registry_ok (os_getUserBySession i)"
  unfolding os_getSessionByUser_def os_getUserBySession_def by (intro inv_intros)+

section \<open>Properties\<close>

text \<open>
  The first half of \<open>bindUser\<close>: it refuses without touching cache and store, or ends in a registry
  that accepts the binding.
\<close>

definition bind_lookup :: "u64 \<Rightarrow> session \<Rightarrow> ('d, 'c, unit) service" where
  "bind_lookup user_id s =
     bindP (statusP (sessionsP (sm_getUserBySession (ss_id s)))) (\<lambda>bound.
       case bound of
         Inr already_bound_user \<Rightarrow>
           if already_bound_user \<noteq> user_id
           then failP (status_error AlreadyExists ''session is already bound to another user'')
           else retP ()
       | Inl bound_status \<Rightarrow> if code bound_status \<noteq> NotFound then failP bound_status else retP ())"

lemma bindP_assoc: "bindP (bindP m f) g = bindP m (\<lambda>x. bindP (f x) g)"
  by (rule ext) (simp add: bindP_apply split: prod.splits sum.splits)

lemma bind_lookup_props:
  assumes "registry_ok w" "ss_id s \<noteq> 0" "bind_lookup u s w = (res, w')"
  shows "w_store w' = w_store w \<and> w_cache w' = w_cache w \<and> w_db w' = w_db w \<and> registry_ok w' \<and>
    (res = Inr () \<longrightarrow> user_of (w_sessions w') (ss_id s) \<in> {None, Some u})"
proof -
  obtain x m' where get: "sm_getUserBySession (ss_id s) (w_store w) (w_sessions w) = (x, m')" by force
  have ok: "sm_inv (w_sessions w)" "sm_ids (w_sessions w)" using assms(1) by (simp_all add: registry_ok_def)
  have w': "w' = w\<lparr>w_sessions := m'\<rparr>" and
    res: "res = (case x of Inr v \<Rightarrow> if v \<noteq> u then err AlreadyExists ''session is already bound to another user'' else Inr ()
           | Inl st \<Rightarrow> if code st \<noteq> NotFound then Inl st else Inr ())"
    using assms(3) get
    by (auto simp: bind_lookup_def bindP_apply sessionsP_def split: sum.splits if_splits)
  show ?thesis
  proof (cases x)
    case (Inl st)
    with getUser_Inl [OF ok get [unfolded Inl]] assms(2) show ?thesis
      by (simp add: w' registry_ok_def)
  next
    case (Inr v)
    with getUser_Inr [OF ok(1) get [unfolded Inr]] assms(1) show ?thesis
      by (auto simp: w' res registry_ok_def)
  qed
qed

lemma os_bindUser_split:
  assumes "u \<noteq> 0" "ss_id (the (w_store w r)) \<noteq> 0" "\<not> ss_closed (the (w_store w r))"
  shows "os_bindUser env u (Some r) w =
    bindP (bind_lookup u (the (w_store w r))) (\<lambda>_.
    bindP (cacheP (setUserOnline (cache env) (online_session_of env u (the (w_store w r))) (online_ttl env))) (\<lambda>_.
    bindP (statusP (bindUserP u (Some r))) (\<lambda>bind_status.
      case bind_status of
        Inr y \<Rightarrow> retP y
      | Inl st \<Rightarrow> bindP (statusP (cacheP (setUserOffline (cache env) u))) (\<lambda>_. failP st)))) w"
  using assms by (simp add: os_bindUser_def bind_lookup_def bindP_assoc bindP_run [where m = "validateSession u (Some r)"]
      validateSession_ok bindP_run [where m = "getsP g" for g])

lemma os_bindUser_props:
  assumes "registry_ok w" and "os_bindUser env u (Some r) w = (res, w')"
  shows "w_db w' = w_db w \<and>
    (case res of
       Inr _ \<Rightarrow>
         setUserOnline (cache env) (online_session_of env u (the (w_store w r))) (online_ttl env) (w_cache w) =
           (Inr (), w_cache w') \<and>
         session_of (w_sessions w') u = Some (ss_id (the (w_store w r))) \<and>
         user_of (w_sessions w') (ss_id (the (w_store w r))) = Some u
     | Inl st \<Rightarrow>
         w_store w' = w_store w \<and>
         (w_cache w' = w_cache w \<or>
          setUserOnline (cache env) (online_session_of env u (the (w_store w r))) (online_ttl env) (w_cache w) =
            (Inl st, w_cache w')))"
proof (cases "u \<noteq> 0 \<and> ss_id (the (w_store w r)) \<noteq> 0 \<and> \<not> ss_closed (the (w_store w r))")
  case False
  then have "\<exists>st. res = Inl st" "w' = w"
    using assms(2) by (auto simp: os_bindUser_def validateSession_def bindP_apply split: if_splits)
  then show ?thesis by auto
next
  case valid: True
  let ?s = "the (w_store w r)"
  obtain x v where lookup: "bind_lookup u ?s w = (x, v)" by force
  note v = bind_lookup_props [OF assms(1) _ lookup]
  obtain y c where set: "setUserOnline (cache env) (online_session_of env u ?s) (online_ttl env) (w_cache v) = (y, c)"
    by force
  obtain st m h where bind: "sm_bindUser u (Some r) (w_sessions v, w_store v) = (st, m, h)"
    by (metis prod.exhaust)
  note run = assms(2) [unfolded os_bindUser_split [OF valid [THEN conjunct1] valid [THEN conjunct2, THEN conjunct1]
      valid [THEN conjunct2, THEN conjunct2]]]
  show ?thesis
  proof (cases x)
    case (Inl e)
    with run lookup v valid show ?thesis by (simp add: bindP_apply) auto
  next
    case x: (Inr e)
    show ?thesis
    proof (cases y)
      case (Inl e)
      with run lookup v valid x set show ?thesis by (auto simp: bindP_apply cacheP_def)
    next
      case (Inr e)
      have "isOk st" using bind_accepted [of u "w_store v" r "w_sessions v"] bind v valid x by simp
      moreover have "sm_inv (w_sessions v)" using v valid by (simp add: registry_ok_def)
      ultimately show ?thesis
        using run lookup v valid x set Inr bind sm_bindUser_ok(1,2) [OF bind]
        by (auto simp: bindP_apply cacheP_def bindUserP_def)
    qed
  qed
qed

text \<open>A fresh session of a positive user id is bound when the cache accepts the entry.\<close>

lemma os_bindUser_succeeds:
  assumes "registry_ok w" "u \<noteq> 0" "w_store w r = Some s" "ss_id s \<noteq> 0" "\<not> ss_closed s"
    "user_of (w_sessions w) (ss_id s) = None"
    "setUserOnline (cache env) (online_session_of env u s) (online_ttl env) (w_cache w) = (Inr (), c)"
  shows "\<exists>w'. os_bindUser env u (Some r) w = (Inr (), w')"
proof -
  have "sm_getUserBySession (ss_id s) (w_store w) (w_sessions w) = (err NotFound ''session is not bound to a user'', w_sessions w)"
    using assms(1,4,6) by (simp add: sm_getUserBySession_eq registry_ok_def)
  then have "bind_lookup u s w = (Inr (), w)"
    by (simp add: bind_lookup_def bindP_apply sessionsP_def)
  moreover have "isOk (fst (sm_bindUser u (Some r) (w_sessions w, w_store w)))"
    using bind_accepted [of u "w_store w" r "w_sessions w"] assms by simp
  ultimately show ?thesis
    using assms os_bindUser_split [of u w r env]
    by (auto simp: bindP_apply cacheP_def bindUserP_def split: prod.splits)
qed

text \<open>The login of one user moves no other user to another session.\<close>

lemma sm_bindUser_others:
  assumes "sm_bindUser u (Some r) (m, h) = (st, m', h')" "sm_inv m" "v \<noteq> u"
  shows "session_of m' v = session_of m v"
proof (cases "isOk st")
  case True
  from sm_bindUser_ok(1) [OF assms(1) True assms(2)] assms(3) show ?thesis by simp
qed (use sm_bindUser_refused [OF assms(1)] in simp)

lemma bind_lookup_others:
  assumes "registry_ok w" "bind_lookup u s w = (res, w')"
  shows "session_of (w_sessions w') v = session_of (w_sessions w) v \<or> session_of (w_sessions w') v = None"
proof -
  obtain x m' where get: "sm_getUserBySession (ss_id s) (w_store w) (w_sessions w) = (x, m')" by force
  have ok: "sm_inv (w_sessions w)" "sm_ids (w_sessions w)" using assms(1) by (simp_all add: registry_ok_def)
  have "w_sessions w' = m'"
    using assms(2) get by (auto simp: bind_lookup_def bindP_apply sessionsP_def split: sum.splits if_splits)
  then show ?thesis
    using getUser_Inl(4) [OF ok, of "ss_id s" "w_store w" _ m' v] getUser_Inr(1) [OF ok(1), of "ss_id s" "w_store w" _ m'] get
    by (cases x) simp_all
qed

lemma os_bindUser_others:
  assumes "registry_ok w" "os_bindUser env u (Some r) w = (Inr (), w')"
    "session_of (w_sessions w') v = Some j" "v \<noteq> u"
  shows "session_of (w_sessions w) v = Some j"
proof -
  let ?s = "the (w_store w r)"
  have valid: "u \<noteq> 0" "ss_id ?s \<noteq> 0" "\<not> ss_closed ?s"
    using assms(2) by (auto simp: os_bindUser_def validateSession_def bindP_apply split: if_splits)
  obtain v1 where lookup: "bind_lookup u ?s w = (Inr (), v1)" and
    rest: "bindP (cacheP (setUserOnline (cache env) (online_session_of env u ?s) (online_ttl env))) (\<lambda>_.
      bindP (statusP (bindUserP u (Some r))) (\<lambda>bind_status.
        case bind_status of
          Inr y \<Rightarrow> retP y
        | Inl st \<Rightarrow> bindP (statusP (cacheP (setUserOffline (cache env) u))) (\<lambda>_. failP st))) v1 = (Inr (), w')"
    using assms(2) unfolding os_bindUser_split [OF valid] bindP_Inr by auto
  obtain v2 where c: "cacheP (setUserOnline (cache env) (online_session_of env u ?s) (online_ttl env)) v1 = (Inr (), v2)"
    and bind: "snd (bindUserP u (Some r) v2) = w'"
    using rest by (auto simp: bindP_Inr split: sum.splits) (metis old.unit.exhaust sum.exhaust)
  have v2: "w_sessions v2 = w_sessions v1" using c by (auto simp: cacheP_def split: prod.splits)
  obtain st h' where "sm_bindUser u (Some r) (w_sessions v2, w_store v2) = (st, w_sessions w', h')"
    using bind by (auto simp: bindUserP_def split: prod.splits)
  from sm_bindUser_others [OF this _ assms(4)] bind_lookup_props [OF assms(1) valid(2) lookup]
    bind_lookup_others [OF assms(1) lookup, of v] assms(3) v2
  show ?thesis by (auto simp: registry_ok_def)
qed

text \<open>
  A login is recorded in both places or not at all: when \<open>OnlineService::bindUser\<close> succeeds, the cache
  holds what \<open>setUserOnline\<close> wrote for this user, session, server and activity time, and the registry
  binds the user and the session to each other; when it fails, the cache saw at most the
  \<open>setUserOnline\<close> call that failed, no session was told to close, and the user's binding is the old one
  or a dead one that was dropped. So the rollback with \<open>setUserOffline\<close> is never needed while calls do
  not overlap.
\<close>

theorem online_bind_consistent:
  assumes "registry_ok w" and "os_bindUser env u (Some r) w = (res, w')"
  shows "w_db w' = w_db w \<and>
    (case res of
       Inr _ \<Rightarrow>
         setUserOnline (cache env) (online_session_of env u (the (w_store w r))) (online_ttl env) (w_cache w) =
           (Inr (), w_cache w') \<and>
         session_of (w_sessions w') u = Some (ss_id (the (w_store w r))) \<and>
         user_of (w_sessions w') (ss_id (the (w_store w r))) = Some u
     | Inl st \<Rightarrow>
         w_store w' = w_store w \<and>
         (w_cache w' = w_cache w \<or>
          setUserOnline (cache env) (online_session_of env u (the (w_store w r))) (online_ttl env) (w_cache w) =
            (Inl st, w_cache w')))"
  using os_bindUser_props [OF assms] .

lemma example_registry_ok: "registry_ok (example_world d)"
  by (auto simp: registry_ok_def example_world_def sm_inv_def sm_ids_def example_manager_def session_of_def
      user_of_def)

lemma example_login: "fst (os_bindUser (example_env no_storage) 7 (Some 1) (example_world ())) = Inr ()"
  by (simp add: os_bindUser_def bindP_apply validateSession_def sessionsP_def cacheP_def bindUserP_def
        sm_getUserBySession_def sm_bindUser_def example_env_def example_world_def example_manager_def
        example_store_def new_session_def map_cache_def Let_def online_session_of_def)

theorem online_bind_consistent_witness:
  "case os_bindUser (example_env no_storage) 7 (Some 1) (example_world ()) of
     (res, w') \<Rightarrow> res = Inr () \<and> session_of (w_sessions w') 7 = Some 4 \<and> map_option os_session_id (w_cache w' 7) = Some 4"
proof -
  obtain w' where run: "os_bindUser (example_env no_storage) 7 (Some 1) (example_world ()) = (Inr (), w')"
    using example_login by (metis prod.collapse)
  from online_bind_consistent [OF example_registry_ok run] show ?thesis
    unfolding run prod.case by (auto simp: example_env_def example_world_def example_store_def new_session_def
        map_cache_def online_session_of_def dest: sym)
qed

lemma unbind_user_of:
  assumes "registry_ok w" "user_of (w_sessions w) i = Some u"
  shows "sm_unbindUser u i (w_sessions w) = (Inr True, eraseBindingLocked u i (w_sessions w))" "i \<noteq> 0"
proof -
  have s: "session_of (w_sessions w) u = Some i"
    using assms by (simp add: registry_ok_def sm_inv_def)
  then show i: "i \<noteq> 0" using assms(1) by (auto simp: registry_ok_def sm_ids_def)
  have "u \<noteq> 0" using assms(1) s by (auto simp: registry_ok_def sm_inv_def)
  with s i show "sm_unbindUser u i (w_sessions w) = (Inr True, eraseBindingLocked u i (w_sessions w))"
    by (auto simp: sm_unbindUser_def session_of_def)
qed

lemma os_unbindSession_eq:
  assumes "registry_ok w" "i \<noteq> 0"
  shows "os_unbindSession env i w =
    (case user_of (w_sessions w) i of
       None \<Rightarrow> (Inr (), w)
     | Some u \<Rightarrow> cacheP (setUserOffline (cache env) u) (w\<lparr>w_sessions := eraseBindingLocked u i (w_sessions w)\<rparr>))"
proof (cases "user_of (w_sessions w) i")
  case (Some u)
  with unbind_user_of [OF assms(1)] show ?thesis
    by (simp add: os_unbindSession_def os_unbindUser_def sm_getBoundUserBySession_def user_of_def sessionsP_def
        bindP_apply)
qed (use assms(2) in \<open>simp add: os_unbindSession_def sm_getBoundUserBySession_def user_of_def bindP_apply\<close>)

text \<open>
  Closing an old connection never takes a user offline: after a login moved user \<open>u\<close> from session id
  \<open>j\<close> to another session, the cleanup of \<open>j\<close> (\<open>OnlineService::unbindSession\<close>) succeeds and changes nothing
  at all, neither the registry nor the cache; the cleanup of the new session removes the binding and then takes the user offline in the cache.
\<close>

theorem stale_unbind_harmless:
  assumes "registry_ok w" and "session_of (w_sessions w) u = Some j" and "j \<noteq> ss_id (the (w_store w r))"
    and "os_bindUser env u (Some r) w = (Inr (), w')"
  shows "os_unbindSession env j w' = (Inr (), w') \<and>
    os_unbindSession env (ss_id (the (w_store w r))) w' =
      cacheP (setUserOffline (cache env) u)
        (w'\<lparr>w_sessions := eraseBindingLocked u (ss_id (the (w_store w r))) (w_sessions w')\<rparr>)"
proof -
  let ?i = "ss_id (the (w_store w r))"
  have ok: "registry_ok w'"
    using keepsPD [OF registry_os_bindUser assms(1), of env u "Some r"] assms(4) by simp
  have j: "j \<noteq> 0" using assms(1,2) by (auto simp: registry_ok_def sm_ids_def)
  have b: "session_of (w_sessions w') u = Some ?i" "user_of (w_sessions w') ?i = Some u"
    using os_bindUser_props [OF assms(1,4)] by simp_all
  have inverse: "session_of (w_sessions w) v = Some k \<longleftrightarrow> user_of (w_sessions w) k = Some v"
    "session_of (w_sessions w') v = Some k \<longleftrightarrow> user_of (w_sessions w') k = Some v" for v k
    using assms(1) ok by (simp_all add: registry_ok_def sm_inv_def)
  have "user_of (w_sessions w') j \<noteq> Some v" for v
  proof
    assume "user_of (w_sessions w') j = Some v"
    then have v: "session_of (w_sessions w') v = Some j" by (simp add: inverse)
    with b assms(3) have "v \<noteq> u" by auto
    with os_bindUser_others [OF assms(1,4) v] assms(2) show False by (simp add: inverse)
  qed
  then have "user_of (w_sessions w') j = None" by (cases "user_of (w_sessions w') j") auto
  with os_unbindSession_eq [OF ok] j b unbind_user_of(2) [OF ok b(2)] show ?thesis by simp
qed

theorem stale_unbind_harmless_witness:
  "case os_bindUser (example_env no_storage) 7 (Some 1) (example_world ()) of
     (res, w') \<Rightarrow> os_unbindSession (example_env no_storage) 3 w' = (Inr (), w')"
proof -
  obtain w' where run: "os_bindUser (example_env no_storage) 7 (Some 1) (example_world ()) = (Inr (), w')"
    using example_login by (metis prod.collapse)
  from stale_unbind_harmless [OF example_registry_ok _ _ run, of 3] show ?thesis
    unfolding run prod.case
    by (simp add: example_world_def example_manager_def example_store_def session_of_def new_session_def)
qed

end
