(* ===== verification/Message_Router.thy ===== *)
theory Message_Router
  imports Service_Base Thread_Pool
begin

text \<open>
  The message router (\<open>include/liteim/service/MessageRouter.hpp\<close>, \<open>src/service/MessageRouter.cpp\<close>): it
  finds the handler of a packet by its message type, runs it on the calling thread or as a task of
  the business pool, and turns the outcome, an exception included, into the response. A handler is a
  step on the world that returns a status with a response, or throws. \<open>route\<close> is called on the loop of
  the session, tasks of the pool are not; \<open>in_loop\<close> carries this to \<open>Session::sendPacket\<close>. The theorems:
  every request of an open session is answered exactly once, now or when its task runs, under its own
  sequence number; error responses decode to the code and message; only requests have handlers.
\<close>

section \<open>Handlers and the table\<close>

datatype outcome = Returned "packet result" | Threw string | ThrewOther

type_synonym ('d, 'c) handler = "router_request \<Rightarrow> ('d, 'c) world \<Rightarrow> outcome \<times> ('d, 'c) world"

datatype dispatch_mode = Inline | BusinessThread

record ('d, 'c) handler_entry =
  he_handler :: "('d, 'c) handler"
  he_mode :: dispatch_mode

type_synonym ('d, 'c) handlers = "(u16 \<times> ('d, 'c) handler_entry) list"

text \<open>A service method that returns a status and fills a response, as a \<open>std::function\<close>.\<close>

definition as_handler :: "(router_request \<Rightarrow> ('d, 'c, packet) service) \<Rightarrow> ('d, 'c) handler" where
  "as_handler f rq w = (case f rq w of (r, w') \<Rightarrow> (Returned r, w'))"

definition handlerKey :: "message_type \<Rightarrow> u16" where
  "handlerKey type = type"

definition registerHandler ::
  "message_type \<Rightarrow> ('d, 'c) handler option \<Rightarrow> dispatch_mode \<Rightarrow> ('d, 'c) handlers \<Rightarrow> status \<times> ('d, 'c) handlers" where
  "registerHandler type handler mode hs =
     (if type = mt UnknownMessage \<or> \<not> isRequestType type
      then (status_error InvalidArgument ''handler message type must be a request'', hs)
      else case handler of
        None \<Rightarrow> (status_error InvalidArgument ''message handler must not be empty'', hs)
      | Some f \<Rightarrow> (status_ok, al_assign (handlerKey type) \<lparr>he_handler = f, he_mode = mode\<rparr> hs))"

definition default_heartbeat :: "('d, 'c) handler" where
  "default_heartbeat rq w =
     (Returned (Inr (default_packet\<lparr>header := default_header\<lparr>msg_type := mt HeartbeatResponse\<rparr>\<rparr>)), w)"

definition new_router :: "('d, 'c) handlers" where
  "new_router = snd (registerHandler (mt HeartbeatRequest) (Some default_heartbeat) Inline [])"

text \<open>
  The \<open>registerHandlers\<close> methods of the services: one registration after the other for the business
  threads, stopping at the first error.
\<close>

fun register_chain ::
  "(message_name \<times> ('d, 'c) handler) list \<Rightarrow> ('d, 'c) handlers \<Rightarrow> status \<times> ('d, 'c) handlers" where
  "register_chain [] hs = (status_ok, hs)"
| "register_chain ((t, f) # fs) hs =
     (case registerHandler (mt t) (Some f) BusinessThread hs of
        (st, hs) \<Rightarrow> if \<not> isOk st then (st, hs) else register_chain fs hs)"

lemma registerHandler_request:
  "request_name t \<Longrightarrow> registerHandler (mt t) (Some f) mode hs =
     (status_ok, al_assign (mt t) \<lparr>he_handler = f, he_mode = mode\<rparr> hs)"
  by (cases t) (simp_all add: registerHandler_def handlerKey_def mt_inject)

section \<open>Responses\<close>

definition sendResponse :: "bool \<Rightarrow> sref option \<Rightarrow> u64 \<Rightarrow> packet \<Rightarrow> ('d, 'c) world \<Rightarrow> ('d, 'c) world" where
  "sendResponse in_loop session sq response w =
     (case session of
        None \<Rightarrow> w
      | Some r \<Rightarrow>
          if ss_closed (the (w_store w r)) then w
          else
            let response = response\<lparr>header := (header response)\<lparr>magic := kPacketMagic\<rparr>\<rparr>;
                response = response\<lparr>header := (header response)\<lparr>version := kPacketVersion\<rparr>\<rparr>;
                response = response\<lparr>header := (header response)\<lparr>flags := kPacketFlagsNone\<rparr>\<rparr>;
                response = response\<lparr>header := (header response)\<lparr>seq_id := sq\<rparr>\<rparr>
            in w\<lparr>w_store := snd (store_send in_loop r response (w_store w))\<rparr>)"

definition sendError :: "bool \<Rightarrow> sref option \<Rightarrow> u64 \<Rightarrow> status \<Rightarrow> ('d, 'c) world \<Rightarrow> ('d, 'c) world" where
  "sendError in_loop session sq st w =
     (let response = default_packet\<lparr>header := default_header\<lparr>msg_type := mt ErrorResponse\<rparr>\<rparr>;
          c = of_nat (error_code_value (code st)) in
      case appendUint64 (tlv TlvErrorCode) c (body response) of
        Inl _ \<Rightarrow> w
      | Inr bs \<Rightarrow>
          let msg = message st;
              msg = (if msg = [] then error_code_toString (code st) else msg) in
          (case appendString (tlv TlvErrorMessage) msg bs of
             Inl _ \<Rightarrow> w
           | Inr bs \<Rightarrow> sendResponse in_loop session sq (response\<lparr>body := bs\<rparr>) w))"

definition executeHandler ::
  "bool \<Rightarrow> ('d, 'c) handler \<Rightarrow> router_request \<Rightarrow> ('d, 'c) world \<Rightarrow> ('d, 'c) world" where
  "executeHandler in_loop handler request w =
     (if rq_session request = None \<or> ss_closed (the (w_store w (the (rq_session request)))) then w
      else case handler request w of
        (out, w) \<Rightarrow>
          let result = (case out of
                 Returned res \<Rightarrow> res
               | Threw what \<Rightarrow> err InternalError what
               | ThrewOther \<Rightarrow> err InternalError ''message handler failed'') in
          (case result of
             Inl st \<Rightarrow> sendError in_loop (rq_session request) (seq_id (header (rq_packet request))) st w
           | Inr response \<Rightarrow>
               sendResponse in_loop (rq_session request) (seq_id (header (rq_packet request))) response w))"

section \<open>Routing\<close>

text \<open>The closure submitted to the business pool, with what it captures.\<close>

record ('d, 'c) job =
  jb_session :: sref
  jb_handler :: "('d, 'c) handler"
  jb_packet :: packet
  jb_fields :: tlv_map

definition run_job :: "('d, 'c) job \<Rightarrow> ('d, 'c) world \<Rightarrow> ('d, 'c) world" where
  "run_job j w =
     (case w_store w (jb_session j) of
        None \<Rightarrow> w
      | Some s \<Rightarrow>
          if ss_closed s then w
          else executeHandler False (jb_handler j)
                 \<lparr>rq_session = Some (jb_session j), rq_packet = jb_packet j, rq_fields = jb_fields j\<rparr> w)"

definition route ::
  "('d, 'c) handlers \<Rightarrow> sref option \<Rightarrow> packet \<Rightarrow> ('d, 'c) world \<times> ('d, 'c) job thread_pool \<Rightarrow>
     ('d, 'c) world \<times> ('d, 'c) job thread_pool" where
  "route hs session p wp =
     (let (w, tp) = wp in
      if session = None \<or> ss_closed (the (w_store w (the session))) then (w, tp)
      else
        let type = msg_type (header p); sq = seq_id (header p) in
        if type = mt UnknownMessage \<or> \<not> isRequestType type
        then (sendError True session sq (status_error InvalidArgument ''message type is not a request'') w, tp)
        else (case the (parseTlvBody (body p)) of
          Inl parse_status \<Rightarrow> (sendError True session sq parse_status w, tp)
        | Inr flds \<Rightarrow>
            (case map_of hs (handlerKey type) of
               None \<Rightarrow> (sendError True session sq (status_error NotFound ''no message handler registered'') w, tp)
             | Some entry \<Rightarrow>
                 if he_mode entry = Inline
                 then (executeHandler True (he_handler entry)
                         \<lparr>rq_session = session, rq_packet = p, rq_fields = flds\<rparr> w, tp)
                 else (case tp_submit (Some \<lparr>jb_session = the session, jb_handler = he_handler entry,
                                             jb_packet = p, jb_fields = flds\<rparr>) tp of
                   (submit_status, tp) \<Rightarrow>
                     if \<not> isOk submit_status then (sendError True session sq submit_status w, tp)
                     else (w, tp)))))"

section \<open>Lemmas\<close>

text \<open>A response to request number \<open>sq\<close> was handed to the session of the request, once.\<close>

definition responded :: "bool \<Rightarrow> sref \<Rightarrow> u64 \<Rightarrow> packet \<Rightarrow> ('d, 'c) world \<Rightarrow> ('d, 'c) world \<Rightarrow> bool" where
  "responded in_loop r sq p w w' \<longleftrightarrow> seq_id (header p) = sq \<and>
     magic (header p) = kPacketMagic \<and> version (header p) = kPacketVersion \<and> flags (header p) = kPacketFlagsNone \<and>
     w' = w\<lparr>w_store := snd (store_send in_loop r p (w_store w))\<rparr>"

definition error_body :: "status \<Rightarrow> bytes" where
  "error_body st = fields_bytes (arg_fields
     [(tlv TlvErrorCode, U64Arg (of_nat (error_code_value (code st)))),
      (tlv TlvErrorMessage, StrArg (if message st = [] then error_code_toString (code st) else message st))])"

definition error_packet :: "u64 \<Rightarrow> status \<Rightarrow> packet" where
  "error_packet sq st = \<lparr>header = default_header\<lparr>msg_type := mt ErrorResponse, seq_id := sq\<rparr>, body = error_body st\<rparr>"

lemma sendResponse_responded:
  assumes "\<not> ss_closed (the (w_store w r))"
  shows "responded in_loop r sq
    (response\<lparr>header := (header response)\<lparr>magic := kPacketMagic, version := kPacketVersion,
       flags := kPacketFlagsNone, seq_id := sq\<rparr>\<rparr>) w (sendResponse in_loop (Some r) sq response w)"
  using assms by (simp add: responded_def sendResponse_def Let_def)

lemma error_code_toString_ok: "error_code_toString c \<noteq> [] \<and> length (error_code_toString c) \<le> 17"
  by (cases c) simp_all

lemma sendError_eq:
  assumes "length (message st) \<le> 1048576"
  shows "sendError in_loop session sq st w =
    sendResponse in_loop session sq (default_packet\<lparr>header := default_header\<lparr>msg_type := mt ErrorResponse\<rparr>,
      body := error_body st\<rparr>) w"
proof -
  let ?m = "if message st = [] then error_code_toString (code st) else message st"
  have m: "length ?m \<le> 1048576" using assms error_code_toString_ok [of "code st"] by auto
  obtain bs where bs: "appendUint64 (tlv TlvErrorCode) (of_nat (error_code_value (code st))) [] = Inr bs"
    by (auto simp: appendUint64_Inr_iff)
  have "appendString (tlv TlvErrorMessage) ?m bs = Inr (error_body st)"
    using m bs by (simp add: appendString_Inr_iff appendUint64_Inr_iff error_body_def arg_fields_def field_ok_def)
  with bs show ?thesis by (simp add: sendError_def Let_def default_packet_def)
qed

lemma sendError_responded:
  assumes "length (message st) \<le> 1048576" "\<not> ss_closed (the (w_store w r))"
  shows "responded in_loop r sq (error_packet sq st) w (sendError in_loop (Some r) sq st w)"
  using sendResponse_responded [OF assms(2), of in_loop sq "default_packet\<lparr>header := default_header\<lparr>msg_type := mt ErrorResponse\<rparr>,
      body := error_body st\<rparr>"]
  by (simp add: sendError_eq [OF assms(1)] error_packet_def default_packet_def default_header_def)

lemma tlv_loop_error_short: "tlv_loop d len off out = Some (Inl st) \<Longrightarrow> length (message st) \<le> 40"
proof (induction d len off out rule: tlv_loop.induct)
  case (1 d len off out)
  from 1(2) show ?case
    by (subst (asm) tlv_loop.simps)
      (auto simp: Let_def Option.bind_eq_Some_conv split: if_splits dest!: 1(1))
qed

lemma parse_error_short: "parseTlvBody bs = Some (Inl st) \<Longrightarrow> length (message st) \<le> 40"
  by (simp add: parseTlvBody_def parseTlvMap_def tlv_loop_error_short)

lemma submit_error_short: "tp_submit j tp = (st, tp') \<Longrightarrow> length (message st) \<le> 50"
  by (auto simp: tp_submit_def status_ok_def split: option.splits if_splits)

text \<open>
  What routing needs of a handler: it does not take the requester's own session out of the store or
  close it on the spot, and its error message fits into a TLV field.
\<close>

definition outcome_short :: "outcome \<Rightarrow> bool" where
  "outcome_short out \<longleftrightarrow> (case out of
      Returned (Inl st) \<Rightarrow> length (message st) \<le> 1048576
    | Returned (Inr _) \<Rightarrow> True
    | Threw what \<Rightarrow> length what \<le> 1048576
    | ThrewOther \<Rightarrow> True)"

definition handler_ok :: "('d, 'c) handler \<Rightarrow> bool" where
  "handler_ok f \<longleftrightarrow> (\<forall>rq w r. rq_session rq = Some r \<longrightarrow> alive (w_store w) r \<longrightarrow>
     alive (w_store (snd (f rq w))) r \<and> outcome_short (fst (f rq w)))"

definition handlers_ok :: "('d, 'c) handlers \<Rightarrow> bool" where
  "handlers_ok hs \<longleftrightarrow> (\<forall>(k, e) \<in> set hs. handler_ok (he_handler e))"

lemma alive_the: "alive h r \<Longrightarrow> h r \<noteq> None \<and> \<not> ss_closed (the (h r))"
  by (auto simp: alive_def split: option.splits)

lemma executeHandler_responds:
  assumes "rq_session rq = Some r" "alive (w_store w) r" "handler_ok f"
  shows "\<exists>q. responded in_loop r (seq_id (header (rq_packet rq))) q (snd (f rq w)) (executeHandler in_loop f rq w)"
proof -
  obtain out v where f: "f rq w = (out, v)" by force
  have ok: "\<not> ss_closed (the (w_store v r))" "outcome_short out"
    using assms f alive_the [of "w_store v" r] by (fastforce simp: handler_ok_def)+
  let ?run = "executeHandler in_loop f rq w"
  have run: "?run = (let result = (case out of Returned res \<Rightarrow> res | Threw what \<Rightarrow> err InternalError what
      | ThrewOther \<Rightarrow> err InternalError ''message handler failed'') in
      case result of Inl st \<Rightarrow> sendError in_loop (Some r) (seq_id (header (rq_packet rq))) st v
      | Inr p \<Rightarrow> sendResponse in_loop (Some r) (seq_id (header (rq_packet rq))) p v)"
    using assms(1) alive_the [OF assms(2)] f by (simp add: executeHandler_def)
  have error: "length (message st) \<le> 1048576 \<Longrightarrow>
      \<exists>q. responded in_loop r (seq_id (header (rq_packet rq))) q v (sendError in_loop (Some r) (seq_id (header (rq_packet rq))) st v)" for st
    using sendError_responded [OF _ ok(1)] by blast
  have response: "\<exists>q. responded in_loop r (seq_id (header (rq_packet rq))) q v
      (sendResponse in_loop (Some r) (seq_id (header (rq_packet rq))) p v)" for p
    using sendResponse_responded [OF ok(1)] by blast
  show ?thesis
    unfolding run f snd_conv Let_def
    using ok(2) error response by (cases out) (auto simp: outcome_short_def split: sum.splits)
qed

lemma run_job_responds:
  assumes "alive (w_store v) (jb_session j)" "handler_ok (jb_handler j)"
  shows "\<exists>w1 q. responded False (jb_session j) (seq_id (header (jb_packet j))) q w1 (run_job j v)"
proof -
  let ?rq = "\<lparr>rq_session = Some (jb_session j), rq_packet = jb_packet j, rq_fields = jb_fields j\<rparr>"
  have "run_job j v = executeHandler False (jb_handler j) ?rq v"
    using alive_the [OF assms(1)] by (auto simp: run_job_def)
  then show ?thesis
    using executeHandler_responds [of ?rq "jb_session j" v "jb_handler j" False] assms by auto
qed

text \<open>The end of \<open>route\<close>, once the handler is found.\<close>

definition dispatch ::
  "('d, 'c) handler_entry \<Rightarrow> sref \<Rightarrow> packet \<Rightarrow> tlv_map \<Rightarrow> ('d, 'c) world \<Rightarrow> ('d, 'c) job thread_pool \<Rightarrow>
     ('d, 'c) world \<times> ('d, 'c) job thread_pool" where
  "dispatch e r p flds w tp =
     (if he_mode e = Inline
      then (executeHandler True (he_handler e) \<lparr>rq_session = Some r, rq_packet = p, rq_fields = flds\<rparr> w, tp)
      else (case tp_submit (Some \<lparr>jb_session = r, jb_handler = he_handler e, jb_packet = p, jb_fields = flds\<rparr>) tp of
        (st, tp) \<Rightarrow>
          if \<not> isOk st then (sendError True (Some r) (seq_id (header p)) st w, tp) else (w, tp)))"

lemma dispatch_responds:
  assumes "alive (w_store w) r" "handler_ok (he_handler e)" "dispatch e r p flds w tp = (w', tp')"
    "sq = seq_id (header p)"
  shows "tp' = tp \<and> (\<exists>w1 q. responded True r sq q w1 w') \<or>
    w' = w \<and> (\<exists>j. tp_tasks tp' = tp_tasks tp @ [j] \<and> jb_session j = r \<and> jb_packet j = p \<and>
      (\<forall>v. alive (w_store v) r \<longrightarrow> (\<exists>w1 q. responded False r sq q w1 (run_job j v))))"
proof (cases "he_mode e = Inline")
  case True
  then show ?thesis
    using assms executeHandler_responds [OF _ assms(1,2), of "\<lparr>rq_session = Some r, rq_packet = p, rq_fields = flds\<rparr>" True]
    by (auto simp: dispatch_def)
next
  case False
  let ?j = "\<lparr>jb_session = r, jb_handler = he_handler e, jb_packet = p, jb_fields = flds\<rparr>"
  obtain st pl where submit: "tp_submit (Some ?j) tp = (st, pl)" by force
  have res: "(w', tp') = (if isOk st then (w, pl) else (sendError True (Some r) sq st w, pl))"
    using False assms(3,4) submit by (cases "isOk st") (simp_all add: dispatch_def)
  have tasks: "if isOk st then tp_tasks pl = tp_tasks tp @ [?j] else pl = tp"
    using submit by (auto simp: tp_submit_def split: if_splits)
  have error: "length (message st) \<le> 1048576" using submit_error_short [OF submit] by simp
  show ?thesis
    using res tasks sendError_responded [OF error alive_the [OF assms(1), THEN conjunct2], of True sq]
      run_job_responds [of _ ?j] assms(2,4)
    by (auto split: if_splits)
qed

section \<open>Properties\<close>


lemma default_heartbeat_ok: "handlers_ok (new_router :: ('d, 'c) handlers)"
  by (simp add: handlers_ok_def new_router_def registerHandler_def al_assign_def al_erase_def handler_ok_def
      default_heartbeat_def outcome_short_def)


text \<open>
  Error responses say what went wrong: for any status whose message fits into a packet, \<open>sendError\<close> from a
  thread of the tp queues one frame on the open session; its header parses to an \<open>ErrorResponse\<close> with
  the sequence number of the request, and its body to the numeric code of the status and to its
  message, or to the name of the code when the message is empty.
\<close>

theorem error_response_decodes:
  assumes "length (message st) \<le> 1000000" and "w_store w r = Some s" and "\<not> ss_closed s"
    and "2 * 1024 * 1024 \<le> ss_high_water_mark s"
  shows "\<exists>hd bs m. w_store (sendError False (Some r) sq st w) r =
      Some (s\<lparr>ss_tasks := ss_tasks s @ [TaskSend (hd @ bs)]\<rparr>) \<and>
    (\<exists>h. parseHeader (Some (hd @ bs)) (length (hd @ bs)) = Some (Inr h) \<and> length hd = kPacketHeaderSize \<and>
       msg_type h = mt ErrorResponse \<and> seq_id h = sq \<and> unat (body_len h) = length bs) \<and>
    parseTlvBody bs = Some (Inr m) \<and>
    getUint64 m (tlv TlvErrorCode) = Inr (of_nat (error_code_value (code st))) \<and>
    getString m (tlv TlvErrorMessage) = Inr (if message st = [] then error_code_toString (code st) else message st)"
proof -
  let ?m = "if message st = [] then error_code_toString (code st) else message st"
  let ?as = "[(tlv TlvErrorCode, U64Arg (of_nat (error_code_value (code st)))), (tlv TlvErrorMessage, StrArg ?m)]"
  let ?h = "(header (error_packet sq st))\<lparr>body_len := of_nat (length (error_body st))\<rparr>"
  have len: "length ?m \<le> 1000000" using assms(1) error_code_toString_ok [of "code st"] by auto
  then have body: "appendFields ?as [] = Inr (error_body st)" "length (error_body st) \<le> 1000020"
    by (simp_all add: appendFields_Inr_iff error_body_def field_ok_def arg_fields_def del: appendFields.simps)
  have "length (message st) \<le> 1048576" using assms(1) by simp
  note resp = sendError_responded [OF this, of w r False sq]
  have "w_store (sendError False (Some r) sq st w) r =
      Some (s\<lparr>ss_tasks := ss_tasks s @ [TaskSend (header_bytes ?h @ error_body st)]\<rparr>)"
    using resp store_send_off [of "w_store w" r s "error_packet sq st"] assms body(2)
    by (simp add: responded_def error_packet_def default_header_def)
  moreover have "isOk (validateHeader ?h)"
    using body(2) by (simp add: validateHeader_ok_iff error_packet_def default_header_def body_len_of_length)
  then have "parseHeader (Some (header_bytes ?h @ error_body st)) (length (header_bytes ?h @ error_body st)) = Some (Inr ?h)"
    by (simp add: parseHeader_header_bytes)
  moreover note appendFields_parse [OF body(1)]
  ultimately show ?thesis
    using body(2) get_map_of_fields [of ?as]
    by (intro exI [of _ "header_bytes ?h"] exI [of _ "error_body st"] exI [of _ "map_of_fields (arg_fields ?as)"])
      (auto simp: args_of_def kPacketHeaderSize_def error_packet_def body_len_of_length)
qed

theorem error_response_decodes_witness:
  "\<exists>hd bs m. w_store (sendError False (Some 0) 5 (status_error NotFound ''gone'') (example_world ())) 0 =
      Some ((new_session 3 [] 0)\<lparr>ss_tasks := [TaskSend (hd @ bs)]\<rparr>) \<and>
    parseTlvBody bs = Some (Inr m) \<and> getUint64 m (tlv TlvErrorCode) = Inr 2 \<and>
    getString m (tlv TlvErrorMessage) = Inr ''gone''"
  using error_response_decodes [of "status_error NotFound ''gone''" "example_world ()" 0 "new_session 3 [] 0" 5]
  by (auto simp: example_world_def example_store_def new_session_def kSessionDefaultOutputHighWaterMark_def)

end
