(* ===== verification/Service_Rules.thy ===== *)
theory Service_Rules
  imports Online_Service Message_Router
begin

text \<open>
  Rules that carry facts through every service handler: handlers keep the binding registry
  consistent, they leave open sessions open (closing is only queued), and their error messages fit
  into an error response when those of the database and the cache do. Each is a rule per building
  block, so a handler needs no proof of its own beyond applying them.
\<close>

section \<open>Inversion of lifted calls\<close>

lemma dbP_iff: "dbP op w = (r, w') \<longleftrightarrow> (\<exists>d. op (w_db w) = (r, d) \<and> w' = w\<lparr>w_db := d\<rparr>)"
  by (auto simp: dbP_def split: prod.splits)

lemma cacheP_iff: "cacheP op w = (r, w') \<longleftrightarrow> (\<exists>c. op (w_cache w) = (r, c) \<and> w' = w\<lparr>w_cache := c\<rparr>)"
  by (auto simp: cacheP_def split: prod.splits)

lemma sessionsP_iff:
  "sessionsP op w = (r, w') \<longleftrightarrow> (\<exists>m. op (w_store w) (w_sessions w) = (r, m) \<and> w' = w\<lparr>w_sessions := m\<rparr>)"
  by (auto simp: sessionsP_def split: prod.splits)

lemmas lift_iffs = dbP_iff cacheP_iff sessionsP_iff

text \<open>A run that succeeded took the good branch everywhere: rewriting with these equations reads it off.\<close>

named_theorems inr_simps \<open>successful runs, step by step\<close>

lemma bindP_liftP_Inr [inr_simps]:
  "bindP (liftP r) f s = (Inr y, t) \<longleftrightarrow> (\<exists>x. r = Inr x \<and> f x s = (Inr y, t))"
  by (simp add: bindP_Inr)

lemma bindP_getsP [inr_simps]: "bindP (getsP g) f s = f (g s) s"
  by (simp add: bindP_apply)

lemma bindP_statusP [inr_simps]: "bindP (statusP m) f s = f (fst (m s)) (snd (m s))"
  by (simp add: bindP_apply)

lemma bindP_dbP_Inr [inr_simps]:
  "bindP (dbP op) f w = (Inr y, w') \<longleftrightarrow> (\<exists>x d. op (w_db w) = (Inr x, d) \<and> f x (w\<lparr>w_db := d\<rparr>) = (Inr y, w'))"
  by (auto simp: bindP_Inr dbP_iff)

lemma bindP_cacheP_Inr [inr_simps]:
  "bindP (cacheP op) f w = (Inr y, w') \<longleftrightarrow> (\<exists>x c. op (w_cache w) = (Inr x, c) \<and> f x (w\<lparr>w_cache := c\<rparr>) = (Inr y, w'))"
  by (auto simp: bindP_Inr cacheP_iff)

lemma if_failP_Inr [inr_simps]: "(if c then failP e else m) s = (Inr y, t) \<longleftrightarrow> \<not> c \<and> m s = (Inr y, t)"
  by simp

lemma status_check_Inr [inr_simps]:
  "bindP (case q of Inr _ \<Rightarrow> retP () | Inl st \<Rightarrow> if c st then failP st else retP ()) f s = (Inr y, t) \<longleftrightarrow>
     (\<forall>st. q = Inl st \<longrightarrow> \<not> c st) \<and> f () s = (Inr y, t)"
  by (cases q) simp_all

lemma reply_Inr [inr_simps]:
  "bindP (liftP r) (\<lambda>bs. retP (reply rq type bs)) s = (Inr resp, t) \<longleftrightarrow> r = Inr (body resp) \<and> resp = reply rq type (body resp) \<and> t = s"
  by (auto simp: bindP_Inr reply_def)

lemma validateMaxBytes_Inr [inr_simps]: "validateMaxBytes v n f = Inr x \<longleftrightarrow> length v \<le> n"
  by (auto simp: validateMaxBytes_def)

section \<open>Error messages\<close>

named_theorems short_intros \<open>programs whose error messages are short\<close>

definition short_status :: "status \<Rightarrow> bool" where
  "short_status st \<longleftrightarrow> length (message st) \<le> 1000000"

definition shortP :: "('s, 'a) prog \<Rightarrow> bool" where
  "shortP m \<longleftrightarrow> (\<forall>s st s'. m s = (Inl st, s') \<longrightarrow> short_status st)"

definition shortR :: "'a result \<Rightarrow> bool" where
  "shortR r \<longleftrightarrow> (\<forall>st. r = Inl st \<longrightarrow> short_status st)"

lemma short_status_error [simp]: "short_status (status_error c m) \<longleftrightarrow> length m \<le> 1000000"
  by (simp add: short_status_def)

lemma shortR_simps [simp]: "shortR (Inr x)" "shortR (Inl st) \<longleftrightarrow> short_status st"
  by (simp_all add: shortR_def)

lemma shortR_bindR: "shortR r \<Longrightarrow> (\<And>x. shortR (f x)) \<Longrightarrow> shortR (bindR r f)"
  by (cases r) simp_all

lemma shortP_retP [short_intros]: "shortP (retP x)"
  by (simp add: shortP_def)

lemma shortP_failP [short_intros]: "short_status st \<Longrightarrow> shortP (failP st)"
  by (simp add: shortP_def)

lemma shortP_liftP [short_intros]: "shortR r \<Longrightarrow> shortP (liftP r)"
  by (simp add: shortP_def shortR_def)

lemma shortP_getsP [short_intros]: "shortP (getsP f)"
  by (simp add: shortP_def)

lemma shortP_statusP [short_intros]: "shortP (statusP m)"
  by (simp add: shortP_def)

text \<open>The status of a call that is passed on: it was short where it came from.\<close>

lemma shortP_statusP_bind [short_intros]:
  assumes "shortP m" "\<And>st. short_status st \<Longrightarrow> shortP (f (Inl st))" "\<And>x. shortP (f (Inr x))"
  shows "shortP (bindP (statusP m) f)"
  unfolding shortP_def
proof (intro allI impI)
  fix s st s'
  assume run: "bindP (statusP m) f s = (Inl st, s')"
  obtain r t where m: "m s = (r, t)" by force
  have "shortP (f r)"
  proof (cases r)
    case (Inl e)
    with m assms(1) have "short_status e" by (auto simp: shortP_def)
    with assms(2) Inl show ?thesis by simp
  qed (simp add: assms(3))
  moreover have "f r t = (Inl st, s')" using run m by (simp add: bindP_apply)
  ultimately show "short_status st" unfolding shortP_def by blast
qed

lemma shortP_bindP [short_intros]: "shortP m \<Longrightarrow> (\<And>x. shortP (f x)) \<Longrightarrow> shortP (bindP m f)"
  by (fastforce simp: shortP_def bindP_Inl)

lemma shortP_if [short_intros]:
  "(c \<Longrightarrow> shortP m) \<Longrightarrow> (\<not> c \<Longrightarrow> shortP n) \<Longrightarrow> shortP (if c then m else n)"
  by simp

lemma shortP_forP [short_intros]: "(\<And>x. shortP (f x)) \<Longrightarrow> shortP (forP f xs)"
  by (induction xs) (auto intro: short_intros)

lemma shortP_dbP [short_intros]: "shortP op \<Longrightarrow> shortP (dbP op)"
  by (fastforce simp: shortP_def dbP_def split: prod.splits)

lemma shortP_cacheP [short_intros]: "shortP op \<Longrightarrow> shortP (cacheP op)"
  by (fastforce simp: shortP_def cacheP_def split: prod.splits)

lemma shortP_sessionsP [short_intros]: "(\<And>h. shortP (op h)) \<Longrightarrow> shortP (sessionsP op)"
  by (fastforce simp: shortP_def sessionsP_def split: prod.splits)

lemma short_registry [short_intros]:
  "shortP (sm_getUserBySession i h)" "shortP (sm_getSessionByUser u h)" "shortP (sm_unbindUser u i)"
  by (auto simp: shortP_def sm_getUserBySession_def sm_getSessionByUser_def sm_unbindUser_def
      split: if_splits option.splits)

lemma short_bindUserP [short_intros]: "shortP (bindUserP u r)"
  by (auto simp: shortP_def bindUserP_def sm_bindUser_def Let_def split: if_splits option.splits prod.splits)

lemma short_validateSession [short_intros]: "shortP (validateSession u r)"
  by (auto simp: shortP_def validateSession_def split: if_splits option.splits)

lemma short_append [short_intros]: "shortR (appendUint64 t v out)" "shortR (appendString t s out)"
  by (auto simp: appendUint64_def appendString_def appendValue_def Let_def)

lemma short_appendMessageFields [short_intros]: "shortR (appendMessageFields m out)"
  by (simp add: appendMessageFields_def appendConversationType_def shortR_bindR short_append)

lemma repeated_loop_short: "shortR (repeated_uint64_loop vs out)"
  by (induction vs arbitrary: out) simp_all

lemma short_get [short_intros]: "shortR (getUint64 m t)" "shortR (getString m t)" "shortR (getRepeatedUint64 m t)"
  by (auto simp: getUint64_def getString_def getRepeatedUint64_def repeated_loop_short split: option.splits)

text \<open>A database and a cache whose error messages are short.\<close>

definition storage_short :: "'d storage_ops \<Rightarrow> bool" where
  "storage_short s \<longleftrightarrow>
     (\<forall>x. shortP (createUser s x)) \<and> (\<forall>x. shortP (findUserByUsername s x)) \<and> (\<forall>x. shortP (findUserById s x)) \<and>
     (\<forall>x y. shortP (findMessageByClientMessageId s x y)) \<and> (\<forall>x y. shortP (createFriendRequest s x y)) \<and>
     (\<forall>x y. shortP (acceptFriendRequest s x y)) \<and> (\<forall>x y. shortP (rejectFriendRequest s x y)) \<and>
     (\<forall>x y. shortP (areFriends s x y)) \<and> (\<forall>x. shortP (getFriends s x)) \<and> (\<forall>x. shortP (createGroup s x)) \<and>
     (\<forall>x y. shortP (addGroupMember s x y)) \<and> (\<forall>x. shortP (getGroupMembers s x)) \<and>
     (\<forall>x. shortP (findGroupById s x)) \<and> (\<forall>x. shortP (getGroupsForUser s x)) \<and>
     (\<forall>x y. shortP (saveMessageWithOfflineRecipients s x y)) \<and> (\<forall>x y. shortP (saveOfflineMessage s x y)) \<and>
     (\<forall>x y. shortP (findDeliveryStatus s x y)) \<and> (\<forall>x y. shortP (getOfflineMessages s x y)) \<and>
     (\<forall>x y. shortP (ackOfflineMessages s x y)) \<and> (\<forall>x y. shortP (ackPrivateMessageDelivery s x y)) \<and>
     (\<forall>x. shortP (getHistory s x))"

definition cache_short :: "'c cache_ops \<Rightarrow> bool" where
  "cache_short c \<longleftrightarrow>
     (\<forall>x y. shortP (setUserOnline c x y)) \<and> (\<forall>x y. shortP (refreshUserOnline c x y)) \<and>
     (\<forall>x. shortP (setUserOffline c x)) \<and> (\<forall>x. shortP (isUserOnline c x)) \<and>
     (\<forall>x y. shortP (incrUnread c x y)) \<and> (\<forall>x. shortP (clearUnread c x)) \<and>
     (\<forall>x y. shortP (allowLoginAttempt c x y)) \<and> (\<forall>x y. shortP (recordLoginFailure c x y)) \<and>
     (\<forall>x. shortP (clearLoginFailure c x))"

definition env_short :: "('d, 'c) service_env \<Rightarrow> bool" where
  "env_short env \<longleftrightarrow> storage_short (storage env) \<and> cache_short (cache env)"

lemma env_short_storage [short_intros]:
  assumes "env_short env"
  shows "shortP (createUser (storage env) a)" "shortP (findUserByUsername (storage env) b)"
    "shortP (findUserById (storage env) i)" "shortP (findMessageByClientMessageId (storage env) i b)"
    "shortP (createFriendRequest (storage env) i j)" "shortP (acceptFriendRequest (storage env) i j)"
    "shortP (rejectFriendRequest (storage env) i j)" "shortP (areFriends (storage env) i j)"
    "shortP (getFriends (storage env) i)" "shortP (createGroup (storage env) c)"
    "shortP (addGroupMember (storage env) i j)" "shortP (getGroupMembers (storage env) i)"
    "shortP (findGroupById (storage env) i)" "shortP (getGroupsForUser (storage env) i)"
    "shortP (saveMessageWithOfflineRecipients (storage env) m us)" "shortP (saveOfflineMessage (storage env) i j)"
    "shortP (findDeliveryStatus (storage env) i j)" "shortP (getOfflineMessages (storage env) i n)"
    "shortP (ackOfflineMessages (storage env) i us)" "shortP (ackPrivateMessageDelivery (storage env) i j)"
    "shortP (getHistory (storage env) q)"
  using assms by (simp_all add: env_short_def storage_short_def)

lemma env_short_cache [short_intros]:
  assumes "env_short env"
  shows "shortP (setUserOnline (cache env) a t)" "shortP (refreshUserOnline (cache env) i t)"
    "shortP (setUserOffline (cache env) i)" "shortP (isUserOnline (cache env) i)"
    "shortP (incrUnread (cache env) k j)" "shortP (clearUnread (cache env) k)"
    "shortP (allowLoginAttempt (cache env) l n)" "shortP (recordLoginFailure (cache env) l t)"
    "shortP (clearLoginFailure (cache env) l)"
  using assms by (simp_all add: env_short_def cache_short_def)

lemma shortP_sum [short_intros]:
  "(\<And>e. r = Inl e \<Longrightarrow> shortP (f e)) \<Longrightarrow> (\<And>x. shortP (g x)) \<Longrightarrow> shortP (case r of Inl e \<Rightarrow> f e | Inr x \<Rightarrow> g x)"
  by (cases r) simp_all

lemma short_os_bindUser [short_intros]: "env_short env \<Longrightarrow> shortP (os_bindUser env u r)"
  unfolding os_bindUser_def by (intro short_intros) simp_all

lemma short_os_unbindUser [short_intros]: "env_short env \<Longrightarrow> shortP (os_unbindUser env u i)"
  unfolding os_unbindUser_def by (intro short_intros)

lemma short_os_unbindSession [short_intros]: "env_short env \<Longrightarrow> shortP (os_unbindSession env i)"
  unfolding os_unbindSession_def
  using short_os_unbindUser [of env _ i]
  by (auto simp: shortP_def bindP_apply sm_getBoundUserBySession_def split: if_splits option.splits)

lemma short_os_refresh [short_intros]: "env_short env \<Longrightarrow> shortP (os_refreshUserOnline env u i)"
  unfolding os_refreshUserOnline_def by (intro short_intros) simp

lemma short_os_get [short_intros]: "shortP (os_getSessionByUser u)" "shortP (os_getUserBySession i)"
  unfolding os_getSessionByUser_def os_getUserBySession_def by (intro short_intros)+

section \<open>Open sessions stay open\<close>

abbreviation stays_open :: "sref \<Rightarrow> ('d, 'c) world \<Rightarrow> bool" where
  "stays_open r \<equiv> \<lambda>w. alive (w_store w) r"

lemma open_dbP [inv_intros]: "keepsP (stays_open r) (dbP op)"
  by (simp add: keepsP_def dbP_def split: prod.splits)

lemma open_cacheP [inv_intros]: "keepsP (stays_open r) (cacheP op)"
  by (simp add: keepsP_def cacheP_def split: prod.splits)

lemma open_sessionsP [inv_intros]: "keepsP (stays_open r) (sessionsP op)"
  by (simp add: keepsP_def sessionsP_def split: prod.splits)

lemma open_sendP [inv_intros]: "keepsP (stays_open r) (sendP q p)"
  using store_send_alive [of _ r q p] by (auto simp: keepsP_def sendP_def split: prod.splits) (metis snd_conv)+

lemma sm_bindUser_store: "sm_bindUser u q (m, h) = (st, m', h') \<Longrightarrow> h' = h \<or> (\<exists>old. h' = store_close old h)"
  by (auto simp: sm_bindUser_def Let_def split: if_splits option.splits)

lemma open_bindUserP [inv_intros]: "keepsP (stays_open r) (bindUserP u q)"
  by (auto simp: keepsP_def bindUserP_def store_close_alive split: prod.splits dest!: sm_bindUser_store)

lemma open_validate [inv_intros]: "keepsP (stays_open r) (validateSession u q)"
  by (simp add: keepsP_def)

lemma open_os [inv_intros]:
  "keepsP (stays_open r) (os_bindUser env u q)" "keepsP (stays_open r) (os_unbindUser env u i)"
  "keepsP (stays_open r) (os_unbindSession env i)" "keepsP (stays_open r) (os_refreshUserOnline env u i)"
  "keepsP (stays_open r) (os_getSessionByUser u)" "keepsP (stays_open r) (os_getUserBySession i)"
  unfolding os_bindUser_def os_unbindUser_def os_unbindSession_def os_refreshUserOnline_def
    os_getSessionByUser_def os_getUserBySession_def
  by (intro inv_intros)+

text \<open>Ids of sessions never change.\<close>

lemma store_close_id: "ss_id (the (store_close q h r)) = ss_id (the (h r))"
  by (auto simp: store_close_def session_close_def split: option.splits)

abbreviation id_stays :: "sref \<Rightarrow> u64 \<Rightarrow> ('d, 'c) world \<Rightarrow> bool" where
  "id_stays r i \<equiv> \<lambda>w. ss_id (the (w_store w r)) = i"

lemma session_ids_os_bindUser: "keepsP (id_stays r i) (os_bindUser env u q)"
proof -
  have "keepsP (id_stays r i) (bindUserP u q)"
    by (auto simp: keepsP_def bindUserP_def store_close_id split: prod.splits dest!: sm_bindUser_store)
  moreover have "keepsP (id_stays r i) (cacheP op)" for op :: "('b, unit) prog"
    by (simp add: keepsP_def cacheP_def split: prod.splits)
  moreover have "keepsP (id_stays r i) (sessionsP op)" for op :: "session_store \<Rightarrow> session_manager \<Rightarrow> u64 result \<times> session_manager"
    by (simp add: keepsP_def sessionsP_def split: prod.splits)
  moreover have "keepsP (id_stays r i) (validateSession u q)"
    by (simp add: keepsP_def)
  ultimately show ?thesis
    unfolding os_bindUser_def by (intro inv_intros)
qed

section \<open>Handlers\<close>

text \<open>What every handler of the services satisfies.\<close>

definition good_handler :: "(router_request \<Rightarrow> ('d, 'c, packet) service) \<Rightarrow> bool" where
  "good_handler f \<longleftrightarrow> (\<forall>rq. shortP (f rq) \<and> keepsP registry_ok (f rq) \<and> (\<forall>r. keepsP (stays_open r) (f rq)))"

lemma good_handlerI:
  "(\<And>rq. shortP (f rq)) \<Longrightarrow> (\<And>rq. keepsP registry_ok (f rq)) \<Longrightarrow> (\<And>rq r. keepsP (stays_open r) (f rq)) \<Longrightarrow>
     good_handler f"
  by (simp add: good_handler_def)

lemma good_handler_ok:
  assumes "good_handler f"
  shows "handler_ok (as_handler f)"
  unfolding handler_ok_def
proof (intro allI impI)
  fix rq :: router_request and r and w :: "('a, 'b) world"
  assume "rq_session rq = Some r" "alive (w_store w) r"
  obtain res w' where run: "f rq w = (res, w')" by force
  have "alive (w_store w') r"
    using assms \<open>alive _ r\<close> run keepsPD [of "stays_open r" "f rq" w] by (simp add: good_handler_def)
  moreover have "outcome_short (Returned res)"
    using assms run by (fastforce simp: good_handler_def shortP_def outcome_short_def short_status_def split: sum.splits)
  ultimately show "alive (w_store (snd (as_handler f rq w))) r \<and> outcome_short (fst (as_handler f rq w))"
    by (simp add: as_handler_def run)
qed

section \<open>Login gates\<close>

definition notLoggedInStatus :: status where
  "notLoggedInStatus = status_error InvalidArgument ''session is not logged in''"

lemma getUser_gate:
  assumes "sm_inv (w_sessions w)" "os_getUserBySession i w = (Inr u, w')"
  shows "w' = w" "user_of (w_sessions w) i = Some u"
  using assms getUser_Inr(1,2) [OF assms(1), of i "w_store w" u]
  by (auto simp: os_getUserBySession_def sessionsP_def split: prod.splits)

lemma getUser_same_data: "os_getUserBySession i w = (res, w') \<Longrightarrow> same_data w w'"
  by (auto simp: os_getUserBySession_def sessionsP_def same_data_def split: prod.splits)

lemma same_data_refl [simp]: "same_data w w"
  by (simp add: same_data_def)

text \<open>
  \<open>currentUserId\<close>: \<open>FriendService\<close>, \<open>ChatService\<close>, \<open>GroupService\<close> and \<open>HistoryService\<close> have the same text; the
  one of \<open>OfflineMessageService\<close> does not look whether the session is closed.
\<close>

definition currentUserId :: "router_request \<Rightarrow> ('d, 'c, u64) service" where
  "currentUserId rq =
     bindP (getsP (\<lambda>w. rq_session rq = None \<or> ss_closed (the (w_store w (the (rq_session rq)))))) (\<lambda>gone.
     if gone then failP notLoggedInStatus
     else
       bindP (getsP (\<lambda>w. ss_id (the (w_store w (the (rq_session rq)))))) (\<lambda>session_id.
       bindP (statusP (os_getUserBySession session_id)) (\<lambda>res.
       case res of
         Inl st \<Rightarrow> if code st = NotFound then failP notLoggedInStatus else failP st
       | Inr user_id \<Rightarrow> retP user_id)))"

definition offline_currentUserId :: "router_request \<Rightarrow> ('d, 'c, u64) service" where
  "offline_currentUserId rq =
     (case rq_session rq of
        None \<Rightarrow> failP notLoggedInStatus
      | Some r \<Rightarrow>
          bindP (getsP (\<lambda>w. ss_id (the (w_store w r)))) (\<lambda>session_id.
          bindP (statusP (os_getUserBySession session_id)) (\<lambda>res.
          case res of
            Inl st \<Rightarrow> if code st = NotFound then failP notLoggedInStatus else failP st
          | Inr user_id \<Rightarrow> retP user_id)))"

definition login_lookup :: "u64 \<Rightarrow> ('d, 'c, u64) service" where
  "login_lookup i w = (case os_getUserBySession i w of
      (Inl st, w') \<Rightarrow> (Inl (if code st = NotFound then notLoggedInStatus else st), w')
    | (Inr u, w') \<Rightarrow> (Inr u, w'))"

lemma currentUserId_eq:
  "currentUserId rq w = (case rq_session rq of
      None \<Rightarrow> (Inl notLoggedInStatus, w)
    | Some r \<Rightarrow> if ss_closed (the (w_store w r)) then (Inl notLoggedInStatus, w) else login_lookup (ss_id (the (w_store w r))) w)"
  by (auto simp: currentUserId_def login_lookup_def bindP_apply split: option.splits prod.splits sum.splits)

lemma offline_currentUserId_eq:
  "offline_currentUserId rq w = (case rq_session rq of
      None \<Rightarrow> (Inl notLoggedInStatus, w)
    | Some r \<Rightarrow> login_lookup (ss_id (the (w_store w r))) w)"
  by (auto simp: offline_currentUserId_def login_lookup_def bindP_apply split: option.splits prod.splits sum.splits)

lemma login_lookup_Inr:
  assumes "sm_inv (w_sessions w)" "login_lookup i w = (Inr u, w')"
  shows "w' = w" "user_of (w_sessions w) i = Some u"
proof -
  have "os_getUserBySession i w = (Inr u, w')"
    using assms(2) by (auto simp: login_lookup_def split: prod.splits sum.splits)
  from getUser_gate [OF assms(1) this] show "w' = w" "user_of (w_sessions w) i = Some u" by simp_all
qed

lemma login_lookup_same: "login_lookup i w = (res, w') \<Longrightarrow> same_data w w'"
  by (auto simp: login_lookup_def split: prod.splits sum.splits dest: getUser_same_data)

lemma currentUserId_Inr:
  "sm_inv (w_sessions w) \<Longrightarrow> currentUserId rq w = (Inr u, w') \<Longrightarrow> w' = w \<and> logged_in rq w u"
  "sm_inv (w_sessions w) \<Longrightarrow> offline_currentUserId rq w = (Inr u, w') \<Longrightarrow> w' = w \<and> logged_in rq w u"
  by (auto simp: currentUserId_eq offline_currentUserId_eq logged_in_def dest: login_lookup_Inr
      split: option.splits if_splits)

lemma currentUserId_same:
  "currentUserId rq w = (res, w') \<Longrightarrow> same_data w w'"
  "offline_currentUserId rq w = (res, w') \<Longrightarrow> same_data w w'"
  by (auto simp: currentUserId_eq offline_currentUserId_eq dest: login_lookup_same split: option.splits if_splits)

interpretation gate: login_gate currentUserId
  by unfold_locales (blast dest: currentUserId_Inr currentUserId_same)+

interpretation offline_gate: login_gate offline_currentUserId
  by unfold_locales (blast dest: currentUserId_Inr currentUserId_same)+

lemma gate_Inr_iff:
  assumes "registry_ok w"
  shows "bindP (currentUserId rq) f w = (Inr x, w') \<longleftrightarrow>
      (\<exists>u. logged_in rq w u \<and> currentUserId rq w = (Inr u, w) \<and> f u w = (Inr x, w'))"
    "bindP (offline_currentUserId rq) f w = (Inr x, w') \<longleftrightarrow>
      (\<exists>u. logged_in rq w u \<and> offline_currentUserId rq w = (Inr u, w) \<and> f u w = (Inr x, w'))"
  using gate.gate_ok [of w rq] offline_gate.gate_ok [of w rq] assms
  by (fastforce simp: bindP_Inr registry_ok_def)+

lemma keepsP_option [inv_intros]:
  "keepsP I f \<Longrightarrow> (\<And>x. keepsP I (g x)) \<Longrightarrow> keepsP I (case r of None \<Rightarrow> f | Some x \<Rightarrow> g x)"
  by (cases r) simp_all

lemma shortP_option [short_intros]:
  "shortP f \<Longrightarrow> (\<And>x. shortP (g x)) \<Longrightarrow> shortP (case r of None \<Rightarrow> f | Some x \<Rightarrow> g x)"
  by (cases r) simp_all

lemma gate_rules [short_intros, inv_intros]:
  "shortP (currentUserId rq)" "shortP (offline_currentUserId rq)"
  "keepsP registry_ok (currentUserId rq)" "keepsP registry_ok (offline_currentUserId rq)"
  "keepsP (stays_open r) (currentUserId rq)" "keepsP (stays_open r) (offline_currentUserId rq)"
  unfolding currentUserId_def offline_currentUserId_def
  by (intro short_intros inv_intros; simp add: notLoggedInStatus_def)+

lemma short_validateMaxBytes [short_intros]: "length f \<le> 100 \<Longrightarrow> shortR (validateMaxBytes v n f)"
  by (simp add: validateMaxBytes_def)

section \<open>Pushes\<close>

definition push_packet :: "message_name \<Rightarrow> bytes \<Rightarrow> packet" where
  "push_packet type bs = \<lparr>header = default_header\<lparr>msg_type := mt type\<rparr>, body = bs\<rparr>"

text \<open>
  The push of a message is queued on session \<open>r\<close>: a frame whose header says \<open>PrivateMessagePush\<close> and
  whose body holds the fields of the message.
\<close>

definition push_queued :: "message_name \<Rightarrow> ('d, 'c) world \<Rightarrow> sref \<Rightarrow> message_record \<Rightarrow> bool" where
  "push_queued type w r m \<longleftrightarrow> (\<exists>s bs. w_store w r = Some s \<and> appendMessageFields m [] = Inr bs \<and>
     TaskSend (header_bytes (default_header\<lparr>msg_type := mt type, body_len := of_nat (length bs)\<rparr>) @ bs) \<in> set (ss_tasks s))"

lemma sendP_queued:
  assumes "sendP r p w = (Inr x, w')" "w_store w r = Some s"
  shows "length (body p) \<le> 1048576 \<and> (\<exists>s'. w_store w' r = Some s' \<and>
    TaskSend (header_bytes ((header p)\<lparr>body_len := of_nat (length (body p))\<rparr>) @ body p) \<in> set (ss_tasks s'))"
proof -
  obtain st h where send: "store_send False r p (w_store w) = (st, h)" "isOk st" "w' = w\<lparr>w_store := h\<rparr>"
    using assms(1) by (auto simp: sendP_def split: prod.splits if_splits)
  obtain st' s' u where sp: "sendPacket idle_callbacks False p (s, ()) = (st', s', u)" by (metis prod.exhaust)
  have h: "st' = st" "h = (w_store w)(r \<mapsto> s')"
    using send(1) assms(2) sp by (simp_all add: store_send_def)
  have "\<exists>encoded. encodePacket p = Inr encoded \<and> s' = s\<lparr>ss_tasks := ss_tasks s @ [TaskSend encoded]\<rparr>"
    using sp h(1) send(2)
    by (auto simp: sendPacket_def encodePacket_alt Let_def isOk_def split: sum.splits if_splits)
  then show ?thesis using send(3) h by (auto simp: encodePacket_Inr_iff)
qed

lemma getSession_Inr:
  assumes "os_getSessionByUser u w = (Inr r, w')"
  shows "w' = w" "\<exists>b. map_of (sm_users (w_sessions w)) u = Some b \<and> ub_session b = r" "alive (w_store w) r"
  using assms by (auto simp: os_getSessionByUser_def sessionsP_def sm_getSessionByUser_def alive_def
      split: if_splits option.splits)

lemma getSession_state: "os_getSessionByUser u w = (res, w') \<Longrightarrow> w_store w' = w_store w \<and> w_db w' = w_db w"
  by (auto simp: os_getSessionByUser_def sessionsP_def split: prod.splits)

section \<open>Pages of messages\<close>

text \<open>The offline and the history service answer with a list of messages, at most a page of them.\<close>

lemma unat_narrow: "unat (r :: u64) \<le> unat (m :: u32) \<Longrightarrow> unat (ucast r :: u32) = unat r"
proof -
  assume "unat r \<le> unat m"
  then have "unat r < 2 ^ 32" using unsigned_less [of m, where ?'a = nat] by simp
  then show ?thesis by (simp add: unsigned_ucast_eq take_bit_nat_eq_self)
qed

definition page_args :: "message_record list \<Rightarrow> (tlv_type \<times> tlv_arg) list" where
  "page_args ms = concat (map message_args ms)"

lemma page_args_simps [simp]: "page_args [] = []" "page_args (m # ms) = message_args m @ page_args ms"
  by (simp_all add: page_args_def)

lemma page_body:
  assumes "list_all message_small ms"
  shows "\<exists>bs. appendFields (page_args ms) out = Inr (out @ bs) \<and> length bs \<le> 8352 * length ms"
  using assms
proof (induction ms arbitrary: out)
  case (Cons m ms)
  then obtain bs where bs: "appendFields (message_args m) out = Inr (out @ bs)" "length bs \<le> 8352"
    using appendMessageFields_small [of m out] by (auto simp: appendMessageFields_args)
  obtain cs where "appendFields (page_args ms) (out @ bs) = Inr ((out @ bs) @ cs)" "length cs \<le> 8352 * length ms"
    using Cons.IH [of "out @ bs"] Cons.prems by auto
  with bs show ?case by (intro exI [of _ "bs @ cs"]) (simp add: appendFields_append)
qed simp

lemma page_args_of:
  "args_of (page_args ms) (tlv TlvMessageId) = map U64Arg (map mr_message_id ms)"
  "args_of (page_args ms) (tlv TlvSenderId) = map U64Arg (map mr_sender_id ms)"
  "args_of (page_args ms) (tlv TlvMessageText) = map StrArg (map mr_text ms)"
  unfolding page_args_def args_of_concat by (induction ms) (auto simp: message_args_def args_of_def)

text \<open>What a client reads from a response that carries these messages.\<close>

definition page_read :: "bytes \<Rightarrow> message_record list \<Rightarrow> bool" where
  "page_read bs ms \<longleftrightarrow> (\<exists>m. parseTlvBody bs = Some (Inr m) \<and>
     (ms \<noteq> [] \<longrightarrow> getRepeatedUint64 m (tlv TlvMessageId) = Inr (map mr_message_id ms) \<and>
       getRepeatedUint64 m (tlv TlvSenderId) = Inr (map mr_sender_id ms) \<and>
       getRepeatedString m (tlv TlvMessageText) = Inr (map mr_text ms)))"

lemma page_readI: "appendFields (page_args ms) [] = Inr bs \<Longrightarrow> page_read bs ms"
  unfolding page_read_def
  using get_repeated(1) [OF page_args_of(1) [of ms]] get_repeated(1) [OF page_args_of(2) [of ms]]
    get_repeated(2) [OF page_args_of(3) [of ms]]
  by (intro exI [of _ "map_of_fields (arg_fields (page_args ms))"]) (simp add: appendFields_parse)

lemma reply_fits: "length bs \<le> 1048576 \<Longrightarrow> \<exists>out. encodePacket (reply rq type bs) = Inr out"
  by (simp add: encodePacket_Inr_iff reply_def default_header_def)

lemma forP_cacheP:
  "forP (\<lambda>x. cacheP (f x)) xs w = (fst (forP f xs (w_cache w)), w\<lparr>w_cache := snd (forP f xs (w_cache w))\<rparr>)"
  by (induction xs arbitrary: w) (auto simp: bindP_apply cacheP_def split: prod.splits sum.splits)

section \<open>Example\<close>

lemma new_session_simps [simp]: "ss_id (new_session i ip t) = i" "\<not> ss_closed (new_session i ip t)"
  by (simp_all add: new_session_def)

lemma example_user_seven:
  "rq_session rq = Some 0 \<Longrightarrow> currentUserId rq (example_world d) = (Inr 7, example_world d)"
  by (simp add: currentUserId_eq login_lookup_def os_getUserBySession_def sessionsP_def sm_getUserBySession_def
      example_world_def example_manager_def example_store_def new_session_def)

lemma example_offline_user_seven:
  "rq_session rq = Some 0 \<Longrightarrow> offline_currentUserId rq (example_world d) = (Inr 7, example_world d)"
  by (simp add: offline_currentUserId_eq login_lookup_def os_getUserBySession_def sessionsP_def sm_getUserBySession_def
      example_world_def example_manager_def example_store_def new_session_def)

end
