(* ===== verification/Auth_Service.thy ===== *)
theory Auth_Service
  imports Service_Rules
begin

text \<open>
  Registration, login and logout (\<open>src/service/AuthService.cpp\<close>) and the heartbeat
  (\<open>src/service/HeartbeatService.cpp\<close>). OpenSSL is a parameter: \<open>cr_rand\<close> is what \<open>RAND_bytes\<close> delivers
  for a call, \<open>cr_pbkdf2\<close> is \<open>PKCS5_PBKDF2_HMAC\<close> with SHA-256, from password, salt, iterations and
  length; \<open>None\<close> is a failure return. The theorems: a login succeeds only with the password that was
  registered, whatever fails is counted and looks the same to the client, and a registered user can
  log in.
\<close>

section \<open>Passwords\<close>

record crypto =
  cr_rand :: "nat \<Rightarrow> bytes option"
  cr_pbkdf2 :: "string \<Rightarrow> string \<Rightarrow> nat \<Rightarrow> nat \<Rightarrow> bytes option"

definition kPasswordSaltBytes :: nat where "kPasswordSaltBytes = 16"
definition kPasswordHashBytes :: nat where "kPasswordHashBytes = 32"
definition kPbkdf2Iterations :: nat where "kPbkdf2Iterations = 10000"

definition kHex :: string where
  "kHex = ''0123456789abcdef''"

definition toHex :: "bytes \<Rightarrow> string" where
  "toHex data = concat (map (\<lambda>b. [kHex ! unat (drop_bit 4 b AND 0x0F), kHex ! unat (b AND 0x0F)]) data)"

definition generateSalt :: "crypto \<Rightarrow> string result" where
  "generateSalt cr =
     (case cr_rand cr kPasswordSaltBytes of
        None \<Rightarrow> err InternalError ''failed to generate password salt''
      | Some bs \<Rightarrow> Inr (toHex bs))"

definition hashPassword :: "crypto \<Rightarrow> string \<Rightarrow> string \<Rightarrow> string result" where
  "hashPassword cr password salt =
     (case cr_pbkdf2 cr password salt kPbkdf2Iterations kPasswordHashBytes of
        None \<Rightarrow> err InternalError ''failed to hash password''
      | Some bs \<Rightarrow> Inr (toHex bs))"

text \<open>The loop accumulates the differing bits of all positions.\<close>

definition secureEquals :: "string \<Rightarrow> string \<Rightarrow> bool" where
  "secureEquals lhs rhs =
     (if length lhs \<noteq> length rhs then False
      else fold (\<lambda>i diff. diff OR (of_char (lhs ! i) XOR of_char (rhs ! i))) [0..<length lhs] (0 :: byte) = 0)"

section \<open>Fields and statuses\<close>

definition invalidCredentialsStatus :: status where
  "invalidCredentialsStatus = status_error InvalidArgument ''invalid username or password''"

definition loginLimitedStatus :: status where
  "loginLimitedStatus = status_error InvalidArgument ''too many login failures''"

definition emptyFieldStatus :: "string \<Rightarrow> status" where
  "emptyFieldStatus field_name = status_error InvalidArgument (field_name @ '' must not be empty'')"

definition requiredString :: "tlv_map \<Rightarrow> tlv_type \<Rightarrow> string \<Rightarrow> string result" where
  "requiredString m type field_name =
     bindR (getString m type) (\<lambda>output. if output = [] then Inl (emptyFieldStatus field_name) else Inr output)"

definition optionalNickname :: "tlv_map \<Rightarrow> string \<Rightarrow> string result" where
  "optionalNickname m username =
     (if m (tlv TlvNickname) = None \<or> m (tlv TlvNickname) = Some [] then Inr username
      else bindR (getString m (tlv TlvNickname))
             (\<lambda>nickname. if nickname = [] then Inl (emptyFieldStatus ''nickname'') else Inr nickname))"

definition appendUserFields :: "user_record \<Rightarrow> bytes \<Rightarrow> bytes result" where
  "appendUserFields user out =
     bindR (appendUint64 (tlv TlvUserId) (ur_user_id user) out) (\<lambda>out.
     bindR (appendString (tlv TlvUsername) (ur_username user) out) (\<lambda>out.
     appendString (tlv TlvNickname) (ur_nickname user) out))"

definition appendLoginFields :: "user_record \<Rightarrow> u64 \<Rightarrow> bytes \<Rightarrow> bytes result" where
  "appendLoginFields user session_id out =
     bindR (appendUserFields user out) (\<lambda>out. appendUint64 (tlv TlvSessionId) session_id out)"

record auth_options =
  max_login_failures :: u32
  login_failure_ttl :: int
  default_remote_ip :: string

definition default_auth_options :: auth_options where
  "default_auth_options = \<lparr>max_login_failures = 3, login_failure_ttl = 300, default_remote_ip = ''unknown''\<rparr>"

text \<open>The constructor throws on these options.\<close>

definition auth_options_error :: "auth_options \<Rightarrow> string option" where
  "auth_options_error opts =
     (if max_login_failures opts = 0 then Some ''max login failures must be greater than zero''
      else if login_failure_ttl opts \<le> 0 then Some ''login failure ttl must be positive''
      else if default_remote_ip opts = [] then Some ''default remote ip must not be empty''
      else None)"

definition recordFailure ::
  "('d, 'c) service_env \<Rightarrow> login_attempt_key \<Rightarrow> int \<Rightarrow> status \<Rightarrow> ('d, 'c, 'a) service" where
  "recordFailure env key failure_ttl login_status =
     bindP (cacheP (recordLoginFailure (cache env) key failure_ttl)) (\<lambda>_. failP login_status)"

definition remoteIpForRequest :: "router_request \<Rightarrow> auth_options \<Rightarrow> ('d, 'c) world \<Rightarrow> string" where
  "remoteIpForRequest rq opts w =
     (case rq_session rq of
        Some r \<Rightarrow> if ss_peer_ip (the (w_store w r)) \<noteq> [] then ss_peer_ip (the (w_store w r)) else default_remote_ip opts
      | None \<Rightarrow> default_remote_ip opts)"

section \<open>Handlers\<close>

definition handleRegister ::
  "crypto \<Rightarrow> ('d, 'c) service_env \<Rightarrow> router_request \<Rightarrow> ('d, 'c, packet) service" where
  "handleRegister cr env rq =
     bindP (liftP (requiredString (rq_fields rq) (tlv TlvUsername) ''username'')) (\<lambda>username.
     bindP (liftP (validateMaxBytes username kMaxUsernameBytes ''username'')) (\<lambda>_.
     bindP (liftP (requiredString (rq_fields rq) (tlv TlvPassword) ''password'')) (\<lambda>password.
     bindP (liftP (validateMaxBytes password kMaxPasswordBytes ''password'')) (\<lambda>_.
     bindP (liftP (optionalNickname (rq_fields rq) username)) (\<lambda>nickname.
     bindP (liftP (validateMaxBytes nickname kMaxNicknameBytes ''nickname'')) (\<lambda>_.
     bindP (liftP (generateSalt cr)) (\<lambda>salt.
     bindP (liftP (hashPassword cr password salt)) (\<lambda>password_hash.
     bindP (dbP (createUser (storage env)
              \<lparr>cu_username = username, cu_password_hash = password_hash, cu_password_salt = salt,
               cu_nickname = nickname\<rparr>)) (\<lambda>created_user.
     bindP (liftP (appendUserFields created_user [])) (\<lambda>bs.
     retP (reply rq RegisterResponse bs)))))))))))"

definition handleLogin ::
  "crypto \<Rightarrow> auth_options \<Rightarrow> ('d, 'c) service_env \<Rightarrow> router_request \<Rightarrow> ('d, 'c, packet) service" where
  "handleLogin cr opts env rq =
     bindP (liftP (requiredString (rq_fields rq) (tlv TlvUsername) ''username'')) (\<lambda>username.
     bindP (liftP (validateMaxBytes username kMaxUsernameBytes ''username'')) (\<lambda>_.
     bindP (liftP (requiredString (rq_fields rq) (tlv TlvPassword) ''password'')) (\<lambda>password.
     bindP (liftP (validateMaxBytes password kMaxPasswordBytes ''password'')) (\<lambda>_.
     bindP (getsP (\<lambda>w. \<lparr>la_username = username, la_remote_ip = remoteIpForRequest rq opts w\<rparr>)) (\<lambda>login_key.
     bindP (cacheP (allowLoginAttempt (cache env) login_key (max_login_failures opts))) (\<lambda>allowed.
     if \<not> allowed then failP loginLimitedStatus
     else
       bindP (statusP (dbP (findUserByUsername (storage env) username))) (\<lambda>found.
       case found of
         Inl find_status \<Rightarrow>
           if code find_status = NotFound
           then recordFailure env login_key (login_failure_ttl opts) invalidCredentialsStatus
           else failP find_status
       | Inr user \<Rightarrow>
           bindP (liftP (hashPassword cr password (ur_password_salt user))) (\<lambda>candidate_hash.
           if \<not> secureEquals candidate_hash (ur_password_hash user)
           then recordFailure env login_key (login_failure_ttl opts) invalidCredentialsStatus
           else
             bindP (cacheP (clearLoginFailure (cache env) login_key)) (\<lambda>_.
             bindP (os_bindUser env (ur_user_id user) (rq_session rq)) (\<lambda>_.
             bindP (getsP (\<lambda>w. ss_id (the (w_store w (the (rq_session rq)))))) (\<lambda>session_id.
             bindP (liftP (appendLoginFields user session_id [])) (\<lambda>bs.
             retP (reply rq LoginResponse bs)))))))))))))"

definition handleLogout :: "('d, 'c) service_env \<Rightarrow> router_request \<Rightarrow> ('d, 'c, packet) service" where
  "handleLogout env rq =
     (case rq_session rq of
        None \<Rightarrow> failP (status_error InvalidArgument ''session must not be null'')
      | Some r \<Rightarrow>
          bindP (getsP (\<lambda>w. ss_id (the (w_store w r)))) (\<lambda>session_id.
          bindP (os_unbindSession env session_id) (\<lambda>_.
          bindP (liftP (appendUint64 (tlv TlvSessionId) session_id [])) (\<lambda>bs.
          retP (reply rq LogoutResponse bs)))))"

definition handleHeartbeat :: "('d, 'c) service_env \<Rightarrow> router_request \<Rightarrow> ('d, 'c, packet) service" where
  "handleHeartbeat env rq =
     bindP (getsP (\<lambda>w. rq_session rq = None \<or> ss_closed (the (w_store w (the (rq_session rq)))))) (\<lambda>gone.
     if gone then failP (status_error InvalidArgument ''session is not active'')
     else
       bindP (getsP (\<lambda>w. ss_id (the (w_store w (the (rq_session rq)))))) (\<lambda>session_id.
       bindP (statusP (os_getUserBySession session_id)) (\<lambda>user_status.
       case user_status of
         Inl st \<Rightarrow> if code st = NotFound then retP (reply rq HeartbeatResponse []) else failP st
       | Inr user_id \<Rightarrow>
           bindP (statusP (os_refreshUserOnline env user_id session_id)) (\<lambda>_.
           retP (reply rq HeartbeatResponse [])))))"

definition auth_registerHandlers ::
  "crypto \<Rightarrow> auth_options \<Rightarrow> ('d, 'c) service_env \<Rightarrow> ('d, 'c) handlers \<Rightarrow> status \<times> ('d, 'c) handlers" where
  "auth_registerHandlers cr opts env =
     register_chain [(RegisterRequest, as_handler (handleRegister cr env)),
       (LoginRequest, as_handler (handleLogin cr opts env)), (LogoutRequest, as_handler (handleLogout env))]"

definition heartbeat_registerHandlers ::
  "('d, 'c) service_env \<Rightarrow> ('d, 'c) handlers \<Rightarrow> status \<times> ('d, 'c) handlers" where
  "heartbeat_registerHandlers env = register_chain [(HeartbeatRequest, as_handler (handleHeartbeat env))]"

section \<open>Lemmas\<close>

text \<open>The constant-time comparison is equality.\<close>

lemma or_fold_zero: "fold (\<lambda>i d. d OR f i) is d = (0 :: byte) \<longleftrightarrow> d = 0 \<and> (\<forall>i \<in> set is. f i = 0)"
  by (induction "is" arbitrary: d) (auto simp: or_eq_0_iff)

lemma xor_zero_byte: "(a :: byte) XOR b = 0 \<longleftrightarrow> a = b"
  by (auto simp: bit_eq_iff bit_xor_iff)

lemma of_char_eq_byte: "(of_char c :: byte) = of_char d \<longleftrightarrow> c = d"
  by (metis of_char_eq_iff unat_of_char)

lemma secureEquals_eq: "secureEquals a b \<longleftrightarrow> a = b"
proof (cases "length a = length b")
  case True
  then have "secureEquals a b \<longleftrightarrow> (\<forall>i < length a. a ! i = b ! i)"
    unfolding secureEquals_def or_fold_zero by (simp add: xor_zero_byte of_char_eq_byte Ball_def)
  with True show ?thesis by (simp add: list_eq_iff_nth_eq)
qed (auto simp: secureEquals_def)

lemma short_auth [short_intros]:
  "length f \<le> 100 \<Longrightarrow> shortR (requiredString m t f)" "shortR (optionalNickname m u)" "shortR (generateSalt cr)"
  "shortR (hashPassword cr p s)"
  "shortR (appendUserFields user out)" "shortR (appendLoginFields user i out)"
  by (auto simp: requiredString_def emptyFieldStatus_def optionalNickname_def generateSalt_def hashPassword_def
      appendUserFields_def appendLoginFields_def short_append
      intro!: shortR_bindR short_intros split: option.splits)

lemma recordFailure_rules [short_intros, inv_intros]:
  "env_short env \<Longrightarrow> short_status st \<Longrightarrow> shortP (recordFailure env k t st)"
  "keepsP registry_ok (recordFailure env k t st)" "keepsP (stays_open r) (recordFailure env k t st)"
  unfolding recordFailure_def by (intro short_intros inv_intros; assumption)+

lemma good_handleRegister: "env_short env \<Longrightarrow> good_handler (handleRegister cr env)"
  unfolding handleRegister_def by (intro good_handlerI short_intros inv_intros) simp_all

lemma good_handleLogin: "env_short env \<Longrightarrow> good_handler (handleLogin cr opts env)"
  unfolding handleLogin_def
  by (intro good_handlerI short_intros inv_intros)
    (simp_all add: loginLimitedStatus_def invalidCredentialsStatus_def)

lemma good_handleLogout: "env_short env \<Longrightarrow> good_handler (handleLogout env)"
  unfolding handleLogout_def by (intro good_handlerI short_intros inv_intros) simp_all

lemma good_handleHeartbeat: "env_short env \<Longrightarrow> good_handler (handleHeartbeat env)"
  unfolding handleHeartbeat_def by (intro good_handlerI short_intros inv_intros) simp_all

section \<open>Properties\<close>

text \<open>The checks before the password: names and passwords of admissible length, and the rate limit.\<close>

definition credentials :: "router_request \<Rightarrow> string \<Rightarrow> string \<Rightarrow> bool" where
  "credentials rq username password \<longleftrightarrow>
     getString (rq_fields rq) (tlv TlvUsername) = Inr username \<and> username \<noteq> [] \<and> length username \<le> kMaxUsernameBytes \<and>
     getString (rq_fields rq) (tlv TlvPassword) = Inr password \<and> password \<noteq> [] \<and> length password \<le> kMaxPasswordBytes"

definition login_key :: "router_request \<Rightarrow> auth_options \<Rightarrow> string \<Rightarrow> ('d, 'c) world \<Rightarrow> login_attempt_key" where
  "login_key rq opts username w = \<lparr>la_username = username, la_remote_ip = remoteIpForRequest rq opts w\<rparr>"

lemma requiredString_Inr: "requiredString m t f = Inr v \<longleftrightarrow> getString m t = Inr v \<and> v \<noteq> []"
  by (auto simp: requiredString_def bindR_eq_Inr split: if_splits)

text \<open>Login after its field checks.\<close>

definition login_checked ::
  "crypto \<Rightarrow> auth_options \<Rightarrow> ('d, 'c) service_env \<Rightarrow> router_request \<Rightarrow> string \<Rightarrow> string \<Rightarrow> login_attempt_key \<Rightarrow>
     ('d, 'c, packet) service" where
  "login_checked cr opts env rq username password key =
     bindP (cacheP (allowLoginAttempt (cache env) key (max_login_failures opts))) (\<lambda>allowed.
     if \<not> allowed then failP loginLimitedStatus
     else
       bindP (statusP (dbP (findUserByUsername (storage env) username))) (\<lambda>found.
       case found of
         Inl find_status \<Rightarrow>
           if code find_status = NotFound
           then recordFailure env key (login_failure_ttl opts) invalidCredentialsStatus
           else failP find_status
       | Inr user \<Rightarrow>
           bindP (liftP (hashPassword cr password (ur_password_salt user))) (\<lambda>candidate_hash.
           if candidate_hash \<noteq> ur_password_hash user
           then recordFailure env key (login_failure_ttl opts) invalidCredentialsStatus
           else
             bindP (cacheP (clearLoginFailure (cache env) key)) (\<lambda>_.
             bindP (os_bindUser env (ur_user_id user) (rq_session rq)) (\<lambda>_.
             bindP (getsP (\<lambda>w. ss_id (the (w_store w (the (rq_session rq)))))) (\<lambda>session_id.
             bindP (liftP (appendLoginFields user session_id [])) (\<lambda>bs.
             retP (reply rq LoginResponse bs))))))))"

lemma handleLogin_checked:
  assumes "credentials rq username password"
  shows "handleLogin cr opts env rq w = login_checked cr opts env rq username password (login_key rq opts username w) w"
proof -
  have "requiredString (rq_fields rq) (tlv TlvUsername) ''username'' = Inr username"
    "requiredString (rq_fields rq) (tlv TlvPassword) ''password'' = Inr password"
    "validateMaxBytes username kMaxUsernameBytes ''username'' = Inr ()"
    "validateMaxBytes password kMaxPasswordBytes ''password'' = Inr ()"
    using assms by (simp_all add: credentials_def requiredString_Inr validateMaxBytes_Inr)
  then show ?thesis
    unfolding handleLogin_def login_checked_def secureEquals_eq login_key_def
    by (simp add: bindP_run [where m = "liftP (Inr x)" for x] bindP_run [where m = "getsP f" for f])
qed

lemma handleLogin_credentials:
  assumes "handleLogin cr opts env rq w = (Inr resp, w')"
  obtains username password where "credentials rq username password"
  using assms unfolding handleLogin_def bindP_Inr
  by (auto simp: credentials_def requiredString_Inr validateMaxBytes_Inr)

lemma login_checked_Inr:
  assumes "login_checked cr opts env rq username password key w = (Inr resp, w')"
  obtains user d c where "findUserByUsername (storage env) username (w_db w) = (Inr user, d)"
    "hashPassword cr password (ur_password_salt user) = Inr (ur_password_hash user)"
    "os_bindUser env (ur_user_id user) (rq_session rq) (w\<lparr>w_db := d, w_cache := c\<rparr>) = (Inr (), w')"
    "appendLoginFields user (ss_id (the (w_store w' (the (rq_session rq))))) [] = Inr (body resp)"
    "resp = reply rq LoginResponse (body resp)"
  using assms unfolding login_checked_def bindP_Inr
  by (auto simp: cacheP_def dbP_def bindP_Inr recordFailure_def reply_def split: prod.splits if_splits sum.splits)

text \<open>What a successful login did.\<close>

lemma handleLogin_Inr:
  assumes "registry_ok w" "rq_session rq = Some r" "handleLogin cr opts env rq w = (Inr resp, w')"
  obtains username password user where "credentials rq username password"
    "findUserByUsername (storage env) username (w_db w) = (Inr user, w_db w')"
    "hashPassword cr password (ur_password_salt user) = Inr (ur_password_hash user)"
    "session_of (w_sessions w') (ur_user_id user) = Some (ss_id (the (w_store w r)))"
    "appendLoginFields user (ss_id (the (w_store w r))) [] = Inr (body resp)"
    "resp = reply rq LoginResponse (body resp)"
proof -
  obtain username password where c: "credentials rq username password"
    using handleLogin_credentials [OF assms(3)] .
  obtain user d cc where find: "findUserByUsername (storage env) username (w_db w) = (Inr user, d)"
    and hash: "hashPassword cr password (ur_password_salt user) = Inr (ur_password_hash user)"
    and bind: "os_bindUser env (ur_user_id user) (Some r) (w\<lparr>w_db := d, w_cache := cc\<rparr>) = (Inr (), w')"
    and resp: "appendLoginFields user (ss_id (the (w_store w' r))) [] = Inr (body resp)" "resp = reply rq LoginResponse (body resp)"
    using login_checked_Inr [OF assms(3) [unfolded handleLogin_checked [OF c]]] assms(2) by (metis option.sel)
  let ?w1 = "w\<lparr>w_db := d, w_cache := cc\<rparr>"
  have ok: "registry_ok ?w1" using assms(1) by (simp add: registry_ok_def)
  note b = os_bindUser_props [OF ok bind]
  have ids: "ss_id (the (w_store w' r)) = ss_id (the (w_store w r))"
    using keepsPD [OF session_ids_os_bindUser [of r "ss_id (the (w_store ?w1 r))" env "ur_user_id user" "Some r"], of ?w1] bind
    by simp
  show thesis
    using that [OF c _ hash _ _ resp(2)] find b resp(1) ids by simp
qed

text \<open>A cache that is up and has counted no failures.\<close>

definition cache_willing :: "('d, 'c) service_env \<Rightarrow> bool" where
  "cache_willing env \<longleftrightarrow>
     (\<forall>k n c. \<exists>c'. allowLoginAttempt (cache env) k n c = (Inr True, c')) \<and>
     (\<forall>k c. \<exists>c'. clearLoginFailure (cache env) k c = (Inr (), c')) \<and>
     (\<forall>o_s t c. \<exists>c'. setUserOnline (cache env) o_s t c = (Inr (), c'))"

definition login_args :: "user_record \<Rightarrow> u64 \<Rightarrow> (tlv_type \<times> tlv_arg) list" where
  "login_args user i = [(tlv TlvUserId, U64Arg (ur_user_id user)), (tlv TlvUsername, StrArg (ur_username user)),
     (tlv TlvNickname, StrArg (ur_nickname user)), (tlv TlvSessionId, U64Arg i)]"

lemma appendLoginFields_args: "appendLoginFields user i out = appendFields (login_args user i) out"
  by (simp add: appendLoginFields_def appendUserFields_def login_args_def bindR_assoc)
    (simp add: bindR_def split: sum.splits)

lemma appendLoginFields_ok:
  assumes "length (ur_username user) \<le> 1048576" "length (ur_nickname user) \<le> 1048576"
  shows "appendLoginFields user i [] = Inr (fields_bytes (arg_fields (login_args user i)))"
  using assms
  by (simp add: appendLoginFields_args appendFields_Inr_iff) (simp add: field_ok_def login_args_def)

lemma login_succeeds:
  assumes "credentials rq username password" "registry_ok w" "rq_session rq = Some r" "w_store w r = Some s"
    "ss_id s \<noteq> 0" "\<not> ss_closed s" "user_of (w_sessions w) (ss_id s) = None" "cache_willing env"
    "findUserByUsername (storage env) username (w_db w) = (Inr user, d)" "ur_user_id user \<noteq> 0"
    "hashPassword cr password (ur_password_salt user) = Inr (ur_password_hash user)"
    "length (ur_username user) \<le> 1048576" "length (ur_nickname user) \<le> 1048576"
  shows "\<exists>resp w'. handleLogin cr opts env rq w = (Inr resp, w')"
proof -
  let ?k = "login_key rq opts username w"
  obtain c1 where c1: "allowLoginAttempt (cache env) ?k (max_login_failures opts) (w_cache w) = (Inr True, c1)"
    using assms(8) unfolding cache_willing_def by blast
  obtain c2 where c2: "clearLoginFailure (cache env) ?k c1 = (Inr (), c2)"
    using assms(8) unfolding cache_willing_def by blast
  let ?w = "w\<lparr>w_db := d, w_cache := c2\<rparr>"
  obtain c3 where c3: "setUserOnline (cache env) (online_session_of env (ur_user_id user) s) (online_ttl env) (w_cache ?w) = (Inr (), c3)"
    using assms(8) unfolding cache_willing_def by blast
  have "registry_ok ?w" using assms(2) by (simp add: registry_ok_def)
  from os_bindUser_succeeds [OF this assms(10) _ assms(5,6) _ c3] assms(4,7)
  obtain w' where bind: "os_bindUser env (ur_user_id user) (Some r) ?w = (Inr (), w')" by auto
  show ?thesis
    unfolding handleLogin_checked [OF assms(1)] login_checked_def
    using assms(3,9,11-13) c1 c2 bind
    by (simp add: bindP_apply cacheP_def dbP_def appendLoginFields_ok)
qed

text \<open>
  C35. Nobody is logged in without the password: when \<open>AuthService::handleLogin\<close> succeeds, the database
  returned an account for the user name of the request whose stored hash is the PBKDF2 hash of the
  password of the request under the stored salt; the session is now bound to exactly that account;
  and the response, under the sequence number of the request, parses to its id, name and nickname
  and to the id of the session.
\<close>

theorem login_needs_password:
  assumes "registry_ok w" and "rq_session rq = Some r" and "handleLogin cr opts env rq w = (Inr resp, w')"
  shows "\<exists>username password user m. getString (rq_fields rq) (tlv TlvUsername) = Inr username \<and>
    getString (rq_fields rq) (tlv TlvPassword) = Inr password \<and>
    findUserByUsername (storage env) username (w_db w) = (Inr user, w_db w') \<and>
    hashPassword cr password (ur_password_salt user) = Inr (ur_password_hash user) \<and>
    session_of (w_sessions w') (ur_user_id user) = Some (ss_id (the (w_store w r))) \<and>
    msg_type (header resp) = mt LoginResponse \<and> seq_id (header resp) = seq_id (header (rq_packet rq)) \<and>
    parseTlvBody (body resp) = Some (Inr m) \<and> getUint64 m (tlv TlvUserId) = Inr (ur_user_id user) \<and>
    getString m (tlv TlvUsername) = Inr (ur_username user) \<and> getString m (tlv TlvNickname) = Inr (ur_nickname user) \<and>
    getUint64 m (tlv TlvSessionId) = Inr (ss_id (the (w_store w r)))"
proof -
  obtain username password user where c: "credentials rq username password"
    and find: "findUserByUsername (storage env) username (w_db w) = (Inr user, w_db w')"
      "hashPassword cr password (ur_password_salt user) = Inr (ur_password_hash user)"
      "session_of (w_sessions w') (ur_user_id user) = Some (ss_id (the (w_store w r)))"
    and resp: "appendLoginFields user (ss_id (the (w_store w r))) [] = Inr (body resp)"
      "resp = reply rq LoginResponse (body resp)"
    using handleLogin_Inr [OF assms] .
  let ?as = "login_args user (ss_id (the (w_store w r)))"
  have "parseTlvBody (body resp) = Some (Inr (map_of_fields (arg_fields ?as)))"
    using appendFields_parse [of ?as "body resp"] resp(1) by (simp add: appendLoginFields_args)
  moreover have "msg_type (header resp) = mt LoginResponse" "seq_id (header resp) = seq_id (header (rq_packet rq))"
    by (subst resp(2), simp add: reply_def)+
  ultimately show ?thesis
    using c find get_map_of_fields [of ?as]
    by (intro exI [of _ username] exI [of _ password] exI [of _ user] exI [of _ "map_of_fields (arg_fields ?as)"])
      (auto simp: credentials_def args_of_def login_args_def)
qed

text \<open>A small system: one account, and a hash that is the password itself.\<close>

definition example_crypto :: crypto where
  "example_crypto = \<lparr>cr_rand = \<lambda>n. Some (replicate n 7), cr_pbkdf2 = \<lambda>p s i n. Some (bytes_of_string p)\<rparr>"

definition example_user :: user_record where
  "example_user = \<lparr>ur_user_id = 9, ur_username = ''bob'', ur_password_hash = toHex (bytes_of_string ''pw''),
     ur_password_salt = ''s'', ur_nickname = ''Bob'', ur_created_at_ms = 0\<rparr>"

definition example_accounts :: "unit storage_ops" where
  "example_accounts = no_storage\<lparr>findUserByUsername := \<lambda>n. if n = ''bob'' then retP example_user else
     failP (status_error NotFound ''user was not found'')\<rparr>"

definition login_request :: "string \<Rightarrow> router_request" where
  "login_request password = \<lparr>rq_session = Some 1, rq_packet = default_packet,
     rq_fields = map_of_fields [(tlv TlvUsername, bytes_of_string ''bob''), (tlv TlvPassword, bytes_of_string password)]\<rparr>"

lemma login_request_credentials:
  "password \<noteq> [] \<Longrightarrow> length password \<le> 128 \<Longrightarrow> credentials (login_request password) ''bob'' password"
  by (simp add: credentials_def login_request_def getString_def kMaxUsernameBytes_def kMaxPasswordBytes_def)

lemma example_cache_willing: "cache_willing (example_env st)"
  by (simp add: cache_willing_def example_env_def map_cache_def)

lemma example_fresh_session:
  "w_store (example_world d) 1 = Some (new_session 4 [] 0)" "user_of (w_sessions (example_world d)) 4 = None"
  by (simp_all add: example_world_def example_store_def example_manager_def user_of_def)

lemma example_login_bob:
  "\<exists>resp w'. handleLogin example_crypto opts (example_env example_accounts) (login_request ''pw'') (example_world ()) = (Inr resp, w')"
  by (rule login_succeeds [OF login_request_credentials example_registry_ok _ example_fresh_session(1) _ _ _
        example_cache_willing, where user = example_user and d = "()"])
    (simp_all add: login_request_def example_fresh_session example_env_def example_accounts_def example_user_def
      hashPassword_def example_crypto_def)

theorem login_needs_password_witness:
  "\<exists>resp w'. handleLogin example_crypto default_auth_options (example_env example_accounts) (login_request ''pw'') (example_world ()) = (Inr resp, w') \<and>
     session_of (w_sessions w') 9 = Some 4"
proof -
  obtain resp w' where run: "handleLogin example_crypto default_auth_options (example_env example_accounts) (login_request ''pw'') (example_world ()) = (Inr resp, w')"
    using example_login_bob by blast
  from login_needs_password [OF example_registry_ok _ run, of 1] show ?thesis
    using run by (auto simp: login_request_def getString_def example_fresh_session example_env_def
        example_accounts_def example_user_def simp del: One_nat_def)
qed

lemma login_failure_run:
  assumes "credentials rq username password"
    and "allowLoginAttempt (cache env) (login_key rq opts username w) (max_login_failures opts) (w_cache w) = (Inr allowed, c1)"
    and "findUserByUsername (storage env) username (w_db w) = (found, d)"
    and "case found of Inl st \<Rightarrow> code st = NotFound
         | Inr user \<Rightarrow> \<exists>h. hashPassword cr password (ur_password_salt user) = Inr h \<and> h \<noteq> ur_password_hash user"
    and "recordLoginFailure (cache env) (login_key rq opts username w) (login_failure_ttl opts) c1 = (recorded, c2)"
  shows "handleLogin cr opts env rq w =
    (if allowed then (Inl (case recorded of Inl st \<Rightarrow> st | Inr _ \<Rightarrow> invalidCredentialsStatus), w\<lparr>w_db := d, w_cache := c2\<rparr>)
     else (Inl loginLimitedStatus, w\<lparr>w_cache := c1\<rparr>))"
proof (cases allowed)
  case True
  have "handleLogin cr opts env rq w =
    recordFailure env (login_key rq opts username w) (login_failure_ttl opts) invalidCredentialsStatus (w\<lparr>w_cache := c1, w_db := d\<rparr>)"
    unfolding handleLogin_checked [OF assms(1)] login_checked_def
    using True assms(2-4) by (auto simp: bindP_apply cacheP_def dbP_def split: sum.splits)
  with True assms(5) show ?thesis
    by (auto simp: recordFailure_def bindP_apply cacheP_def split: sum.splits)
next
  case False
  with assms(2) show ?thesis
    unfolding handleLogin_checked [OF assms(1)] login_checked_def by (simp add: bindP_apply cacheP_def)
qed

text \<open>
  C37. Failed logins are counted and tell nothing: with well-formed credentials and a cache that allows the
  attempt, an unknown user name and a wrong password have the same effect and the same answer. One
  failure is recorded for the user name and address, the client is told \<open>invalid username or
  password\<close> (or the error of the cache), and sessions and bindings stay as they are. When the cache does
  not allow the attempt, the database is not even asked.
\<close>

theorem login_failure_uniform:
  assumes "credentials rq username password"
    and "allowLoginAttempt (cache env) (login_key rq opts username w) (max_login_failures opts) (w_cache w) = (Inr allowed, c1)"
    and "findUserByUsername (storage env) username (w_db w) = (found, d)"
    and "case found of Inl st \<Rightarrow> code st = NotFound
         | Inr user \<Rightarrow> \<exists>h. hashPassword cr password (ur_password_salt user) = Inr h \<and> h \<noteq> ur_password_hash user"
    and "recordLoginFailure (cache env) (login_key rq opts username w) (login_failure_ttl opts) c1 = (recorded, c2)"
  shows "handleLogin cr opts env rq w =
    (if allowed then (Inl (case recorded of Inl st \<Rightarrow> st | Inr _ \<Rightarrow> invalidCredentialsStatus), w\<lparr>w_db := d, w_cache := c2\<rparr>)
     else (Inl loginLimitedStatus, w\<lparr>w_cache := c1\<rparr>))"
  by (rule login_failure_run [OF assms])

theorem login_failure_uniform_witness:
  "handleLogin example_crypto default_auth_options (example_env example_accounts) (login_request ''guess'') (example_world ()) =
     (Inl invalidCredentialsStatus, example_world ())"
proof -
  let ?env = "example_env example_accounts" and ?rq = "login_request ''guess''" and ?w = "example_world ()"
  have "credentials ?rq ''bob'' ''guess''" by (simp add: login_request_credentials)
  moreover have "toHex (bytes_of_string ''guess'') \<noteq> toHex (bytes_of_string ''pw'')"
    by (simp add: toHex_def bytes_of_string_def)
  ultimately show ?thesis
    using login_failure_uniform [of ?rq "''bob''" "''guess''" ?env default_auth_options ?w True "w_cache ?w"
        "Inr example_user" "()" example_crypto "Inr ()" "w_cache ?w"]
    by (simp add: example_env_def map_cache_def example_accounts_def hashPassword_def example_crypto_def
        example_user_def example_world_def)
qed

lemma handleRegister_Inr:
  assumes "handleRegister cr env rq w = (Inr resp, w')"
  obtains name pw req u where "credentials rq name pw" "createUser (storage env) req (w_db w) = (Inr u, w_db w')"
    "cu_username req = name" "hashPassword cr pw (cu_password_salt req) = Inr (cu_password_hash req)"
    "length (cu_nickname req) \<le> 64"
proof -
  obtain name pw nick salt h u
    where c: "credentials rq name pw" and nick: "length nick \<le> 64" and h: "hashPassword cr pw salt = Inr h"
      and create: "createUser (storage env) \<lparr>cu_username = name, cu_password_hash = h, cu_password_salt = salt,
        cu_nickname = nick\<rparr> (w_db w) = (Inr u, w_db w')"
    using assms unfolding handleRegister_def bindP_Inr
    by (auto simp: credentials_def requiredString_Inr validateMaxBytes_Inr kMaxNicknameBytes_def dbP_iff)
  show thesis by (rule that [OF c create]) (simp_all add: nick h)
qed


text \<open>Accounts as a list of records.\<close>

definition list_accounts :: "user_record list storage_ops" where
  "list_accounts = no_storage
     \<lparr>createUser := \<lambda>req us.
        (let u = \<lparr>ur_user_id = of_nat (length us) + 1, ur_username = cu_username req, ur_password_hash = cu_password_hash req,
                 ur_password_salt = cu_password_salt req, ur_nickname = cu_nickname req, ur_created_at_ms = 0\<rparr>
         in (Inr u, u # us)),
      findUserByUsername := \<lambda>n us.
        (case find (\<lambda>u. ur_username u = n) us of
           None \<Rightarrow> (err NotFound ''user was not found'', us) | Some u \<Rightarrow> (Inr u, us))\<rparr>"

definition register_request :: router_request where
  "register_request = \<lparr>rq_session = None, rq_packet = default_packet,
     rq_fields = map_of_fields [(tlv TlvUsername, bytes_of_string ''bob''), (tlv TlvPassword, bytes_of_string ''pw'')]\<rparr>"

definition bob_account :: user_record where
  "bob_account = \<lparr>ur_user_id = 1, ur_username = ''bob'', ur_password_hash = toHex (bytes_of_string ''pw''),
     ur_password_salt = toHex (replicate 16 7), ur_nickname = ''bob'', ur_created_at_ms = 0\<rparr>"

lemma register_bob:
  "handleRegister example_crypto (example_env list_accounts) register_request (example_world []) =
     (Inr (reply register_request RegisterResponse (fields_bytes (arg_fields [(tlv TlvUserId, U64Arg 1),
        (tlv TlvUsername, StrArg ''bob''), (tlv TlvNickname, StrArg ''bob'')]))),
      example_world [bob_account])"
proof -
  have "appendUserFields bob_account [] = Inr (fields_bytes (arg_fields [(tlv TlvUserId, U64Arg 1),
        (tlv TlvUsername, StrArg ''bob''), (tlv TlvNickname, StrArg ''bob'')]))"
    by (simp add: appendUserFields_def bindR_eq_Inr appendUint64_Inr_iff appendString_Inr_iff field_ok_def
        arg_fields_def bob_account_def)
  then show ?thesis
    by (simp add: handleRegister_def bindP_apply register_request_def requiredString_def getString_def
        validateMaxBytes_def optionalNickname_def generateSalt_def hashPassword_def example_crypto_def dbP_def
        list_accounts_def example_env_def example_world_def kMaxUsernameBytes_def kMaxPasswordBytes_def
        kMaxNicknameBytes_def kPasswordSaltBytes_def map_of_fields_def Let_def bob_account_def)
qed


end
