(* ===== verification/Friend_Service.thy ===== *)
theory Friend_Service
  imports Service_Rules
begin

text \<open>
  Friend requests and the friend list (\<open>src/service/FriendService.cpp\<close>). Log lines are left out. The
  theorems: a user answers only requests that were made to that user, and the list response parses
  back to the friends of the database in order with their online state.
\<close>

section \<open>Handlers\<close>

definition invalidTargetUserStatus :: status where
  "invalidTargetUserStatus = status_error InvalidArgument ''target user id must be positive''"

definition toProfile :: "user_record \<Rightarrow> user_profile_record" where
  "toProfile user = \<lparr>up_user_id = ur_user_id user, up_username = ur_username user, up_nickname = ur_nickname user,
     up_created_at_ms = ur_created_at_ms user\<rparr>"

definition appendFriendFields ::
  "('d, 'c) service_env \<Rightarrow> user_profile_record \<Rightarrow> bytes \<Rightarrow> ('d, 'c, bytes) service" where
  "appendFriendFields env friend_profile out =
     bindP (liftP (appendUint64 (tlv TlvFriendId) (up_user_id friend_profile) out)) (\<lambda>out.
     bindP (liftP (appendString (tlv TlvUsername) (up_username friend_profile) out)) (\<lambda>out.
     bindP (liftP (appendString (tlv TlvNickname) (up_nickname friend_profile) out)) (\<lambda>out.
     bindP (statusP (cacheP (isUserOnline (cache env) (up_user_id friend_profile)))) (\<lambda>online_status.
     let online = (case online_status of Inl _ \<Rightarrow> False | Inr online \<Rightarrow> online) in
     liftP (appendUint64 (tlv TlvOnlineStatus) (if online then 1 else 0) out)))))"

definition appendFriendRequestStatus :: "friend_request_status \<Rightarrow> bytes \<Rightarrow> bytes result" where
  "appendFriendRequestStatus s out = appendUint64 (tlv TlvFriendRequestStatus) (friend_request_status_value s) out"

definition handleAddFriend :: "('d, 'c) service_env \<Rightarrow> router_request \<Rightarrow> ('d, 'c, packet) service" where
  "handleAddFriend env rq =
     bindP (currentUserId rq) (\<lambda>user_id.
     bindP (liftP (getUint64 (rq_fields rq) (tlv TlvTargetUserId))) (\<lambda>target_user_id.
     if target_user_id = 0 \<or> target_user_id = user_id then failP invalidTargetUserStatus
     else
       bindP (dbP (findUserById (storage env) target_user_id)) (\<lambda>target_user.
       bindP (dbP (createFriendRequest (storage env) user_id target_user_id)) (\<lambda>friend_request.
       bindP (appendFriendFields env (toProfile target_user) []) (\<lambda>bs.
       bindP (liftP (appendFriendRequestStatus (fr_status friend_request) bs)) (\<lambda>bs.
       retP (reply rq AddFriendResponse bs)))))))"

definition handleAcceptFriend :: "('d, 'c) service_env \<Rightarrow> router_request \<Rightarrow> ('d, 'c, packet) service" where
  "handleAcceptFriend env rq =
     bindP (currentUserId rq) (\<lambda>user_id.
     bindP (liftP (getUint64 (rq_fields rq) (tlv TlvTargetUserId))) (\<lambda>requester_id.
     if requester_id = 0 \<or> requester_id = user_id then failP invalidTargetUserStatus
     else
       bindP (dbP (findUserById (storage env) requester_id)) (\<lambda>requester.
       bindP (dbP (acceptFriendRequest (storage env) requester_id user_id)) (\<lambda>_.
       bindP (appendFriendFields env (toProfile requester) []) (\<lambda>bs.
       bindP (liftP (appendFriendRequestStatus FrAccepted bs)) (\<lambda>bs.
       retP (reply rq AcceptFriendResponse bs)))))))"

definition handleRejectFriend :: "('d, 'c) service_env \<Rightarrow> router_request \<Rightarrow> ('d, 'c, packet) service" where
  "handleRejectFriend env rq =
     bindP (currentUserId rq) (\<lambda>user_id.
     bindP (liftP (getUint64 (rq_fields rq) (tlv TlvTargetUserId))) (\<lambda>requester_id.
     if requester_id = 0 \<or> requester_id = user_id then failP invalidTargetUserStatus
     else
       bindP (dbP (findUserById (storage env) requester_id)) (\<lambda>requester.
       bindP (dbP (rejectFriendRequest (storage env) requester_id user_id)) (\<lambda>_.
       bindP (appendFriendFields env (toProfile requester) []) (\<lambda>bs.
       bindP (liftP (appendFriendRequestStatus FrRejected bs)) (\<lambda>bs.
       retP (reply rq RejectFriendResponse bs)))))))"

fun append_friends ::
  "('d, 'c) service_env \<Rightarrow> user_profile_record list \<Rightarrow> bytes \<Rightarrow> ('d, 'c, bytes) service" where
  "append_friends env [] out = retP out"
| "append_friends env (f # fs) out = bindP (appendFriendFields env f out) (\<lambda>out. append_friends env fs out)"

definition handleListFriends :: "('d, 'c) service_env \<Rightarrow> router_request \<Rightarrow> ('d, 'c, packet) service" where
  "handleListFriends env rq =
     bindP (currentUserId rq) (\<lambda>user_id.
     bindP (dbP (getFriends (storage env) user_id)) (\<lambda>friends.
     bindP (append_friends env friends []) (\<lambda>bs.
     retP (reply rq ListFriendsResponse bs))))"

definition friend_registerHandlers :: "('d, 'c) service_env \<Rightarrow> ('d, 'c) handlers \<Rightarrow> status \<times> ('d, 'c) handlers" where
  "friend_registerHandlers env =
     register_chain [(AddFriendRequest, as_handler (handleAddFriend env)),
       (AcceptFriendRequest, as_handler (handleAcceptFriend env)),
       (RejectFriendRequest, as_handler (handleRejectFriend env)),
       (ListFriendsRequest, as_handler (handleListFriends env))]"

section \<open>Handler rules\<close>

lemma appendFriendFields_rules [short_intros, inv_intros]:
  "shortP (appendFriendFields env f out)" "keepsP registry_ok (appendFriendFields env f out)"
  "keepsP (stays_open r) (appendFriendFields env f out)"
  unfolding appendFriendFields_def Let_def by (intro short_intros inv_intros)+

lemma append_friends_rules [short_intros, inv_intros]:
  "shortP (append_friends env fs out)" "keepsP registry_ok (append_friends env fs out)"
  "keepsP (stays_open r) (append_friends env fs out)"
  by (induction fs arbitrary: out) (simp_all, (intro short_intros inv_intros; simp)+)

lemma short_friend [short_intros]: "shortR (appendFriendRequestStatus s out)"
  by (simp add: appendFriendRequestStatus_def short_append)

lemma good_friend_handlers:
  assumes "env_short env"
  shows "good_handler (handleAddFriend env)" "good_handler (handleAcceptFriend env)"
    "good_handler (handleRejectFriend env)" "good_handler (handleListFriends env)"
  unfolding handleAddFriend_def handleAcceptFriend_def handleRejectFriend_def handleListFriends_def
  by (intro good_handlerI short_intros inv_intros assms; simp add: invalidTargetUserStatus_def)+

section \<open>The friend list\<close>

definition friend_args :: "user_profile_record \<times> bool \<Rightarrow> (tlv_type \<times> tlv_arg) list" where
  "friend_args = (\<lambda>(f, online).
     [(tlv TlvFriendId, U64Arg (up_user_id f)), (tlv TlvUsername, StrArg (up_username f)),
      (tlv TlvNickname, StrArg (up_nickname f)), (tlv TlvOnlineStatus, U64Arg (if online then 1 else 0))])"

lemma appendFriendFields_Inr:
  assumes "appendFriendFields env f out w = (Inr out', w')"
  shows "\<exists>online. appendFields (friend_args (f, online)) out = Inr out' \<and> w_db w' = w_db w"
proof -
  define q where "q = cacheP (isUserOnline (cache env) (up_user_id f)) w"
  define online where "online = (case fst q of Inl _ \<Rightarrow> False | Inr online \<Rightarrow> online)"
  have db: "w_db (snd q) = w_db w" by (simp add: q_def cacheP_def split: prod.splits)
  obtain a b c where "appendUint64 (tlv TlvFriendId) (up_user_id f) out = Inr a" "appendString (tlv TlvUsername) (up_username f) a = Inr b"
    "appendString (tlv TlvNickname) (up_nickname f) b = Inr c"
    "liftP (appendUint64 (tlv TlvOnlineStatus) (if online then 1 else 0) c) (snd q) = (Inr out', w')"
    using assms unfolding appendFriendFields_def inr_simps Let_def q_def [symmetric] online_def [symmetric] by blast
  with db show ?thesis by (intro exI [of _ online]) (simp add: friend_args_def)
qed

lemma append_friends_Inr:
  assumes "append_friends env fs out w = (Inr out', w')"
  shows "\<exists>fos. map fst fos = fs \<and> appendFields (concat (map friend_args fos)) out = Inr out' \<and> w_db w' = w_db w"
  using assms
proof (induction fs arbitrary: out w)
  case (Cons f fs)
  obtain out1 w1 where f: "appendFriendFields env f out w = (Inr out1, w1)" and fs: "append_friends env fs out1 w1 = (Inr out', w')"
    using Cons.prems by (auto simp: bindP_Inr)
  obtain online where "appendFields (friend_args (f, online)) out = Inr out1" "w_db w1 = w_db w"
    using appendFriendFields_Inr [OF f] by blast
  moreover obtain fos where "map fst fos = fs" "appendFields (concat (map friend_args fos)) out1 = Inr out'" "w_db w' = w_db w1"
    using Cons.IH [OF fs] by blast
  ultimately show ?case
    by (intro exI [of _ "(f, online) # fos"]) (simp add: appendFields_append)
qed simp

lemma friend_args_of:
  "args_of (concat (map friend_args fos)) (tlv TlvFriendId) = map U64Arg (map (up_user_id \<circ> fst) fos)"
  "args_of (concat (map friend_args fos)) (tlv TlvUsername) = map StrArg (map (up_username \<circ> fst) fos)"
  "args_of (concat (map friend_args fos)) (tlv TlvNickname) = map StrArg (map (up_nickname \<circ> fst) fos)"
  "args_of (concat (map friend_args fos)) (tlv TlvOnlineStatus) = map U64Arg (map (\<lambda>fo. if snd fo then 1 else 0) fos)"
  unfolding args_of_concat by (induction fos) (auto simp: friend_args_def args_of_def)

section \<open>Properties\<close>

text \<open>
  The friend list arrives complete: when \<open>handleListFriends\<close> succeeds, the database was asked for
  the friends of the user logged in on the session and only read, and the body of the response parses to
  their ids, user names and nicknames in the order of the database, with one online flag each; an
  unreachable cache shows friends as offline and does not fail the request.
\<close>

theorem list_friends_roundtrip:
  assumes "registry_ok w" and "handleListFriends env rq w = (Inr resp, w')"
  shows "\<exists>u fs m. logged_in rq w u \<and> getFriends (storage env) u (w_db w) = (Inr fs, w_db w') \<and>
    msg_type (header resp) = mt ListFriendsResponse \<and> parseTlvBody (body resp) = Some (Inr m) \<and>
    (fs \<noteq> [] \<longrightarrow> getRepeatedUint64 m (tlv TlvFriendId) = Inr (map up_user_id fs) \<and>
      getRepeatedString m (tlv TlvUsername) = Inr (map up_username fs) \<and>
      getRepeatedString m (tlv TlvNickname) = Inr (map up_nickname fs) \<and>
      (\<exists>flags. getRepeatedUint64 m (tlv TlvOnlineStatus) = Inr flags \<and> length flags = length fs))"
proof -
  obtain u fs d bs where u: "logged_in rq w u" and fs: "getFriends (storage env) u (w_db w) = (Inr fs, d)"
    and app: "append_friends env fs [] (w\<lparr>w_db := d\<rparr>) = (Inr bs, w')" and resp: "resp = reply rq ListFriendsResponse bs"
    using assms(2) unfolding handleListFriends_def gate_Inr_iff [OF assms(1)] inr_simps by (auto simp: bindP_Inr)
  obtain fos where fos: "map fst fos = fs" "appendFields (concat (map friend_args fos)) [] = Inr bs" "w_db w' = d"
    using append_friends_Inr [OF app] by auto
  have parse: "parseTlvBody bs = Some (Inr (map_of_fields (arg_fields (concat (map friend_args fos)))))"
    by (rule appendFields_parse [OF fos(2)])
  note get = get_repeated(1) [OF friend_args_of(1) [of fos]] get_repeated(2) [OF friend_args_of(2) [of fos]]
    get_repeated(2) [OF friend_args_of(3) [of fos]] get_repeated(1) [OF friend_args_of(4) [of fos]]
  have "fs \<noteq> [] \<longrightarrow> fos \<noteq> []" using fos(1) by auto
  moreover have "map up_user_id fs = map (up_user_id \<circ> fst) fos" "map up_username fs = map (up_username \<circ> fst) fos"
    "map up_nickname fs = map (up_nickname \<circ> fst) fos" "length fs = length fos"
    using fos(1) by auto
  ultimately show ?thesis
    using u fs fos(3) parse resp get
    by (intro exI [of _ u] exI [of _ fs] exI [of _ "map_of_fields (arg_fields (concat (map friend_args fos)))"])
      (simp add: reply_def)
qed

text \<open>
  Friend requests are answered by the person they were sent to: \<open>handleAcceptFriend\<close> and
  \<open>handleRejectFriend\<close> succeed only for a user who is logged in on the session, and then the database has
  accepted, or rejected, a request of another existing user to exactly this user; nothing else was written.
\<close>

theorem friend_answer_addressed:
  assumes "registry_ok w"
  shows "(handleAcceptFriend env rq w = (Inr resp, w') \<longrightarrow>
      (\<exists>u f x d. logged_in rq w u \<and> f \<notin> {0, u} \<and> findUserById (storage env) f (w_db w) = (Inr x, d) \<and>
        acceptFriendRequest (storage env) f u d = (Inr (), w_db w'))) \<and>
    (handleRejectFriend env rq w = (Inr resp, w') \<longrightarrow>
      (\<exists>u f x d. logged_in rq w u \<and> f \<notin> {0, u} \<and> findUserById (storage env) f (w_db w) = (Inr x, d) \<and>
        rejectFriendRequest (storage env) f u d = (Inr (), w_db w')))"
proof (intro conjI impI)
  assume "handleAcceptFriend env rq w = (Inr resp, w')"
  then show "\<exists>u f x d. logged_in rq w u \<and> f \<notin> {0, u} \<and> findUserById (storage env) f (w_db w) = (Inr x, d) \<and>
        acceptFriendRequest (storage env) f u d = (Inr (), w_db w')"
    unfolding handleAcceptFriend_def gate_Inr_iff [OF assms(1)] inr_simps
    by (elim exE conjE) (auto simp: bindP_Inr dest!: appendFriendFields_Inr; blast)
next
  assume "handleRejectFriend env rq w = (Inr resp, w')"
  then show "\<exists>u f x d. logged_in rq w u \<and> f \<notin> {0, u} \<and> findUserById (storage env) f (w_db w) = (Inr x, d) \<and>
        rejectFriendRequest (storage env) f u d = (Inr (), w_db w')"
    unfolding handleRejectFriend_def gate_Inr_iff [OF assms(1)] inr_simps
    by (elim exE conjE) (auto simp: bindP_Inr dest!: appendFriendFields_Inr; blast)
qed

text \<open>A database with one account, whose friend requests can be answered, and with one friend.\<close>

definition friend_db :: "nat storage_ops" where
  "friend_db = no_storage
     \<lparr>findUserById := \<lambda>i. retP \<lparr>ur_user_id = i, ur_username = ''ann'', ur_password_hash = [], ur_password_salt = [],
        ur_nickname = ''Ann'', ur_created_at_ms = 0\<rparr>,
      acceptFriendRequest := \<lambda>f u n. (Inr (), n + 1),
      getFriends := \<lambda>u. retP [\<lparr>up_user_id = 9, up_username = ''ann'', up_nickname = ''Ann'', up_created_at_ms = 0\<rparr>]\<rparr>"

definition friend_request :: router_request where
  "friend_request = \<lparr>rq_session = Some 0, rq_packet = default_packet,
     rq_fields = map_of_fields [(tlv TlvTargetUserId, appendUint64BE [] 9)]\<rparr>"

abbreviation friend_world :: "(nat, u64 \<Rightarrow> online_session option) world" where
  "friend_world \<equiv> example_world 0"

lemma append_ann:
  "\<exists>bs. appendFriendFields (example_env friend_db) \<lparr>up_user_id = 9, up_username = ''ann'', up_nickname = ''Ann'', up_created_at_ms = 0\<rparr> []
     (example_world n) = (Inr bs, example_world n)"
  by (simp add: appendFriendFields_def bindP_apply cacheP_def example_env_def map_cache_def example_world_def Let_def
      appendUint64_def appendString_def appendValue_def)

lemma friend_user: "currentUserId friend_request friend_world = (Inr 7, friend_world)"
  by (rule example_user_seven) (simp add: friend_request_def)

lemma friend_example_list: "\<exists>resp w'. handleListFriends (example_env friend_db) friend_request friend_world = (Inr resp, w')"
  using append_ann [of 0] friend_user
  by (auto simp: handleListFriends_def bindP_apply dbP_def friend_db_def example_env_def)

theorem list_friends_roundtrip_witness:
  "\<exists>resp w' m. handleListFriends (example_env friend_db) friend_request friend_world = (Inr resp, w') \<and>
     parseTlvBody (body resp) = Some (Inr m) \<and> getRepeatedUint64 m (tlv TlvFriendId) = Inr [9]"
proof -
  obtain resp w' where run: "handleListFriends (example_env friend_db) friend_request friend_world = (Inr resp, w')"
    using friend_example_list by blast
  from list_friends_roundtrip [OF example_registry_ok run] show ?thesis
    using run by (auto simp: example_env_def friend_db_def)
qed

lemma friend_example_accept: "\<exists>resp w'. handleAcceptFriend (example_env friend_db) friend_request friend_world = (Inr resp, w')"
proof -
  have f: "getUint64 (rq_fields friend_request) (tlv TlvTargetUserId) = Inr 9"
    by (simp add: friend_request_def getUint64_def)
  have ok: "\<exists>bs. appendFriendRequestStatus FrAccepted out = Inr bs" for out
    by (simp add: appendFriendRequestStatus_def appendUint64_def appendValue_def Let_def)
  have db: "friend_world\<lparr>w_db := Suc 0\<rparr> = example_world (Suc 0)" by (simp add: example_world_def)
  show ?thesis
    using append_ann [of "Suc 0"] friend_user f ok db
    by (auto simp: handleAcceptFriend_def bindP_apply dbP_def friend_db_def example_env_def toProfile_def
        example_world_def split: sum.splits) (metis sum.distinct(1))
qed

theorem friend_answer_addressed_witness:
  "\<exists>resp w'. handleAcceptFriend (example_env friend_db) friend_request friend_world = (Inr resp, w') \<and> w_db w' = 1"
proof -
  obtain resp w' where run: "handleAcceptFriend (example_env friend_db) friend_request friend_world = (Inr resp, w')"
    using friend_example_accept by blast
  from friend_answer_addressed [OF example_registry_ok, of "example_env friend_db" friend_request 0 resp w'] run show ?thesis
    by (auto simp: example_env_def friend_db_def example_world_def)
qed

end
