(* ===== verification/Offline_Service.thy ===== *)
theory Offline_Service
  imports Service_Rules
begin

text \<open>
  Pulling and acknowledging offline messages (\<open>src/service/OfflineMessageService.cpp\<close>). Log lines are
  left out. The theorems: a pull asks for between 1 and 100 messages of the logged-in user and its
  response fits into one packet; an acknowledgement answers with exactly the messages that the
  database acknowledged and clears each of their conversations once.
\<close>

section \<open>Options and helpers\<close>

definition kHardMaxMessagesPerPull :: u32 where
  "kHardMaxMessagesPerPull = 100"

record offline_options =
  max_messages_per_pull :: u32

definition default_offline_options :: offline_options where
  "default_offline_options = \<lparr>max_messages_per_pull = 100\<rparr>"

text \<open>The constructor throws on these options.\<close>

definition offline_options_error :: "offline_options \<Rightarrow> string option" where
  "offline_options_error opts =
     (if max_messages_per_pull opts = 0 \<or> max_messages_per_pull opts > kHardMaxMessagesPerPull
      then Some ''offline max messages per pull must be in [1, 100]'' else None)"

definition sameConversation :: "conversation_key \<Rightarrow> conversation_key \<Rightarrow> bool" where
  "sameConversation lhs rhs \<longleftrightarrow> ck_type lhs = ck_type rhs \<and> ck_id lhs = ck_id rhs"

definition containsConversation :: "conversation_key list \<Rightarrow> conversation_key \<Rightarrow> bool" where
  "containsConversation conversations conversation \<longleftrightarrow> list_ex (\<lambda>item. sameConversation item conversation) conversations"

definition requestLimit :: "offline_options \<Rightarrow> router_request \<Rightarrow> u32 result" where
  "requestLimit opts rq =
     (let limit = max_messages_per_pull opts in
      if rq_fields rq (tlv TlvLimit) = None then Inr limit
      else bindR (getUint64 (rq_fields rq) (tlv TlvLimit)) (\<lambda>requested_limit.
        if requested_limit = 0 then err InvalidArgument ''offline message limit must be positive''
        else if requested_limit < ucast limit then Inr (ucast requested_limit)
        else Inr limit))"

fun append_offline_messages :: "offline_message_record list \<Rightarrow> bytes \<Rightarrow> bytes result" where
  "append_offline_messages [] out = Inr out"
| "append_offline_messages (m # ms) out =
     bindR (appendMessageFields (om_message m) out) (\<lambda>out. append_offline_messages ms out)"

fun appendAckedMessageIds :: "offline_message_record list \<Rightarrow> bytes \<Rightarrow> bytes result" where
  "appendAckedMessageIds [] out = Inr out"
| "appendAckedMessageIds (m # ms) out =
     bindR (appendUint64 (tlv TlvMessageId) (mr_message_id (om_message m)) out) (\<lambda>out.
     bindR (appendUint64 (tlv TlvDeliveryStatus) (delivery_status_value DsDelivered) out) (\<lambda>out.
     appendAckedMessageIds ms out))"

fun collect_conversations :: "offline_message_record list \<Rightarrow> conversation_key list \<Rightarrow> conversation_key list" where
  "collect_conversations [] cs = cs"
| "collect_conversations (m # ms) cs =
     collect_conversations ms
       (if \<not> containsConversation cs (mr_conversation (om_message m)) then cs @ [mr_conversation (om_message m)] else cs)"

definition clearUnreadForMessages ::
  "('d, 'c) service_env \<Rightarrow> u64 \<Rightarrow> offline_message_record list \<Rightarrow> ('d, 'c, unit) service" where
  "clearUnreadForMessages env user_id messages =
     forP (\<lambda>conversation. cacheP (clearUnread (cache env) \<lparr>uk_user_id = user_id, uk_conversation = conversation\<rparr>))
       (collect_conversations messages [])"

section \<open>Handlers\<close>

definition handleOfflineMessages ::
  "offline_options \<Rightarrow> ('d, 'c) service_env \<Rightarrow> router_request \<Rightarrow> ('d, 'c, packet) service" where
  "handleOfflineMessages opts env rq =
     bindP (offline_currentUserId rq) (\<lambda>user_id.
     bindP (liftP (requestLimit opts rq)) (\<lambda>limit.
     bindP (dbP (getOfflineMessages (storage env) user_id limit)) (\<lambda>messages.
     bindP (liftP (append_offline_messages messages [])) (\<lambda>bs.
     retP (reply rq OfflineMessagesResponse bs)))))"

definition handleOfflineMessagesAck :: "('d, 'c) service_env \<Rightarrow> router_request \<Rightarrow> ('d, 'c, packet) service" where
  "handleOfflineMessagesAck env rq =
     bindP (offline_currentUserId rq) (\<lambda>user_id.
     bindP (liftP (getRepeatedUint64 (rq_fields rq) (tlv TlvMessageId))) (\<lambda>message_ids.
     if message_ids = [] then failP (status_error InvalidArgument ''offline ack message ids must not be empty'')
     else
       bindP (dbP (ackOfflineMessages (storage env) user_id message_ids)) (\<lambda>acked_messages.
       bindP (liftP (appendAckedMessageIds acked_messages [])) (\<lambda>bs.
       bindP (statusP (clearUnreadForMessages env user_id acked_messages)) (\<lambda>_.
       retP (reply rq OfflineMessagesAckResponse bs))))))"

definition offline_registerHandlers ::
  "offline_options \<Rightarrow> ('d, 'c) service_env \<Rightarrow> ('d, 'c) handlers \<Rightarrow> status \<times> ('d, 'c) handlers" where
  "offline_registerHandlers opts env =
     register_chain [(OfflineMessagesRequest, as_handler (handleOfflineMessages opts env)),
       (OfflineMessagesAckRequest, as_handler (handleOfflineMessagesAck env))]"

section \<open>Handler rules\<close>

lemma short_offline [short_intros]:
  "shortR (requestLimit opts rq)" "shortR (append_offline_messages ms out)" "shortR (appendAckedMessageIds ms out)"
proof -
  show "shortR (requestLimit opts rq)" by (simp add: requestLimit_def Let_def shortR_bindR short_get)
  show "shortR (append_offline_messages ms out)"
    by (induction ms arbitrary: out) (simp_all add: shortR_bindR short_appendMessageFields)
  show "shortR (appendAckedMessageIds ms out)"
    by (induction ms arbitrary: out) (simp_all add: shortR_bindR short_append)
qed

lemma short_clearUnread [short_intros]: "env_short env \<Longrightarrow> shortP (clearUnreadForMessages env u ms)"
  unfolding clearUnreadForMessages_def by (intro short_intros; simp)

lemma keeps_clearUnread [inv_intros]:
  "keepsP registry_ok (clearUnreadForMessages env u ms)" "keepsP (stays_open r) (clearUnreadForMessages env u ms)"
  unfolding clearUnreadForMessages_def by (intro inv_intros; simp)+

lemma good_offline_handlers:
  assumes "env_short env"
  shows "good_handler (handleOfflineMessages opts env)" "good_handler (handleOfflineMessagesAck env)"
  unfolding handleOfflineMessages_def handleOfflineMessagesAck_def
  by (intro good_handlerI short_intros inv_intros assms; simp)+

section \<open>Lemmas\<close>

lemma requestLimit_bounds:
  assumes "requestLimit opts rq = Inr n" "offline_options_error opts = None"
  shows "1 \<le> unat n" "unat n \<le> 100" "n \<le> max_messages_per_pull opts"
proof -
  let ?m = "max_messages_per_pull opts"
  have m: "?m \<noteq> 0" "?m \<le> 100"
    using assms(2) by (auto simp: offline_options_error_def kHardMaxMessagesPerPull_def split: if_splits)
  have "n \<noteq> 0 \<and> n \<le> ?m"
  proof (cases "\<exists>r :: u64. r \<noteq> 0 \<and> r < ucast ?m \<and> n = ucast r")
    case True
    then obtain r :: u64 where r: "r \<noteq> 0" "r < ucast ?m" "n = ucast r" by blast
    have lt: "unat r < unat ?m" using r(2) by (simp add: word_less_nat_alt unat_widen)
    then have "unat n = unat r" using unat_narrow [of r ?m] r(3) by simp
    with lt r(1) show ?thesis by (metis less_imp_le unat_eq_zero unat_0 word_le_nat_alt)
  next
    case False
    then have "n = ?m" using assms(1)
      by (auto simp: requestLimit_def Let_def bindR_def split: if_splits sum.splits)
    with m show ?thesis by simp
  qed
  then have n: "n \<noteq> 0" "n \<le> ?m" by auto
  then show "n \<le> ?m" by simp
  have "unat n \<noteq> 0" using n(1) by (simp add: unat_eq_zero)
  then show "1 \<le> unat n" by simp
  have "n \<le> 100" using n(2) m(2) by (rule order_trans)
  then show "unat n \<le> 100" by (simp add: word_le_nat_alt)
qed

lemma append_offline_args: "append_offline_messages ms out = appendFields (page_args (map om_message ms)) out"
  by (induction ms arbitrary: out)
    (auto simp: appendFields_append appendMessageFields_args bindR_def split: sum.splits)

definition acked_args :: "offline_message_record list \<Rightarrow> (tlv_type \<times> tlv_arg) list" where
  "acked_args ms = concat (map (\<lambda>m. [(tlv TlvMessageId, U64Arg (mr_message_id (om_message m))),
     (tlv TlvDeliveryStatus, U64Arg (delivery_status_value DsDelivered))]) ms)"

lemma append_acked_args: "appendAckedMessageIds ms out = appendFields (acked_args ms) out"
  by (induction ms arbitrary: out) (auto simp: acked_args_def bindR_def split: sum.splits)

lemma acked_body: "\<exists>bs. appendAckedMessageIds ms [] = Inr bs"
  by (auto simp: append_acked_args appendFields_Inr_iff acked_args_def list_all_iff field_ok_def)

lemma acked_args_of: "args_of (acked_args ms) (tlv TlvMessageId) = map U64Arg (map (mr_message_id \<circ> om_message) ms)"
  unfolding acked_args_def args_of_concat by (induction ms) (auto simp: args_of_def)

lemma sameConversation_eq: "sameConversation a b \<longleftrightarrow> a = b"
  by (cases a; cases b) (auto simp: sameConversation_def)

lemma collect_conversations_props:
  "distinct cs \<Longrightarrow> distinct (collect_conversations ms cs) \<and>
     set (collect_conversations ms cs) = set cs \<union> (mr_conversation \<circ> om_message) ` set ms"
  by (induction ms arbitrary: cs)
    (auto simp: containsConversation_def list_ex_iff sameConversation_eq)

section \<open>Properties\<close>

text \<open>
  What the pull relies on: the database returns at most as many messages as it was asked for (the
  \<open>LIMIT\<close> of the query), and stored messages have texts and client ids of validated size.
\<close>

definition pull_storage :: "'d storage_ops \<Rightarrow> bool" where
  "pull_storage st \<longleftrightarrow> (\<forall>u n d ms d'. getOfflineMessages st u n d = (Inr ms, d') \<longrightarrow>
     length ms \<le> unat n \<and> list_all (message_small \<circ> om_message) ms)"

text \<open>
  C15. An offline pull always fits into one packet: for a logged-in user and an acceptable limit, the
  database is asked for between 1 and 100 messages, and when it answers, the request succeeds,
  changes nothing but what the query did to the database, and its response encodes as one packet
  whose body parses to the ids, senders and texts of exactly the messages returned, in order.
\<close>

theorem offline_pull_fits:
  assumes "registry_ok w" and "offline_options_error opts = None" and "pull_storage (storage env)"
    and "offline_currentUserId rq w = (Inr u, w)" and "requestLimit opts rq = Inr n"
    and "getOfflineMessages (storage env) u n (w_db w) = (Inr ms, d)"
  shows "\<exists>resp out. handleOfflineMessages opts env rq w = (Inr resp, w\<lparr>w_db := d\<rparr>) \<and> logged_in rq w u \<and>
    1 \<le> unat n \<and> unat n \<le> 100 \<and> encodePacket resp = Inr out \<and> page_read (body resp) (map om_message ms)"
proof -
  note n = requestLimit_bounds [OF assms(5,2)]
  have ms: "length ms \<le> unat n" "list_all message_small (map om_message ms)"
    using assms(3,6) unfolding pull_storage_def by (fastforce simp: list.pred_map)+
  obtain bs where bs: "appendFields (page_args (map om_message ms)) [] = Inr bs" "length bs \<le> 8352 * length ms"
    using page_body [OF ms(2), of "[]"] by auto
  have "length bs \<le> 1048576" using bs(2) ms(1) n(2) by linarith
  then obtain out where "encodePacket (reply rq OfflineMessagesResponse bs) = Inr out" using reply_fits by blast
  moreover have "handleOfflineMessages opts env rq w = (Inr (reply rq OfflineMessagesResponse bs), w\<lparr>w_db := d\<rparr>)"
    using assms(4,5,6) bs(1) by (simp add: handleOfflineMessages_def bindP_apply dbP_def append_offline_args)
  moreover have "logged_in rq w u"
    using offline_gate.gate_ok [of w rq u w] assms(1,4) by (simp add: registry_ok_def)
  moreover have "page_read (body (reply rq OfflineMessagesResponse bs)) (map om_message ms)"
    using page_readI [OF bs(1)] by (simp add: reply_def)
  ultimately show ?thesis using n by blast
qed

text \<open>
  C16. An acknowledgement is durable whatever the cache does: once the database has acknowledged the
  messages for the logged-in user, the request succeeds, the response lists exactly the ids of the messages that
  the database acknowledged, and the unread counters of that user are cleared for each conversation of those
  messages once, up to the first failure of the cache.
\<close>

theorem offline_ack_durable:
  assumes "registry_ok w" and "offline_currentUserId rq w = (Inr u, w)"
    and "getRepeatedUint64 (rq_fields rq) (tlv TlvMessageId) = Inr ids" and "ids \<noteq> []"
    and "ackOfflineMessages (storage env) u ids (w_db w) = (Inr ms, d)"
  shows "\<exists>resp w' m cs. handleOfflineMessagesAck env rq w = (Inr resp, w') \<and> logged_in rq w u \<and> w_db w' = d \<and>
    parseTlvBody (body resp) = Some (Inr m) \<and>
    (ms \<noteq> [] \<longrightarrow> getRepeatedUint64 m (tlv TlvMessageId) = Inr (map (mr_message_id \<circ> om_message) ms)) \<and>
    distinct cs \<and> set cs = (mr_conversation \<circ> om_message) ` set ms \<and>
    w_cache w' = snd (forP (\<lambda>c. clearUnread (cache env) \<lparr>uk_user_id = u, uk_conversation = c\<rparr>) cs (w_cache w))"
proof -
  let ?cs = "collect_conversations ms []"
  let ?c = "snd (forP (\<lambda>c. clearUnread (cache env) \<lparr>uk_user_id = u, uk_conversation = c\<rparr>) ?cs (w_cache w))"
  obtain bs where bs: "appendAckedMessageIds ms [] = Inr bs" using acked_body by blast
  have run: "handleOfflineMessagesAck env rq w =
    (Inr (reply rq OfflineMessagesAckResponse bs), w\<lparr>w_db := d, w_cache := ?c\<rparr>)"
    using assms(2-5) bs
    by (simp add: handleOfflineMessagesAck_def bindP_apply dbP_def clearUnreadForMessages_def forP_cacheP)
  have cs: "distinct ?cs" "set ?cs = (mr_conversation \<circ> om_message) ` set ms"
    using collect_conversations_props [of "[]" ms] by simp_all
  have "parseTlvBody bs = Some (Inr (map_of_fields (arg_fields (acked_args ms))))"
    using bs appendFields_parse by (simp add: append_acked_args)
  moreover have "logged_in rq w u"
    using offline_gate.gate_ok [of w rq u w] assms(1,2) by (simp add: registry_ok_def)
  ultimately show ?thesis
    using run cs get_repeated(1) [OF acked_args_of [of ms]]
    by (intro exI [of _ "reply rq OfflineMessagesAckResponse bs"] exI [of _ "w\<lparr>w_db := d, w_cache := ?c\<rparr>"]
        exI [of _ "map_of_fields (arg_fields (acked_args ms))"] exI [of _ ?cs]) (simp add: reply_def)
qed

section \<open>Witnesses\<close>

definition offline_example :: "u64 \<Rightarrow> offline_message_record" where
  "offline_example i = \<lparr>om_offline_message_id = 1, om_user_id = 7,
     om_message = \<lparr>mr_message_id = i, mr_conversation = \<lparr>ck_type = kPrivate, ck_id = 70009\<rparr>, mr_sender_id = 9,
       mr_receiver_id = 7, mr_text = ''hi'', mr_created_at_ms = 0, mr_client_msg_id = []\<rparr>,
     om_created_at_ms = 0\<rparr>"

definition offline_db :: "u64 list storage_ops" where
  "offline_db = no_storage
     \<lparr>getOfflineMessages := \<lambda>u n d. (Inr (take (unat n) (map offline_example d)), d),
      ackOfflineMessages := \<lambda>u is d. (Inr (map offline_example is), filter (\<lambda>i. i \<notin> set is) d)\<rparr>"

definition offline_request :: router_request where
  "offline_request = \<lparr>rq_session = Some 0, rq_packet = default_packet,
     rq_fields = map_of_fields [(tlv TlvLimit, appendUint64BE [] 1), (tlv TlvMessageId, appendUint64BE [] 4),
       (tlv TlvMessageId, appendUint64BE [] 5)]\<rparr>"

lemma offline_user: "offline_currentUserId offline_request (example_world d) = (Inr 7, example_world d)"
  by (rule example_offline_user_seven) (simp add: offline_request_def)

lemma offline_db_pull: "pull_storage (storage (example_env offline_db))"
  by (auto simp: pull_storage_def example_env_def offline_db_def list_all_iff message_small_def offline_example_def
      kMaxMessageTextBytes_def dest!: in_set_takeD)

lemma offline_limit: "requestLimit default_offline_options offline_request = Inr 1"
  by (simp add: requestLimit_def offline_request_def default_offline_options_def getUint64_def Let_def map_of_fields_def)

lemma offline_ids: "getRepeatedUint64 (rq_fields offline_request) (tlv TlvMessageId) = Inr [4, 5]"
  by (simp add: offline_request_def getRepeatedUint64_def)

theorem offline_pull_fits_witness:
  "\<exists>resp out w'. handleOfflineMessages default_offline_options (example_env offline_db) offline_request
       (example_world [4, 5, 6]) = (Inr resp, w') \<and> encodePacket resp = Inr out \<and>
     page_read (body resp) [om_message (offline_example 4)]"
proof -
  have get: "getOfflineMessages (storage (example_env offline_db)) 7 1 (w_db (example_world [4, 5, 6])) =
    (Inr [offline_example 4], [4, 5, 6])"
    by (simp add: example_env_def offline_db_def example_world_def)
  have opts: "offline_options_error default_offline_options = None"
    by (simp add: offline_options_error_def default_offline_options_def kHardMaxMessagesPerPull_def)
  from offline_pull_fits [OF example_registry_ok opts offline_db_pull offline_user offline_limit get]
  show ?thesis by fastforce
qed

theorem offline_ack_durable_witness:
  "\<exists>resp w' m. handleOfflineMessagesAck (example_env offline_db) offline_request (example_world [4, 5, 6]) = (Inr resp, w') \<and>
     w_db w' = [6] \<and> parseTlvBody (body resp) = Some (Inr m) \<and> getRepeatedUint64 m (tlv TlvMessageId) = Inr [4, 5]"
proof -
  have ack: "ackOfflineMessages (storage (example_env offline_db)) 7 [4, 5] (w_db (example_world [4, 5, 6])) =
    (Inr [offline_example 4, offline_example 5], [6])"
    by (simp add: example_env_def offline_db_def example_world_def)
  from offline_ack_durable [OF example_registry_ok offline_user offline_ids _ ack]
  show ?thesis by (fastforce simp: offline_example_def)
qed

end
