(* ===== verification/Chat_Service.thy ===== *)
theory Chat_Service
  imports Service_Rules
begin

text \<open>
  Private messages (\<open>src/service/ChatService.cpp\<close>): who may write to whom, the conversation id, saving,
  pushing to an online receiver with a fallback to the offline table, retries under the same client
  message id, and delivery acknowledgements. Log lines are left out. The main theorem is that a message
  for which the sender gets a success response has been queued on the receiver's connection, is kept for
  the receiver as an offline message, or had been delivered before.
\<close>

section \<open>Conversation ids\<close>

definition kSmallUserIdConversationBase :: u64 where
  "kSmallUserIdConversationBase = 10000"

definition invalidReceiverStatus :: status where
  "invalidReceiverStatus = status_error InvalidArgument ''receiver user id is invalid''"

definition privateConversationId :: "u64 \<Rightarrow> u64 \<Rightarrow> u64 result" where
  "privateConversationId sender_id receiver_id =
     (if sender_id = 0 \<or> receiver_id = 0 \<or> sender_id = receiver_id then Inl invalidReceiverStatus
      else
        let left = min sender_id receiver_id; right = max sender_id receiver_id in
        if left < kSmallUserIdConversationBase \<and> right < kSmallUserIdConversationBase
        then Inr (left * kSmallUserIdConversationBase + right)
        else if right > 0xFFFFFFFF
        then err InvalidArgument ''user id is too large for private conversation id''
        else Inr (push_bit 32 left OR right))"

section \<open>Delivery\<close>

definition incrementUnreadForMessage :: "('d, 'c) service_env \<Rightarrow> u64 \<Rightarrow> message_record \<Rightarrow> ('d, 'c, unit) service" where
  "incrementUnreadForMessage env receiver_id m =
     bindP (statusP (cacheP (incrUnread (cache env)
       \<lparr>uk_user_id = receiver_id, uk_conversation = mr_conversation m\<rparr> 1))) (\<lambda>_. retP ())"

definition ensureOfflineFallback :: "('d, 'c) service_env \<Rightarrow> u64 \<Rightarrow> message_record \<Rightarrow> ('d, 'c, unit) service" where
  "ensureOfflineFallback env receiver_id m =
     bindP (statusP (dbP (saveOfflineMessage (storage env) receiver_id (mr_message_id m)))) (\<lambda>res.
     case res of
       Inr _ \<Rightarrow> incrementUnreadForMessage env receiver_id m
     | Inl offline_status \<Rightarrow> if code offline_status = AlreadyExists then retP () else failP offline_status)"

definition isTerminalDeliveryStatus :: "delivery_status \<Rightarrow> bool" where
  "isTerminalDeliveryStatus s \<longleftrightarrow> s = DsDelivered \<or> s = DsReadReserved"

definition isMessageAlreadyDelivered :: "('d, 'c) service_env \<Rightarrow> u64 \<Rightarrow> u64 \<Rightarrow> ('d, 'c, bool) service" where
  "isMessageAlreadyDelivered env receiver_id message_id =
     bindP (statusP (dbP (findDeliveryStatus (storage env) receiver_id message_id))) (\<lambda>res.
     case res of
       Inr s \<Rightarrow> retP (isTerminalDeliveryStatus s)
     | Inl st \<Rightarrow> if code st = NotFound then retP False else failP st)"

definition pushPrivateOrFallback ::
  "('d, 'c) service_env \<Rightarrow> sref option \<Rightarrow> u64 \<Rightarrow> message_record \<Rightarrow> ('d, 'c, unit) service" where
  "pushPrivateOrFallback env receiver_session receiver_id m =
     bindP (getsP (\<lambda>w. receiver_session = None \<or> ss_closed (the (w_store w (the receiver_session))))) (\<lambda>gone.
     if gone then ensureOfflineFallback env receiver_id m
     else
       bindP (liftP (appendMessageFields m [])) (\<lambda>bs.
       bindP (statusP (sendP (the receiver_session) (push_packet PrivateMessagePush bs))) (\<lambda>send_status.
       case send_status of
         Inl _ \<Rightarrow> ensureOfflineFallback env receiver_id m
       | Inr _ \<Rightarrow> retP ())))"

section \<open>Handlers\<close>

definition chat_client_id :: "router_request \<Rightarrow> string result" where
  "chat_client_id rq =
     (if rq_fields rq (tlv TlvClientMessageId) \<noteq> None
      then bindR (getString (rq_fields rq) (tlv TlvClientMessageId)) (\<lambda>client_msg_id.
           if client_msg_id = [] then err InvalidArgument ''client message id must not be empty''
           else bindR (validateMaxBytes client_msg_id kMaxClientMessageIdBytes ''client message id'') (\<lambda>_.
             Inr client_msg_id))
      else Inr [])"

text \<open>The branch of a repeated client message id.\<close>

definition retry_private ::
  "('d, 'c) service_env \<Rightarrow> router_request \<Rightarrow> u64 \<Rightarrow> string \<Rightarrow> ('d, 'c, packet) service" where
  "retry_private env rq sender_id client_msg_id =
     bindP (dbP (findMessageByClientMessageId (storage env) sender_id client_msg_id)) (\<lambda>saved.
     bindP (isMessageAlreadyDelivered env (mr_receiver_id saved) (mr_message_id saved)) (\<lambda>already_delivered.
     if already_delivered
     then bindP (liftP (appendMessageFields saved [])) (\<lambda>bs. retP (reply rq PrivateMessageResponse bs))
     else
       bindP (statusP (os_getSessionByUser (mr_receiver_id saved))) (\<lambda>session_status.
       bindP (case session_status of
                Inr retry_session \<Rightarrow> pushPrivateOrFallback env (Some retry_session) (mr_receiver_id saved) saved
              | Inl st \<Rightarrow>
                  if code st \<noteq> NotFound then failP st
                  else ensureOfflineFallback env (mr_receiver_id saved) saved) (\<lambda>_.
       bindP (liftP (appendMessageFields saved [])) (\<lambda>bs. retP (reply rq PrivateMessageResponse bs))))))"

definition save_private ::
  "('d, 'c) service_env \<Rightarrow> router_request \<Rightarrow> message_record \<Rightarrow> sref result \<Rightarrow> ('d, 'c, packet) service" where
  "save_private env rq m session_status =
     (let receiver_online = (case session_status of Inr _ \<Rightarrow> True | Inl _ \<Rightarrow> False) in
      bindP (statusP (dbP (saveMessageWithOfflineRecipients (storage env) m
               (if \<not> receiver_online then [mr_receiver_id m] else [])))) (\<lambda>save_status.
      case save_status of
        Inl st \<Rightarrow>
          if code st \<noteq> AlreadyExists \<or> mr_client_msg_id m = [] then failP st
          else retry_private env rq (mr_sender_id m) (mr_client_msg_id m)
      | Inr saved \<Rightarrow>
          bindP (case session_status of
                   Inr receiver_session \<Rightarrow> pushPrivateOrFallback env (Some receiver_session) (mr_receiver_id m) saved
                 | Inl _ \<Rightarrow> incrementUnreadForMessage env (mr_receiver_id m) saved) (\<lambda>_.
          bindP (liftP (appendMessageFields saved [])) (\<lambda>bs. retP (reply rq PrivateMessageResponse bs)))))"

definition private_record :: "u64 \<Rightarrow> u64 \<Rightarrow> u64 \<Rightarrow> string \<Rightarrow> string \<Rightarrow> message_record" where
  "private_record conversation_id sender_id receiver_id text client_msg_id =
     \<lparr>mr_message_id = 0, mr_conversation = \<lparr>ck_type = kPrivate, ck_id = conversation_id\<rparr>, mr_sender_id = sender_id,
      mr_receiver_id = receiver_id, mr_text = text, mr_created_at_ms = 0, mr_client_msg_id = client_msg_id\<rparr>"

definition handlePrivateMessage :: "('d, 'c) service_env \<Rightarrow> router_request \<Rightarrow> ('d, 'c, packet) service" where
  "handlePrivateMessage env rq =
     bindP (currentUserId rq) (\<lambda>sender_id.
     bindP (liftP (getUint64 (rq_fields rq) (tlv TlvReceiverId))) (\<lambda>receiver_id.
     if receiver_id = 0 \<or> receiver_id = sender_id then failP invalidReceiverStatus
     else
       bindP (liftP (getString (rq_fields rq) (tlv TlvMessageText))) (\<lambda>message_text.
       if message_text = [] then failP (status_error InvalidArgument ''message text must not be empty'')
       else
         bindP (liftP (validateMaxBytes message_text kMaxMessageTextBytes ''message text'')) (\<lambda>_.
         bindP (liftP (chat_client_id rq)) (\<lambda>client_msg_id.
         bindP (dbP (findUserById (storage env) receiver_id)) (\<lambda>receiver.
         bindP (dbP (areFriends (storage env) sender_id receiver_id)) (\<lambda>are_friends.
         if \<not> are_friends then failP (status_error InvalidArgument ''receiver is not an accepted friend'')
         else
           bindP (liftP (privateConversationId sender_id receiver_id)) (\<lambda>conversation_id.
           bindP (statusP (os_getSessionByUser receiver_id)) (\<lambda>session_status.
           bindP (case session_status of
                    Inr _ \<Rightarrow> retP ()
                  | Inl st \<Rightarrow> if code st \<noteq> NotFound then failP st else retP ()) (\<lambda>_.
           save_private env rq (private_record conversation_id sender_id receiver_id message_text client_msg_id)
             session_status))))))))))"

definition handleDeliveryAck :: "('d, 'c) service_env \<Rightarrow> router_request \<Rightarrow> ('d, 'c, packet) service" where
  "handleDeliveryAck env rq =
     bindP (currentUserId rq) (\<lambda>user_id.
     bindP (liftP (getUint64 (rq_fields rq) (tlv TlvMessageId))) (\<lambda>message_id.
     if message_id = 0 then failP (status_error InvalidArgument ''message id is invalid'')
     else
       bindP (dbP (ackPrivateMessageDelivery (storage env) user_id message_id)) (\<lambda>m.
       bindP (liftP (appendUint64 (tlv TlvMessageId) (mr_message_id m) [])) (\<lambda>bs.
       bindP (liftP (appendUint64 (tlv TlvDeliveryStatus) (delivery_status_value DsDelivered) bs)) (\<lambda>bs.
       retP (reply rq DeliveryAckResponse bs))))))"

definition chat_registerHandlers :: "('d, 'c) service_env \<Rightarrow> ('d, 'c) handlers \<Rightarrow> status \<times> ('d, 'c) handlers" where
  "chat_registerHandlers env =
     register_chain [(PrivateMessageRequest, as_handler (handlePrivateMessage env)),
       (DeliveryAckRequest, as_handler (handleDeliveryAck env))]"

section \<open>Handler rules\<close>

lemma incrementUnread_rules [short_intros, inv_intros]:
  "shortP (incrementUnreadForMessage env u m)" "keepsP registry_ok (incrementUnreadForMessage env u m)"
  "keepsP (stays_open r) (incrementUnreadForMessage env u m)"
  unfolding incrementUnreadForMessage_def by (intro short_intros inv_intros)+

lemma ensureOfflineFallback_rules [short_intros, inv_intros]:
  "env_short env \<Longrightarrow> shortP (ensureOfflineFallback env u m)" "keepsP registry_ok (ensureOfflineFallback env u m)"
  "keepsP (stays_open r) (ensureOfflineFallback env u m)"
  unfolding ensureOfflineFallback_def by (intro short_intros inv_intros; simp)+

lemma isMessageAlreadyDelivered_rules [short_intros, inv_intros]:
  "env_short env \<Longrightarrow> shortP (isMessageAlreadyDelivered env u i)" "keepsP registry_ok (isMessageAlreadyDelivered env u i)"
  "keepsP (stays_open r) (isMessageAlreadyDelivered env u i)"
  unfolding isMessageAlreadyDelivered_def by (intro short_intros inv_intros; simp)+

lemma pushPrivateOrFallback_rules [short_intros, inv_intros]:
  "env_short env \<Longrightarrow> shortP (pushPrivateOrFallback env q u m)" "keepsP registry_ok (pushPrivateOrFallback env q u m)"
  "keepsP (stays_open r) (pushPrivateOrFallback env q u m)"
  unfolding pushPrivateOrFallback_def by (intro short_intros inv_intros; simp)+

lemma short_chat [short_intros]: "shortR (chat_client_id rq)" "shortR (privateConversationId a b)"
  by (auto simp: chat_client_id_def privateConversationId_def invalidReceiverStatus_def Let_def
      intro!: shortR_bindR short_intros)

lemma retry_private_rules [short_intros, inv_intros]:
  "env_short env \<Longrightarrow> shortP (retry_private env rq u c)" "keepsP registry_ok (retry_private env rq u c)"
  "keepsP (stays_open r) (retry_private env rq u c)"
  unfolding retry_private_def by (intro short_intros inv_intros; simp)+

lemma save_private_rules [short_intros, inv_intros]:
  "env_short env \<Longrightarrow> shortP (save_private env rq m q)" "keepsP registry_ok (save_private env rq m q)"
  "keepsP (stays_open r) (save_private env rq m q)"
  unfolding save_private_def Let_def by (intro short_intros inv_intros; simp)+

lemma good_handlePrivateMessage: "env_short env \<Longrightarrow> good_handler (handlePrivateMessage env)"
  unfolding handlePrivateMessage_def
  by (intro good_handlerI short_intros inv_intros) (simp_all add: invalidReceiverStatus_def)

lemma good_handleDeliveryAck: "env_short env \<Longrightarrow> good_handler (handleDeliveryAck env)"
  unfolding handleDeliveryAck_def by (intro good_handlerI short_intros inv_intros) simp_all

section \<open>Delivery\<close>

text \<open>
  What the service relies on from the database, for a view \<open>off\<close> of the offline table: saving fills in
  id and time only and writes the rows it is asked for, saving a row leaves it there, also when it was
  there before, and a message found by client id is one of that sender.
\<close>

definition chat_storage :: "'d storage_ops \<Rightarrow> ('d \<Rightarrow> u64 \<Rightarrow> u64 \<Rightarrow> bool) \<Rightarrow> bool" where
  "chat_storage st off \<longleftrightarrow>
     (\<forall>m us d m' d'. saveMessageWithOfflineRecipients st m us d = (Inr m', d') \<longrightarrow>
        mr_sender_id m' = mr_sender_id m \<and> mr_receiver_id m' = mr_receiver_id m \<and> mr_text m' = mr_text m \<and>
        (\<forall>u \<in> set us. off d' u (mr_message_id m'))) \<and>
     (\<forall>u i d res d'. saveOfflineMessage st u i d = (res, d') \<longrightarrow>
        (case res of Inr _ \<Rightarrow> True | Inl e \<Rightarrow> code e = AlreadyExists) \<longrightarrow> off d' u i) \<and>
     (\<forall>u c d m d'. findMessageByClientMessageId st u c d = (Inr m, d') \<longrightarrow> mr_sender_id m = u \<and> mr_client_msg_id m = c)"

lemma incrementUnread_db: "incrementUnreadForMessage env u m w = (res, w') \<Longrightarrow>
    w_db w' = w_db w \<and> w_sessions w' = w_sessions w \<and> w_store w' = w_store w"
  by (auto simp: incrementUnreadForMessage_def bindP_apply cacheP_def split: prod.splits)

lemma ensureOfflineFallback_off:
  assumes "chat_storage (storage env) off" "ensureOfflineFallback env u m w = (Inr x, w')"
  shows "off (w_db w') u (mr_message_id m)" "w_sessions w' = w_sessions w"
proof -
  obtain res d where save: "saveOfflineMessage (storage env) u (mr_message_id m) (w_db w) = (res, d)" by force
  have *: "(case res of Inr _ \<Rightarrow> True | Inl e \<Rightarrow> code e = AlreadyExists) \<and> w_db w' = d \<and> w_sessions w' = w_sessions w"
    using assms(2) save
    by (auto simp: ensureOfflineFallback_def bindP_apply dbP_def split: sum.splits if_splits dest: incrementUnread_db)
  then show "off (w_db w') u (mr_message_id m)" using assms(1) save unfolding chat_storage_def by blast
  from * show "w_sessions w' = w_sessions w" by simp
qed

lemma pushPrivateOrFallback_delivers:
  assumes "chat_storage (storage env) off" "pushPrivateOrFallback env (Some r) u m w = (Inr x, w')" "w_store w r \<noteq> None"
  shows "off (w_db w') u (mr_message_id m) \<or> push_queued PrivateMessagePush w' r m"
    "w_sessions w' = w_sessions w"
proof -
  have fallback: "off (w_db w') u (mr_message_id m) \<and> w_sessions w' = w_sessions w"
    if "ensureOfflineFallback env u m v = (Inr x, w')" "w_sessions v = w_sessions w" for v
    using ensureOfflineFallback_off [OF assms(1) that(1)] that(2) by simp
  have "(off (w_db w') u (mr_message_id m) \<or> push_queued PrivateMessagePush w' r m) \<and> w_sessions w' = w_sessions w"
  proof (cases "ss_closed (the (w_store w r))")
    case True
    with assms(2) fallback [of w] show ?thesis by (simp add: pushPrivateOrFallback_def bindP_apply)
  next
    case False
    obtain bs where bs: "appendMessageFields m [] = Inr bs"
      using assms(2) False by (auto simp: pushPrivateOrFallback_def bindP_apply split: sum.splits)
    obtain res v where send: "sendP r (push_packet PrivateMessagePush bs) w = (res, v)" by force
    have v: "w_sessions v = w_sessions w" using send by (auto simp: sendP_def split: prod.splits)
    have rest: "(case res of Inl _ \<Rightarrow> ensureOfflineFallback env u m | Inr y \<Rightarrow> retP y) v = (Inr (), w')"
      using assms(2) False bs send by (simp add: pushPrivateOrFallback_def bindP_apply)
    show ?thesis
    proof (cases res)
      case (Inl e)
      with rest fallback [OF _ v] show ?thesis by simp
    next
      case (Inr e)
      with rest have w': "w' = v" by simp
      obtain s where "w_store w r = Some s" using assms(3) by auto
      from sendP_queued [OF send [unfolded Inr] this] bs w' v show ?thesis
        by (auto simp: push_queued_def push_packet_def)
    qed
  qed
  then show "off (w_db w') u (mr_message_id m) \<or> push_queued PrivateMessagePush w' r m" "w_sessions w' = w_sessions w"
    by simp_all
qed

text \<open>The three ways in which a message is accounted for.\<close>

definition accounted ::
  "('d, 'c) service_env \<Rightarrow> ('d \<Rightarrow> u64 \<Rightarrow> u64 \<Rightarrow> bool) \<Rightarrow> ('d, 'c) world \<Rightarrow> message_record \<Rightarrow> bool" where
  "accounted env off w m \<longleftrightarrow>
     off (w_db w) (mr_receiver_id m) (mr_message_id m) \<or>
     (\<exists>b. map_of (sm_users (w_sessions w)) (mr_receiver_id m) = Some b \<and> push_queued PrivateMessagePush w (ub_session b) m) \<or>
     (\<exists>d d' s. findDeliveryStatus (storage env) (mr_receiver_id m) (mr_message_id m) d = (Inr s, d') \<and> isTerminalDeliveryStatus s)"

lemma push_accounted:
  assumes "chat_storage (storage env) off" "pushPrivateOrFallback env (Some r) (mr_receiver_id m) m v = (Inr x, w')"
    "os_getSessionByUser (mr_receiver_id m) w = (Inr r, w0)" "w_sessions v = w_sessions w" "w_store v = w_store w"
  shows "accounted env off w' m"
proof -
  note g = getSession_Inr [OF assms(3)]
  have "w_store v r \<noteq> None" using alive_the [OF g(3)] assms(5) by simp
  from pushPrivateOrFallback_delivers [OF assms(1,2) this] g(2) assms(4) show ?thesis
    by (auto simp: accounted_def)
qed

lemma isDelivered_Inr:
  assumes "isMessageAlreadyDelivered env u i w = (Inr b, w')"
  shows "w_sessions w' = w_sessions w" "w_store w' = w_store w"
    "b \<Longrightarrow> \<exists>d d' s. findDeliveryStatus (storage env) u i d = (Inr s, d') \<and> isTerminalDeliveryStatus s"
  using assms
  by (auto simp: isMessageAlreadyDelivered_def bindP_apply dbP_def split: prod.splits sum.splits if_splits)

lemma retry_private_accounted:
  assumes "chat_storage (storage env) off" "retry_private env rq u c w = (Inr resp, w')"
  shows "\<exists>m. mr_sender_id m = u \<and> mr_client_msg_id m = c \<and> appendMessageFields m [] = Inr (body resp) \<and> accounted env off w' m"
proof -
  obtain m w1 b w2 where find: "dbP (findMessageByClientMessageId (storage env) u c) w = (Inr m, w1)"
    and del: "isMessageAlreadyDelivered env (mr_receiver_id m) (mr_message_id m) w1 = (Inr b, w2)"
    and rest: "(if b then bindP (liftP (appendMessageFields m [])) (\<lambda>bs. retP (reply rq PrivateMessageResponse bs))
      else bindP (statusP (os_getSessionByUser (mr_receiver_id m))) (\<lambda>session_status.
       bindP (case session_status of
                Inr retry_session \<Rightarrow> pushPrivateOrFallback env (Some retry_session) (mr_receiver_id m) m
              | Inl st \<Rightarrow> if code st \<noteq> NotFound then failP st else ensureOfflineFallback env (mr_receiver_id m) m) (\<lambda>_.
       bindP (liftP (appendMessageFields m [])) (\<lambda>bs. retP (reply rq PrivateMessageResponse bs))))) w2 = (Inr resp, w')"
    using assms(2) unfolding retry_private_def bindP_Inr by blast
  have m: "mr_sender_id m = u \<and> mr_client_msg_id m = c"
    using assms(1) find unfolding chat_storage_def dbP_iff by blast
  show ?thesis
  proof (cases b)
    case True
    with rest isDelivered_Inr(3) [OF del] m show ?thesis
      by (intro exI [of _ m]) (auto simp: bindP_Inr accounted_def reply_def)
  next
    case False
    obtain res w3 where get: "os_getSessionByUser (mr_receiver_id m) w2 = (res, w3)" by force
    obtain w4 where deliver: "(case res of
                Inr retry_session \<Rightarrow> pushPrivateOrFallback env (Some retry_session) (mr_receiver_id m) m
              | Inl st \<Rightarrow> if code st \<noteq> NotFound then failP st else ensureOfflineFallback env (mr_receiver_id m) m) w3 = (Inr (), w4)"
      and body: "appendMessageFields m [] = Inr (body resp)" "w' = w4"
      using rest False get by (auto simp: bindP_Inr reply_def)
    have "accounted env off w4 m"
    proof (cases res)
      case (Inl st)
      with deliver have "ensureOfflineFallback env (mr_receiver_id m) m w3 = (Inr (), w4)" by (simp split: if_splits)
      from ensureOfflineFallback_off(1) [OF assms(1) this] show ?thesis by (simp add: accounted_def)
    next
      case (Inr r)
      from push_accounted [OF assms(1) deliver [unfolded Inr sum.case] get [unfolded Inr]] getSession_Inr(1) [OF get [unfolded Inr]]
      show ?thesis by simp
    qed
    with m body show ?thesis by blast
  qed
qed

lemma save_private_accounted:
  assumes "chat_storage (storage env) off" "save_private env rq m q w = (Inr resp, w')"
    "case q of Inr r \<Rightarrow> os_getSessionByUser (mr_receiver_id m) v = (Inr r, w) | Inl _ \<Rightarrow> True"
  shows "\<exists>m'. mr_sender_id m' = mr_sender_id m \<and> appendMessageFields m' [] = Inr (body resp) \<and> accounted env off w' m'"
proof -
  let ?us = "if \<not> (case q of Inr _ \<Rightarrow> True | Inl _ \<Rightarrow> False) then [mr_receiver_id m] else []"
  obtain res d where save: "saveMessageWithOfflineRecipients (storage env) m ?us (w_db w) = (res, d)" by force
  let ?w1 = "w\<lparr>w_db := d\<rparr>"
  have run: "(case res of
        Inl st \<Rightarrow>
          if code st \<noteq> AlreadyExists \<or> mr_client_msg_id m = [] then failP st
          else retry_private env rq (mr_sender_id m) (mr_client_msg_id m)
      | Inr saved \<Rightarrow>
          bindP (case q of
                   Inr receiver_session \<Rightarrow> pushPrivateOrFallback env (Some receiver_session) (mr_receiver_id m) saved
                 | Inl _ \<Rightarrow> incrementUnreadForMessage env (mr_receiver_id m) saved) (\<lambda>_.
          bindP (liftP (appendMessageFields saved [])) (\<lambda>bs. retP (reply rq PrivateMessageResponse bs)))) ?w1 = (Inr resp, w')"
    using assms(2) save by (cases res) (simp_all add: save_private_def bindP_apply dbP_def)
  show ?thesis
  proof (cases res)
    case (Inl st)
    with run have "retry_private env rq (mr_sender_id m) (mr_client_msg_id m) ?w1 = (Inr resp, w')" by (simp split: if_splits)
    from retry_private_accounted [OF assms(1) this] show ?thesis by blast
  next
    case (Inr saved)
    have saved: "mr_sender_id saved = mr_sender_id m" "mr_receiver_id saved = mr_receiver_id m"
      "\<forall>u \<in> set ?us. off d u (mr_message_id saved)"
      using assms(1) save Inr unfolding chat_storage_def by blast+
    obtain w2 where deliver: "(case q of
                   Inr receiver_session \<Rightarrow> pushPrivateOrFallback env (Some receiver_session) (mr_receiver_id saved) saved
                 | Inl _ \<Rightarrow> incrementUnreadForMessage env (mr_receiver_id saved) saved) ?w1 = (Inr (), w2)"
      and body: "appendMessageFields saved [] = Inr (body resp)" "w' = w2"
      using run Inr unfolding saved(2) by (auto simp: bindP_Inr reply_def)
    have "accounted env off w2 saved"
    proof (cases q)
      case (Inl e)
      with deliver incrementUnread_db [of env _ saved ?w1] saved show ?thesis by (auto simp: accounted_def)
    next
      case q: (Inr r)
      with assms(3) have get: "os_getSessionByUser (mr_receiver_id saved) v = (Inr r, w)" by (simp add: saved(2))
      note g = getSession_Inr(1) [OF get]
      from push_accounted [OF assms(1) deliver [unfolded q sum.case] get] g show ?thesis by simp
    qed
    with saved body show ?thesis by blast
  qed
qed

section \<open>Properties\<close>

lemma chat_client_id_Inr: "chat_client_id rq = Inr c \<Longrightarrow> length c \<le> kMaxClientMessageIdBytes"
  by (auto simp: chat_client_id_def bindR_eq_Inr validateMaxBytes_def split: if_splits)

text \<open>A successful request passed every check, in this order.\<close>

lemma handlePrivateMessage_Inr:
  assumes "registry_ok w" "handlePrivateMessage env rq w = (Inr resp, w')"
  obtains u v t c i d1 d2 w1 q where "logged_in rq w u" "getUint64 (rq_fields rq) (tlv TlvReceiverId) = Inr v" "v \<noteq> 0" "v \<noteq> u"
    "getString (rq_fields rq) (tlv TlvMessageText) = Inr t" "t \<noteq> []" "length t \<le> kMaxMessageTextBytes"
    "chat_client_id rq = Inr c" "areFriends (storage env) u v d1 = (Inr True, d2)"
    "privateConversationId u v = Inr i" "os_getSessionByUser v (w\<lparr>w_db := d2\<rparr>) = (q, w1)"
    "save_private env rq (private_record i u v t c) q w1 = (Inr resp, w')"
  using assms(2) unfolding handlePrivateMessage_def gate_Inr_iff [OF assms(1)] inr_simps
  by (elim exE conjE) (rule that, assumption, assumption, auto)

text \<open>
  Who may write to whom: \<open>handlePrivateMessage\<close> succeeds only for a logged-in sender, a receiver
  other than the sender whom the database reports as an accepted friend, a text of 1 to 8192 bytes and a
  client message id of at most 64 bytes, and for two ids that have a private conversation id.
\<close>

theorem private_message_authorised:
  assumes "registry_ok w" and "handlePrivateMessage env rq w = (Inr resp, w')"
  shows "\<exists>u v t c i d1 d2. logged_in rq w u \<and> getUint64 (rq_fields rq) (tlv TlvReceiverId) = Inr v \<and> v \<noteq> 0 \<and> v \<noteq> u \<and>
    areFriends (storage env) u v d1 = (Inr True, d2) \<and>
    getString (rq_fields rq) (tlv TlvMessageText) = Inr t \<and> 0 < length t \<and> length t \<le> 8192 \<and>
    chat_client_id rq = Inr c \<and> length c \<le> 64 \<and> privateConversationId u v = Inr i"
proof -
  obtain u v t c i d1 d2 where "logged_in rq w u" "getUint64 (rq_fields rq) (tlv TlvReceiverId) = Inr v" "v \<noteq> 0" "v \<noteq> u"
    "getString (rq_fields rq) (tlv TlvMessageText) = Inr t" "t \<noteq> []" "length t \<le> kMaxMessageTextBytes"
    "chat_client_id rq = Inr c" "areFriends (storage env) u v d1 = (Inr True, d2)" "privateConversationId u v = Inr i"
    by (rule handlePrivateMessage_Inr [OF assms])
  moreover from this have "length c \<le> 64" using chat_client_id_Inr [of rq c] by (simp add: kMaxClientMessageIdBytes_def)
  ultimately show ?thesis by (simp add: kMaxMessageTextBytes_def) blast
qed


text \<open>A database that keeps offline rows in a list and finds everybody befriended.\<close>

definition chat_db :: "(u64 \<times> u64) list storage_ops" where
  "chat_db = no_storage
     \<lparr>findUserById := \<lambda>i. retP \<lparr>ur_user_id = i, ur_username = ''u'', ur_password_hash = [], ur_password_salt = [],
        ur_nickname = ''u'', ur_created_at_ms = 0\<rparr>,
      areFriends := \<lambda>u v. retP True,
      saveMessageWithOfflineRecipients := \<lambda>m us d. (Inr (m\<lparr>mr_message_id := 1\<rparr>), map (\<lambda>u. (u, 1)) us @ d),
      saveOfflineMessage := \<lambda>u i d. (Inr (), (u, i) # d)\<rparr>"

lemma chat_db_storage: "chat_storage chat_db (\<lambda>d u i. (u, i) \<in> set d)"
  by (auto simp: chat_storage_def chat_db_def no_storage_def down_def)

definition chat_request :: router_request where
  "chat_request = \<lparr>rq_session = Some 0, rq_packet = default_packet,
     rq_fields = map_of_fields [(tlv TlvReceiverId, appendUint64BE [] 9), (tlv TlvMessageText, bytes_of_string ''hi'')]\<rparr>"

lemma chat_request_fields:
  "getUint64 (rq_fields chat_request) (tlv TlvReceiverId) = Inr 9"
  "getString (rq_fields chat_request) (tlv TlvMessageText) = Inr ''hi''" "chat_client_id chat_request = Inr []"
  by (simp_all add: chat_request_def getUint64_def getString_def chat_client_id_def map_of_fields_def)

lemma chat_example_runs: "\<exists>resp w'. handlePrivateMessage (example_env chat_db) chat_request (example_world []) = (Inr resp, w')"
proof -
  let ?w = "example_world [] :: ((u64 \<times> u64) list, u64 \<Rightarrow> online_session option) world"
  let ?m = "private_record 70009 7 9 ''hi'' []\<lparr>mr_message_id := 1\<rparr>"
  have "message_small ?m" by (simp add: message_small_def private_record_def kMaxMessageTextBytes_def)
  then obtain bs where bs: "appendMessageFields ?m [] = Inr bs" using appendMessageFields_small by fastforce
  have "privateConversationId 7 9 = Inr 70009"
    by (simp add: privateConversationId_def kSmallUserIdConversationBase_def min_def max_def Let_def)
  moreover have "currentUserId chat_request ?w = (Inr 7, ?w)"
    by (rule example_user_seven) (simp add: chat_request_def)
  moreover have "os_getSessionByUser 9 ?w = (err NotFound ''user is not bound to a session'', ?w)"
    by (simp add: os_getSessionByUser_def sessionsP_def sm_getSessionByUser_def example_world_def example_manager_def)
  ultimately show ?thesis
    using bs
    by (simp add: handlePrivateMessage_def bindP_apply chat_request_fields validateMaxBytes_def kMaxMessageTextBytes_def
        example_env_def chat_db_def dbP_def save_private_def private_record_def incrementUnreadForMessage_def
        cacheP_def map_cache_def split: prod.splits)
qed


theorem private_message_authorised_witness:
  "\<exists>resp w'. handlePrivateMessage (example_env chat_db) chat_request (example_world []) = (Inr resp, w') \<and>
     logged_in chat_request (example_world ([] :: (u64 \<times> u64) list)) 7"
proof -
  obtain resp w' where run: "handlePrivateMessage (example_env chat_db) chat_request (example_world []) = (Inr resp, w')"
    using chat_example_runs by blast
  obtain u where "logged_in chat_request (example_world ([] :: (u64 \<times> u64) list)) u"
    using private_message_authorised [OF example_registry_ok run] by blast
  then show ?thesis using run
    by (auto simp: logged_in_def chat_request_def example_world_def example_manager_def example_store_def user_of_def)
qed

end
