(* ===== verification/Group_Service.thy ===== *)
theory Group_Service
  imports Service_Rules
begin

text \<open>
  Groups and group messages (\<open>src/service/GroupService.cpp\<close>). Log lines are left out. The main theorem is
  about delivery: after a success response every other member of the group has the message queued on
  the connection or kept as an offline message. A second one shows that this fails when the push to
  one online member is refused: the handler then stops, and the members behind it get nothing.
\<close>

section \<open>Handlers\<close>

definition containsMember :: "group_member_record list \<Rightarrow> u64 \<Rightarrow> bool" where
  "containsMember members user_id \<longleftrightarrow> list_ex (\<lambda>member. gm_user_id member = user_id) members"

definition appendGroupFields :: "group_record \<Rightarrow> bytes \<Rightarrow> bytes result" where
  "appendGroupFields g out =
     bindR (appendUint64 (tlv TlvGroupId) (gr_group_id g) out) (\<lambda>out.
     appendString (tlv TlvGroupName) (gr_group_name g) out)"

definition handleCreateGroup :: "('d, 'c) service_env \<Rightarrow> router_request \<Rightarrow> ('d, 'c, packet) service" where
  "handleCreateGroup env rq =
     bindP (currentUserId rq) (\<lambda>owner_id.
     bindP (liftP (getString (rq_fields rq) (tlv TlvGroupName))) (\<lambda>group_name.
     if group_name = [] then failP (status_error InvalidArgument ''group name must not be empty'')
     else
       bindP (liftP (validateMaxBytes group_name kMaxGroupNameBytes ''group name'')) (\<lambda>_.
       bindP (dbP (createGroup (storage env) \<lparr>cg_owner_id = owner_id, cg_group_name = group_name\<rparr>)) (\<lambda>created_group.
       bindP (liftP (appendGroupFields created_group [])) (\<lambda>bs.
       retP (reply rq CreateGroupResponse bs))))))"

definition handleJoinGroup :: "('d, 'c) service_env \<Rightarrow> router_request \<Rightarrow> ('d, 'c, packet) service" where
  "handleJoinGroup env rq =
     bindP (currentUserId rq) (\<lambda>user_id.
     bindP (liftP (getUint64 (rq_fields rq) (tlv TlvGroupId))) (\<lambda>group_id.
     if group_id = 0 then failP (status_error InvalidArgument ''group id must be positive'')
     else
       bindP (dbP (findGroupById (storage env) group_id)) (\<lambda>g.
       bindP (dbP (addGroupMember (storage env) group_id user_id)) (\<lambda>_.
       bindP (liftP (appendGroupFields g [])) (\<lambda>bs.
       retP (reply rq JoinGroupResponse bs))))))"

fun append_groups :: "group_record list \<Rightarrow> bytes \<Rightarrow> bytes result" where
  "append_groups [] out = Inr out"
| "append_groups (g # gs) out = bindR (appendGroupFields g out) (\<lambda>out. append_groups gs out)"

definition handleListGroups :: "('d, 'c) service_env \<Rightarrow> router_request \<Rightarrow> ('d, 'c, packet) service" where
  "handleListGroups env rq =
     bindP (currentUserId rq) (\<lambda>user_id.
     bindP (dbP (getGroupsForUser (storage env) user_id)) (\<lambda>groups.
     bindP (liftP (append_groups groups [])) (\<lambda>bs.
     retP (reply rq ListGroupsResponse bs))))"

text \<open>The loop that sorts the other members into open sessions and offline users.\<close>

fun split_members ::
  "u64 \<Rightarrow> group_member_record list \<Rightarrow> sref list \<Rightarrow> u64 list \<Rightarrow> ('d, 'c, sref list \<times> u64 list) service" where
  "split_members sender_id [] online_sessions offline_user_ids = retP (online_sessions, offline_user_ids)"
| "split_members sender_id (member # members) online_sessions offline_user_ids =
     (if gm_user_id member = sender_id then split_members sender_id members online_sessions offline_user_ids
      else bindP (statusP (os_getSessionByUser (gm_user_id member))) (\<lambda>session_status.
        case session_status of
          Inr member_session \<Rightarrow> split_members sender_id members (online_sessions @ [member_session]) offline_user_ids
        | Inl st \<Rightarrow>
            if code st = NotFound
            then split_members sender_id members online_sessions (offline_user_ids @ [gm_user_id member])
            else failP st))"

definition incr_group_unread :: "('d, 'c) service_env \<Rightarrow> message_record \<Rightarrow> u64 \<Rightarrow> ('d, 'c, unit) service" where
  "incr_group_unread env saved user_id =
     bindP (statusP (cacheP (incrUnread (cache env)
       \<lparr>uk_user_id = user_id, uk_conversation = mr_conversation saved\<rparr> 1))) (\<lambda>_. retP ())"

definition push_group :: "message_record \<Rightarrow> sref \<Rightarrow> ('d, 'c, unit) service" where
  "push_group saved r =
     bindP (liftP (appendMessageFields saved [])) (\<lambda>bs. sendP r (push_packet GroupMessagePush bs))"

definition group_message_record :: "u64 \<Rightarrow> u64 \<Rightarrow> string \<Rightarrow> message_record" where
  "group_message_record group_id sender_id text =
     \<lparr>mr_message_id = 0, mr_conversation = \<lparr>ck_type = kGroup, ck_id = group_id\<rparr>, mr_sender_id = sender_id,
      mr_receiver_id = group_id, mr_text = text, mr_created_at_ms = 0, mr_client_msg_id = []\<rparr>"

definition handleGroupMessage :: "('d, 'c) service_env \<Rightarrow> router_request \<Rightarrow> ('d, 'c, packet) service" where
  "handleGroupMessage env rq =
     bindP (currentUserId rq) (\<lambda>sender_id.
     bindP (liftP (getUint64 (rq_fields rq) (tlv TlvGroupId))) (\<lambda>group_id.
     if group_id = 0 then failP (status_error InvalidArgument ''group id must be positive'')
     else
       bindP (liftP (getString (rq_fields rq) (tlv TlvMessageText))) (\<lambda>message_text.
       if message_text = [] then failP (status_error InvalidArgument ''message text must not be empty'')
       else
         bindP (liftP (validateMaxBytes message_text kMaxMessageTextBytes ''message text'')) (\<lambda>_.
         bindP (dbP (findGroupById (storage env) group_id)) (\<lambda>g.
         bindP (dbP (getGroupMembers (storage env) group_id)) (\<lambda>members.
         if \<not> containsMember members sender_id
         then failP (status_error InvalidArgument ''sender is not a group member'')
         else
           bindP (split_members sender_id members [] []) (\<lambda>(online_sessions, offline_user_ids).
           bindP (dbP (saveMessageWithOfflineRecipients (storage env)
                    (group_message_record (gr_group_id g) sender_id message_text) offline_user_ids)) (\<lambda>saved.
           bindP (forP (incr_group_unread env saved) offline_user_ids) (\<lambda>_.
           bindP (forP (push_group saved) online_sessions) (\<lambda>_.
           bindP (liftP (appendMessageFields saved [])) (\<lambda>bs.
           retP (reply rq GroupMessageResponse bs))))))))))))"

definition group_registerHandlers :: "('d, 'c) service_env \<Rightarrow> ('d, 'c) handlers \<Rightarrow> status \<times> ('d, 'c) handlers" where
  "group_registerHandlers env =
     register_chain [(CreateGroupRequest, as_handler (handleCreateGroup env)),
       (JoinGroupRequest, as_handler (handleJoinGroup env)),
       (ListGroupsRequest, as_handler (handleListGroups env)),
       (GroupMessageRequest, as_handler (handleGroupMessage env))]"

section \<open>Handler rules\<close>

lemma short_groups [short_intros]: "shortR (appendGroupFields g out)" "shortR (append_groups gs out)"
proof -
  show g: "shortR (appendGroupFields g out)" for g out
    by (simp add: appendGroupFields_def shortR_bindR short_append)
  show "shortR (append_groups gs out)" by (induction gs arbitrary: out) (simp_all add: shortR_bindR g)
qed

lemma keepsP_split [inv_intros]: "(\<And>x y. keepsP I (f x y)) \<Longrightarrow> keepsP I (case p of (x, y) \<Rightarrow> f x y)"
  by (cases p) simp

lemma shortP_split [short_intros]: "(\<And>x y. shortP (f x y)) \<Longrightarrow> shortP (case p of (x, y) \<Rightarrow> f x y)"
  by (cases p) simp

lemma split_members_rules [short_intros, inv_intros]:
  "shortP (split_members u ms a b)" "keepsP registry_ok (split_members u ms a b)"
  "keepsP (stays_open r) (split_members u ms a b)"
  by (induction ms arbitrary: a b) (simp_all, (intro impI short_intros inv_intros; simp)+)

lemma short_sendP [short_intros]: "shortP (sendP r p)"
  by (auto simp: shortP_def sendP_def store_send_def sendPacket_def encodePacket_def validateHeader_def
      short_status_def Let_def status_ok_def split: option.splits sum.splits if_splits prod.splits)

lemma group_loop_rules [short_intros, inv_intros]:
  "shortP (incr_group_unread env m u)" "keepsP registry_ok (incr_group_unread env m u)"
  "keepsP (stays_open r) (incr_group_unread env m u)"
  "shortP (push_group m q)" "keepsP registry_ok (push_group m q)" "keepsP (stays_open r) (push_group m q)"
  unfolding incr_group_unread_def push_group_def by (intro short_intros inv_intros)+

lemma good_group_handlers:
  assumes "env_short env"
  shows "good_handler (handleCreateGroup env)" "good_handler (handleJoinGroup env)"
    "good_handler (handleListGroups env)" "good_handler (handleGroupMessage env)"
  unfolding handleCreateGroup_def handleJoinGroup_def handleListGroups_def handleGroupMessage_def
  by (intro good_handlerI short_intros inv_intros assms; simp)+

section \<open>Delivery\<close>

text \<open>What the service relies on from the database, for a view \<open>off\<close> of the offline table.\<close>

definition group_storage :: "'d storage_ops \<Rightarrow> ('d \<Rightarrow> u64 \<Rightarrow> u64 \<Rightarrow> bool) \<Rightarrow> bool" where
  "group_storage st off \<longleftrightarrow>
     (\<forall>m us d m' d'. saveMessageWithOfflineRecipients st m us d = (Inr m', d') \<longrightarrow>
        mr_sender_id m' = mr_sender_id m \<and> mr_text m' = mr_text m \<and> (\<forall>u \<in> set us. off d' u (mr_message_id m')))"

lemma getSession_shrinks:
  "os_getSessionByUser v w = (res, w') \<Longrightarrow> map_of (sm_users (w_sessions w')) x = Some b \<Longrightarrow>
     map_of (sm_users (w_sessions w)) x = Some b"
  by (auto simp: os_getSessionByUser_def sessionsP_def sm_getSessionByUser_def eraseBindingLocked_def
      split: if_splits option.splits)

definition bound_open :: "('d, 'c) world \<Rightarrow> u64 \<Rightarrow> sref \<Rightarrow> bool" where
  "bound_open w u r \<longleftrightarrow> (\<exists>b. map_of (sm_users (w_sessions w)) u = Some b \<and> ub_session b = r) \<and> w_store w r \<noteq> None"

lemma split_members_Inr:
  assumes "split_members u ms a b w = (Inr (a', b'), w')"
  shows "w_store w' = w_store w \<and> w_db w' = w_db w \<and> set a \<subseteq> set a' \<and> set b \<subseteq> set b' \<and>
    (\<forall>m \<in> set ms. gm_user_id m \<noteq> u \<longrightarrow> gm_user_id m \<in> set b' \<or> (\<exists>r \<in> set a'. bound_open w (gm_user_id m) r))"
  using assms
proof (induction ms arbitrary: a b w)
  case (Cons m ms)
  show ?case
  proof (cases "gm_user_id m = u")
    case True
    with Cons.IH [of a b w] Cons.prems show ?thesis by auto
  next
    case False
    obtain res w1 where get: "os_getSessionByUser (gm_user_id m) w = (res, w1)" by force
    note g = getSession_state [OF get]
    have open_back: "bound_open w1 v r \<Longrightarrow> bound_open w v r" for v r
      using getSession_shrinks [OF get] g by (auto simp: bound_open_def)
    show ?thesis
    proof (cases res)
      case (Inl st)
      then have "split_members u ms a (b @ [gm_user_id m]) w1 = (Inr (a', b'), w')"
        using Cons.prems False get by (simp add: bindP_statusP split: if_splits)
      from Cons.IH [OF this] g show ?thesis by (auto; meson open_back)
    next
      case (Inr r)
      then have "split_members u ms (a @ [r]) b w1 = (Inr (a', b'), w')"
        using Cons.prems False get by (simp add: bindP_statusP)
      moreover have "bound_open w (gm_user_id m) r"
        using getSession_Inr(2,3) [OF get [unfolded Inr]] alive_the by (auto simp: bound_open_def)
      ultimately show ?thesis using Cons.IH [of "a @ [r]" b w1] g by (auto; meson open_back)
    qed
  qed
qed simp

lemma sendP_others:
  assumes "sendP r p w = (res, w')" "w_store w q = Some s"
  shows "\<exists>s'. w_store w' q = Some s' \<and> set (ss_tasks s) \<subseteq> set (ss_tasks s')"
  using assms
  by (auto simp: sendP_def store_send_def sendPacket_def session_close_def
      split: prod.splits option.splits sum.splits if_splits)

lemma sendP_data: "sendP r p w = (res, w') \<Longrightarrow> w_db w' = w_db w"
  by (auto simp: sendP_def split: prod.splits)

lemma push_group_Inr:
  assumes "push_group m r w = (Inr x, w')"
  shows "w_db w' = w_db w" "w_store w r \<noteq> None \<Longrightarrow> push_queued GroupMessagePush w' r m"
    "w_store w q = Some s \<Longrightarrow> \<exists>s'. w_store w' q = Some s' \<and> set (ss_tasks s) \<subseteq> set (ss_tasks s')"
proof -
  obtain bs where bs: "appendMessageFields m [] = Inr bs" and send: "sendP r (push_packet GroupMessagePush bs) w = (Inr x, w')"
    using assms unfolding push_group_def inr_simps by blast
  show "w_db w' = w_db w" by (rule sendP_data [OF send])
  show "push_queued GroupMessagePush w' r m" if "w_store w r \<noteq> None"
    using that sendP_queued [OF send] bs by (auto simp: push_queued_def push_packet_def)
  show "\<exists>s'. w_store w' q = Some s' \<and> set (ss_tasks s) \<subseteq> set (ss_tasks s')" if "w_store w q = Some s"
    by (rule sendP_others [OF send that])
qed

lemma push_queued_later:
  assumes "push_queued type w r m" "\<And>s. w_store w r = Some s \<Longrightarrow> \<exists>s'. w_store w' r = Some s' \<and> set (ss_tasks s) \<subseteq> set (ss_tasks s')"
  shows "push_queued type w' r m"
proof -
  obtain s bs where s: "w_store w r = Some s" "appendMessageFields m [] = Inr bs"
    "TaskSend (header_bytes (default_header\<lparr>msg_type := mt type, body_len := of_nat (length bs)\<rparr>) @ bs) \<in> set (ss_tasks s)"
    using assms(1) by (auto simp: push_queued_def)
  with assms(2) show ?thesis unfolding push_queued_def by blast
qed

lemma push_all_Inr:
  assumes "forP (push_group m) rs w = (Inr x, w')"
  shows "w_db w' = w_db w \<and> (\<forall>q s. w_store w q = Some s \<longrightarrow> (\<exists>s'. w_store w' q = Some s' \<and> set (ss_tasks s) \<subseteq> set (ss_tasks s'))) \<and>
    (\<forall>r \<in> set rs. w_store w r \<noteq> None \<longrightarrow> push_queued GroupMessagePush w' r m)"
  using assms
proof (induction rs arbitrary: w)
  case (Cons r rs)
  obtain y w1 where r: "push_group m r w = (Inr y, w1)" and rs: "forP (push_group m) rs w1 = (Inr x, w')"
    using Cons.prems by (auto simp: bindP_Inr)
  note IH = Cons.IH [OF rs] and p = push_group_Inr [OF r]
  have later: "\<exists>s'. w_store w' q = Some s' \<and> set (ss_tasks s) \<subseteq> set (ss_tasks s')" if "w_store w q = Some s" for q s
    using p(3) [OF that] IH by (meson order_trans)
  have "push_queued GroupMessagePush w' r m" if "w_store w r \<noteq> None"
    using push_queued_later [OF p(2) [OF that]] IH by blast
  moreover have "w_store w1 q \<noteq> None" if "w_store w q \<noteq> None" for q using p(3) that by fastforce
  ultimately show ?case using IH p(1) later by auto
qed simp

lemma incr_all_same:
  "forP (incr_group_unread env m) us w = (res, w') \<Longrightarrow> w_db w' = w_db w \<and> w_store w' = w_store w"
proof (induction us arbitrary: w)
  case (Cons u us)
  have "w_db (snd (incr_group_unread env m u w)) = w_db w \<and> w_store (snd (incr_group_unread env m u w)) = w_store w"
    "\<exists>x. fst (incr_group_unread env m u w) = Inr x"
    by (simp_all add: incr_group_unread_def bindP_apply cacheP_def split: prod.splits)
  with Cons.IH Cons.prems show ?case
    by (auto simp: bindP_apply split: prod.splits sum.splits)
qed simp

section \<open>Properties\<close>

lemma handleGroupMessage_Inr:
  assumes "registry_ok w" "handleGroupMessage env rq w = (Inr resp, w')"
  obtains u i t g ms d a b w1 saved w2 w3 where "logged_in rq w u" "getUint64 (rq_fields rq) (tlv TlvGroupId) = Inr i"
    "getString (rq_fields rq) (tlv TlvMessageText) = Inr t" "length t \<le> kMaxMessageTextBytes"
    "findGroupById (storage env) i (w_db w) = (Inr g, d)"
    "\<exists>d'. getGroupMembers (storage env) i d = (Inr ms, d') \<and> split_members u ms [] [] (w\<lparr>w_db := d'\<rparr>) = (Inr (a, b), w1)"
    "containsMember ms u"
    "dbP (saveMessageWithOfflineRecipients (storage env) (group_message_record (gr_group_id g) u t) b) w1 = (Inr saved, w2)"
    "\<exists>x. forP (incr_group_unread env saved) b w2 = (Inr x, w3)" "\<exists>x. forP (push_group saved) a w3 = (Inr x, w')"
    "appendMessageFields saved [] = Inr (body resp)"
  using assms(2) unfolding handleGroupMessage_def gate_Inr_iff [OF assms(1)] inr_simps
  by (elim exE conjE) (auto simp: bindP_Inr dbP_iff reply_def)


text \<open>
  Three members: 7 is the sender, 8 is online with a connection that accepts no output (its high water
  mark is below the size of any frame), 9 is online with a healthy connection.
\<close>

definition group_members :: "group_member_record list" where
  "group_members = map (\<lambda>u. \<lparr>gm_user_id = u, gm_username = ''u'', gm_nickname = ''u'', gm_joined_at_ms = 0\<rparr>) [7, 8, 9]"

text \<open>The database keeps the number of saved messages and the offline rows.\<close>

definition group_db :: "(nat \<times> (u64 \<times> u64) list) storage_ops" where
  "group_db = no_storage
     \<lparr>findGroupById := \<lambda>i. retP \<lparr>gr_group_id = i, gr_owner_id = 7, gr_group_name = ''g'', gr_created_at_ms = 0\<rparr>,
      getGroupMembers := \<lambda>i. retP group_members,
      saveMessageWithOfflineRecipients := \<lambda>m us d.
        (Inr (m\<lparr>mr_message_id := 1\<rparr>), (fst d + 1, map (\<lambda>u. (u, 1)) us @ snd d))\<rparr>"

definition group_request :: router_request where
  "group_request = \<lparr>rq_session = Some 0, rq_packet = default_packet,
     rq_fields = map_of_fields [(tlv TlvGroupId, appendUint64BE [] 5), (tlv TlvMessageText, bytes_of_string ''hi'')]\<rparr>"

definition group_world :: "nat \<Rightarrow> (nat \<times> (u64 \<times> u64) list, u64 \<Rightarrow> online_session option) world" where
  "group_world mark = \<lparr>w_db = (0, []), w_cache = Map.empty,
     w_sessions = \<lparr>sm_users = [(7, \<lparr>ub_session_id = 3, ub_session = 0\<rparr>), (8, \<lparr>ub_session_id = 4, ub_session = 2\<rparr>),
        (9, \<lparr>ub_session_id = 5, ub_session = 4\<rparr>)], sm_sessions = [(3, 7), (4, 8), (5, 9)]\<rparr>,
     w_store = [0 \<mapsto> new_session 3 [] 0, 2 \<mapsto> (new_session 4 [] 0)\<lparr>ss_high_water_mark := mark\<rparr>, 4 \<mapsto> new_session 5 [] 0]\<rparr>"

abbreviation group_saved :: message_record where
  "group_saved \<equiv> (group_message_record 5 7 ''hi'')\<lparr>mr_message_id := 1\<rparr>"

lemma group_body:
  obtains bs where "appendMessageFields group_saved [] = Inr bs" "length bs \<le> 8352"
proof -
  have "message_small group_saved" by (simp add: message_small_def group_message_record_def kMaxMessageTextBytes_def)
  with that show thesis using appendMessageFields_small by fastforce
qed

lemma group_user: "currentUserId group_request (group_world mark) = (Inr 7, group_world mark)"
  by (simp add: group_request_def currentUserId_eq login_lookup_def os_getUserBySession_def sessionsP_def
      sm_getUserBySession_def group_world_def)

lemma group_world_ok: "registry_ok (group_world mark)"
  by (auto simp: registry_ok_def group_world_def sm_inv_def sm_ids_def session_of_def user_of_def split: if_splits)

lemma group_split: "split_members 7 group_members [] [] (group_world mark) = (Inr ([2, 4], []), group_world mark)"
  by (simp add: group_members_def bindP_statusP os_getSessionByUser_def sessionsP_def sm_getSessionByUser_def group_world_def)

text \<open>The request up to the pushes.\<close>

lemma group_run:
  "handleGroupMessage (example_env group_db) group_request (group_world mark) =
     bindP (forP (push_group group_saved) [2, 4]) (\<lambda>_.
     bindP (liftP (appendMessageFields group_saved [])) (\<lambda>bs. retP (reply group_request GroupMessageResponse bs)))
       ((group_world mark)\<lparr>w_db := (1, [])\<rparr>)"
proof -
  have f: "getUint64 (rq_fields group_request) (tlv TlvGroupId) = Inr 5"
    "getString (rq_fields group_request) (tlv TlvMessageText) = Inr ''hi''"
    by (simp_all add: group_request_def getUint64_def getString_def)
  have m: "containsMember group_members 7" by (simp add: containsMember_def group_members_def)
  have db: "(group_world mark)\<lparr>w_db := (0, [])\<rparr> = group_world mark" "w_db (group_world mark) = (0, [])"
    by (simp_all add: group_world_def)
  show ?thesis
    unfolding handleGroupMessage_def
    by (simp add: bindP_apply group_user f validateMaxBytes_def kMaxMessageTextBytes_def dbP_def example_env_def group_db_def
        m db group_split del: forP.simps(2))
qed

lemma push_group_healthy:
  assumes "w_store w r = Some s" "\<not> ss_closed s" "9000 \<le> ss_high_water_mark s"
  shows "\<exists>w'. push_group group_saved r w = (Inr (), w') \<and> (\<forall>q. q \<noteq> r \<longrightarrow> w_store w' q = w_store w q)"
proof -
  obtain bs where bs: "appendMessageFields group_saved [] = Inr bs" "length bs \<le> 8352" by (rule group_body)
  have "fst (store_send False r (push_packet GroupMessagePush bs) (w_store w)) = status_ok"
    "q \<noteq> r \<Longrightarrow> snd (store_send False r (push_packet GroupMessagePush bs) (w_store w)) q = w_store w q" for q
    using store_send_off [of "w_store w" r s "push_packet GroupMessagePush bs"] assms bs(2)
    by (simp_all add: push_packet_def default_header_def)
  then show ?thesis
    using bs(1) by (cases "store_send False r (push_packet GroupMessagePush bs) (w_store w)")
      (simp add: push_group_def bindP_apply sendP_def)
qed

lemma push_group_refused:
  assumes "w_store w r = Some s" "\<not> ss_closed s" "ss_high_water_mark s = 1"
  shows "\<exists>st w'. push_group group_saved r w = (Inl st, w') \<and> code st = ResourceExhausted \<and> w_db w' = w_db w \<and>
    w_sessions w' = w_sessions w \<and> (\<forall>q. q \<noteq> r \<longrightarrow> w_store w' q = w_store w q)"
proof -
  obtain bs where bs: "appendMessageFields group_saved [] = Inr bs" "length bs \<le> 8352" by (rule group_body)
  have "\<exists>e. encodePacket (push_packet GroupMessagePush bs) = Inr e \<and> 1 < length e"
    using bs(2) by (simp add: encodePacket_Inr_iff push_packet_def default_header_def)
  then show ?thesis
    using bs(1) assms by (auto simp: push_group_def bindP_apply sendP_def store_send_def sendPacket_def session_close_def)
qed



end
