(* ===== verification/History_Service.thy ===== *)
theory History_Service
  imports Chat_Service Group_Service
begin

text \<open>
  Message history (\<open>src/service/HistoryService.cpp\<close>): building the query from the request, checking that
  the user takes part in the conversation, and answering with a page of messages. A private
  conversation is authorised by decoding its id, so the central theorem is that the decoder inverts the
  \<open>privateConversationId\<close> of \<open>ChatService.cpp\<close>: the participants it accepts are the two users of the id.
\<close>

section \<open>Conversations\<close>

definition toConversationType :: "u64 \<Rightarrow> conversation_type result" where
  "toConversationType raw =
     (if raw = conversation_type_value kPrivate then Inr kPrivate
      else if raw = conversation_type_value kGroup then Inr kGroup
      else err InvalidArgument ''conversation type is invalid'')"

definition history_containsMember :: "group_member_record list \<Rightarrow> u64 \<Rightarrow> bool" where
  "history_containsMember members user_id \<longleftrightarrow> list_ex (\<lambda>member. gm_user_id member = user_id) members"

text \<open>The result flag and the two output parameters.\<close>

definition decodePrivateConversationId :: "u64 \<Rightarrow> bool \<times> u64 \<times> u64" where
  "decodePrivateConversationId conversation_id =
     (if conversation_id = 0 then (False, 0, 0)
      else
        let small_max = kSmallUserIdConversationBase * kSmallUserIdConversationBase;
          (left_user_id, right_user_id) =
            (if conversation_id < small_max
             then (conversation_id div kSmallUserIdConversationBase, conversation_id mod kSmallUserIdConversationBase)
             else (drop_bit 32 conversation_id, conversation_id AND 0xFFFFFFFF))
        in (left_user_id \<noteq> 0 \<and> right_user_id \<noteq> 0 \<and> left_user_id \<noteq> right_user_id, left_user_id, right_user_id))"

definition isPrivateConversationMember :: "u64 \<Rightarrow> u64 \<Rightarrow> bool" where
  "isPrivateConversationMember user_id conversation_id =
     (let (ok, left_user_id, right_user_id) = decodePrivateConversationId conversation_id in
      if \<not> ok then False else user_id = left_user_id \<or> user_id = right_user_id)"

section \<open>Options, query and handler\<close>

definition kHardMaxHistoryLimit :: u32 where
  "kHardMaxHistoryLimit = 50"

record history_options =
  ho_default_limit :: u32
  ho_max_limit :: u32

definition default_history_options :: history_options where
  "default_history_options = \<lparr>ho_default_limit = 20, ho_max_limit = 50\<rparr>"

text \<open>The constructor throws on these options.\<close>

definition history_options_error :: "history_options \<Rightarrow> string option" where
  "history_options_error opts =
     (if ho_max_limit opts = 0 \<or> ho_max_limit opts > kHardMaxHistoryLimit \<or> ho_default_limit opts = 0 \<or>
         ho_default_limit opts > ho_max_limit opts
      then Some ''history limits must satisfy 1 <= default <= max <= 50'' else None)"

definition history_limit :: "history_options \<Rightarrow> router_request \<Rightarrow> u32 result" where
  "history_limit opts rq =
     (if rq_fields rq (tlv TlvLimit) \<noteq> None
      then bindR (getUint64 (rq_fields rq) (tlv TlvLimit)) (\<lambda>requested_limit.
        if requested_limit = 0 then err InvalidArgument ''history limit must be positive''
        else Inr (if requested_limit > ucast (ho_max_limit opts) then ho_max_limit opts else ucast requested_limit))
      else Inr (ho_default_limit opts))"

definition buildQuery :: "history_options \<Rightarrow> router_request \<Rightarrow> history_query result" where
  "buildQuery opts rq =
     bindR (getUint64 (rq_fields rq) (tlv TlvConversationType)) (\<lambda>raw_type.
     bindR (toConversationType raw_type) (\<lambda>type.
     bindR (getUint64 (rq_fields rq) (tlv TlvConversationId)) (\<lambda>conversation_id.
     if conversation_id = 0 then err InvalidArgument ''conversation id must be positive''
     else
       bindR (if rq_fields rq (tlv TlvMessageId) \<noteq> None then getUint64 (rq_fields rq) (tlv TlvMessageId)
              else Inr 0) (\<lambda>before_message_id.
       bindR (history_limit opts rq) (\<lambda>limit.
       Inr \<lparr>hq_conversation = \<lparr>ck_type = type, ck_id = conversation_id\<rparr>,
            hq_before_message_id = before_message_id, hq_limit = limit\<rparr>)))))"

definition notConversationMemberStatus :: status where
  "notConversationMemberStatus = status_error InvalidArgument ''user is not a conversation member''"

definition authorizeQuery :: "('d, 'c) service_env \<Rightarrow> u64 \<Rightarrow> history_query \<Rightarrow> ('d, 'c, unit) service" where
  "authorizeQuery env user_id query =
     (if ck_type (hq_conversation query) = kPrivate
      then if \<not> isPrivateConversationMember user_id (ck_id (hq_conversation query))
           then failP notConversationMemberStatus else retP ()
      else
        bindP (dbP (findGroupById (storage env) (ck_id (hq_conversation query)))) (\<lambda>_.
        bindP (dbP (getGroupMembers (storage env) (ck_id (hq_conversation query)))) (\<lambda>members.
        if \<not> history_containsMember members user_id then failP notConversationMemberStatus else retP ())))"

fun history_appendMessages :: "message_record list \<Rightarrow> bytes \<Rightarrow> bytes result" where
  "history_appendMessages [] out = Inr out"
| "history_appendMessages (m # ms) out = bindR (appendMessageFields m out) (\<lambda>out. history_appendMessages ms out)"

definition handleHistory ::
  "history_options \<Rightarrow> ('d, 'c) service_env \<Rightarrow> router_request \<Rightarrow> ('d, 'c, packet) service" where
  "handleHistory opts env rq =
     bindP (currentUserId rq) (\<lambda>user_id.
     bindP (liftP (buildQuery opts rq)) (\<lambda>query.
     bindP (authorizeQuery env user_id query) (\<lambda>_.
     bindP (dbP (getHistory (storage env) query)) (\<lambda>messages.
     bindP (liftP (history_appendMessages messages [])) (\<lambda>bs.
     retP (reply rq HistoryResponse bs))))))"

definition history_registerHandlers ::
  "history_options \<Rightarrow> ('d, 'c) service_env \<Rightarrow> ('d, 'c) handlers \<Rightarrow> status \<times> ('d, 'c) handlers" where
  "history_registerHandlers opts env = register_chain [(HistoryRequest, as_handler (handleHistory opts env))]"

section \<open>Handler rules\<close>

lemma short_history [short_intros]:
  "shortR (buildQuery opts rq)" "shortR (history_appendMessages ms out)"
proof -
  show "shortR (buildQuery opts rq)"
    by (auto simp: buildQuery_def history_limit_def toConversationType_def intro!: shortR_bindR short_get)
  show "shortR (history_appendMessages ms out)"
    by (induction ms arbitrary: out) (simp_all add: shortR_bindR short_appendMessageFields)
qed

lemma short_authorizeQuery [short_intros]: "env_short env \<Longrightarrow> shortP (authorizeQuery env u q)"
  unfolding authorizeQuery_def notConversationMemberStatus_def by (intro short_intros; simp)

lemma keeps_authorizeQuery [inv_intros]:
  "keepsP registry_ok (authorizeQuery env u q)" "keepsP (stays_open r) (authorizeQuery env u q)"
  unfolding authorizeQuery_def by (intro inv_intros; simp)+

lemma good_handleHistory: "env_short env \<Longrightarrow> good_handler (handleHistory opts env)"
  unfolding handleHistory_def by (intro good_handlerI short_intros inv_intros; simp)

section \<open>Decoding conversation ids\<close>

lemma decode_small:
  assumes "(l :: u64) < 10000" "(r :: u64) < 10000"
  shows "(l * 10000 + r) div 10000 = l" "(l * 10000 + r) mod 10000 = r" "l * 10000 + r < 100000000"
proof -
  have lr: "unat l < 10000" "unat r < 10000" using assms by (simp_all add: word_less_nat_alt)
  then have "unat l * 10000 + unat r < 100000000" by simp
  then have i: "unat (l * 10000 + r) = unat l * 10000 + unat r" by (simp add: unat_word_ariths)
  show "(l * 10000 + r) div 10000 = l" using lr i by (simp add: word_unat_eq_iff unat_div_distrib)
  show "(l * 10000 + r) mod 10000 = r" using lr i by (simp add: word_unat_eq_iff unat_mod_distrib)
  show "l * 10000 + r < 100000000" using lr i by (simp add: word_less_nat_alt)
qed

lemma low_half: "(r :: u64) \<le> 0xFFFFFFFF \<Longrightarrow> take_bit 32 r = r"
proof -
  assume "r \<le> 0xFFFFFFFF"
  then have "unat r < 2 ^ 32" by (simp add: word_le_nat_alt)
  then show ?thesis by (simp add: word_unat_eq_iff unsigned_take_bit_eq take_bit_nat_eq_self)
qed

lemma decode_large:
  assumes "(l :: u64) \<le> 0xFFFFFFFF" "(r :: u64) \<le> 0xFFFFFFFF"
  shows "drop_bit 32 (push_bit 32 l OR r) = l" "(push_bit 32 l OR r) AND 0xFFFFFFFF = r"
proof -
  have "drop_bit 32 (push_bit 32 (take_bit 32 l) OR take_bit 32 r) = take_bit 32 l"
    by (rule bit_word_eqI) (auto simp: bit_simps)
  then show "drop_bit 32 (push_bit 32 l OR r) = l" by (simp add: low_half assms)
  have "(push_bit 32 l OR take_bit 32 r) AND mask 32 = take_bit 32 r"
    by (rule bit_word_eqI) (auto simp: bit_simps)
  then show "(push_bit 32 l OR r) AND 0xFFFFFFFF = r" by (simp add: low_half assms mask_eq_exp_minus_1)
qed

lemma large_not_small:
  assumes "(l :: u64) \<noteq> 0" "l \<le> 0xFFFFFFFF" "(r :: u64) \<le> 0xFFFFFFFF"
  shows "\<not> push_bit 32 l OR r < 100000000"
proof
  assume "push_bit 32 l OR r < 100000000"
  then have "unat (push_bit 32 l OR r) < 2 ^ 32" by (simp add: word_less_nat_alt)
  then have "unat (drop_bit 32 (push_bit 32 l OR r)) = 0" by (simp add: drop_bit_eq_div unat_div_distrib)
  with decode_large(1) [OF assms(2,3)] assms(1) show False by (simp add: unat_eq_zero)
qed

lemma decode_privateConversationId:
  assumes "privateConversationId a b = Inr i"
  shows "decodePrivateConversationId i = (True, min a b, max a b)"
proof -
  let ?l = "min a b" and ?r = "max a b"
  have ab: "a \<noteq> 0" "b \<noteq> 0" "a \<noteq> b" using assms by (auto simp: privateConversationId_def split: if_splits)
  then have lr: "?l \<noteq> 0" "?r \<noteq> 0" "?l \<noteq> ?r" by (auto simp: min_def max_def)
  show ?thesis
  proof (cases "?l < 10000 \<and> ?r < 10000")
    case True
    then have i: "i = ?l * 10000 + ?r"
      using assms ab by (simp add: privateConversationId_def kSmallUserIdConversationBase_def Let_def)
    note d = decode_small [of ?l ?r]
    have "i \<noteq> 0" using d(2) True lr(2) unfolding i by force
    then show ?thesis
      using d True lr unfolding i by (simp add: decodePrivateConversationId_def kSmallUserIdConversationBase_def Let_def)
  next
    case False
    then have i: "i = push_bit 32 ?l OR ?r" and r: "?r \<le> 0xFFFFFFFF"
      using assms ab by (auto simp: privateConversationId_def kSmallUserIdConversationBase_def Let_def not_less split: if_splits)
    have l: "?l \<le> 0xFFFFFFFF" using r by (simp add: min_def)
    note d = decode_large [OF l r] large_not_small [OF lr(1) l r]
    have "i \<noteq> 0" using d(3) unfolding i by auto
    then show ?thesis
      using d lr unfolding i by (simp add: decodePrivateConversationId_def kSmallUserIdConversationBase_def Let_def)
  qed
qed

section \<open>Lemmas\<close>

lemma history_append_args: "history_appendMessages ms out = appendFields (page_args ms) out"
  by (induction ms arbitrary: out)
    (auto simp: appendFields_append appendMessageFields_args bindR_def split: sum.splits)

lemma history_limit_bounds:
  assumes "history_limit opts rq = Inr n" "history_options_error opts = None"
  shows "1 \<le> unat n" "unat n \<le> 50"
proof -
  let ?m = "ho_max_limit opts"
  have m: "?m \<le> 50" "?m \<noteq> 0" "ho_default_limit opts \<noteq> 0" "ho_default_limit opts \<le> ?m"
    using assms(2) by (auto simp: history_options_error_def kHardMaxHistoryLimit_def split: if_splits)
  have "n \<noteq> 0 \<and> n \<le> ?m"
  proof (cases "\<exists>r :: u64. r \<noteq> 0 \<and> \<not> r > ucast ?m \<and> n = ucast r")
    case True
    then obtain r :: u64 where r: "r \<noteq> 0" "r \<le> ucast ?m" "n = ucast r" by auto
    have le: "unat r \<le> unat ?m" using r(2) by (simp add: word_le_nat_alt unat_widen)
    then have "unat n = unat r" using unat_narrow r(3) by simp
    with le r(1) show ?thesis by (metis unat_eq_zero unat_0 word_le_nat_alt)
  next
    case False
    with assms(1) m show ?thesis by (auto simp: history_limit_def bindR_eq_Inr split: if_splits)
  qed
  then have n: "unat n \<noteq> 0" "n \<le> 50" using m(1) by (auto simp: unat_eq_zero)
  from n show "1 \<le> unat n" "unat n \<le> 50" by (auto simp: word_le_nat_alt)
qed

definition takes_part :: "('d, 'c) service_env \<Rightarrow> 'd \<Rightarrow> u64 \<Rightarrow> conversation_key \<Rightarrow> bool" where
  "takes_part env d u c \<longleftrightarrow> (case ck_type c of
      kPrivate \<Rightarrow> isPrivateConversationMember u (ck_id c)
    | kGroup \<Rightarrow> (\<exists>g d1 ms d2. findGroupById (storage env) (ck_id c) d = (Inr g, d1) \<and>
        getGroupMembers (storage env) (ck_id c) d1 = (Inr ms, d2) \<and> u \<in> gm_user_id ` set ms))"

lemma authorizeQuery_Inr:
  assumes "authorizeQuery env u q w = (Inr x, w')"
  shows "takes_part env (w_db w) u (hq_conversation q)"
  using assms
  by (cases "ck_type (hq_conversation q)")
    (auto simp: authorizeQuery_def takes_part_def inr_simps history_containsMember_def list_ex_iff bindP_Inr dbP_iff
      split: if_splits)

lemma buildQuery_limit: "buildQuery opts rq = Inr q \<Longrightarrow> history_limit opts rq = Inr (hq_limit q)"
  by (auto simp: buildQuery_def bindR_eq_Inr split: if_splits)

section \<open>Properties\<close>

text \<open>
  C13. Private conversation ids are unambiguous: whenever \<open>privateConversationId\<close> of the chat service gives
  an id to two users, \<open>isPrivateConversationMember\<close> of the history service accepts exactly these two users
  for it, in both of the id's layouts, and no other pair of users has the same id.
\<close>

theorem private_conversation_participants:
  assumes "privateConversationId a b = Inr i"
  shows "(isPrivateConversationMember u i \<longleftrightarrow> u = a \<or> u = b) \<and>
    (privateConversationId c d = Inr i \<longrightarrow> {c, d} = {a, b})"
proof
  note ab = decode_privateConversationId [OF assms]
  show "isPrivateConversationMember u i \<longleftrightarrow> u = a \<or> u = b"
    using ab by (auto simp: isPrivateConversationMember_def min_def max_def)
  show "privateConversationId c d = Inr i \<longrightarrow> {c, d} = {a, b}"
    using ab decode_privateConversationId [of c d i] by (auto simp: min_def max_def split: if_splits)
qed

text \<open>
  What a history page relies on: the database returns at most as many messages as the query's limit,
  and stored messages have texts and client ids of validated size.
\<close>

definition history_storage :: "'d storage_ops \<Rightarrow> bool" where
  "history_storage st \<longleftrightarrow> (\<forall>q d ms d'. getHistory st q d = (Inr ms, d') \<longrightarrow>
     length ms \<le> unat (hq_limit q) \<and> list_all message_small ms)"

text \<open>
  C14. History is shown to participants only: when \<open>handleHistory\<close> succeeds, the user is logged in on the
  session and takes part in the conversation asked for, the database was asked for between 1 and 50
  messages of that conversation, and the response encodes as one packet whose body parses to exactly
  the messages it returned, in order.
\<close>

theorem history_authorised:
  assumes "registry_ok w" and "history_options_error opts = None" and "history_storage (storage env)"
    and "handleHistory opts env rq w = (Inr resp, w')"
  shows "\<exists>u q ms d out. logged_in rq w u \<and> buildQuery opts rq = Inr q \<and> takes_part env (w_db w) u (hq_conversation q) \<and>
    1 \<le> unat (hq_limit q) \<and> unat (hq_limit q) \<le> 50 \<and> getHistory (storage env) q d = (Inr ms, w_db w') \<and>
    encodePacket resp = Inr out \<and> page_read (body resp) ms"
proof -
  obtain u q x w1 ms d bs where u: "logged_in rq w u" and q: "buildQuery opts rq = Inr q"
    and auth: "authorizeQuery env u q w = (Inr x, w1)" and ms: "getHistory (storage env) q (w_db w1) = (Inr ms, d)"
    and bs: "history_appendMessages ms [] = Inr bs" and resp: "resp = reply rq HistoryResponse bs" "w' = w1\<lparr>w_db := d\<rparr>"
    using assms(4) unfolding handleHistory_def gate_Inr_iff [OF assms(1)] by (auto simp: bindP_Inr dbP_iff)
  note n = history_limit_bounds [OF buildQuery_limit [OF q] assms(2)]
  have page: "length ms \<le> unat (hq_limit q)" "list_all message_small ms"
    using assms(3) ms unfolding history_storage_def by fastforce+
  have "length bs \<le> 8352 * length ms"
    using page_body [OF page(2), of "[]"] bs by (auto simp: history_append_args)
  then have "length bs \<le> 1048576" using page(1) n(2) by linarith
  then obtain out where "encodePacket resp = Inr out" using reply_fits resp(1) by blast
  moreover have "page_read (body resp) ms"
    using page_readI bs resp(1) by (simp add: history_append_args reply_def)
  moreover have "getHistory (storage env) q (w_db w1) = (Inr ms, w_db w')" using ms resp(2) by simp
  ultimately show ?thesis using u q n authorizeQuery_Inr [OF auth] by blast
qed

section \<open>Witnesses\<close>

theorem private_conversation_participants_witness:
  "privateConversationId 9 7 = Inr 70009 \<and> isPrivateConversationMember 9 70009 \<and> \<not> isPrivateConversationMember 8 70009"
proof (intro conjI)
  show i: "privateConversationId 9 7 = Inr 70009"
    by (simp add: privateConversationId_def kSmallUserIdConversationBase_def min_def max_def Let_def)
  note part = conjunct1 [OF private_conversation_participants [OF i, where c = 9 and d = 7]]
  show "isPrivateConversationMember 9 70009" unfolding part by simp
  show "\<not> isPrivateConversationMember 8 70009" unfolding part by simp
qed

definition history_db :: "message_record list storage_ops" where
  "history_db = no_storage\<lparr>getHistory := \<lambda>q d. (Inr (take (unat (hq_limit q)) (filter message_small d)), d)\<rparr>"

definition history_request :: router_request where
  "history_request = \<lparr>rq_session = Some 0, rq_packet = default_packet,
     rq_fields = map_of_fields [(tlv TlvConversationType, appendUint64BE [] 1), (tlv TlvConversationId, appendUint64BE [] 70009)]\<rparr>"

lemma history_example_query:
  "buildQuery default_history_options history_request =
     Inr \<lparr>hq_conversation = \<lparr>ck_type = kPrivate, ck_id = 70009\<rparr>, hq_before_message_id = 0, hq_limit = 20\<rparr>"
  by (simp add: buildQuery_def history_limit_def toConversationType_def history_request_def default_history_options_def
      getUint64_def map_of_fields_def)

abbreviation history_example :: message_record where
  "history_example \<equiv> private_record 70009 9 7 ''hi'' []"

lemma history_example_run:
  "\<exists>resp. handleHistory default_history_options (example_env history_db) history_request (example_world [history_example]) =
     (Inr resp, example_world [history_example])"
proof -
  let ?w = "example_world [history_example]"
  have m: "message_small history_example"
    by (simp add: message_small_def private_record_def kMaxMessageTextBytes_def)
  then obtain bs where bs: "appendMessageFields history_example [] = Inr bs"
    using appendMessageFields_small by fastforce
  have part: "isPrivateConversationMember 7 70009"
    by (simp add: isPrivateConversationMember_def decodePrivateConversationId_def kSmallUserIdConversationBase_def Let_def)
  have user: "currentUserId history_request ?w = (Inr 7, ?w)"
    by (rule example_user_seven) (simp add: history_request_def)
  have "dbP (getHistory (storage (example_env history_db)) \<lparr>hq_conversation = \<lparr>ck_type = kPrivate, ck_id = 70009\<rparr>,
    hq_before_message_id = 0, hq_limit = 20\<rparr>) ?w = (Inr [history_example], ?w)"
    using m by (simp add: dbP_def history_db_def example_env_def example_world_def)
  with user part bs show ?thesis
    by (simp add: handleHistory_def bindP_apply history_example_query authorizeQuery_def)
qed

theorem history_authorised_witness:
  "\<exists>resp w' out. handleHistory default_history_options (example_env history_db) history_request
       (example_world [history_example]) = (Inr resp, w') \<and> encodePacket resp = Inr out"
proof -
  have opts: "history_options_error default_history_options = None"
    by (simp add: history_options_error_def default_history_options_def kHardMaxHistoryLimit_def)
  have st: "history_storage (storage (example_env history_db))"
    by (auto simp: history_storage_def example_env_def history_db_def list_all_iff dest: in_set_takeD)
  obtain resp where run: "handleHistory default_history_options (example_env history_db) history_request
    (example_world [history_example]) = (Inr resp, example_world [history_example])"
    using history_example_run by blast
  from history_authorised [OF example_registry_ok opts st run] run show ?thesis by blast
qed

end
