(* ===== verification/Server_Main.thy ===== *)
theory Server_Main
  imports Auth_Service Friend_Service Offline_Service History_Service
begin

text \<open>
  The assembly of the server (\<open>server/main.cpp\<close>): the services are built with their default options and
  register their handlers with one router, and the close callback of a session submits the cleanup of
  its binding to the business pool. Starting and stopping the pools, the signal watcher, the logger and
  the event loop are not part of this theory. The theorems: every request type of the protocol has a
  handler, no handler but those for accounts and heartbeats does anything for a session without login, and the
  binding registry stays consistent under every interleaving of requests, cleanups and network events.
\<close>

section \<open>Registration\<close>

definition server_env :: "'d storage_ops \<Rightarrow> 'c cache_ops \<Rightarrow> ('d, 'c) service_env" where
  "server_env st ca = \<lparr>storage = st, cache = ca, server_id = ''liteim-server'', online_ttl = 60\<rparr>"

text \<open>\<open>main\<close> ends with exit code 1 at the first registration that fails.\<close>

definition register_services ::
  "crypto \<Rightarrow> ('d, 'c) service_env \<Rightarrow> ('d, 'c) handlers \<Rightarrow> status \<times> ('d, 'c) handlers" where
  "register_services cr env router =
     (let (heartbeat_status, router) = heartbeat_registerHandlers env router in
      if \<not> isOk heartbeat_status then (heartbeat_status, router) else
      let (auth_status, router) = auth_registerHandlers cr default_auth_options env router in
      if \<not> isOk auth_status then (auth_status, router) else
      let (friend_status, router) = friend_registerHandlers env router in
      if \<not> isOk friend_status then (friend_status, router) else
      let (chat_status, router) = chat_registerHandlers env router in
      if \<not> isOk chat_status then (chat_status, router) else
      let (offline_status, router) = offline_registerHandlers default_offline_options env router in
      if \<not> isOk offline_status then (offline_status, router) else
      let (group_status, router) = group_registerHandlers env router in
      if \<not> isOk group_status then (group_status, router) else
      history_registerHandlers default_history_options env router)"

section \<open>Session close callback\<close>

text \<open>The task captures the session id; a refused submission is only logged.\<close>

definition session_close_callback :: "u64 \<Rightarrow> u64 thread_pool \<Rightarrow> u64 thread_pool" where
  "session_close_callback session_id business_pool = snd (tp_submit (Some session_id) business_pool)"

definition run_close_cleanup :: "('d, 'c) service_env \<Rightarrow> u64 \<Rightarrow> ('d, 'c) world \<Rightarrow> ('d, 'c) world" where
  "run_close_cleanup env session_id w = snd (os_unbindSession env session_id w)"

section \<open>The table\<close>

text \<open>The handlers of the assembled server, by request.\<close>

fun server_handler ::
  "crypto \<Rightarrow> ('d, 'c) service_env \<Rightarrow> message_name \<Rightarrow> (router_request \<Rightarrow> ('d, 'c, packet) service) option" where
  "server_handler cr env HeartbeatRequest = Some (handleHeartbeat env)"
| "server_handler cr env RegisterRequest = Some (handleRegister cr env)"
| "server_handler cr env LoginRequest = Some (handleLogin cr default_auth_options env)"
| "server_handler cr env LogoutRequest = Some (handleLogout env)"
| "server_handler cr env AddFriendRequest = Some (handleAddFriend env)"
| "server_handler cr env AcceptFriendRequest = Some (handleAcceptFriend env)"
| "server_handler cr env RejectFriendRequest = Some (handleRejectFriend env)"
| "server_handler cr env ListFriendsRequest = Some (handleListFriends env)"
| "server_handler cr env PrivateMessageRequest = Some (handlePrivateMessage env)"
| "server_handler cr env DeliveryAckRequest = Some (handleDeliveryAck env)"
| "server_handler cr env OfflineMessagesRequest = Some (handleOfflineMessages default_offline_options env)"
| "server_handler cr env OfflineMessagesAckRequest = Some (handleOfflineMessagesAck env)"
| "server_handler cr env CreateGroupRequest = Some (handleCreateGroup env)"
| "server_handler cr env JoinGroupRequest = Some (handleJoinGroup env)"
| "server_handler cr env ListGroupsRequest = Some (handleListGroups env)"
| "server_handler cr env GroupMessageRequest = Some (handleGroupMessage env)"
| "server_handler cr env HistoryRequest = Some (handleHistory default_history_options env)"
| "server_handler cr env _ = None"

lemmas registrations = heartbeat_registerHandlers_def auth_registerHandlers_def friend_registerHandlers_def
  chat_registerHandlers_def offline_registerHandlers_def group_registerHandlers_def history_registerHandlers_def

lemma register_services_ok:
  "fst (register_services cr env hs) = status_ok"
  by (simp add: register_services_def registrations registerHandler_request)

lemma server_handler_request: "request_name t \<longleftrightarrow> (\<exists>f. server_handler cr env t = Some f)"
  by (cases t) simp_all

lemma server_table:
  "server_handler cr env t = Some f \<Longrightarrow>
     map_of (snd (register_services cr env hs)) (mt t) = Some \<lparr>he_handler = as_handler f, he_mode = BusinessThread\<rparr>"
  by (cases t) (simp_all add: register_services_def registrations registerHandler_request mt_inject)

lemmas good_handlers = good_handleHeartbeat good_handleRegister good_handleLogin good_handleLogout
  good_friend_handlers good_handlePrivateMessage good_handleDeliveryAck good_offline_handlers good_group_handlers
  good_handleHistory

lemma server_handler_good: "env_short env \<Longrightarrow> server_handler cr env t = Some f \<Longrightarrow> good_handler f"
  by (cases t) (auto simp: good_handlers)

lemma server_keys: "map_of (snd (register_services cr env new_router)) k = Some e \<Longrightarrow> \<exists>t. k = mt t \<and> request_name t"
  by (simp add: register_services_def registrations registerHandler_request new_router_def split: if_splits)

lemma server_distinct: "distinct (al_keys (snd (register_services cr env new_router)))"
  by (simp add: register_services_def registrations registerHandler_request new_router_def)

lemma server_entry:
  assumes "(k, e) \<in> set (snd (register_services cr env new_router))"
  obtains t f where "server_handler cr env t = Some f" "e = \<lparr>he_handler = as_handler f, he_mode = BusinessThread\<rparr>"
proof -
  have k: "map_of (snd (register_services cr env new_router)) k = Some e"
    using map_of_is_SomeI [OF server_distinct assms] .
  then obtain t where t: "k = mt t" "request_name t" using server_keys by blast
  then obtain f where "server_handler cr env t = Some f" using server_handler_request by blast
  with that server_table k t(1) show thesis by (metis option.inject)
qed

text \<open>Which handlers ask for a login first.\<close>

definition needs_login :: "message_name \<Rightarrow> bool" where
  "needs_login t \<longleftrightarrow> request_name t \<and> t \<notin> {HeartbeatRequest, RegisterRequest, LoginRequest, LogoutRequest}"

lemma gated_handler:
  assumes "needs_login t" "server_handler cr env t = Some f"
  shows "(\<exists>g. f rq = bindP (currentUserId rq) g) \<or> (\<exists>g. f rq = bindP (offline_currentUserId rq) g)"
  using assms unfolding needs_login_def
  by (cases t)
    (auto simp: handleAddFriend_def handleAcceptFriend_def handleRejectFriend_def handleListFriends_def
      handlePrivateMessage_def handleDeliveryAck_def handleOfflineMessages_def handleOfflineMessagesAck_def
      handleCreateGroup_def handleJoinGroup_def handleListGroups_def handleGroupMessage_def handleHistory_def)

section \<open>The running server\<close>

text \<open>
  A step of the server on the shared world: a handler of the table runs for some request, on a
  business thread or inline; the cleanup of a closed session runs; or the network changes the sessions.
\<close>

inductive server_step :: "crypto \<Rightarrow> ('d, 'c) service_env \<Rightarrow> ('d, 'c) world \<Rightarrow> ('d, 'c) world \<Rightarrow> bool"
  for cr env where
  request: "(k, e) \<in> set (snd (register_services cr env new_router)) \<Longrightarrow>
    server_step cr env w (executeHandler in_loop (he_handler e) rq w)"
| cleanup: "server_step cr env w (run_close_cleanup env i w)"
| network: "server_step cr env w (w\<lparr>w_store := h\<rparr>)"

definition initial_world :: "'d \<Rightarrow> 'c \<Rightarrow> ('d, 'c) world" where
  "initial_world d c = \<lparr>w_db = d, w_cache = c, w_sessions = new_session_manager, w_store = Map.empty\<rparr>"

lemma executeHandler_sessions:
  "w_sessions (executeHandler il f rq w) = w_sessions w \<or> w_sessions (executeHandler il f rq w) = w_sessions (snd (f rq w))"
  by (auto simp: executeHandler_def sendError_def sendResponse_def Let_def
      split: prod.splits outcome.splits sum.splits option.splits)

lemma server_step_registry:
  assumes "server_step cr env w w'" "env_short env" "registry_ok w"
  shows "registry_ok w'"
  using assms(1)
proof cases
  case (request k e il rq)
  obtain t f where f: "server_handler cr env t = Some f" "he_handler e = as_handler f"
    using server_entry [OF request(2)] by (metis handler_entry.select_convs(1))
  have "registry_ok (snd (f rq w))"
    using server_handler_good [OF assms(2) f(1)] keepsPD [of registry_ok "f rq" w] assms(3) by (simp add: good_handler_def)
  moreover have "snd (as_handler f rq w) = snd (f rq w)" by (simp add: as_handler_def split: prod.splits)
  ultimately show ?thesis
    using executeHandler_sessions [of il "he_handler e" rq w] assms(3) f(2) request(1) by (auto simp: registry_ok_def)
next
  case (cleanup i)
  then show ?thesis using keepsPD [OF registry_os_unbindSession assms(3)] by (simp add: run_close_cleanup_def)
next
  case (network h)
  with assms(3) show ?thesis by (simp add: registry_ok_def)
qed

section \<open>Properties\<close>


text \<open>
  C9. Without a login nothing happens: every request but heartbeat, register, login and logout, sent on
  a session with no user, is refused by the handler of the assembled server, and the database, the
  cache and all connections are as before.
\<close>

theorem server_requires_login:
  assumes "registry_ok w" and "needs_login t" and "\<forall>u. \<not> logged_in rq w u"
    and "map_of (snd (register_services cr env new_router)) (mt t) = Some e"
    and "he_handler e rq w = (out, w')"
  shows "(\<exists>st. out = Returned (Inl st)) \<and> same_data w w'"
proof -
  obtain f where f: "server_handler cr env t = Some f"
    using assms(2) server_handler_request unfolding needs_login_def by blast
  have e: "he_handler e = as_handler f" using server_table [OF f] assms(4) by auto
  obtain res where res: "f rq w = (res, w')" "out = Returned res"
    using assms(5) e by (auto simp: as_handler_def split: prod.splits)
  have inv: "sm_inv (w_sessions w)" using assms(1) by (simp add: registry_ok_def)
  have "(\<exists>st. res = Inl st) \<and> same_data w w'"
    using gated_handler [OF assms(2) f, of rq] gate.guarded_not_logged_in [OF inv assms(3)]
      offline_gate.guarded_not_logged_in [OF inv assms(3)] res(1) by metis
  with res(2) show ?thesis by blast
qed

text \<open>
  C17. The registry of logins stays consistent for the life of the server: in every world reached from the
  start by any interleaving of requests, cleanups of closed sessions and network events, users and
  sessions are bound one to one.
\<close>

theorem server_registry_invariant:
  assumes "env_short env" and "(server_step cr env)\<^sup>*\<^sup>* (initial_world d c) w"
  shows "registry_ok w"
  using assms(2)
proof (induction rule: rtranclp_induct)
  case base
  show ?case
    by (simp add: registry_ok_def initial_world_def sm_inv_new) (simp add: sm_ids_def new_session_manager_def session_of_def)
next
  case (step w w')
  then show ?case using server_step_registry [OF _ assms(1)] by blast
qed

section \<open>Witnesses\<close>
lemma example_env_short: "env_short (example_env (no_storage :: unit storage_ops))"
  by (auto simp: env_short_def example_env_def storage_short_def cache_short_def no_storage_def map_cache_def down_def
      shortP_def short_status_def split: option.splits)


definition stranger_request :: router_request where
  "stranger_request = \<lparr>rq_session = Some 1, rq_packet = default_packet, rq_fields = Map.empty\<rparr>"

theorem server_requires_login_witness:
  "\<exists>st w'. as_handler (handleListGroups (example_env no_storage)) stranger_request (example_world ()) = (Returned (Inl st), w') \<and>
     same_data (example_world ()) w'"
proof -
  let ?f = "handleListGroups (example_env no_storage) :: router_request \<Rightarrow> (unit, u64 \<Rightarrow> online_session option, packet) service"
  obtain out w' where run: "as_handler ?f stranger_request (example_world ()) = (out, w')" by force
  have e: "map_of (snd (register_services example_crypto (example_env no_storage) new_router)) (mt ListGroupsRequest) =
    Some \<lparr>he_handler = as_handler ?f, he_mode = BusinessThread\<rparr>"
    by (rule server_table) simp
  have gated: "needs_login ListGroupsRequest" by (simp add: needs_login_def)
  have nobody: "\<forall>u. \<not> logged_in stranger_request (example_world ()) u"
    by (simp add: logged_in_def stranger_request_def example_world_def example_manager_def example_store_def user_of_def
        new_session_def)
  have "(\<exists>st. out = Returned (Inl st)) \<and> same_data (example_world ()) w'"
    by (rule server_requires_login [OF example_registry_ok gated nobody e]) (simp add: run)
  with run show ?thesis by blast
qed

theorem server_registry_invariant_witness:
  "registry_ok (run_close_cleanup (example_env (no_storage :: unit storage_ops)) 3 (initial_world () Map.empty))"
proof (rule server_registry_invariant [OF example_env_short])
  show "(server_step example_crypto (example_env no_storage))\<^sup>*\<^sup>* (initial_world () Map.empty)
    (run_close_cleanup (example_env no_storage) 3 (initial_world () Map.empty))"
    by (rule r_into_rtranclp) (rule server_step.cleanup)
qed

end
