(* ===== verification/Conn_Pool.thy ===== *)
theory Conn_Pool
  imports Redis_Client
begin

text \<open>
  The connection pools (\<open>src/cache/RedisPool.cpp\<close>, \<open>src/storage/MySqlPool.cpp\<close>). The two files are the same
  text for two connection classes, so the pool is modelled once over a record of the operations of
  the connection. A pointer to a connection is its position in the vector that owns it. Each critical section
  is a function on the pool; \<open>pool_acquire\<close> and \<open>pool_release\<close> compose them for one thread, and the relation
  \<open>pool_step\<close> interleaves them for all threads. The theorems: no connection is ever in two hands, a pool
  hands out live connections, and once it is closed no connection outlives its guard.
\<close>

section \<open>Connections\<close>

record ('c, 'x) conn_ops =
  co_new :: 'c
  co_connect :: "('c \<times> 'x, unit) prog"
  co_ping :: "('c \<times> 'x, unit) prog"
  co_close :: "'c \<Rightarrow> 'c"
  co_isConnected :: "'c \<Rightarrow> bool"
  co_label :: string
  co_guard :: string

text \<open>What the pool relies on: closing disconnects, and connecting or a successful ping leaves a live connection.\<close>

locale connection =
  fixes ops :: "('c, 'x) conn_ops"
  assumes closed_dead: "\<not> co_isConnected ops (co_close ops c)"
    and connect_live: "co_connect ops (c, x) = (Inr (), (c', x')) \<Longrightarrow> co_isConnected ops c'"
    and ping_live: "co_isConnected ops c \<Longrightarrow> co_ping ops (c, x) = (Inr (), (c', x')) \<Longrightarrow> co_isConnected ops c'"

section \<open>The pool\<close>

record 'c conn_pool =
  cp_pool_size :: u32
  cp_conns :: "'c list"
  cp_idle :: "nat list"
  cp_started :: bool
  cp_closed :: bool

definition new_pool :: "u32 \<Rightarrow> 'c conn_pool" where
  "new_pool n = \<lparr>cp_pool_size = n, cp_conns = [], cp_idle = [], cp_started = False, cp_closed = False\<rparr>"

definition poolNotStartedStatus :: "('c, 'x) conn_ops \<Rightarrow> status" where
  "poolNotStartedStatus ops = status_error InvalidArgument (co_label ops @ '' connection pool is not started'')"

definition poolClosedStatus :: "('c, 'x) conn_ops \<Rightarrow> status" where
  "poolClosedStatus ops = status_error InvalidArgument (co_label ops @ '' connection pool is closed'')"

definition acquireTimeoutStatus :: "('c, 'x) conn_ops \<Rightarrow> status" where
  "acquireTimeoutStatus ops = status_error IoError (''timed out waiting for a '' @ co_label ops @ '' connection'')"

definition ensureReady :: "('c, 'x) conn_ops \<Rightarrow> ('c \<times> 'x, unit) prog" where
  "ensureReady ops = (\<lambda>(c, x).
     if \<not> co_isConnected ops c then co_connect ops (c, x)
     else case co_ping ops (c, x) of
         (Inr _, cx) \<Rightarrow> (Inr (), cx)
       | (Inl _, (c, x)) \<Rightarrow> co_connect ops (co_close ops c, x))"

definition release_conn :: "('c, 'x) conn_ops \<Rightarrow> nat \<Rightarrow> 'c conn_pool \<Rightarrow> 'c conn_pool" where
  "release_conn ops i p =
     (if cp_started p \<and> \<not> cp_closed p then p\<lparr>cp_idle := cp_idle p @ [i]\<rparr>
      else p\<lparr>cp_conns := (cp_conns p)[i := co_close ops (cp_conns p ! i)]\<rparr>)"

definition close_idle :: "('c, 'x) conn_ops \<Rightarrow> 'c conn_pool \<Rightarrow> 'c conn_pool" where
  "close_idle ops p =
     (if cp_closed p then p
      else p\<lparr>cp_closed := True, cp_idle := [],
             cp_conns := fold (\<lambda>i cs. cs[i := co_close ops (cs ! i)]) (cp_idle p) (cp_conns p)\<rparr>)"

fun connect_all :: "('c, 'x) conn_ops \<Rightarrow> nat \<Rightarrow> 'c list \<Rightarrow> ('x, 'c list) prog" where
  "connect_all ops 0 cs = retP cs"
| "connect_all ops (Suc n) cs = (\<lambda>x.
     case co_connect ops (co_new ops, x) of
       (Inl st, (c, x)) \<Rightarrow> (Inl st, x)
     | (Inr _, (c, x)) \<Rightarrow> connect_all ops n (cs @ [c]) x)"

definition pool_start :: "('c, 'x) conn_ops \<Rightarrow> ('c conn_pool \<times> 'x, unit) prog" where
  "pool_start ops = (\<lambda>(p, x).
     if cp_started p
     then (err InvalidArgument (co_label ops @ '' connection pool has already started''), (p, x))
     else if cp_closed p then (Inl (poolClosedStatus ops), (p, x))
     else if cp_pool_size p = 0
     then (err InvalidArgument (co_label ops @ '' connection pool size must be greater than zero''), (p, x))
     else case connect_all ops (unat (cp_pool_size p)) [] x of
         (Inl st, x) \<Rightarrow> (Inl st, (p, x))
       | (Inr cs, x) \<Rightarrow> (Inr (), (p\<lparr>cp_conns := cs, cp_idle := [0..<length cs], cp_started := True\<rparr>, x)))"

text \<open>
  The parts of \<open>acquire\<close>: the checks on entry, the first of them without the lock; the state when the
  timed wait ends; making the connection ready, which holds no lock; and the last look at \<open>closed\<close>.
\<close>

definition acquire_enter :: "('c, 'x) conn_ops \<Rightarrow> int \<Rightarrow> bool \<Rightarrow> 'c conn_pool \<Rightarrow> unit result" where
  "acquire_enter ops timeout owns p =
     (if timeout < 0
      then err InvalidArgument (co_label ops @ '' connection acquire timeout must not be negative'')
      else if owns
      then err InvalidArgument (co_guard ops @ '' already owns a '' @ co_label ops @ '' connection'')
      else if \<not> cp_started p then Inl (poolNotStartedStatus ops)
      else if cp_closed p then Inl (poolClosedStatus ops)
      else Inr ())"

definition acquire_take :: "('c, 'x) conn_ops \<Rightarrow> ('c conn_pool, nat) prog" where
  "acquire_take ops p =
     (let ready = cp_closed p \<or> cp_idle p \<noteq> [] in
      if \<not> ready then (Inl (acquireTimeoutStatus ops), p)
      else if cp_closed p then (Inl (poolClosedStatus ops), p)
      else (Inr (hd (cp_idle p)), p\<lparr>cp_idle := tl (cp_idle p)\<rparr>))"

definition acquire_ready :: "('c, 'x) conn_ops \<Rightarrow> nat \<Rightarrow> ('c conn_pool \<times> 'x, unit) prog" where
  "acquire_ready ops i = (\<lambda>(p, x).
     case ensureReady ops (cp_conns p ! i, x) of
       (Inl st, (c, x)) \<Rightarrow> (Inl st, (release_conn ops i (p\<lparr>cp_conns := (cp_conns p)[i := c]\<rparr>), x))
     | (Inr _, (c, x)) \<Rightarrow> (Inr (), (p\<lparr>cp_conns := (cp_conns p)[i := c]\<rparr>, x)))"

definition acquire_finish :: "('c, 'x) conn_ops \<Rightarrow> nat \<Rightarrow> ('c conn_pool, unit) prog" where
  "acquire_finish ops i p =
     (if cp_closed p
      then (Inl (poolClosedStatus ops), p\<lparr>cp_conns := (cp_conns p)[i := co_close ops (cp_conns p ! i)]\<rparr>)
      else (Inr (), p))"

text \<open>\<open>acquire\<close> of a thread that runs alone; the result is what the guard holds.\<close>

definition on_pool :: "('p, 'a) prog \<Rightarrow> ('p \<times> 'x, 'a) prog" where
  "on_pool m = (\<lambda>(p, x). case m p of (r, p) \<Rightarrow> (r, (p, x)))"

definition pool_acquire :: "('c, 'x) conn_ops \<Rightarrow> int \<Rightarrow> bool \<Rightarrow> ('c conn_pool \<times> 'x, nat) prog" where
  "pool_acquire ops timeout owns =
     bindP (getsP fst) (\<lambda>p.
     bindP (liftP (acquire_enter ops timeout owns p)) (\<lambda>_.
     bindP (on_pool (acquire_take ops)) (\<lambda>i.
     bindP (acquire_ready ops i) (\<lambda>_.
     bindP (on_pool (acquire_finish ops i)) (\<lambda>_.
     retP i)))))"

text \<open>The guard's \<open>reset\<close> and destructor, on what it holds.\<close>

definition guard_reset :: "('c, 'x) conn_ops \<Rightarrow> nat option \<Rightarrow> 'c conn_pool \<Rightarrow> 'c conn_pool" where
  "guard_reset ops held p = (case held of None \<Rightarrow> p | Some i \<Rightarrow> release_conn ops i p)"

text \<open>A function that borrows a connection, works on it through the guard, and drops the guard at its end.\<close>

definition guarded :: "('c, 'x) conn_ops \<Rightarrow> nat \<Rightarrow> ('c \<times> 'x, 'a) prog \<Rightarrow> ('c conn_pool \<times> 'x, 'a) prog" where
  "guarded ops i m = (\<lambda>(p, x).
     case m (cp_conns p ! i, x) of
       (res, (c, x)) \<Rightarrow> (res, (guard_reset ops (Some i) (p\<lparr>cp_conns := (cp_conns p)[i := c]\<rparr>), x)))"

definition borrow :: "('c, 'x) conn_ops \<Rightarrow> int \<Rightarrow> ('c \<times> 'x, 'a) prog \<Rightarrow> ('c conn_pool \<times> 'x, 'a) prog" where
  "borrow ops timeout m = bindP (pool_acquire ops timeout False) (\<lambda>i. guarded ops i m)"

section \<open>One thread\<close>

context connection begin

lemma ensureReady_live: "ensureReady ops (c, x) = (Inr (), (c', x')) \<Longrightarrow> co_isConnected ops c'"
  by (auto simp: ensureReady_def split: if_splits prod.splits sum.splits dest: connect_live ping_live)

lemma acquire_live:
  assumes "pool_acquire ops timeout owns (p, x) = (Inr i, (p', x'))" "set (cp_idle p) \<subseteq> {..< length (cp_conns p)}"
  shows "i < length (cp_conns p') \<and> co_isConnected ops (cp_conns p' ! i) \<and> i = hd (cp_idle p) \<and>
    cp_idle p = i # cp_idle p' \<and> cp_started p' \<and> \<not> cp_closed p' \<and> length (cp_conns p') = length (cp_conns p)"
proof -
  from assms(1) have enter: "cp_started p" "\<not> cp_closed p" "cp_idle p \<noteq> []"
    by (auto simp: pool_acquire_def bindP_Inr acquire_enter_def on_pool_def acquire_take_def Let_def split: if_splits)
  have i: "i = hd (cp_idle p)" and ready: "acquire_ready ops i (p\<lparr>cp_idle := tl (cp_idle p)\<rparr>, x) = (Inr (), (p', x'))"
    using assms(1) enter
    by (auto simp: pool_acquire_def bindP_Inr on_pool_def acquire_take_def acquire_finish_def Let_def
        split: if_splits prod.splits)
  obtain c where c: "ensureReady ops (cp_conns p ! i, x) = (Inr (), (c, x'))"
    "p' = p\<lparr>cp_idle := tl (cp_idle p), cp_conns := (cp_conns p)[i := c]\<rparr>"
    using ready by (auto simp: acquire_ready_def split: prod.splits sum.splits)
  have "i < length (cp_conns p)" using assms(2) enter(3) i by (cases "cp_idle p") auto
  with c enter i ensureReady_live [OF c(1)] show ?thesis by simp
qed

end

section \<open>All threads\<close>

text \<open>
  The pool with the connections in the hands of threads: taken and being made ready, ready but not
  yet in a guard, and held by a guard. A thread that holds a connection may do with it what it likes.
\<close>

record ('c, 'x) pool_run =
  pr_pool :: "'c conn_pool"
  pr_ext :: 'x
  pr_taken :: "nat list"
  pr_ready :: "nat list"
  pr_held :: "nat list"

inductive pool_step :: "('c, 'x) conn_ops \<Rightarrow> ('c, 'x) pool_run \<Rightarrow> ('c, 'x) pool_run \<Rightarrow> bool" for ops where
  take: "acquire_take ops (pr_pool s) = (Inr i, p) \<Longrightarrow>
    pool_step ops s (s\<lparr>pr_pool := p, pr_taken := i # pr_taken s\<rparr>)"
| ready: "i \<in> set (pr_taken s) \<Longrightarrow> acquire_ready ops i (pr_pool s, pr_ext s) = (Inr (), (p, x)) \<Longrightarrow>
    pool_step ops s (s\<lparr>pr_pool := p, pr_ext := x, pr_taken := remove1 i (pr_taken s), pr_ready := i # pr_ready s\<rparr>)"
| not_ready: "i \<in> set (pr_taken s) \<Longrightarrow> acquire_ready ops i (pr_pool s, pr_ext s) = (Inl st, (p, x)) \<Longrightarrow>
    pool_step ops s (s\<lparr>pr_pool := p, pr_ext := x, pr_taken := remove1 i (pr_taken s)\<rparr>)"
| finish: "i \<in> set (pr_ready s) \<Longrightarrow> acquire_finish ops i (pr_pool s) = (Inr (), p) \<Longrightarrow>
    pool_step ops s (s\<lparr>pr_pool := p, pr_ready := remove1 i (pr_ready s), pr_held := i # pr_held s\<rparr>)"
| too_late: "i \<in> set (pr_ready s) \<Longrightarrow> acquire_finish ops i (pr_pool s) = (Inl st, p) \<Longrightarrow>
    pool_step ops s (s\<lparr>pr_pool := p, pr_ready := remove1 i (pr_ready s)\<rparr>)"
| use: "i \<in> set (pr_held s) \<Longrightarrow>
    pool_step ops s (s\<lparr>pr_pool := (pr_pool s)\<lparr>cp_conns := (cp_conns (pr_pool s))[i := c]\<rparr>, pr_ext := x\<rparr>)"
| reset: "i \<in> set (pr_held s) \<Longrightarrow>
    pool_step ops s (s\<lparr>pr_pool := guard_reset ops (Some i) (pr_pool s), pr_held := remove1 i (pr_held s)\<rparr>)"
| close: "pool_step ops s (s\<lparr>pr_pool := close_idle ops (pr_pool s)\<rparr>)"

inductive_cases pool_stepE: "pool_step ops s t"

abbreviation in_hand :: "('c, 'x) pool_run \<Rightarrow> nat list" where
  "in_hand s \<equiv> pr_taken s @ pr_ready s @ pr_held s"

definition pool_inv :: "('c, 'x) conn_ops \<Rightarrow> ('c, 'x) pool_run \<Rightarrow> bool" where
  "pool_inv ops s \<longleftrightarrow>
     distinct (cp_idle (pr_pool s) @ in_hand s) \<and>
     set (cp_idle (pr_pool s) @ in_hand s) \<subseteq> {..< length (cp_conns (pr_pool s))} \<and> cp_started (pr_pool s) \<and>
     (cp_closed (pr_pool s) \<longrightarrow> cp_idle (pr_pool s) = [] \<and>
        (\<forall>i < length (cp_conns (pr_pool s)). i \<notin> set (in_hand s) \<longrightarrow> \<not> co_isConnected ops (cp_conns (pr_pool s) ! i))) \<and>
     (\<not> cp_closed (pr_pool s) \<longrightarrow> set (cp_idle (pr_pool s) @ in_hand s) = {..< length (cp_conns (pr_pool s))})"

text \<open>What a step may do with the connections: positions stay, and only those in hand or just closed change.\<close>

lemma release_conn_simps [simp]:
  "length (cp_conns (release_conn ops i p)) = length (cp_conns p)" "cp_started (release_conn ops i p) = cp_started p"
  "cp_closed (release_conn ops i p) = cp_closed p"
  "cp_started p \<Longrightarrow> cp_idle (release_conn ops i p) = (if cp_closed p then cp_idle p else cp_idle p @ [i])"
  by (simp_all add: release_conn_def)

lemma upd_nth: "j < length xs \<Longrightarrow> xs[i := c] ! j = (if i = j then c else xs ! j)"
  by (cases "i = j") simp_all

lemma close_all_nth:
  "length (fold (\<lambda>i cs. cs[i := f (cs ! i)]) is cs) = length cs"
  "j < length cs \<Longrightarrow> distinct is \<Longrightarrow> fold (\<lambda>i cs. cs[i := f (cs ! i)]) is cs ! j = (if j \<in> set is then f (cs ! j) else cs ! j)"
  by (induction "is" arbitrary: cs) (auto simp: upd_nth)

context connection begin

lemma start_inv:
  assumes "pool_start ops (new_pool n, x) = (Inr (), (p, x'))"
  shows "pool_inv ops \<lparr>pr_pool = p, pr_ext = x', pr_taken = [], pr_ready = [], pr_held = []\<rparr>"
  using assms by (auto simp: pool_start_def new_pool_def pool_inv_def split: if_splits prod.splits sum.splits)

lemma taken_inv:
  assumes "pool_inv ops s" "acquire_take ops (pr_pool s) = (Inr i, p)"
  shows "pool_inv ops (s\<lparr>pr_pool := p, pr_taken := i # pr_taken s\<rparr>)"
  using assms by (cases "cp_idle (pr_pool s)") (auto simp: pool_inv_def acquire_take_def Let_def split: if_splits)

lemma ready_inv:
  assumes "pool_inv ops s" "i \<in> set (pr_taken s)" "acquire_ready ops i (pr_pool s, pr_ext s) = (Inr (), (p, x))"
  shows "pool_inv ops (s\<lparr>pr_pool := p, pr_ext := x, pr_taken := remove1 i (pr_taken s), pr_ready := i # pr_ready s\<rparr>)"
proof -
  obtain c where p: "p = (pr_pool s)\<lparr>cp_conns := (cp_conns (pr_pool s))[i := c]\<rparr>"
    using assms(3) by (auto simp: acquire_ready_def split: prod.splits sum.splits)
  from assms(1,2) show ?thesis unfolding p pool_inv_def by (auto simp: upd_nth)
qed

lemma not_ready_inv:
  assumes "pool_inv ops s" "i \<in> set (pr_taken s)" "acquire_ready ops i (pr_pool s, pr_ext s) = (Inl st, (p, x))"
  shows "pool_inv ops (s\<lparr>pr_pool := p, pr_ext := x, pr_taken := remove1 i (pr_taken s)\<rparr>)"
proof -
  obtain c where p: "p = release_conn ops i ((pr_pool s)\<lparr>cp_conns := (cp_conns (pr_pool s))[i := c]\<rparr>)"
    using assms(3) by (auto simp: acquire_ready_def split: prod.splits sum.splits)
  from assms(1,2) show ?thesis
    unfolding p pool_inv_def by (auto simp: release_conn_def upd_nth closed_dead)
qed

lemma finish_inv:
  assumes "pool_inv ops s" "i \<in> set (pr_ready s)" "acquire_finish ops i (pr_pool s) = (r, p)"
  shows "r = Inr () \<Longrightarrow> pool_inv ops (s\<lparr>pr_pool := p, pr_ready := remove1 i (pr_ready s), pr_held := i # pr_held s\<rparr>)"
    and "r = Inl st \<Longrightarrow> pool_inv ops (s\<lparr>pr_pool := p, pr_ready := remove1 i (pr_ready s)\<rparr>)"
  using assms unfolding pool_inv_def acquire_finish_def
  by (auto simp: upd_nth closed_dead split: if_splits)

lemma reset_inv:
  assumes "pool_inv ops s" "i \<in> set (pr_held s)"
  shows "pool_inv ops (s\<lparr>pr_pool := guard_reset ops (Some i) (pr_pool s), pr_held := remove1 i (pr_held s)\<rparr>)"
  using assms unfolding pool_inv_def guard_reset_def
  by (auto simp: release_conn_def upd_nth closed_dead)

lemma use_inv:
  assumes "pool_inv ops s" "i \<in> set (pr_held s)"
  shows "pool_inv ops (s\<lparr>pr_pool := (pr_pool s)\<lparr>cp_conns := (cp_conns (pr_pool s))[i := c]\<rparr>, pr_ext := x\<rparr>)"
  using assms unfolding pool_inv_def by (auto simp: upd_nth)

lemma close_inv:
  assumes "pool_inv ops s"
  shows "pool_inv ops (s\<lparr>pr_pool := close_idle ops (pr_pool s)\<rparr>)"
  using assms unfolding pool_inv_def close_idle_def
  by (auto simp: close_all_nth closed_dead)

lemma step_inv: "pool_inv ops s \<Longrightarrow> pool_step ops s t \<Longrightarrow> pool_inv ops t"
  by (erule pool_stepE)
    (simp_all add: taken_inv ready_inv not_ready_inv finish_inv reset_inv use_inv close_inv)

lemma run_inv:
  assumes "pool_start ops (new_pool n, x) = (Inr (), (p, x'))"
    "(pool_step ops)\<^sup>*\<^sup>* \<lparr>pr_pool = p, pr_ext = x', pr_taken = [], pr_ready = [], pr_held = []\<rparr> s"
  shows "pool_inv ops s"
  using assms(2) by (induction rule: rtranclp_induct) (use assms(1) start_inv step_inv in auto)

end

section \<open>The Redis pool\<close>

definition redis_ops :: "'r redis_api \<Rightarrow> redis_config \<Rightarrow> (redis_client, 'r) conn_ops" where
  "redis_ops api config =
     \<lparr>co_new = new_redis_client, co_connect = redis_connect api config, co_ping = redis_ping api, co_close = redis_close,
      co_isConnected = redis_isConnected, co_label = ''Redis'', co_guard = ''RedisConnectionGuard''\<rparr>"

lemma runCommand_client: "runCommand api args action (c, r) = (res, (c', r')) \<Longrightarrow> c' = c"
  by (auto simp: runCommand_def split: if_splits prod.splits command_result.splits)

lemma or_close_Inr: "or_close m s = (Inr x, t) \<longleftrightarrow> m s = (Inr x, t)"
  by (auto simp: or_close_def split: prod.splits sum.splits)

lemma redis_connect_live: "redis_connect api config (c, r) = (Inr (), (c', r')) \<Longrightarrow> redis_isConnected c'"
  by (auto simp: redis_connect_def Let_def bindP_Inr or_close_Inr redis_isConnected_def dest!: runCommand_client
      split: if_splits prod.splits connect_result.splits)

lemma redis_ping_client: "redis_ping api (c, r) = (res, (c', r')) \<Longrightarrow> c' = c"
  by (auto simp: redis_ping_def bindP_apply redis_validateConnected_def dest!: runCommand_client
      split: if_splits prod.splits sum.splits)

lemma redis_close_dead [simp]: "\<not> redis_isConnected (redis_close c)"
  by (simp add: redis_isConnected_def redis_close_def)

interpretation redis_pool: connection "redis_ops api config"
  by unfold_locales (auto simp: redis_ops_def dest: redis_connect_live redis_ping_client)

section \<open>Properties\<close>

text \<open>
  C20. A connection is in one hand at a time, and none outlives the pool: in every state that threads
  reach from a started Redis pool, idle, borrowed and just taken connections are all different and together
  are all of its connections while it is open; and once it is closed and the last guard is
  gone, every connection is closed.
\<close>

theorem redis_pool_exclusive:
  assumes "pool_start (redis_ops api config) (new_pool n, x) = (Inr (), (p, x'))"
    and "(pool_step (redis_ops api config))\<^sup>*\<^sup>* \<lparr>pr_pool = p, pr_ext = x', pr_taken = [], pr_ready = [], pr_held = []\<rparr> s"
  shows "distinct (cp_idle (pr_pool s) @ in_hand s) \<and>
    (\<not> cp_closed (pr_pool s) \<longrightarrow> set (cp_idle (pr_pool s) @ in_hand s) = {..< length (cp_conns (pr_pool s))}) \<and>
    (cp_closed (pr_pool s) \<and> in_hand s = [] \<longrightarrow> list_all (\<lambda>c. \<not> redis_isConnected c) (cp_conns (pr_pool s)))"
proof -
  have "pool_inv (redis_ops api config) s" using assms by (rule redis_pool.run_inv)
  then show ?thesis by (auto simp: pool_inv_def redis_ops_def list_all_length)
qed

section \<open>Witnesses\<close>

text \<open>A server that lets everyone in and answers every command with \<open>OK\<close>.\<close>

definition obliging_api :: "unit redis_api" where
  "obliging_api = \<lparr>redisConnectWithTimeout = \<lambda>_ _ r. (ContextOk, r), redisCommandArgv = \<lambda>_ r. (Reply (ReplyStatus ''OK''), r)\<rparr>"

abbreviation obliging_ops :: "(redis_client, unit) conn_ops" where
  "obliging_ops \<equiv> redis_ops obliging_api default_redis_config"

lemma obliging_start:
  "pool_start obliging_ops (new_pool 1, ()) =
     (Inr (), (\<lparr>cp_pool_size = 1, cp_conns = [\<lparr>rc_context = True, rc_connected = True\<rparr>], cp_idle = [0],
        cp_started = True, cp_closed = False\<rparr>, ()))"
  by (simp add: pool_start_def new_pool_def redis_ops_def redis_connect_def default_redis_config_def obliging_api_def
      new_redis_client_def redis_close_def or_close_def runCommand_def redisReplyError_def expectStatusOk_def
      bindP_apply Let_def)

theorem redis_pool_exclusive_witness:
  "\<exists>s. cp_closed (pr_pool s) \<and> in_hand s = [] \<and> cp_conns (pr_pool s) \<noteq> [] \<and>
     list_all (\<lambda>c. \<not> redis_isConnected c) (cp_conns (pr_pool (s :: (redis_client, unit) pool_run)))"
proof -
  let ?p = "\<lparr>cp_pool_size = 1, cp_conns = [\<lparr>rc_context = True, rc_connected = True\<rparr>], cp_idle = [0],
    cp_started = True, cp_closed = False\<rparr> :: redis_client conn_pool"
  let ?s = "\<lparr>pr_pool = ?p, pr_ext = (), pr_taken = [], pr_ready = [], pr_held = []\<rparr>"
  let ?t = "?s\<lparr>pr_pool := close_idle obliging_ops ?p\<rparr>"
  have "(pool_step obliging_ops)\<^sup>*\<^sup>* ?s ?t"
    using pool_step.close [of obliging_ops ?s] by (simp add: r_into_rtranclp)
  from redis_pool_exclusive [OF obliging_start this] show ?thesis
    by (intro exI [of _ ?t]) (simp add: close_idle_def)
qed

end
