(* ===== verification/Redis_Cache.thy ===== *)
theory Redis_Cache
  imports Conn_Pool Service_Rules
begin

text \<open>
  The cache on Redis: online status (\<open>src/cache/OnlineStatusCache.cpp\<close>), unread counters
  (\<open>src/cache/UnreadCounter.cpp\<close>) and the login limiter (\<open>src/cache/LoginRateLimiter.cpp\<close>), joined by
  \<open>src/cache/RedisCache.cpp\<close>. Each call borrows a connection of the pool, runs one command and gives the
  connection back. The theorems: a stored online session reads back as it was, keys of different
  things never collide, and on a server that keeps a key-value map the three parts are the maps and counters
  that the services take them for.
\<close>

section \<open>Borrowing a connection\<close>

record 'r redis_env =
  re_api :: "'r redis_api"
  re_config :: redis_config
  re_acquire_timeout :: int
  re_now_ms :: int

type_synonym 'r redis_state = "redis_client conn_pool \<times> 'r"

abbreviation re_ops :: "'r redis_env \<Rightarrow> (redis_client, 'r) conn_ops" where
  "re_ops env \<equiv> redis_ops (re_api env) (re_config env)"

text \<open>\<open>acquireClient\<close>; a guard that \<open>acquire\<close> filled is never empty, so the check of it has no branch here.\<close>

definition acquireClient :: "'r redis_env \<Rightarrow> ('r redis_state, nat) prog" where
  "acquireClient env = pool_acquire (re_ops env) (re_acquire_timeout env) False"

definition with_client :: "'r redis_env \<Rightarrow> ('r, 'a) redis \<Rightarrow> ('r redis_state, 'a) prog" where
  "with_client env m = bindP (acquireClient env) (\<lambda>i. guarded (re_ops env) i m)"

section \<open>Online status\<close>

definition kOnlineKeyPrefix :: string where "kOnlineKeyPrefix = ''online:user:''"
definition kValuePrefix :: string where "kValuePrefix = ''v1:''"

definition onlineKey :: "u64 \<Rightarrow> string" where
  "onlineKey user_id = kOnlineKeyPrefix @ show_u64 user_id"

definition offlineStatus :: "u64 \<Rightarrow> status" where
  "offlineStatus user_id = status_error NotFound (''user is offline: '' @ show_u64 user_id)"

definition parseStatus :: "string \<Rightarrow> status" where
  "parseStatus fld = status_error ParseError (''invalid online session '' @ fld)"

definition validateUserId :: "u64 \<Rightarrow> unit result" where
  "validateUserId user_id =
     (if user_id = 0 then err InvalidArgument ''online cache user_id must be greater than zero'' else Inr ())"

definition validateTtl :: "int \<Rightarrow> unit result" where
  "validateTtl ttl = (if ttl \<le> 0 then err InvalidArgument ''online cache ttl must be positive'' else Inr ())"

definition cache_validateSession :: "online_session \<Rightarrow> unit result" where
  "cache_validateSession session =
     bindR (validateUserId (os_user_id session)) (\<lambda>_.
     if os_session_id session = 0
     then err InvalidArgument ''online cache session_id must be greater than zero''
     else if os_server_id session = [] then err InvalidArgument ''online cache server_id must not be empty''
     else Inr ())"

definition online_parseUint64 :: "string \<Rightarrow> string \<Rightarrow> u64 result" where
  "online_parseUint64 input fld =
     (case stoull input of
        None \<Rightarrow> Inl (parseStatus fld)
      | Some (number, parsed) \<Rightarrow> if parsed \<noteq> length input then Inl (parseStatus fld) else Inr number)"

definition parseInt64 :: "string \<Rightarrow> string \<Rightarrow> int result" where
  "parseInt64 input fld =
     (case stoll input of
        None \<Rightarrow> Inl (parseStatus fld)
      | Some (number, parsed) \<Rightarrow> if parsed \<noteq> length input then Inl (parseStatus fld) else Inr number)"

text \<open>\<open>readToken\<close> on the text from the offset on: the token and the text behind the colon.\<close>

definition readToken :: "string \<Rightarrow> (string \<times> string) option" where
  "readToken rest =
     (if CHR '':'' \<in> set rest
      then Some (takeWhile (\<lambda>c. c \<noteq> CHR '':'') rest, tl (dropWhile (\<lambda>c. c \<noteq> CHR '':'') rest))
      else None)"

definition serializeSession :: "online_session \<Rightarrow> string" where
  "serializeSession session =
     kValuePrefix @ show_u64 (os_user_id session) @ '':'' @ show_u64 (os_session_id session) @ '':'' @
     show_int (os_last_active_time_ms session) @ '':'' @ show_nat (length (os_server_id session)) @ '':'' @
     os_server_id session"

definition parse_token :: "string \<Rightarrow> string \<Rightarrow> (string \<times> string) result" where
  "parse_token fld rest = (case readToken rest of None \<Rightarrow> Inl (parseStatus fld) | Some t \<Rightarrow> Inr t)"

definition parseSessionValue :: "string \<Rightarrow> online_session result" where
  "parseSessionValue value =
     (if take (length kValuePrefix) value \<noteq> kValuePrefix then Inl (parseStatus ''version'')
      else
        bindR (parse_token ''user_id'' (drop (length kValuePrefix) value)) (\<lambda>(token, rest).
        bindR (online_parseUint64 token ''user_id'') (\<lambda>user_id.
        bindR (parse_token ''session_id'' rest) (\<lambda>(token, rest).
        bindR (online_parseUint64 token ''session_id'') (\<lambda>session_id.
        bindR (parse_token ''last_active_time_ms'' rest) (\<lambda>(token, rest).
        bindR (parseInt64 token ''last_active_time_ms'') (\<lambda>last_active_time_ms.
        bindR (parse_token ''server_id length'' rest) (\<lambda>(token, rest).
        bindR (online_parseUint64 token ''server_id length'') (\<lambda>server_id_size.
        if unat server_id_size > length rest then Inl (parseStatus ''server_id length'')
        else if length rest \<noteq> unat server_id_size then Inl (parseStatus ''server_id length'')
        else
          let session = \<lparr>os_user_id = user_id, os_session_id = session_id, os_server_id = rest,
                os_last_active_time_ms = last_active_time_ms\<rparr> in
          bindR (cache_validateSession session) (\<lambda>_. Inr session))))))))))"

definition rc_setUserOnline :: "'r redis_env \<Rightarrow> online_session \<Rightarrow> int \<Rightarrow> ('r redis_state, unit) prog" where
  "rc_setUserOnline env session ttl =
     (let stored_session = (if os_last_active_time_ms session \<le> 0
            then session\<lparr>os_last_active_time_ms := re_now_ms env\<rparr> else session) in
      bindP (liftP (cache_validateSession stored_session)) (\<lambda>_.
      bindP (liftP (validateTtl ttl)) (\<lambda>_.
      with_client env (redis_setex (re_api env) (onlineKey (os_user_id stored_session)) (serializeSession stored_session) ttl))))"

definition rc_setUserOnline_fields ::
  "'r redis_env \<Rightarrow> u64 \<Rightarrow> string \<Rightarrow> u64 \<Rightarrow> int \<Rightarrow> ('r redis_state, unit) prog" where
  "rc_setUserOnline_fields env user_id server session_id ttl =
     rc_setUserOnline env \<lparr>os_user_id = user_id, os_session_id = session_id, os_server_id = server,
       os_last_active_time_ms = re_now_ms env\<rparr> ttl"

definition rc_refreshUserOnline :: "'r redis_env \<Rightarrow> u64 \<Rightarrow> int \<Rightarrow> ('r redis_state, unit) prog" where
  "rc_refreshUserOnline env user_id ttl =
     bindP (liftP (validateUserId user_id)) (\<lambda>_.
     bindP (liftP (validateTtl ttl)) (\<lambda>_.
     bindP (with_client env (redis_expire (re_api env) (onlineKey user_id) ttl)) (\<lambda>updated.
     if \<not> updated then failP (offlineStatus user_id) else retP ())))"

definition rc_setUserOffline :: "'r redis_env \<Rightarrow> u64 \<Rightarrow> ('r redis_state, unit) prog" where
  "rc_setUserOffline env user_id =
     bindP (liftP (validateUserId user_id)) (\<lambda>_.
     bindP (with_client env (redis_del (re_api env) (onlineKey user_id))) (\<lambda>_. retP ()))"

definition rc_isUserOnline :: "'r redis_env \<Rightarrow> u64 \<Rightarrow> ('r redis_state, bool) prog" where
  "rc_isUserOnline env user_id =
     bindP (liftP (validateUserId user_id)) (\<lambda>_.
     bindP (with_client env (redis_get (re_api env) (onlineKey user_id))) (\<lambda>value.
     case value of
       None \<Rightarrow> retP False
     | Some v \<Rightarrow> bindP (liftP (parseSessionValue v)) (\<lambda>_. retP True)))"

definition rc_getOnlineSession :: "'r redis_env \<Rightarrow> u64 \<Rightarrow> ('r redis_state, online_session) prog" where
  "rc_getOnlineSession env user_id =
     bindP (liftP (validateUserId user_id)) (\<lambda>_.
     bindP (with_client env (redis_get (re_api env) (onlineKey user_id))) (\<lambda>value.
     case value of
       None \<Rightarrow> failP (offlineStatus user_id)
     | Some v \<Rightarrow> liftP (parseSessionValue v)))"

section \<open>Unread counters\<close>

definition kUnreadKeyPrefix :: string where "kUnreadKeyPrefix = ''unread:user:''"

definition validateConversation :: "conversation_key \<Rightarrow> unit result" where
  "validateConversation conversation =
     (if ck_type conversation \<noteq> kPrivate \<and> ck_type conversation \<noteq> kGroup
      then err InvalidArgument ''unread counter conversation is invalid''
      else if ck_id conversation = 0 then err InvalidArgument ''unread counter conversation is invalid'' else Inr ())"

definition validateUnreadKey :: "unread_key \<Rightarrow> unit result" where
  "validateUnreadKey key =
     (if uk_user_id key = 0 then err InvalidArgument ''unread counter user_id must be greater than zero''
      else validateConversation (uk_conversation key))"

definition conversationTypeToken :: "conversation_type \<Rightarrow> string" where
  "conversationTypeToken type = show_u64 (conversation_type_value type)"

definition unreadKey :: "unread_key \<Rightarrow> string" where
  "unreadKey key =
     kUnreadKeyPrefix @ show_u64 (uk_user_id key) @ '':conversation:'' @
     conversationTypeToken (ck_type (uk_conversation key)) @ '':'' @ show_u64 (ck_id (uk_conversation key))"

definition unread_parseUint64 :: "string \<Rightarrow> u64 result" where
  "unread_parseUint64 input =
     (if input = [] \<or> hd input = CHR ''-'' then err ParseError ''invalid unread counter value''
      else case stoull input of
          None \<Rightarrow> err ParseError ''invalid unread counter value''
        | Some (number, parsed) \<Rightarrow>
            if parsed \<noteq> length input then err ParseError ''invalid unread counter value'' else Inr number)"

definition kIncrByScript :: string where
  "kIncrByScript = ''return redis.call('' @ [CHR 0x27] @ ''INCRBY'' @ [CHR 0x27] @ '', KEYS[1], ARGV[1])''"

definition rc_incrUnread :: "'r redis_env \<Rightarrow> unread_key \<Rightarrow> u64 \<Rightarrow> ('r redis_state, u64) prog" where
  "rc_incrUnread env key delta =
     bindP (liftP (validateUnreadKey key)) (\<lambda>_.
     if delta = 0 then failP (status_error InvalidArgument ''unread counter delta must be greater than zero'')
     else if delta > 0x7FFFFFFFFFFFFFFF
     then failP (status_error InvalidArgument ''unread counter delta exceeds Redis signed integer range'')
     else
       bindP (with_client env (redis_eval (re_api env) kIncrByScript [unreadKey key] [show_u64 delta])) (\<lambda>value.
       case value of
         None \<Rightarrow> failP (status_error InternalError ''Redis INCRBY returned nil unread value'')
       | Some v \<Rightarrow> liftP (unread_parseUint64 v)))"

definition rc_getUnread :: "'r redis_env \<Rightarrow> unread_key \<Rightarrow> ('r redis_state, u64) prog" where
  "rc_getUnread env key =
     bindP (liftP (validateUnreadKey key)) (\<lambda>_.
     bindP (with_client env (redis_get (re_api env) (unreadKey key))) (\<lambda>value.
     case value of None \<Rightarrow> retP 0 | Some v \<Rightarrow> liftP (unread_parseUint64 v)))"

definition rc_clearUnread :: "'r redis_env \<Rightarrow> unread_key \<Rightarrow> ('r redis_state, unit) prog" where
  "rc_clearUnread env key =
     bindP (liftP (validateUnreadKey key)) (\<lambda>_.
     bindP (with_client env (redis_del (re_api env) (unreadKey key))) (\<lambda>_. retP ()))"

section \<open>Login limiter\<close>

definition kLoginFailureKeyPrefix :: string where "kLoginFailureKeyPrefix = ''login:failure:''"

definition validateLoginKey :: "login_attempt_key \<Rightarrow> unit result" where
  "validateLoginKey key =
     (if la_username key = [] then err InvalidArgument ''login limiter username must not be empty''
      else if la_remote_ip key = [] then err InvalidArgument ''login limiter remote_ip must not be empty''
      else Inr ())"

definition loginFailureKey :: "login_attempt_key \<Rightarrow> string" where
  "loginFailureKey key =
     kLoginFailureKeyPrefix @ show_nat (length (la_username key)) @ '':'' @ la_username key @ '':'' @
     show_nat (length (la_remote_ip key)) @ '':'' @ la_remote_ip key"

definition limiter_parseUint64 :: "string \<Rightarrow> u64 result" where
  "limiter_parseUint64 input =
     (if input = [] \<or> hd input = CHR ''-'' then err ParseError ''invalid login failure count value''
      else case stoull input of
          None \<Rightarrow> err ParseError ''invalid login failure count value''
        | Some (number, parsed) \<Rightarrow>
            if parsed \<noteq> length input then err ParseError ''invalid login failure count value'' else Inr number)"

definition rc_allow :: "'r redis_env \<Rightarrow> login_attempt_key \<Rightarrow> u32 \<Rightarrow> ('r redis_state, bool) prog" where
  "rc_allow env key max_failures =
     bindP (liftP (validateLoginKey key)) (\<lambda>_.
     if max_failures = 0
     then failP (status_error InvalidArgument ''login limiter max_failures must be greater than zero'')
     else
       bindP (with_client env (redis_get (re_api env) (loginFailureKey key))) (\<lambda>value.
       case value of
         None \<Rightarrow> retP True
       | Some v \<Rightarrow>
           bindP (liftP (limiter_parseUint64 v)) (\<lambda>failure_count.
           retP (failure_count < ucast max_failures))))"

definition kFailureScript :: string where
  "kFailureScript =
     ''local value = redis.call('' @ [CHR 0x27] @ ''INCR'' @ [CHR 0x27] @ '', KEYS[1]); redis.call('' @
     [CHR 0x27] @ ''EXPIRE'' @ [CHR 0x27] @ '', KEYS[1], ARGV[1]); return value''"

definition rc_recordFailure :: "'r redis_env \<Rightarrow> login_attempt_key \<Rightarrow> int \<Rightarrow> ('r redis_state, unit) prog" where
  "rc_recordFailure env key ttl =
     bindP (liftP (validateLoginKey key)) (\<lambda>_.
     if ttl \<le> 0 then failP (status_error InvalidArgument ''login limiter ttl must be positive'')
     else
       bindP (with_client env (redis_eval (re_api env) kFailureScript [loginFailureKey key] [show_int ttl])) (\<lambda>_.
       retP ()))"

definition rc_clear :: "'r redis_env \<Rightarrow> login_attempt_key \<Rightarrow> ('r redis_state, unit) prog" where
  "rc_clear env key =
     bindP (liftP (validateLoginKey key)) (\<lambda>_.
     bindP (with_client env (redis_del (re_api env) (loginFailureKey key))) (\<lambda>_. retP ()))"

section \<open>The cache\<close>

definition redis_cache :: "'r redis_env \<Rightarrow> 'r redis_state cache_ops" where
  "redis_cache env =
     \<lparr>setUserOnline = rc_setUserOnline env, refreshUserOnline = rc_refreshUserOnline env,
      setUserOffline = rc_setUserOffline env, isUserOnline = rc_isUserOnline env,
      getOnlineSession = rc_getOnlineSession env, incrUnread = rc_incrUnread env, getUnread = rc_getUnread env,
      clearUnread = rc_clearUnread env, allowLoginAttempt = rc_allow env, recordLoginFailure = rc_recordFailure env,
      clearLoginFailure = rc_clear env\<rparr>"

section \<open>Keys and values\<close>

lemma colon_not_digit [simp]: "\<not> is_digit CHR '':''"
  by (simp add: is_digit_def)

lemma readToken_app: "CHR '':'' \<notin> set t \<Longrightarrow> readToken (t @ CHR '':'' # rest) = Some (t, rest)"
  by (simp add: readToken_def takeWhile_append dropWhile_append)

lemma no_colon [simp]: "CHR '':'' \<notin> set (show_nat n)" "CHR '':'' \<notin> set (show_u64 u)" "CHR '':'' \<notin> set (show_int i)"
  using show_nat_digits [of "CHR '':''" n] show_u64_digits [of "CHR '':''" u] show_int_chars [of "CHR '':''" i] by auto

lemma online_parse_show [simp]: "online_parseUint64 (show_u64 u) fld = Inr u"
  by (simp add: online_parseUint64_def stoull_show_u64)

lemma online_parse_show_nat: "n < 2 ^ 64 \<Longrightarrow> online_parseUint64 (show_nat n) fld = Inr (of_nat n)"
  by (simp add: online_parseUint64_def stoull_show_nat)

lemma parseInt64_show: "- (2 ^ 63) \<le> i \<Longrightarrow> i < 2 ^ 63 \<Longrightarrow> parseInt64 (show_int i) fld = Inr i"
  by (simp add: parseInt64_def stoll_show_int)

definition storable :: "online_session \<Rightarrow> bool" where
  "storable s \<longleftrightarrow> os_user_id s \<noteq> 0 \<and> os_session_id s \<noteq> 0 \<and> os_server_id s \<noteq> [] \<and> length (os_server_id s) < 2 ^ 64 \<and>
     - (2 ^ 63) \<le> os_last_active_time_ms s \<and> os_last_active_time_ms s < 2 ^ 63"

lemma storable_valid: "storable s \<Longrightarrow> cache_validateSession s = Inr ()"
  by (simp add: storable_def cache_validateSession_def validateUserId_def)

lemma parse_serialize:
  assumes "storable s"
  shows "parseSessionValue (serializeSession s) = Inr s"
proof -
  have n: "length (os_server_id s) < 2 ^ 64" and t: "- (2 ^ 63) \<le> os_last_active_time_ms s" "os_last_active_time_ms s < 2 ^ 63"
    using assms by (simp_all add: storable_def)
  have "unat (of_nat (length (os_server_id s)) :: u64) = length (os_server_id s)"
    using n by (simp add: unat_of_nat)
  then show ?thesis
    using storable_valid [OF assms] online_parse_show_nat [OF n] parseInt64_show [OF t]
    by (cases s)
      (simp add: parseSessionValue_def serializeSession_def kValuePrefix_def parse_token_def readToken_app Let_def)
qed

lemma onlineKey_inject [simp]: "onlineKey u = onlineKey v \<longleftrightarrow> u = v"
  by (simp add: onlineKey_def)

lemma token_inject [simp]: "conversationTypeToken a = conversationTypeToken b \<longleftrightarrow> a = b"
  by (cases a; cases b) (simp_all add: conversationTypeToken_def)

lemma show_u64_sep: "show_u64 a @ CHR '':'' # x = show_u64 b @ CHR '':'' # y \<longleftrightarrow> a = b \<and> x = y"
  by (simp add: show_u64_def show_sep_inject word_unat_eq_iff)

lemma unreadKey_inject [simp]: "unreadKey k = unreadKey l \<longleftrightarrow> k = l"
proof
  assume "unreadKey k = unreadKey l"
  then have "uk_user_id k = uk_user_id l" "ck_type (uk_conversation k) = ck_type (uk_conversation l)"
    "ck_id (uk_conversation k) = ck_id (uk_conversation l)"
    by (auto simp: unreadKey_def show_u64_sep conversationTypeToken_def dest: arg_cong [of _ _ conversationTypeToken])
      (metis conversationTypeToken_def token_inject)
  then show "k = l" by (cases k; cases l; cases "uk_conversation k"; cases "uk_conversation l") simp
qed simp

lemma loginFailureKey_inject [simp]: "loginFailureKey k = loginFailureKey l \<longleftrightarrow> k = l"
proof
  assume eq: "loginFailureKey k = loginFailureKey l"
  then have "length (la_username k) = length (la_username l)"
    by (simp add: loginFailureKey_def show_sep_inject)
  with eq have "la_username k = la_username l" "la_remote_ip k = la_remote_ip l"
    by (auto simp: loginFailureKey_def show_sep_inject)
  then show "k = l" by (cases k; cases l) simp
qed simp

lemma keys_disjoint [simp]:
  "onlineKey u \<noteq> unreadKey k" "onlineKey u \<noteq> loginFailureKey l" "unreadKey k \<noteq> loginFailureKey l"
  "unreadKey k \<noteq> onlineKey u" "loginFailureKey l \<noteq> onlineKey u" "loginFailureKey l \<noteq> unreadKey k"
  "onlineKey u \<noteq> []" "unreadKey k \<noteq> []" "loginFailureKey l \<noteq> []"
  by (simp_all add: onlineKey_def unreadKey_def loginFailureKey_def kOnlineKeyPrefix_def kUnreadKeyPrefix_def
      kLoginFailureKeyPrefix_def)

section \<open>The server behind it\<close>

text \<open>
  What the cache relies on, from the documentation of the Redis commands, between two moments at which
  keys expire: a map from keys to strings, counters as decimal text, and the two scripts, which run atomically.
  \<open>holds_count\<close> reads a counter, an absent key counting as zero.
\<close>

definition holds_count :: "string option \<Rightarrow> nat \<Rightarrow> bool" where
  "holds_count v n \<longleftrightarrow> v = (if n = 0 then None else Some (show_nat n))"

definition answers :: "'r redis_api \<Rightarrow> ('r \<Rightarrow> string \<Rightarrow> string option) \<Rightarrow> string list \<Rightarrow> 'r \<Rightarrow> redis_reply \<Rightarrow> (string \<Rightarrow> string option) \<Rightarrow> bool" where
  "answers api kv args r rep m \<longleftrightarrow> (\<exists>r'. redisCommandArgv api args r = (Reply rep, r') \<and> kv r' = m)"

definition redis_kv :: "'r redis_api \<Rightarrow> ('r \<Rightarrow> string \<Rightarrow> string option) \<Rightarrow> bool" where
  "redis_kv api kv \<longleftrightarrow> (\<forall>r.
     answers api kv [''PING''] r (ReplyStatus ''PONG'') (kv r) \<and>
     (\<forall>k v t. 0 < t \<longrightarrow> answers api kv [''SETEX'', k, show_int t, v] r (ReplyStatus ''OK'') ((kv r)(k \<mapsto> v))) \<and>
     (\<forall>k. answers api kv [''GET'', k] r (case kv r k of None \<Rightarrow> ReplyNil | Some v \<Rightarrow> ReplyString v) (kv r)) \<and>
     (\<forall>k. answers api kv [''DEL'', k] r (ReplyInteger (if kv r k = None then 0 else 1)) ((kv r)(k := None))) \<and>
     (\<forall>k t. 0 < t \<longrightarrow> answers api kv [''EXPIRE'', k, show_int t] r (ReplyInteger (if kv r k = None then 0 else 1)) (kv r)) \<and>
     (\<forall>k n d. holds_count (kv r k) n \<longrightarrow> n + unat d < 2 ^ 63 \<longrightarrow>
        answers api kv [''EVAL'', kIncrByScript, ''1'', k, show_u64 d] r (ReplyInteger (int (n + unat d)))
          ((kv r)(k \<mapsto> show_nat (n + unat d)))) \<and>
     (\<forall>k n t. holds_count (kv r k) n \<longrightarrow> n + 1 < 2 ^ 63 \<longrightarrow> 0 < t \<longrightarrow>
        answers api kv [''EVAL'', kFailureScript, ''1'', k, show_int t] r (ReplyInteger (int (n + 1)))
          ((kv r)(k \<mapsto> show_nat (n + 1)))))"

section \<open>What the services see\<close>

record abstract_cache =
  ac_online :: "u64 \<Rightarrow> online_session option"
  ac_unread :: "unread_key \<Rightarrow> nat"
  ac_failures :: "login_attempt_key \<Rightarrow> nat"

definition kv_rel :: "(string \<Rightarrow> string option) \<Rightarrow> abstract_cache \<Rightarrow> bool" where
  "kv_rel m a \<longleftrightarrow>
     (\<forall>u. m (onlineKey u) = map_option serializeSession (ac_online a u)) \<and>
     (\<forall>u s. ac_online a u = Some s \<longrightarrow> storable s) \<and>
     (\<forall>k. holds_count (m (unreadKey k)) (ac_unread a k)) \<and> (\<forall>l. holds_count (m (loginFailureKey l)) (ac_failures a l)) \<and>
     (\<forall>k. ac_unread a k < 2 ^ 63) \<and> (\<forall>l. ac_failures a l < 2 ^ 63)"

text \<open>A pool with a connection to spare, all idle ones alive.\<close>

definition pool_live :: "redis_client conn_pool \<Rightarrow> bool" where
  "pool_live p \<longleftrightarrow> cp_started p \<and> \<not> cp_closed p \<and> cp_idle p \<noteq> [] \<and>
     (\<forall>i \<in> set (cp_idle p). i < length (cp_conns p) \<and> redis_isConnected (cp_conns p ! i))"

definition cache_rel :: "('r \<Rightarrow> string \<Rightarrow> string option) \<Rightarrow> 'r redis_state \<Rightarrow> abstract_cache \<Rightarrow> bool" where
  "cache_rel kv s a \<longleftrightarrow> pool_live (fst s) \<and> kv_rel (kv (snd s)) a"

text \<open>A call on a live pool runs its command on a live connection and leaves the pool live.\<close>

lemma acquireClient_live:
  assumes "redis_kv (re_api env) kv" "pool_live p" "0 \<le> re_acquire_timeout env"
  shows "\<exists>r'. acquireClient env (p, r) = (Inr (hd (cp_idle p)), (p\<lparr>cp_idle := tl (cp_idle p)\<rparr>, r')) \<and> kv r' = kv r"
proof -
  obtain r' where r': "redisCommandArgv (re_api env) [''PING''] r = (Reply (ReplyStatus ''PONG''), r')" "kv r' = kv r"
    using assms(1) unfolding redis_kv_def answers_def by blast
  let ?i = "hd (cp_idle p)"
  have i: "redis_isConnected (cp_conns p ! ?i)" using assms(2) by (simp add: pool_live_def)
  then have "ensureReady (re_ops env) (cp_conns p ! ?i, r) = (Inr (), (cp_conns p ! ?i, r'))"
    using r'(1) by (simp add: ensureReady_def redis_ops_def redis_ping_def bindP_apply redis_validateConnected_def
        runCommand_def redis_isConnected_def redisReplyError_def)
  then show ?thesis
    using assms(2,3) r'(2)
    by (simp add: acquireClient_def pool_acquire_def bindP_apply acquire_enter_def on_pool_def acquire_take_def
        acquire_ready_def acquire_finish_def pool_live_def Let_def)
qed

lemma with_client_live:
  assumes "redis_kv (re_api env) kv" "pool_live p" "0 \<le> re_acquire_timeout env"
    and "\<And>c r'. redis_isConnected c \<Longrightarrow> kv r' = kv r \<Longrightarrow> \<exists>r''. m (c, r') = (res, (c, r'')) \<and> kv r'' = k"
  shows "\<exists>p' r'. with_client env m (p, r) = (res, (p', r')) \<and> pool_live p' \<and> kv r' = k"
proof -
  obtain r' where r': "acquireClient env (p, r) = (Inr (hd (cp_idle p)), (p\<lparr>cp_idle := tl (cp_idle p)\<rparr>, r'))" "kv r' = kv r"
    using acquireClient_live [OF assms(1-3)] by blast
  let ?i = "hd (cp_idle p)"
  have i: "redis_isConnected (cp_conns p ! ?i)" "?i < length (cp_conns p)" using assms(2) by (simp_all add: pool_live_def)
  obtain r'' where r'': "m (cp_conns p ! ?i, r') = (res, (cp_conns p ! ?i, r''))" "kv r'' = k"
    using assms(4) [OF i(1) r'(2)] by blast
  have "pool_live (release_conn (re_ops env) ?i (p\<lparr>cp_idle := tl (cp_idle p)\<rparr>))"
    using assms(2) by (cases "cp_idle p") (auto simp: pool_live_def release_conn_def)
  then show ?thesis
    using r' r'' by (simp add: with_client_def bindP_apply guarded_def guard_reset_def)
qed

text \<open>The commands on a live connection.\<close>

lemma runCommand_live:
  assumes "redis_isConnected c" "args \<noteq> []" "redisCommandArgv api args r = (Reply rep, r')" "\<forall>e. rep \<noteq> ReplyError e"
  shows "runCommand api args action (c, r) = (Inr rep, (c, r'))"
  using assms by (cases rep) (simp_all add: runCommand_def redis_isConnected_def redisReplyError_def)

lemma validate_live: "redis_isConnected c \<Longrightarrow> redis_validateConnected (c, r) = (Inr (), (c, r))"
  by (simp add: redis_validateConnected_def)

lemmas live_simps = bindP_apply validate_live runCommand_live expectStatusOk_def expectIntegerReply_def

lemma redis_setex_live:
  assumes "redis_kv api kv" "redis_isConnected c" "key \<noteq> []" "0 < ttl"
  shows "\<exists>r'. redis_setex api key v ttl (c, r) = (Inr (), (c, r')) \<and> kv r' = (kv r)(key \<mapsto> v)"
proof -
  obtain r' where "redisCommandArgv api [''SETEX'', key, show_int ttl, v] r = (Reply (ReplyStatus ''OK''), r')"
    "kv r' = (kv r)(key \<mapsto> v)"
    using assms(1,4) unfolding redis_kv_def answers_def by blast
  with assms(2-4) show ?thesis by (simp add: redis_setex_def live_simps)
qed

lemma redis_get_live:
  assumes "redis_kv api kv" "redis_isConnected c" "key \<noteq> []"
  shows "\<exists>r'. redis_get api key (c, r) = (Inr (kv r key), (c, r')) \<and> kv r' = kv r"
proof -
  obtain r' where "redisCommandArgv api [''GET'', key] r =
    (Reply (case kv r key of None \<Rightarrow> ReplyNil | Some v \<Rightarrow> ReplyString v), r')" "kv r' = kv r"
    using assms(1) unfolding redis_kv_def answers_def by blast
  with assms(2,3) show ?thesis by (cases "kv r key") (simp_all add: redis_get_def live_simps)
qed

lemma redis_del_live:
  assumes "redis_kv api kv" "redis_isConnected c" "key \<noteq> []"
  shows "\<exists>r'. redis_del api key (c, r) = (Inr (if kv r key = None then 0 else 1), (c, r')) \<and> kv r' = (kv r)(key := None)"
proof -
  obtain r' where "redisCommandArgv api [''DEL'', key] r = (Reply (ReplyInteger (if kv r key = None then 0 else 1)), r')"
    "kv r' = (kv r)(key := None)"
    using assms(1) unfolding redis_kv_def answers_def by blast
  with assms(2,3) show ?thesis by (simp add: redis_del_def live_simps)
qed

lemma redis_expire_live:
  assumes "redis_kv api kv" "redis_isConnected c" "key \<noteq> []" "0 < ttl"
  shows "\<exists>r'. redis_expire api key ttl (c, r) = (Inr (kv r key \<noteq> None), (c, r')) \<and> kv r' = kv r"
proof -
  obtain r' where "redisCommandArgv api [''EXPIRE'', key, show_int ttl] r =
    (Reply (ReplyInteger (if kv r key = None then 0 else 1)), r')" "kv r' = kv r"
    using assms(1,4) unfolding redis_kv_def answers_def by blast
  with assms(2-4) show ?thesis by (simp add: redis_expire_def live_simps)
qed

lemma show_one: "show_nat (Suc 0) = ''1''"
  by (subst show_nat.simps) (simp add: digit_char_def char_of_def bit_Suc_0_iff)

lemma show_int_of_nat [simp]: "show_int (int n) = show_nat n"
  by (simp add: show_int_def)

lemma redis_eval_live:
  assumes "redis_isConnected c" "script \<noteq> []" "answers api kv [''EVAL'', script, ''1'', key, arg] r (ReplyInteger (int n)) m"
  shows "\<exists>r'. redis_eval api script [key] [arg] (c, r) = (Inr (Some (show_nat n)), (c, r')) \<and> kv r' = m"
  using assms unfolding answers_def by (auto simp: redis_eval_def live_simps show_one simp del: of_nat_add of_nat_Suc)

section \<open>The abstract cache\<close>

text \<open>The same interface on the abstract state: a map of sessions and two families of counters.\<close>

definition updP :: "('s \<Rightarrow> 's) \<Rightarrow> ('s, unit) prog" where
  "updP f = (\<lambda>s. (Inr (), f s))"

definition stored_session :: "int \<Rightarrow> online_session \<Rightarrow> online_session" where
  "stored_session now s = (if os_last_active_time_ms s \<le> 0 then s\<lparr>os_last_active_time_ms := now\<rparr> else s)"

definition abstract_ops :: "int \<Rightarrow> abstract_cache cache_ops" where
  "abstract_ops now =
     \<lparr>setUserOnline = \<lambda>s ttl. bindP (liftP (cache_validateSession (stored_session now s))) (\<lambda>_. bindP (liftP (validateTtl ttl)) (\<lambda>_.
        updP (\<lambda>a. a\<lparr>ac_online := (ac_online a)(os_user_id s \<mapsto> stored_session now s)\<rparr>))),
      refreshUserOnline = \<lambda>u ttl. bindP (liftP (validateUserId u)) (\<lambda>_. bindP (liftP (validateTtl ttl)) (\<lambda>_.
        bindP (getsP ac_online) (\<lambda>m. if m u = None then failP (offlineStatus u) else retP ()))),
      setUserOffline = \<lambda>u. bindP (liftP (validateUserId u)) (\<lambda>_. updP (\<lambda>a. a\<lparr>ac_online := (ac_online a)(u := None)\<rparr>)),
      isUserOnline = \<lambda>u. bindP (liftP (validateUserId u)) (\<lambda>_. getsP (\<lambda>a. ac_online a u \<noteq> None)),
      getOnlineSession = \<lambda>u. bindP (liftP (validateUserId u)) (\<lambda>_. bindP (getsP ac_online) (\<lambda>m.
        case m u of None \<Rightarrow> failP (offlineStatus u) | Some s \<Rightarrow> retP s)),
      incrUnread = \<lambda>k d. bindP (liftP (validateUnreadKey k)) (\<lambda>_.
        if d = 0 then failP (status_error InvalidArgument ''unread counter delta must be greater than zero'')
        else if d > 0x7FFFFFFFFFFFFFFF
        then failP (status_error InvalidArgument ''unread counter delta exceeds Redis signed integer range'')
        else bindP (updP (\<lambda>a. a\<lparr>ac_unread := (ac_unread a)(k := ac_unread a k + unat d)\<rparr>)) (\<lambda>_.
          getsP (\<lambda>a. of_nat (ac_unread a k)))),
      getUnread = \<lambda>k. bindP (liftP (validateUnreadKey k)) (\<lambda>_. getsP (\<lambda>a. of_nat (ac_unread a k))),
      clearUnread = \<lambda>k. bindP (liftP (validateUnreadKey k)) (\<lambda>_. updP (\<lambda>a. a\<lparr>ac_unread := (ac_unread a)(k := 0)\<rparr>)),
      allowLoginAttempt = \<lambda>l n. bindP (liftP (validateLoginKey l)) (\<lambda>_.
        if n = 0 then failP (status_error InvalidArgument ''login limiter max_failures must be greater than zero'')
        else getsP (\<lambda>a. ac_failures a l < unat n)),
      recordLoginFailure = \<lambda>l ttl. bindP (liftP (validateLoginKey l)) (\<lambda>_.
        if ttl \<le> 0 then failP (status_error InvalidArgument ''login limiter ttl must be positive'')
        else updP (\<lambda>a. a\<lparr>ac_failures := (ac_failures a)(l := ac_failures a l + 1)\<rparr>)),
      clearLoginFailure = \<lambda>l. bindP (liftP (validateLoginKey l)) (\<lambda>_.
        updP (\<lambda>a. a\<lparr>ac_failures := (ac_failures a)(l := 0)\<rparr>))\<rparr>"

definition alike :: "('s \<Rightarrow> 't \<Rightarrow> bool) \<Rightarrow> ('s, 'a) prog \<Rightarrow> ('t, 'a) prog \<Rightarrow> 's \<Rightarrow> 't \<Rightarrow> bool" where
  "alike R m n s t \<longleftrightarrow> fst (m s) = fst (n t) \<and> R (snd (m s)) (snd (n t))"

lemma alike_liftP_bind:
  "R s t \<Longrightarrow> (\<And>x. r = Inr x \<Longrightarrow> alike R (m x) (n x) s t) \<Longrightarrow> alike R (bindP (liftP r) m) (bindP (liftP r) n) s t"
  by (cases r) (simp_all add: alike_def bindP_apply)

lemma alike_failP: "R s t \<Longrightarrow> alike R (failP e) (failP e) s t"
  by (simp add: alike_def)

lemma alike_getsP: "alike R m (bindP (getsP g) n) s t \<longleftrightarrow> alike R m (n (g t)) s t"
  by (simp add: alike_def bindP_apply)

lemma alike_call:
  "fst (m s) = Inr x \<and> R (snd (m s)) t \<Longrightarrow> alike R (f x) n (snd (m s)) t \<Longrightarrow> alike R (bindP m f) n s t"
  by (cases "m s") (simp add: alike_def bindP_apply)

lemma count_parse:
  assumes "n < 2 ^ 63"
  shows "unread_parseUint64 (show_nat n) = Inr (of_nat n)" "limiter_parseUint64 (show_nat n) = Inr (of_nat n)"
proof -
  have "hd (show_nat n) \<noteq> CHR ''-''"
    using show_nat_digits [of "hd (show_nat n)" n] digit_not_special by (metis hd_in_set show_nat_nonempty)
  moreover have "stoull (show_nat n) = Some (of_nat n, length (show_nat n))" using assms by (intro stoull_show_nat) simp
  ultimately show "unread_parseUint64 (show_nat n) = Inr (of_nat n)" "limiter_parseUint64 (show_nat n) = Inr (of_nat n)"
    by (simp_all add: unread_parseUint64_def limiter_parseUint64_def)
qed

definition cache_ready :: "'r redis_env \<Rightarrow> ('r \<Rightarrow> string \<Rightarrow> string option) \<Rightarrow> bool" where
  "cache_ready env kv \<longleftrightarrow> redis_kv (re_api env) kv \<and> 0 \<le> re_acquire_timeout env"

text \<open>Each command as a step that keeps the relation, on what the map holds.\<close>

lemma with_client_rel:
  assumes "cache_ready env kv" "cache_rel kv s a"
    and "\<And>c r'. redis_isConnected c \<Longrightarrow> kv r' = kv (snd s) \<Longrightarrow> \<exists>r''. m (c, r') = (res, (c, r'')) \<and> kv r'' = k"
    and "kv_rel k b"
  shows "fst (with_client env m s) = res \<and> cache_rel kv (snd (with_client env m s)) b"
proof -
  obtain p r where s: "s = (p, r)" by force
  have live: "redis_kv (re_api env) kv" "0 \<le> re_acquire_timeout env" "pool_live p"
    using assms(1,2) s by (simp_all add: cache_ready_def cache_rel_def)
  obtain p' r' where "with_client env m (p, r) = (res, (p', r'))" "pool_live p'" "kv r' = k"
    using with_client_live [where env = env and m = m and kv = kv and p = p and r = r and res = res and k = k] live
      assms(3) s by auto
  with assms(4) s show ?thesis by (simp add: cache_rel_def)
qed

lemma kv_rel_updates:
  assumes "kv_rel m a"
  shows "storable s \<Longrightarrow> kv_rel (m(onlineKey u \<mapsto> serializeSession s)) (a\<lparr>ac_online := (ac_online a)(u \<mapsto> s)\<rparr>)"
    "kv_rel (m(onlineKey u := None)) (a\<lparr>ac_online := (ac_online a)(u := None)\<rparr>)"
    "0 < n \<Longrightarrow> n < 2 ^ 63 \<Longrightarrow> kv_rel (m(unreadKey k \<mapsto> show_nat n)) (a\<lparr>ac_unread := (ac_unread a)(k := n)\<rparr>)"
    "kv_rel (m(unreadKey k := None)) (a\<lparr>ac_unread := (ac_unread a)(k := 0)\<rparr>)"
    "0 < n \<Longrightarrow> n < 2 ^ 63 \<Longrightarrow> kv_rel (m(loginFailureKey l \<mapsto> show_nat n)) (a\<lparr>ac_failures := (ac_failures a)(l := n)\<rparr>)"
    "kv_rel (m(loginFailureKey l := None)) (a\<lparr>ac_failures := (ac_failures a)(l := 0)\<rparr>)"
  using assms by (auto simp: kv_rel_def holds_count_def)

lemma get_rel:
  assumes "cache_ready env kv" "cache_rel kv s a" "key \<noteq> []"
  shows "fst (with_client env (redis_get (re_api env) key) s) = Inr (kv (snd s) key) \<and>
    cache_rel kv (snd (with_client env (redis_get (re_api env) key) s)) a"
  using assms redis_get_live [of "re_api env" kv _ key]
  by (intro with_client_rel [where k = "kv (snd s)"]) (auto simp: cache_ready_def cache_rel_def, metis)

lemma bindP_fst_snd: "fst (m s) = Inr x \<Longrightarrow> bindP m f s = f x (snd (m s))"
  by (cases "m s") (simp add: bindP_apply)

lemma rel_lookup:
  assumes "cache_rel kv s a"
  shows "kv (snd s) (onlineKey u) = map_option serializeSession (ac_online a u)"
    "holds_count (kv (snd s) (unreadKey k)) (ac_unread a k)" "holds_count (kv (snd s) (loginFailureKey l)) (ac_failures a l)"
    "ac_unread a k < 2 ^ 63" "ac_failures a l < 2 ^ 63" "ac_online a u = Some x \<Longrightarrow> parseSessionValue (serializeSession x) = Inr x"
  using assms parse_serialize by (auto simp: cache_rel_def kv_rel_def)

section \<open>Each operation\<close>

lemma online_reads_alike:
  assumes "cache_ready env kv" "cache_rel kv s a"
  shows "alike (cache_rel kv) (isUserOnline (redis_cache env) u) (isUserOnline (abstract_ops now) u) s a"
    "alike (cache_rel kv) (getOnlineSession (redis_cache env) u) (getOnlineSession (abstract_ops now) u) s a"
proof -
  note g = get_rel [OF assms, of "onlineKey u", simplified] and look = rel_lookup [OF assms(2)]
  let ?m = "with_client env (redis_get (re_api env) (onlineKey u))"
  have "alike (cache_rel kv) (bindP ?m (\<lambda>value. case value of None \<Rightarrow> retP False
      | Some v \<Rightarrow> bindP (liftP (parseSessionValue v)) (\<lambda>_. retP True))) (getsP (\<lambda>a. ac_online a u \<noteq> None)) s a"
    using g look(1) [of u] look(6) [of u] by - (rule alike_call, rule g, auto simp: alike_def bindP_apply split: option.splits)
  with assms(2) show "alike (cache_rel kv) (isUserOnline (redis_cache env) u) (isUserOnline (abstract_ops now) u) s a"
    by (simp add: redis_cache_def abstract_ops_def rc_isUserOnline_def alike_liftP_bind)
  have "alike (cache_rel kv) (bindP ?m (\<lambda>value. case value of None \<Rightarrow> failP (offlineStatus u) | Some v \<Rightarrow> liftP (parseSessionValue v)))
      (bindP (getsP ac_online) (\<lambda>m. case m u of None \<Rightarrow> failP (offlineStatus u) | Some s \<Rightarrow> retP s)) s a"
    using g look(1) [of u] look(6) [of u] by - (rule alike_call, rule g, auto simp: alike_def bindP_apply split: option.splits)
  with assms(2) show "alike (cache_rel kv) (getOnlineSession (redis_cache env) u) (getOnlineSession (abstract_ops now) u) s a"
    by (simp add: redis_cache_def abstract_ops_def rc_getOnlineSession_def alike_liftP_bind)
qed

lemma set_online_alike:
  assumes "cache_ready env kv" "cache_rel kv s a"
    and "length (os_server_id x) < 2 ^ 64" "os_last_active_time_ms x < 2 ^ 63" "- (2 ^ 63) \<le> re_now_ms env" "re_now_ms env < 2 ^ 63"
  shows "alike (cache_rel kv) (setUserOnline (redis_cache env) x ttl) (setUserOnline (abstract_ops (re_now_ms env)) x ttl) s a"
proof -
  let ?x = "stored_session (re_now_ms env) x"
  have u: "os_user_id ?x = os_user_id x" by (simp add: stored_session_def)
  have step: "alike (cache_rel kv) (with_client env (redis_setex (re_api env) (onlineKey (os_user_id x)) (serializeSession ?x) ttl))
      (updP (\<lambda>a. a\<lparr>ac_online := (ac_online a)(os_user_id x \<mapsto> ?x)\<rparr>)) s a"
    if "cache_validateSession ?x = Inr ()" "validateTtl ttl = Inr ()"
  proof -
    have st: "storable ?x" and ttl: "0 < ttl"
      using that assms(3-6)
      by (auto simp: storable_def cache_validateSession_def validateUserId_def stored_session_def validateTtl_def split: if_splits)
    have rel: "kv_rel ((kv (snd s))(onlineKey (os_user_id x) \<mapsto> serializeSession ?x))
      (a\<lparr>ac_online := (ac_online a)(os_user_id x \<mapsto> ?x)\<rparr>)"
      using kv_rel_updates(1) st assms(2) by (simp add: cache_rel_def)
    have "\<exists>r''. redis_setex (re_api env) (onlineKey (os_user_id x)) (serializeSession ?x) ttl (c, r') = (Inr (), (c, r'')) \<and>
      kv r'' = (kv (snd s))(onlineKey (os_user_id x) \<mapsto> serializeSession ?x)"
      if "redis_isConnected c" "kv r' = kv (snd s)" for c r'
      using redis_setex_live [of "re_api env" kv c "onlineKey (os_user_id x)" ttl "serializeSession ?x" r'] assms(1) ttl that
      by (simp add: cache_ready_def)
    from with_client_rel [OF assms(1,2) this rel] show ?thesis by (simp add: alike_def updP_def)
  qed
  have "rc_setUserOnline env x ttl = bindP (liftP (cache_validateSession ?x)) (\<lambda>_. bindP (liftP (validateTtl ttl)) (\<lambda>_.
      with_client env (redis_setex (re_api env) (onlineKey (os_user_id x)) (serializeSession ?x) ttl)))"
    by (simp add: rc_setUserOnline_def stored_session_def Let_def)
  with step assms(2) show ?thesis
    by (simp add: redis_cache_def abstract_ops_def alike_liftP_bind)
qed

lemma del_rel:
  assumes "cache_ready env kv" "cache_rel kv s a" "key \<noteq> []" "kv_rel ((kv (snd s))(key := None)) b"
  shows "alike (cache_rel kv) (bindP (with_client env (redis_del (re_api env) key)) (\<lambda>_. retP ())) (updP (\<lambda>_. b)) s a"
proof -
  have "\<exists>r''. redis_del (re_api env) key (c, r') = (Inr (if kv (snd s) key = None then 0 else 1), (c, r'')) \<and>
    kv r'' = (kv (snd s))(key := None)"
    if "redis_isConnected c" "kv r' = kv (snd s)" for c r'
    using redis_del_live [of "re_api env" kv c key r'] assms(1,3) that by (simp add: cache_ready_def)
  from with_client_rel [OF assms(1,2) this assms(4)] show ?thesis
    by (simp add: alike_def updP_def bindP_fst_snd)
qed

lemma alike_updP: "alike R m (updP (\<lambda>_. f t)) s t \<Longrightarrow> alike R m (updP f) s t"
  by (simp add: alike_def updP_def)

lemma clears_alike:
  assumes "cache_ready env kv" "cache_rel kv s a"
  shows "alike (cache_rel kv) (setUserOffline (redis_cache env) u) (setUserOffline (abstract_ops now) u) s a"
    "alike (cache_rel kv) (clearUnread (redis_cache env) k) (clearUnread (abstract_ops now) k) s a"
    "alike (cache_rel kv) (clearLoginFailure (redis_cache env) l) (clearLoginFailure (abstract_ops now) l) s a"
proof -
  have m: "kv_rel (kv (snd s)) a" using assms(2) by (simp add: cache_rel_def)
  show "alike (cache_rel kv) (setUserOffline (redis_cache env) u) (setUserOffline (abstract_ops now) u) s a"
    unfolding redis_cache_def abstract_ops_def rc_setUserOffline_def cache_ops.simps
    by (rule alike_liftP_bind, rule assms(2), rule alike_updP, rule del_rel [OF assms keys_disjoint(7) kv_rel_updates(2) [OF m]])
  show "alike (cache_rel kv) (clearUnread (redis_cache env) k) (clearUnread (abstract_ops now) k) s a"
    unfolding redis_cache_def abstract_ops_def rc_clearUnread_def cache_ops.simps
    by (rule alike_liftP_bind, rule assms(2), rule alike_updP, rule del_rel [OF assms keys_disjoint(8) kv_rel_updates(4) [OF m]])
  show "alike (cache_rel kv) (clearLoginFailure (redis_cache env) l) (clearLoginFailure (abstract_ops now) l) s a"
    unfolding redis_cache_def abstract_ops_def rc_clear_def cache_ops.simps
    by (rule alike_liftP_bind, rule assms(2), rule alike_updP, rule del_rel [OF assms keys_disjoint(9) kv_rel_updates(6) [OF m]])
qed

lemma refresh_alike:
  assumes "cache_ready env kv" "cache_rel kv s a"
  shows "alike (cache_rel kv) (refreshUserOnline (redis_cache env) u ttl) (refreshUserOnline (abstract_ops now) u ttl) s a"
proof -
  have step: "alike (cache_rel kv) (bindP (with_client env (redis_expire (re_api env) (onlineKey u) ttl)) (\<lambda>updated.
      if \<not> updated then failP (offlineStatus u) else retP ()))
      (bindP (getsP ac_online) (\<lambda>m. if m u = None then failP (offlineStatus u) else retP ())) s a"
    if "0 < ttl"
  proof -
    have "\<exists>r''. redis_expire (re_api env) (onlineKey u) ttl (c, r') = (Inr (kv (snd s) (onlineKey u) \<noteq> None), (c, r'')) \<and>
      kv r'' = kv (snd s)"
      if "redis_isConnected c" "kv r' = kv (snd s)" for c r'
      using redis_expire_live [of "re_api env" kv c "onlineKey u" ttl r'] assms(1) that \<open>0 < ttl\<close> by (simp add: cache_ready_def)
    from with_client_rel [OF assms this] assms(2)
    have "fst (with_client env (redis_expire (re_api env) (onlineKey u) ttl) s) = Inr (kv (snd s) (onlineKey u) \<noteq> None) \<and>
      cache_rel kv (snd (with_client env (redis_expire (re_api env) (onlineKey u) ttl) s)) a"
      unfolding cache_rel_def [of kv s] by blast
    then show ?thesis
      unfolding alike_getsP using rel_lookup(1) [OF assms(2), of u]
      by (intro alike_call) (auto simp: alike_def)
  qed
  then show ?thesis
    using assms(2)
    by (auto simp: redis_cache_def abstract_ops_def rc_refreshUserOnline_def validateTtl_def split: if_splits
        intro!: alike_liftP_bind)
qed

lemma eval_rel:
  assumes "cache_ready env kv" "cache_rel kv s a" "script \<noteq> []" "kv_rel m b"
    and "\<And>r'. kv r' = kv (snd s) \<Longrightarrow> answers (re_api env) kv [''EVAL'', script, ''1'', key, arg] r' (ReplyInteger (int n)) m"
  shows "fst (with_client env (redis_eval (re_api env) script [key] [arg]) s) = Inr (Some (show_nat n)) \<and>
    cache_rel kv (snd (with_client env (redis_eval (re_api env) script [key] [arg]) s)) b"
  by (rule with_client_rel [OF assms(1,2) _ assms(4)]) (rule redis_eval_live, use assms(3,5) in auto)

lemma unread_alike:
  assumes "cache_ready env kv" "cache_rel kv s a"
  shows "alike (cache_rel kv) (getUnread (redis_cache env) k) (getUnread (abstract_ops now) k) s a"
    and "ac_unread a k + unat d < 2 ^ 63 \<Longrightarrow>
      alike (cache_rel kv) (incrUnread (redis_cache env) k d) (incrUnread (abstract_ops now) k d) s a"
proof -
  note look = rel_lookup [OF assms(2)]
  note g = get_rel [OF assms, of "unreadKey k", simplified]
  have "alike (cache_rel kv) (bindP (with_client env (redis_get (re_api env) (unreadKey k))) (\<lambda>value.
      case value of None \<Rightarrow> retP 0 | Some v \<Rightarrow> liftP (unread_parseUint64 v))) (getsP (\<lambda>a. of_nat (ac_unread a k))) s a"
    by (rule alike_call, rule g)
      (use g look(2,4) [of k] count_parse(1) [of "ac_unread a k"] in \<open>auto simp: alike_def holds_count_def split: if_splits\<close>)
  with assms(2) show "alike (cache_rel kv) (getUnread (redis_cache env) k) (getUnread (abstract_ops now) k) s a"
    by (simp add: redis_cache_def abstract_ops_def rc_getUnread_def alike_liftP_bind)
  assume n: "ac_unread a k + unat d < 2 ^ 63"
  let ?n = "ac_unread a k + unat d" and ?m = "with_client env (redis_eval (re_api env) kIncrByScript [unreadKey k] [show_u64 d])"
  let ?b = "a\<lparr>ac_unread := (ac_unread a)(k := ?n)\<rparr>"
  have "alike (cache_rel kv) (bindP ?m (\<lambda>value. case value of
        None \<Rightarrow> failP (status_error InternalError ''Redis INCRBY returned nil unread value'')
      | Some v \<Rightarrow> liftP (unread_parseUint64 v)))
      (bindP (updP (\<lambda>a. a\<lparr>ac_unread := (ac_unread a)(k := ac_unread a k + unat d)\<rparr>)) (\<lambda>_. getsP (\<lambda>a. of_nat (ac_unread a k)))) s a"
    if "d \<noteq> 0"
  proof -
    have pos: "0 < ?n" using that by (simp add: unat_gt_0)
    have ans: "answers (re_api env) kv [''EVAL'', kIncrByScript, ''1'', unreadKey k, show_u64 d] r' (ReplyInteger (int ?n))
        ((kv (snd s))(unreadKey k \<mapsto> show_nat ?n))" if "kv r' = kv (snd s)" for r'
      using assms(1) look(2) [of k] n that unfolding cache_ready_def redis_kv_def by metis
    have "kv_rel ((kv (snd s))(unreadKey k \<mapsto> show_nat ?n)) ?b"
      by (rule kv_rel_updates(3)) (use assms(2) pos n in \<open>simp_all add: cache_rel_def\<close>)
    from eval_rel [OF assms _ this ans] have "fst (?m s) = Inr (Some (show_nat ?n)) \<and> cache_rel kv (snd (?m s)) ?b"
      by (simp add: kIncrByScript_def)
    then have "alike (cache_rel kv) (bindP ?m (\<lambda>value. case value of
        None \<Rightarrow> failP (status_error InternalError ''Redis INCRBY returned nil unread value'')
      | Some v \<Rightarrow> liftP (unread_parseUint64 v))) (getsP (\<lambda>a. of_nat (ac_unread a k))) s ?b"
      by - (rule alike_call, assumption, use count_parse(1) [OF n] in \<open>simp add: alike_def\<close>)
    then show ?thesis by (simp add: alike_def bindP_apply updP_def)
  qed
  with assms(2) show "alike (cache_rel kv) (incrUnread (redis_cache env) k d) (incrUnread (abstract_ops now) k d) s a"
    by (auto simp: redis_cache_def abstract_ops_def rc_incrUnread_def intro!: alike_liftP_bind alike_failP)
qed

lemma limiter_alike:
  assumes "cache_ready env kv" "cache_rel kv s a"
  shows "alike (cache_rel kv) (allowLoginAttempt (redis_cache env) l n) (allowLoginAttempt (abstract_ops now) l n) s a"
    and "ac_failures a l + 1 < 2 ^ 63 \<Longrightarrow>
      alike (cache_rel kv) (recordLoginFailure (redis_cache env) l ttl) (recordLoginFailure (abstract_ops now) l ttl) s a"
proof -
  note look = rel_lookup [OF assms(2)]
  note g = get_rel [OF assms, of "loginFailureKey l", simplified]
  have less: "(of_nat (ac_failures a l) :: u64) < ucast n \<longleftrightarrow> ac_failures a l < unat n"
    using look(5) [of l] by (simp add: word_less_nat_alt unat_of_nat unat_widen)
  have "alike (cache_rel kv) (bindP (with_client env (redis_get (re_api env) (loginFailureKey l))) (\<lambda>value.
      case value of None \<Rightarrow> retP True | Some v \<Rightarrow> bindP (liftP (limiter_parseUint64 v)) (\<lambda>failure_count.
        retP (failure_count < ucast n)))) (getsP (\<lambda>a. ac_failures a l < unat n)) s a"
    if "n \<noteq> 0"
    by (rule alike_call, rule g)
      (use g look(3,5) [of l] count_parse(2) [of "ac_failures a l"] less that
        in \<open>auto simp: alike_def holds_count_def bindP_apply unat_gt_0 split: if_splits\<close>)
  with assms(2) show "alike (cache_rel kv) (allowLoginAttempt (redis_cache env) l n) (allowLoginAttempt (abstract_ops now) l n) s a"
    by (auto simp: redis_cache_def abstract_ops_def rc_allow_def intro!: alike_liftP_bind alike_failP)
  assume f: "ac_failures a l + 1 < 2 ^ 63"
  let ?n = "ac_failures a l + 1" and ?m = "with_client env (redis_eval (re_api env) kFailureScript [loginFailureKey l] [show_int ttl])"
  have "alike (cache_rel kv) (bindP ?m (\<lambda>_. retP ())) (updP (\<lambda>a. a\<lparr>ac_failures := (ac_failures a)(l := ac_failures a l + 1)\<rparr>)) s a"
    if "0 < ttl"
  proof -
    have ans: "answers (re_api env) kv [''EVAL'', kFailureScript, ''1'', loginFailureKey l, show_int ttl] r' (ReplyInteger (int ?n))
        ((kv (snd s))(loginFailureKey l \<mapsto> show_nat ?n))" if "kv r' = kv (snd s)" for r'
      using assms(1) look(3) [of l] f \<open>0 < ttl\<close> that unfolding cache_ready_def redis_kv_def by metis
    have "kv_rel ((kv (snd s))(loginFailureKey l \<mapsto> show_nat ?n)) (a\<lparr>ac_failures := (ac_failures a)(l := ?n)\<rparr>)"
      by (rule kv_rel_updates(5)) (use assms(2) f in \<open>simp_all add: cache_rel_def\<close>)
    from eval_rel [OF assms _ this ans] show ?thesis
      by (simp add: kFailureScript_def alike_def updP_def bindP_fst_snd)
  qed
  with assms(2) show "alike (cache_rel kv) (recordLoginFailure (redis_cache env) l ttl) (recordLoginFailure (abstract_ops now) l ttl) s a"
    by (auto simp: redis_cache_def abstract_ops_def rc_recordFailure_def intro!: alike_liftP_bind alike_failP)
qed

section \<open>Properties\<close>

text \<open>
  An online session survives the cache: for every session with non-zero ids and a server name,
  whatever characters the name has, parsing the value that \<open>serializeSession\<close> writes gives the session back.
\<close>

theorem online_session_roundtrip:
  assumes "storable s"
  shows "parseSessionValue (serializeSession s) = Inr s"
  by (rule parse_serialize [OF assms])

text \<open>
  Keys never collide: online, unread and login failure keys are injective in the user, in the user
  and conversation, and in the user name and address, even with colons in them, and no key of one kind is a key
  of another.
\<close>

theorem cache_keys_distinct:
  "(onlineKey u = onlineKey v \<longleftrightarrow> u = v) \<and> (unreadKey k = unreadKey k' \<longleftrightarrow> k = k') \<and>
   (loginFailureKey l = loginFailureKey l' \<longleftrightarrow> l = l') \<and>
   onlineKey u \<noteq> unreadKey k \<and> onlineKey u \<noteq> loginFailureKey l \<and> unreadKey k \<noteq> loginFailureKey l"
  by simp

text \<open>
  C19. The Redis cache is the cache that the services are written against: on a server that keeps a
  key-value map, with a live pool, every operation of \<open>RedisCache\<close> returns the result of the abstract
  cache, errors of validation included, and leaves a state that stands for the abstract one. The
  counters must stay in the signed range of Redis and times in the range of their C++ types.
\<close>

theorem redis_cache_refines:
  assumes "redis_kv (re_api env) kv" and "0 \<le> re_acquire_timeout env" and "cache_rel kv s a"
    and "- (2 ^ 63) \<le> re_now_ms env" and "re_now_ms env < 2 ^ 63"
  shows "(length (os_server_id x) < 2 ^ 64 \<and> os_last_active_time_ms x < 2 ^ 63 \<longrightarrow>
      alike (cache_rel kv) (setUserOnline (redis_cache env) x ttl) (setUserOnline (abstract_ops (re_now_ms env)) x ttl) s a) \<and>
    alike (cache_rel kv) (refreshUserOnline (redis_cache env) u ttl) (refreshUserOnline (abstract_ops (re_now_ms env)) u ttl) s a \<and>
    alike (cache_rel kv) (setUserOffline (redis_cache env) u) (setUserOffline (abstract_ops (re_now_ms env)) u) s a \<and>
    alike (cache_rel kv) (isUserOnline (redis_cache env) u) (isUserOnline (abstract_ops (re_now_ms env)) u) s a \<and>
    alike (cache_rel kv) (getOnlineSession (redis_cache env) u) (getOnlineSession (abstract_ops (re_now_ms env)) u) s a \<and>
    (ac_unread a k + unat d < 2 ^ 63 \<longrightarrow>
      alike (cache_rel kv) (incrUnread (redis_cache env) k d) (incrUnread (abstract_ops (re_now_ms env)) k d) s a) \<and>
    alike (cache_rel kv) (getUnread (redis_cache env) k) (getUnread (abstract_ops (re_now_ms env)) k) s a \<and>
    alike (cache_rel kv) (clearUnread (redis_cache env) k) (clearUnread (abstract_ops (re_now_ms env)) k) s a \<and>
    alike (cache_rel kv) (allowLoginAttempt (redis_cache env) l n) (allowLoginAttempt (abstract_ops (re_now_ms env)) l n) s a \<and>
    (ac_failures a l + 1 < 2 ^ 63 \<longrightarrow>
      alike (cache_rel kv) (recordLoginFailure (redis_cache env) l ttl) (recordLoginFailure (abstract_ops (re_now_ms env)) l ttl) s a) \<and>
    alike (cache_rel kv) (clearLoginFailure (redis_cache env) l) (clearLoginFailure (abstract_ops (re_now_ms env)) l) s a"
proof -
  have ready: "cache_ready env kv" using assms(1,2) by (simp add: cache_ready_def)
  note ok = ready assms(3)
  show ?thesis
    using set_online_alike [OF ok _ _ assms(4,5)] refresh_alike [OF ok] clears_alike [OF ok] online_reads_alike [OF ok]
      unread_alike [OF ok] limiter_alike [OF ok]
    by (intro conjI impI) simp_all
qed

section \<open>Witnesses\<close>

theorem online_session_roundtrip_witness:
  "parseSessionValue (serializeSession \<lparr>os_user_id = 7, os_session_id = 3, os_server_id = ''a:b'', os_last_active_time_ms = 5\<rparr>) =
     Inr \<lparr>os_user_id = 7, os_session_id = 3, os_server_id = ''a:b'', os_last_active_time_ms = 5\<rparr>"
  by (rule online_session_roundtrip) (simp add: storable_def)

text \<open>A server whose state is the map itself.\<close>

definition kv_count :: "string option \<Rightarrow> nat" where
  "kv_count v = (case v of None \<Rightarrow> 0 | Some t \<Rightarrow> read_digits t)"

definition kv_command :: "string list \<Rightarrow> (string \<Rightarrow> string option) \<Rightarrow> command_result \<times> (string \<Rightarrow> string option)" where
  "kv_command args m = (case args of
     [c] \<Rightarrow> (Reply (ReplyStatus ''PONG''), m)
   | [c, k] \<Rightarrow>
       if c = ''GET'' then (Reply (case m k of None \<Rightarrow> ReplyNil | Some v \<Rightarrow> ReplyString v), m)
       else (Reply (ReplyInteger (if m k = None then 0 else 1)), m(k := None))
   | [c, k, t] \<Rightarrow> (Reply (ReplyInteger (if m k = None then 0 else 1)), m)
   | [c, k, t, v] \<Rightarrow> (Reply (ReplyStatus ''OK''), m(k \<mapsto> v))
   | [c, script, one, k, arg] \<Rightarrow>
       let n = kv_count (m k) + (if script = kIncrByScript then read_digits arg else 1) in
       (Reply (ReplyInteger (int n)), m(k \<mapsto> show_nat n))
   | _ \<Rightarrow> (Reply ReplyOther, m))"

definition kv_api :: "(string \<Rightarrow> string option) redis_api" where
  "kv_api = \<lparr>redisConnectWithTimeout = \<lambda>_ _ r. (ContextOk, r), redisCommandArgv = kv_command\<rparr>"

lemma kv_count_holds: "holds_count v n \<Longrightarrow> kv_count v = n"
  by (auto simp: holds_count_def kv_count_def)

lemma kv_api_kv: "redis_kv kv_api (\<lambda>m. m)"
proof -
  have "kFailureScript \<noteq> kIncrByScript" by (simp add: kFailureScript_def kIncrByScript_def)
  then show ?thesis
    by (auto simp: redis_kv_def answers_def kv_api_def kv_command_def kv_count_holds show_u64_def Let_def)
qed

definition kv_env :: "(string \<Rightarrow> string option) redis_env" where
  "kv_env = \<lparr>re_api = kv_api, re_config = default_redis_config, re_acquire_timeout = 100, re_now_ms = 1000\<rparr>"

definition kv_state :: "(string \<Rightarrow> string option) redis_state" where
  "kv_state = (\<lparr>cp_pool_size = 1, cp_conns = [\<lparr>rc_context = True, rc_connected = True\<rparr>], cp_idle = [0], cp_started = True,
     cp_closed = False\<rparr>, Map.empty)"

definition empty_cache :: abstract_cache where
  "empty_cache = \<lparr>ac_online = Map.empty, ac_unread = \<lambda>_. 0, ac_failures = \<lambda>_. 0\<rparr>"

lemma kv_state_rel: "cache_rel (\<lambda>m. m) kv_state empty_cache"
  by (simp add: cache_rel_def pool_live_def kv_state_def kv_rel_def empty_cache_def holds_count_def redis_isConnected_def)

theorem redis_cache_refines_witness:
  "fst (isUserOnline (redis_cache kv_env) 7 kv_state) = Inr False \<and>
   fst (incrUnread (redis_cache kv_env) \<lparr>uk_user_id = 7, uk_conversation = \<lparr>ck_type = kPrivate, ck_id = 70009\<rparr>\<rparr> 5 kv_state) = Inr 5"
proof -
  let ?k = "\<lparr>uk_user_id = 7, uk_conversation = \<lparr>ck_type = kPrivate, ck_id = 70009\<rparr>\<rparr>"
  have env: "redis_kv (re_api kv_env) (\<lambda>m. m)" "0 \<le> re_acquire_timeout kv_env" "- (2 ^ 63) \<le> re_now_ms kv_env" "re_now_ms kv_env < 2 ^ 63"
    using kv_api_kv by (simp_all add: kv_env_def)
  note r = redis_cache_refines [OF env(1,2) kv_state_rel env(3,4), where u = 7 and k = ?k and d = 5]
  from r have "alike (cache_rel (\<lambda>m. m)) (isUserOnline (redis_cache kv_env) 7) (isUserOnline (abstract_ops 1000) 7) kv_state empty_cache"
    by (simp add: kv_env_def)
  moreover from r have "alike (cache_rel (\<lambda>m. m)) (incrUnread (redis_cache kv_env) ?k 5) (incrUnread (abstract_ops 1000) ?k 5) kv_state empty_cache"
    by (simp add: kv_env_def empty_cache_def)
  ultimately show ?thesis
    by (simp add: alike_def abstract_ops_def bindP_apply validateUserId_def validateUnreadKey_def validateConversation_def
        updP_def empty_cache_def)
qed

end
