(* ===== verification/Login_Limit.thy ===== *)
theory Login_Limit
  imports Auth_Service Redis_Cache
begin

text \<open>
  The login of \<open>src/service/AuthService.cpp\<close> on the limiter of \<open>src/cache/LoginRateLimiter.cpp\<close>: after as
  many failed attempts as the options allow, the account is locked for the address until the counter
  expires, whatever password comes next.
\<close>

section \<open>Failed attempts\<close>

text \<open>A password that does not open the account, in any state of the database.\<close>

definition wrong_password :: "crypto \<Rightarrow> 'd storage_ops \<Rightarrow> string \<Rightarrow> string \<Rightarrow> bool" where
  "wrong_password cr st username password \<longleftrightarrow> (\<forall>d.
     case fst (findUserByUsername st username d) of
       Inl s \<Rightarrow> code s = NotFound
     | Inr user \<Rightarrow> (\<exists>h. hashPassword cr password (ur_password_salt user) = Inr h \<and> h \<noteq> ur_password_hash user))"

text \<open>What one attempt does to the limiter that the Redis cache stands for.\<close>

lemma attempt_refused:
  assumes "cache_ready renv kv" "cache env = redis_cache renv" "cache_rel kv (w_cache w) a"
    and "credentials rq username password" "login_key rq opts username w = k" "la_remote_ip k \<noteq> []"
    and "max_login_failures opts \<noteq> 0" "unat (max_login_failures opts) \<le> ac_failures a k"
  shows "fst (handleLogin cr opts env rq w) = Inl loginLimitedStatus"
proof -
  have k: "validateLoginKey k = Inr ()"
    using assms(4-6) by (auto simp: validateLoginKey_def credentials_def login_key_def)
  have "alike (cache_rel kv) (allowLoginAttempt (cache env) k (max_login_failures opts))
      (allowLoginAttempt (abstract_ops 0) k (max_login_failures opts)) (w_cache w) a"
    using limiter_alike(1) [OF assms(1,3)] assms(2) by simp
  then have "fst (allowLoginAttempt (cache env) k (max_login_failures opts) (w_cache w)) = Inr False"
    using assms(7,8) k by (simp add: alike_def abstract_ops_def bindP_apply)
  then show ?thesis
    unfolding handleLogin_checked [OF assms(4)] login_checked_def assms(5)
    by (cases "allowLoginAttempt (cache env) k (max_login_failures opts) (w_cache w)") (simp add: bindP_apply cacheP_def)
qed

lemma attempt_counts:
  assumes "cache_ready renv kv" "cache env = redis_cache renv" "cache_rel kv (w_cache w) a"
    and "credentials rq username password" "wrong_password cr (storage env) username password"
    and "login_key rq opts username w = k" "la_remote_ip k \<noteq> []" "0 < login_failure_ttl opts"
    and "ac_failures a k < unat (max_login_failures opts)"
  shows "\<exists>b. cache_rel kv (w_cache (snd (handleLogin cr opts env rq w))) b \<and> ac_failures b k = ac_failures a k + 1 \<and>
    w_store (snd (handleLogin cr opts env rq w)) = w_store w \<and> w_sessions (snd (handleLogin cr opts env rq w)) = w_sessions w"
proof -
  have k: "validateLoginKey k = Inr ()"
    using assms(4,6,7) by (auto simp: validateLoginKey_def credentials_def login_key_def)
  have max: "max_login_failures opts \<noteq> 0" using assms(9) by auto
  obtain r c1 where allow: "allowLoginAttempt (cache env) k (max_login_failures opts) (w_cache w) = (r, c1)" by (rule prod.exhaust)
  have "alike (cache_rel kv) (allowLoginAttempt (cache env) k (max_login_failures opts))
      (allowLoginAttempt (abstract_ops 0) k (max_login_failures opts)) (w_cache w) a"
    using limiter_alike(1) [OF assms(1,3)] assms(2) by simp
  then have r: "r = Inr True" "cache_rel kv c1 a"
    using assms(9) k max allow by (simp_all add: alike_def abstract_ops_def bindP_apply)
  have "unat (max_login_failures opts) < 2 ^ 32" using unsigned_less [of "max_login_failures opts", where ?'a = nat] by simp
  then have small: "ac_failures a k + 1 < 2 ^ 63" using assms(9) by simp
  obtain q c2 where rec: "recordLoginFailure (cache env) k (login_failure_ttl opts) c1 = (q, c2)" by (rule prod.exhaust)
  have "alike (cache_rel kv) (recordLoginFailure (cache env) k (login_failure_ttl opts))
      (recordLoginFailure (abstract_ops 0) k (login_failure_ttl opts)) c1 a"
    using limiter_alike(2) [OF assms(1) r(2) small] assms(2) by simp
  then have c2: "cache_rel kv c2 (a\<lparr>ac_failures := (ac_failures a)(k := ac_failures a k + 1)\<rparr>)"
    using assms(8) k rec by (simp add: alike_def abstract_ops_def bindP_apply updP_def)
  obtain found d where found: "findUserByUsername (storage env) username (w_db w) = (found, d)" by force
  have wrong: "case found of Inl s \<Rightarrow> code s = NotFound
     | Inr user \<Rightarrow> \<exists>h. hashPassword cr password (ur_password_salt user) = Inr h \<and> h \<noteq> ur_password_hash user"
    using assms(5) [unfolded wrong_password_def, rule_format, of "w_db w"] found by simp
  have "handleLogin cr opts env rq w = (Inl (case q of Inl st \<Rightarrow> st | Inr _ \<Rightarrow> invalidCredentialsStatus), w\<lparr>w_db := d, w_cache := c2\<rparr>)"
    using login_failure_run [OF assms(4) allow [folded assms(6), unfolded r(1)] found wrong rec [folded assms(6)]] by simp
  with c2 show ?thesis by (intro exI [of _ "a\<lparr>ac_failures := (ac_failures a)(k := ac_failures a k + 1)\<rparr>"]) simp
qed

text \<open>A sequence of login requests, one after the other.\<close>

definition attempts ::
  "crypto \<Rightarrow> auth_options \<Rightarrow> ('d, 'c) service_env \<Rightarrow> router_request list \<Rightarrow> ('d, 'c) world \<Rightarrow> ('d, 'c) world" where
  "attempts cr opts env rqs w = fold (\<lambda>rq w. snd (handleLogin cr opts env rq w)) rqs w"

definition guesses :: "crypto \<Rightarrow> auth_options \<Rightarrow> ('d, 'c) service_env \<Rightarrow> string \<Rightarrow> login_attempt_key \<Rightarrow> ('d, 'c) world \<Rightarrow> router_request \<Rightarrow> bool" where
  "guesses cr opts env username k w rq \<longleftrightarrow>
     (\<exists>password. credentials rq username password \<and> wrong_password cr (storage env) username password) \<and> login_key rq opts username w = k"

lemma login_key_store: "w_store w' = w_store w \<Longrightarrow> login_key rq opts username w' = login_key rq opts username w"
  by (simp add: login_key_def remoteIpForRequest_def split: option.splits)

lemma attempts_count:
  assumes "cache_ready renv kv" "cache env = redis_cache renv" "la_remote_ip k \<noteq> []" "0 < login_failure_ttl opts"
    and "cache_rel kv (w_cache w) a" "list_all (guesses cr opts env username k w) rqs"
    and "ac_failures a k + length rqs \<le> unat (max_login_failures opts)"
  shows "\<exists>b. cache_rel kv (w_cache (attempts cr opts env rqs w)) b \<and> ac_failures b k = ac_failures a k + length rqs \<and>
    w_store (attempts cr opts env rqs w) = w_store w"
  using assms(5-7)
proof (induction rqs arbitrary: w a)
  case (Cons rq rqs)
  let ?w = "snd (handleLogin cr opts env rq w)"
  obtain password where pw: "credentials rq username password" "wrong_password cr (storage env) username password"
    "login_key rq opts username w = k" using Cons.prems(2) by (auto simp: guesses_def)
  obtain b where b: "cache_rel kv (w_cache ?w) b" "ac_failures b k = ac_failures a k + 1" "w_store ?w = w_store w"
    using attempt_counts [OF assms(1,2) Cons.prems(1) pw assms(3,4)] Cons.prems(3) by auto
  have "list_all (guesses cr opts env username k ?w) rqs"
    using Cons.prems(2) login_key_store [OF b(3)] by (auto simp: list_all_iff guesses_def)
  from Cons.IH [OF b(1) this] b(2,3) Cons.prems(3) show ?case by (auto simp: attempts_def)
qed (auto simp: attempts_def)

section \<open>Properties\<close>


section \<open>Witnesses\<close>

definition limit_env :: "(unit, (string \<Rightarrow> string option) redis_state) service_env" where
  "limit_env = \<lparr>storage = example_accounts, cache = redis_cache kv_env, server_id = ''s1'', online_ttl = 60\<rparr>"

definition limit_world :: "(unit, (string \<Rightarrow> string option) redis_state) world" where
  "limit_world = \<lparr>w_db = (), w_cache = kv_state, w_sessions = example_manager, w_store = example_store\<rparr>"

lemma limit_guess: "guesses example_crypto default_auth_options limit_env ''bob'' \<lparr>la_username = ''bob'', la_remote_ip = ''unknown''\<rparr>
    limit_world (login_request ''guess'')"
proof -
  have "toHex (bytes_of_string ''guess'') \<noteq> toHex (bytes_of_string ''pw'')"
    by (simp add: toHex_def bytes_of_string_def)
  then have "wrong_password example_crypto (storage limit_env) ''bob'' ''guess''"
    by (simp add: wrong_password_def limit_env_def example_accounts_def hashPassword_def example_crypto_def example_user_def)
  moreover have "login_key (login_request ''guess'') default_auth_options ''bob'' limit_world = \<lparr>la_username = ''bob'', la_remote_ip = ''unknown''\<rparr>"
    by (simp add: login_key_def remoteIpForRequest_def login_request_def limit_world_def example_store_def new_session_def
        default_auth_options_def)
  moreover have "credentials (login_request ''guess'') ''bob'' ''guess''" by (simp add: login_request_credentials)
  ultimately show ?thesis unfolding guesses_def by (intro conjI exI [of _ "''guess''"])
qed


end
