(* ===== verification/Server_Config.thy ===== *)
theory Server_Config
  imports Redis_Client
begin

text \<open>
  The configuration (\<open>include/liteim/base/Config.hpp\<close>, \<open>src/base/Config.cpp\<close>): default vs, the file
  format, and the command line. The file system is a parameter: which paths exist and what a readable file holds. The
  order in which an \<open>unordered_map\<close> is walked is a parameter too. The theorems: a configuration that was
  loaded is well-formed, and it does not depend on that order.
\<close>

section \<open>Values\<close>

record mysql_config =
  mcf_host :: string
  mcf_port :: u16
  mcf_user :: string
  mcf_password :: string
  mcf_database :: string
  mcf_pool_size :: u32

record qt_client_config =
  qcf_server_host :: string
  qcf_server_port :: u16

record config =
  cf_server_host :: string
  cf_server_port :: u16
  cf_io_threads :: u32
  cf_business_threads :: u32
  cf_business_queue_capacity :: u32
  cf_session_output_high_water_mark :: u64
  cf_log_level :: string
  cf_mysql :: mysql_config
  cf_redis :: redis_config
  cf_qt_client :: qt_client_config

definition default_mysql_config :: mysql_config where
  "default_mysql_config = \<lparr>mcf_host = ''127.0.0.1'', mcf_port = 33060, mcf_user = ''liteim'', mcf_password = ''6'',
     mcf_database = ''liteim'', mcf_pool_size = 4\<rparr>"

definition default_qt_client_config :: qt_client_config where
  "default_qt_client_config = \<lparr>qcf_server_host = ''127.0.0.1'', qcf_server_port = 9000\<rparr>"

definition config_defaults :: config where
  "config_defaults = \<lparr>cf_server_host = ''0.0.0.0'', cf_server_port = 9000, cf_io_threads = 4, cf_business_threads = 4,
     cf_business_queue_capacity = 1024, cf_session_output_high_water_mark = 4 * 1024 * 1024, cf_log_level = ''info'',
     cf_mysql = default_mysql_config, cf_redis = default_redis_config, cf_qt_client = default_qt_client_config\<rparr>"

section \<open>Parsing\<close>

definition trim :: "string \<Rightarrow> string" where
  "trim value =
     (let value = dropWhile is_space value in rev (dropWhile is_space (rev value)))"

definition parseUint32 :: "string \<Rightarrow> u32 result" where
  "parseUint32 value =
     (case stoull value of
        None \<Rightarrow> err ParseError (''invalid unsigned integer: '' @ value)
      | Some (number, parsed) \<Rightarrow>
          if parsed \<noteq> length value \<or> number > 0xFFFFFFFF
          then err ParseError (''invalid unsigned integer: '' @ value) else Inr (ucast number))"

definition parsePort :: "string \<Rightarrow> u16 result" where
  "parsePort value =
     bindR (parseUint32 value) (\<lambda>port.
     if port = 0 \<or> port > 65535 then err ParseError (''invalid port: '' @ value) else Inr (ucast port))"

text \<open>The lines that \<open>std::getline\<close> reads from a text.\<close>

fun getlines :: "string \<Rightarrow> string \<Rightarrow> string list" where
  "getlines acc [] = (if acc = [] then [] else [acc])"
| "getlines acc (c # cs) = (if c = CHR 0x0A then acc # getlines [] cs else getlines (acc @ [c]) cs)"

fun parse_lines :: "u32 \<Rightarrow> string list \<Rightarrow> (string \<times> string) list \<Rightarrow> (string \<times> string) list result" where
  "parse_lines line_number [] vs = Inr vs"
| "parse_lines line_number (line # ls) vs =
     (let line_number = line_number + 1;
          line = trim (takeWhile (\<lambda>c. c \<noteq> CHR ''#'') line) in
      if line = [] then parse_lines line_number ls vs
      else if CHR ''='' \<notin> set line
      then err ParseError (''invalid config line '' @ show_nat (unat line_number))
      else
        let key = trim (takeWhile (\<lambda>c. c \<noteq> CHR ''='') line);
            value = trim (tl (dropWhile (\<lambda>c. c \<noteq> CHR ''='') line)) in
        if key = [] then err ParseError (''empty config key at line '' @ show_nat (unat line_number))
        else parse_lines line_number ls (al_assign key value vs))"

definition apply_entry :: "string \<Rightarrow> string \<Rightarrow> config \<Rightarrow> config result" where
  "apply_entry key value c =
     (if key = ''server.host'' then Inr (c\<lparr>cf_server_host := value\<rparr>)
      else if key = ''server.port'' then bindR (parsePort value) (\<lambda>v. Inr (c\<lparr>cf_server_port := v\<rparr>))
      else if key = ''server.io_threads'' then bindR (parseUint32 value) (\<lambda>v. Inr (c\<lparr>cf_io_threads := v\<rparr>))
      else if key = ''server.business_threads'' then bindR (parseUint32 value) (\<lambda>v. Inr (c\<lparr>cf_business_threads := v\<rparr>))
      else if key = ''server.business_queue_capacity''
      then bindR (parseUint32 value) (\<lambda>v.
        if v = 0 then err InvalidArgument ''business queue capacity must be positive''
        else Inr (c\<lparr>cf_business_queue_capacity := v\<rparr>))
      else if key = ''server.output_high_water_mark_bytes''
      then bindR (parseUint32 value) (\<lambda>v.
        if v = 0 then err InvalidArgument ''output high water mark must be positive''
        else Inr (c\<lparr>cf_session_output_high_water_mark := ucast v\<rparr>))
      else if key = ''log.level'' then Inr (c\<lparr>cf_log_level := value\<rparr>)
      else if key = ''mysql.host'' then Inr (c\<lparr>cf_mysql := (cf_mysql c)\<lparr>mcf_host := value\<rparr>\<rparr>)
      else if key = ''mysql.port'' then bindR (parsePort value) (\<lambda>v. Inr (c\<lparr>cf_mysql := (cf_mysql c)\<lparr>mcf_port := v\<rparr>\<rparr>))
      else if key = ''mysql.user'' then Inr (c\<lparr>cf_mysql := (cf_mysql c)\<lparr>mcf_user := value\<rparr>\<rparr>)
      else if key = ''mysql.password'' then Inr (c\<lparr>cf_mysql := (cf_mysql c)\<lparr>mcf_password := value\<rparr>\<rparr>)
      else if key = ''mysql.database'' then Inr (c\<lparr>cf_mysql := (cf_mysql c)\<lparr>mcf_database := value\<rparr>\<rparr>)
      else if key = ''mysql.pool_size''
      then bindR (parseUint32 value) (\<lambda>v. Inr (c\<lparr>cf_mysql := (cf_mysql c)\<lparr>mcf_pool_size := v\<rparr>\<rparr>))
      else if key = ''redis.host'' then Inr (c\<lparr>cf_redis := (cf_redis c)\<lparr>rcf_host := value\<rparr>\<rparr>)
      else if key = ''redis.port'' then bindR (parsePort value) (\<lambda>v. Inr (c\<lparr>cf_redis := (cf_redis c)\<lparr>rcf_port := v\<rparr>\<rparr>))
      else if key = ''redis.password'' then Inr (c\<lparr>cf_redis := (cf_redis c)\<lparr>rcf_password := value\<rparr>\<rparr>)
      else if key = ''redis.db'' then bindR (parseUint32 value) (\<lambda>v. Inr (c\<lparr>cf_redis := (cf_redis c)\<lparr>rcf_db := v\<rparr>\<rparr>))
      else if key = ''redis.pool_size''
      then bindR (parseUint32 value) (\<lambda>v. Inr (c\<lparr>cf_redis := (cf_redis c)\<lparr>rcf_pool_size := v\<rparr>\<rparr>))
      else if key = ''qt.server_host'' then Inr (c\<lparr>cf_qt_client := (cf_qt_client c)\<lparr>qcf_server_host := value\<rparr>\<rparr>)
      else if key = ''qt.server_port''
      then bindR (parsePort value) (\<lambda>v. Inr (c\<lparr>cf_qt_client := (cf_qt_client c)\<lparr>qcf_server_port := v\<rparr>\<rparr>))
      else err InvalidArgument (''unknown config key: '' @ key))"

fun apply_entries :: "(string \<times> string) list \<Rightarrow> config \<Rightarrow> config result" where
  "apply_entries [] c = Inr c"
| "apply_entries ((key, value) # kvs) c = bindR (apply_entry key value c) (\<lambda>c. apply_entries kvs c)"

section \<open>Files and the command line\<close>

record file_system =
  fs_exists :: "string \<Rightarrow> bool"
  fs_read :: "string \<Rightarrow> string option"

definition loadFromFile ::
  "file_system \<Rightarrow> ((string \<times> string) list \<Rightarrow> (string \<times> string) list) \<Rightarrow> string \<Rightarrow> config \<Rightarrow> config result" where
  "loadFromFile fs walk path c =
     (case fs_read fs path of
        None \<Rightarrow> err NotFound (''config file not found: '' @ path)
      | Some text \<Rightarrow>
          bindR (parse_lines 0 (getlines [] text) []) (\<lambda>vs. apply_entries (walk vs) c))"

definition loadServerConfig ::
  "file_system \<Rightarrow> ((string \<times> string) list \<Rightarrow> (string \<times> string) list) \<Rightarrow> string list \<Rightarrow> string \<Rightarrow> config result" where
  "loadServerConfig fs walk argv default_path =
     (let c = config_defaults in
      if length argv = 1
      then if fs_exists fs default_path then loadFromFile fs walk default_path c else Inr c
      else if length argv = 3 \<and> argv ! 1 = ''--config'' then loadFromFile fs walk (argv ! 2) c
      else err InvalidArgument ''usage: liteim_server [--config path]'')"

section \<open>Lemmas\<close>

text \<open>What the rest of the server takes for granted of a configuration.\<close>

definition config_ok :: "config \<Rightarrow> bool" where
  "config_ok c \<longleftrightarrow> cf_server_port c \<noteq> 0 \<and> cf_business_queue_capacity c \<noteq> 0 \<and> cf_session_output_high_water_mark c \<noteq> 0 \<and>
     mcf_port (cf_mysql c) \<noteq> 0 \<and> rcf_port (cf_redis c) \<noteq> 0 \<and> qcf_server_port (cf_qt_client c) \<noteq> 0"

lemma parsePort_positive: "parsePort value = Inr p \<Longrightarrow> p \<noteq> 0"
proof -
  assume "parsePort value = Inr p"
  then obtain v :: u32 where v: "v \<noteq> 0" "v \<le> 65535" "p = ucast v"
    by (auto simp: parsePort_def bindR_eq_Inr not_less split: if_splits)
  then have "unat v < 2 ^ 16" by (simp add: word_le_nat_alt)
  then have "unat p = unat v" using v(3) by (simp add: unsigned_ucast_eq take_bit_nat_eq_self)
  with v(1) show "p \<noteq> 0" by (metis unat_0 unat_eq_zero)
qed

lemma widen_zero: "(ucast (v :: u32) :: u64) = 0 \<longleftrightarrow> v = 0"
  using unat_widen [of v] by (metis unat_0 unat_eq_zero)

lemma apply_entry_ok: "config_ok c \<Longrightarrow> apply_entry key value c = Inr c' \<Longrightarrow> config_ok c'"
  unfolding apply_entry_def config_ok_def
  by (auto simp: bindR_eq_Inr widen_zero dest: parsePort_positive split: if_splits)

lemma apply_entries_ok: "config_ok c \<Longrightarrow> apply_entries kvs c = Inr c' \<Longrightarrow> config_ok c'"
  by (induction kvs c rule: apply_entries.induct) (auto simp: bindR_eq_Inr dest: apply_entry_ok)

text \<open>What a line of the file says: nothing, an assignment, or something malformed.\<close>

datatype line_kind = Blank | Assign string string | Malformed

definition line_kind_of :: "string \<Rightarrow> line_kind" where
  "line_kind_of text =
     (let line = trim (takeWhile (\<lambda>c. c \<noteq> CHR ''#'') text);
          key = trim (takeWhile (\<lambda>c. c \<noteq> CHR ''='') line) in
      if line = [] then Blank
      else if CHR ''='' \<notin> set line \<or> key = [] then Malformed
      else Assign key (trim (tl (dropWhile (\<lambda>c. c \<noteq> CHR ''='') line))))"

fun assigned :: "line_kind list \<Rightarrow> (string \<rightharpoonup> string) \<Rightarrow> string \<rightharpoonup> string" where
  "assigned [] m = m"
| "assigned (Assign k v # ls) m = assigned ls (m(k \<mapsto> v))"
| "assigned (_ # ls) m = assigned ls m"

lemma parse_lines_Blank: "line_kind_of line = Blank \<Longrightarrow> parse_lines n (line # ls) vs = parse_lines (n + 1) ls vs"
  by (simp add: line_kind_of_def Let_def split: if_splits)

lemma parse_lines_Assign:
  "line_kind_of line = Assign k v \<Longrightarrow> parse_lines n (line # ls) vs = parse_lines (n + 1) ls (al_assign k v vs)"
  by (simp add: line_kind_of_def Let_def split: if_splits)

lemma parse_lines_Malformed:
  "line_kind_of line = Malformed \<Longrightarrow> \<exists>m. parse_lines n (line # ls) vs = err ParseError m"
  by (simp add: line_kind_of_def Let_def split: if_splits) blast+

lemma parse_lines_meaning:
  "(case parse_lines n ls vs of
      Inl s \<Rightarrow> code s = ParseError \<and> Malformed \<in> set (map line_kind_of ls)
    | Inr vs' \<Rightarrow> Malformed \<notin> set (map line_kind_of ls) \<and>
        map_of vs' = assigned (map line_kind_of ls) (map_of vs) \<and>
        (distinct (al_keys vs) \<longrightarrow> distinct (al_keys vs')))"
proof (induction ls arbitrary: n vs)
  case (Cons line ls)
  show ?case
  proof (cases "line_kind_of line")
    case Blank
    then show ?thesis using Cons [where n = "n + 1" and vs = vs] by (simp add: parse_lines_Blank del: parse_lines.simps split: sum.splits)
  next
    case (Assign k v)
    then show ?thesis using Cons [where n = "n + 1" and vs = "al_assign k v vs"]
      by (simp add: parse_lines_Assign fun_upd_def del: parse_lines.simps split: sum.splits)
  next
    case Malformed
    then show ?thesis using parse_lines_Malformed [OF Malformed, of n ls vs]
      by (auto simp: status_error_def simp del: parse_lines.simps)
  qed
qed simp

definition string_keys :: "string list" where
  "string_keys = [''server.host'', ''log.level'', ''mysql.host'', ''mysql.user'', ''mysql.password'', ''mysql.database'',
     ''redis.host'', ''redis.password'', ''qt.server_host'']"

definition port_keys :: "string list" where
  "port_keys = [''server.port'', ''mysql.port'', ''redis.port'', ''qt.server_port'']"

definition number_keys :: "string list" where
  "number_keys = [''server.io_threads'', ''server.business_threads'', ''mysql.pool_size'', ''redis.db'', ''redis.pool_size'']"

definition positive_keys :: "string list" where
  "positive_keys = [''server.business_queue_capacity'', ''server.output_high_water_mark_bytes'']"

definition entry_valid :: "string \<Rightarrow> string \<Rightarrow> bool" where
  "entry_valid k v \<longleftrightarrow>
     k \<in> set string_keys \<or>
     k \<in> set port_keys \<and> isl (parsePort v) = False \<or>
     k \<in> set number_keys \<and> isl (parseUint32 v) = False \<or>
     k \<in> set positive_keys \<and> isl (parseUint32 v) = False \<and> parseUint32 v \<noteq> Inr 0"

definition setting :: "(string \<rightharpoonup> string) \<Rightarrow> (string \<Rightarrow> 'a result) \<Rightarrow> string \<Rightarrow> 'a \<Rightarrow> 'a" where
  "setting m parse key old = (case m key of None \<Rightarrow> old | Some v \<Rightarrow> (case parse v of Inl _ \<Rightarrow> old | Inr x \<Rightarrow> x))"

definition config_from :: "(string \<rightharpoonup> string) \<Rightarrow> config \<Rightarrow> config" where
  "config_from m c =
     \<lparr>cf_server_host = setting m Inr ''server.host'' (cf_server_host c),
      cf_server_port = setting m parsePort ''server.port'' (cf_server_port c),
      cf_io_threads = setting m parseUint32 ''server.io_threads'' (cf_io_threads c),
      cf_business_threads = setting m parseUint32 ''server.business_threads'' (cf_business_threads c),
      cf_business_queue_capacity =
        setting m parseUint32 ''server.business_queue_capacity'' (cf_business_queue_capacity c),
      cf_session_output_high_water_mark =
        setting m (\<lambda>v. bindR (parseUint32 v) (\<lambda>n. Inr (ucast n))) ''server.output_high_water_mark_bytes''
          (cf_session_output_high_water_mark c),
      cf_log_level = setting m Inr ''log.level'' (cf_log_level c),
      cf_mysql =
        \<lparr>mcf_host = setting m Inr ''mysql.host'' (mcf_host (cf_mysql c)),
         mcf_port = setting m parsePort ''mysql.port'' (mcf_port (cf_mysql c)),
         mcf_user = setting m Inr ''mysql.user'' (mcf_user (cf_mysql c)),
         mcf_password = setting m Inr ''mysql.password'' (mcf_password (cf_mysql c)),
         mcf_database = setting m Inr ''mysql.database'' (mcf_database (cf_mysql c)),
         mcf_pool_size = setting m parseUint32 ''mysql.pool_size'' (mcf_pool_size (cf_mysql c))\<rparr>,
      cf_redis =
        \<lparr>rcf_host = setting m Inr ''redis.host'' (rcf_host (cf_redis c)),
         rcf_port = setting m parsePort ''redis.port'' (rcf_port (cf_redis c)),
         rcf_password = setting m Inr ''redis.password'' (rcf_password (cf_redis c)),
         rcf_db = setting m parseUint32 ''redis.db'' (rcf_db (cf_redis c)),
         rcf_pool_size = setting m parseUint32 ''redis.pool_size'' (rcf_pool_size (cf_redis c))\<rparr>,
      cf_qt_client =
        \<lparr>qcf_server_host = setting m Inr ''qt.server_host'' (qcf_server_host (cf_qt_client c)),
         qcf_server_port = setting m parsePort ''qt.server_port'' (qcf_server_port (cf_qt_client c))\<rparr>\<rparr>"

lemma config_from_empty [simp]: "config_from (\<lambda>_. None) c = c"
  by (simp add: config_from_def setting_def)

lemmas key_lists = string_keys_def port_keys_def number_keys_def positive_keys_def

lemma apply_entry_valid: "(\<exists>c'. apply_entry k v c = Inr c') \<longleftrightarrow> entry_valid k v"
  unfolding apply_entry_def entry_valid_def key_lists
  by (cases "parsePort v"; cases "parseUint32 v") (auto simp: bindR_eq_Inr)

lemma setting_upd:
  "setting (m(k \<mapsto> v)) parse key old =
     (if k = key then (case parse v of Inl _ \<Rightarrow> old | Inr x \<Rightarrow> x) else setting m parse key old)"
  by (simp add: setting_def)

lemma setting_None: "m key = None \<Longrightarrow> setting m parse key x = x"
  by (simp add: setting_def)

lemma apply_string_key:
  "m k = None \<Longrightarrow> apply_entry k v c = Inr c' \<Longrightarrow> k \<in> set string_keys \<Longrightarrow>
    config_from m c' = config_from (m(k \<mapsto> v)) c"
  unfolding string_keys_def list.set insert_iff empty_iff
  by (elim disjE; hypsubst?; simp add: apply_entry_def; hypsubst; simp add: config_from_def setting_upd setting_None)

lemma apply_port_key:
  "m k = None \<Longrightarrow> apply_entry k v c = Inr c' \<Longrightarrow> k \<in> set port_keys \<Longrightarrow>
    config_from m c' = config_from (m(k \<mapsto> v)) c"
  unfolding port_keys_def list.set insert_iff empty_iff
  by (cases "parsePort v"; elim disjE; hypsubst?; simp add: apply_entry_def; hypsubst; simp add: config_from_def setting_upd setting_None)

lemma apply_number_key:
  "m k = None \<Longrightarrow> apply_entry k v c = Inr c' \<Longrightarrow> k \<in> set number_keys \<Longrightarrow>
    config_from m c' = config_from (m(k \<mapsto> v)) c"
  unfolding number_keys_def list.set insert_iff empty_iff
  by (cases "parseUint32 v"; elim disjE; hypsubst?; simp add: apply_entry_def; hypsubst; simp add: config_from_def setting_upd setting_None)

lemma apply_positive_key:
  "m k = None \<Longrightarrow> apply_entry k v c = Inr c' \<Longrightarrow> k \<in> set positive_keys \<Longrightarrow>
    config_from m c' = config_from (m(k \<mapsto> v)) c"
  unfolding positive_keys_def list.set insert_iff empty_iff
  by (cases "parseUint32 v"; elim disjE; hypsubst?; simp add: apply_entry_def split: if_splits; hypsubst; simp add: config_from_def setting_upd setting_None)

lemma apply_entry_from:
  assumes "m k = None" "apply_entry k v c = Inr c'"
  shows "config_from m c' = config_from (m(k \<mapsto> v)) c"
proof -
  have "entry_valid k v" using assms(2) by (simp flip: apply_entry_valid [of k v c])
  then show ?thesis
    using apply_string_key [of m k v c c', OF assms] apply_port_key [of m k v c c', OF assms] apply_number_key [of m k v c c', OF assms] 
      apply_positive_key [of m k v c c', OF assms]
    by (auto simp: entry_valid_def)
qed

lemma apply_entries_meaning:
  assumes "distinct (al_keys kvs)"
  shows "apply_entries kvs c = Inr c' \<longleftrightarrow>
    (\<forall>(k, v) \<in> set kvs. entry_valid k v) \<and> c' = config_from (map_of kvs) c"
  using assms
proof (induction kvs arbitrary: c)
  case (Cons kv kvs)
  obtain k v where kv: "kv = (k, v)" by (cases kv)
  have fresh: "map_of kvs k = None" using Cons.prems kv by (auto simp: map_of_eq_None_iff)
  show ?case
  proof (cases "apply_entry k v c")
    case (Inl s)
    then have "\<not> entry_valid k v" by (simp flip: apply_entry_valid [of k v c])
    with Inl kv show ?thesis by simp
  next
    case (Inr c1)
    then have "entry_valid k v" by (simp flip: apply_entry_valid [of k v c])
    with Inr kv Cons.IH [of c1] Cons.prems apply_entry_from [of "map_of kvs" k v c c1, OF fresh Inr]
    show ?thesis by (simp add: fun_upd_def)
  qed
qed auto

section \<open>Properties\<close>

text \<open>Walking an \<open>unordered_map\<close> visits each entry once, in some order.\<close>

definition iterates :: "((string \<times> string) list \<Rightarrow> (string \<times> string) list) \<Rightarrow> bool" where
  "iterates walk \<longleftrightarrow> (\<forall>xs. distinct (al_keys xs) \<longrightarrow> distinct (al_keys (walk xs)) \<and> set (walk xs) = set xs)"

lemma loadFromFile_meaning:
  assumes "iterates walk" "fs_read fs path = Some text"
  shows "loadFromFile fs walk path c = Inr c' \<longleftrightarrow>
    Malformed \<notin> set (map line_kind_of (getlines [] text)) \<and>
    (\<forall>k v. assigned (map line_kind_of (getlines [] text)) Map.empty k = Some v \<longrightarrow> entry_valid k v) \<and>
    c' = config_from (assigned (map line_kind_of (getlines [] text)) Map.empty) c"
proof (cases "parse_lines 0 (getlines [] text) []")
  case (Inl s)
  then show ?thesis
    using assms(2) parse_lines_meaning [where n = 0 and ls = "getlines [] text" and vs = "[]"] by (simp add: loadFromFile_def)
next
  case (Inr vs)
  then have vs: "Malformed \<notin> set (map line_kind_of (getlines [] text))"
    "map_of vs = assigned (map line_kind_of (getlines [] text)) Map.empty" "distinct (al_keys vs)"
    using parse_lines_meaning [where n = 0 and ls = "getlines [] text" and vs = "[]"] by simp_all
  have walked: "distinct (al_keys (walk vs))" "set (walk vs) = set vs"
    using assms(1) vs(3) by (simp_all add: iterates_def)
  have same: "map_of (walk vs) = map_of vs"
    using map_of_inject_set [OF walked(1) vs(3)] walked(2) by simp
  have "(\<forall>(k, v) \<in> set (walk vs). entry_valid k v) \<longleftrightarrow> (\<forall>k v. map_of vs k = Some v \<longrightarrow> entry_valid k v)"
    using vs(3) by (auto simp: walked(2))
  then show ?thesis
    using assms(2) Inr vs(1) same apply_entries_meaning [OF walked(1), of c c'] vs(2) by (simp add: loadFromFile_def)
qed

text \<open>
  C23. A server that starts has a well-formed configuration, whatever the configuration file says and in whatever order
  its entries are applied: no port is 0, the business queue has room for a task and the output limit of a session is
  positive.
\<close>

theorem loaded_config_ok:
  assumes "loadServerConfig fs walk argv default_path = Inr c"
  shows "config_ok c"
proof -
  have "config_ok config_defaults"
    by (simp add: config_ok_def config_defaults_def default_mysql_config_def default_redis_config_def default_qt_client_config_def)
  moreover have "config_ok c'" if "loadFromFile fs walk path c0 = Inr c'" "config_ok c0" for path c0 c'
    using that by (auto simp: loadFromFile_def bindR_eq_Inr intro: apply_entries_ok split: option.splits)
  ultimately show ?thesis
    using assms by (auto simp: loadServerConfig_def Let_def split: if_splits)
qed

text \<open>
  C22. Loading a readable file succeeds exactly when each line is blank, a comment or an assignment, and the last
  assignment of each key names a known key with a valid value. Then each field has the value of the last assignment of its
  key, or else its default, so the order in which the hash map is walked has no influence.
\<close>

theorem load_config_meaning:
  assumes "iterates walk" "fs_read fs path = Some text"
  shows "loadServerConfig fs walk [program, ''--config'', path] default_path = Inr c \<longleftrightarrow>
    Malformed \<notin> set (map line_kind_of (getlines [] text)) \<and>
    (\<forall>k v. assigned (map line_kind_of (getlines [] text)) Map.empty k = Some v \<longrightarrow> entry_valid k v) \<and>
    c = config_from (assigned (map line_kind_of (getlines [] text)) Map.empty) config_defaults"
  using loadFromFile_meaning [OF assms] by (simp add: loadServerConfig_def)

definition example_text :: string where
  "example_text = ''redis.db=1'' @ [CHR 0x0A] @ ''# third'' @ [CHR 0x0A] @ '' redis.db = 3''"

definition example_files :: file_system where
  "example_files = \<lparr>fs_exists = (\<lambda>p. p = ''a.conf''), fs_read = (\<lambda>p. if p = ''a.conf'' then Some example_text else None)\<rparr>"

definition example_config :: config where
  "example_config = config_defaults\<lparr>cf_redis := default_redis_config\<lparr>rcf_db := 3\<rparr>\<rparr>"

lemma example_lines: "getlines [] example_text = [''redis.db=1'', ''# third'', '' redis.db = 3'']"
  by (simp add: example_text_def)

lemma example_parsed: "parse_lines 0 (getlines [] example_text) [] = Inr [(''redis.db'', ''3'')]"
  by (simp add: example_lines trim_def is_space_def al_assign_def al_erase_def Let_def)

lemma example_number: "parseUint32 ''3'' = Inr 3"
  by (simp add: parseUint32_def stoull_def split_number_def is_space_def is_digit_def read_digits_def digit_value_def)

lemma example_loads: "loadServerConfig example_files rev [''liteim_server'', ''--config'', ''a.conf''] ''b.conf'' = Inr example_config"
  by (simp add: loadServerConfig_def loadFromFile_def example_files_def example_parsed apply_entry_def example_number
      example_config_def config_defaults_def)

theorem loaded_config_ok_witness: "config_ok example_config"
  using loaded_config_ok [OF example_loads] .

theorem load_config_meaning_witness:
  "example_config = config_from (assigned (map line_kind_of (getlines [] example_text)) Map.empty) config_defaults"
proof -
  have "iterates rev" by (auto simp: iterates_def simp flip: rev_map)
  moreover have "fs_read example_files ''a.conf'' = Some example_text" by (simp add: example_files_def)
  ultimately show ?thesis
    using load_config_meaning [of rev example_files "''a.conf''" example_text "''liteim_server''" "''b.conf''" example_config]
      example_loads by simp
qed

text \<open>\<open>std::stoul\<close> reads a negative number modulo \<open>2 ^ 64\<close>, so \<open>parseUint32\<close> accepts some of them.\<close>

lemma parseUint32_wraps: "parseUint32 ''-18446744073709551615'' = Inr 1"
  by (simp add: parseUint32_def stoull_def split_number_def is_space_def is_digit_def read_digits_def digit_value_def)

end
