(* ===== verification/MySql_Connection.thy ===== *)
theory MySql_Connection
  imports Server_Config Conn_Pool
begin

text \<open>
  The MySQL connection and prepared statements (\<open>src/storage/MySqlConnection.cpp\<close>) and the connection pool over them
  (\<open>src/storage/MySqlPool.cpp\<close>). The MySQL client library and the server behind it are a parameter, an
  \<open>'m mysql_api\<close> of the calls that the classes make; handles are numbers. A call that signals failure by a nonzero
  result or a null pointer returns \<open>False\<close> or \<open>None\<close>. Freeing a connection handle is not modelled: no call uses a handle
  after it. The rows that \<open>mysql_stmt_fetch\<close> delivers after \<open>mysql_stmt_store_result\<close> are a finite list.
  The theorems: a query returns every row and every byte of every column, whatever buffer sizes the library suggests;
  and the pool keeps the contract of \<open>Conn_Pool\<close>.
\<close>

section \<open>The MySQL client library\<close>

datatype param = PInt int | PUint u64 | PString string

record column_cell =
  cc_is_null :: bool
  cc_length :: nat
  cc_error :: bool
  cc_data :: string

text \<open>
  What one \<open>mysql_stmt_fetch\<close> delivers: a failure, or a row in the bound buffers (also when it was truncated), for which
  \<open>mysql_stmt_fetch_column\<close> with a column and a buffer size may be called.
\<close>

datatype fetch_outcome = FetchFailed | FetchRow "column_cell list" "nat \<Rightarrow> nat \<Rightarrow> column_cell option"

record mysql_field =
  mf_name :: "string option"
  mf_max_length :: nat

record 'm mysql_api =
  mysql_init :: "'m \<Rightarrow> nat option \<times> 'm"
  mysql_options :: "nat \<Rightarrow> string \<Rightarrow> 'm \<Rightarrow> bool \<times> 'm"
  mysql_real_connect :: "nat \<Rightarrow> mysql_config \<Rightarrow> 'm \<Rightarrow> bool \<times> 'm"
  mysql_error :: "nat \<Rightarrow> 'm \<Rightarrow> string"
  mysql_ping :: "nat \<Rightarrow> 'm \<Rightarrow> bool \<times> 'm"
  mysql_query :: "nat \<Rightarrow> string \<Rightarrow> 'm \<Rightarrow> bool \<times> 'm"
  mysql_store_result :: "nat \<Rightarrow> 'm \<Rightarrow> bool \<times> 'm"
  mysql_field_count :: "nat \<Rightarrow> 'm \<Rightarrow> nat"
  mysql_stmt_init :: "nat \<Rightarrow> 'm \<Rightarrow> nat option \<times> 'm"
  mysql_stmt_prepare :: "nat \<Rightarrow> string \<Rightarrow> 'm \<Rightarrow> bool \<times> 'm"
  mysql_stmt_param_count :: "nat \<Rightarrow> 'm \<Rightarrow> nat"
  mysql_stmt_error :: "nat \<Rightarrow> 'm \<Rightarrow> string"
  mysql_stmt_errno :: "nat \<Rightarrow> 'm \<Rightarrow> nat"
  mysql_stmt_attr_set :: "nat \<Rightarrow> 'm \<Rightarrow> bool \<times> 'm"
  mysql_stmt_bind_param :: "nat \<Rightarrow> param list \<Rightarrow> 'm \<Rightarrow> bool \<times> 'm"
  mysql_stmt_execute :: "nat \<Rightarrow> 'm \<Rightarrow> bool \<times> 'm"
  mysql_stmt_affected_rows :: "nat \<Rightarrow> 'm \<Rightarrow> u64"
  mysql_stmt_result_metadata :: "nat \<Rightarrow> 'm \<Rightarrow> bool"
  mysql_stmt_store_result :: "nat \<Rightarrow> 'm \<Rightarrow> bool \<times> 'm"
  mysql_fetch_fields :: "nat \<Rightarrow> 'm \<Rightarrow> mysql_field list"
  mysql_stmt_bind_result :: "nat \<Rightarrow> nat list \<Rightarrow> 'm \<Rightarrow> bool \<times> 'm"
  mysql_stmt_fetch :: "nat \<Rightarrow> 'm \<Rightarrow> fetch_outcome list"
  mysql_stmt_free_result :: "nat \<Rightarrow> 'm \<Rightarrow> 'm"
  mysql_stmt_close :: "nat \<Rightarrow> 'm \<Rightarrow> 'm"

section \<open>The connection\<close>

record mysql_conn =
  mc_handle :: "nat option"
  mc_connected :: bool

definition new_mysql_conn :: mysql_conn where
  "new_mysql_conn = \<lparr>mc_handle = None, mc_connected = False\<rparr>"

type_synonym ('m, 'a) sql = "(mysql_conn \<times> 'm, 'a) prog"

definition kUtf8Mb4 :: string where "kUtf8Mb4 = ''utf8mb4''"

definition mysqlError :: "'m mysql_api \<Rightarrow> nat \<Rightarrow> string \<Rightarrow> 'm \<Rightarrow> status" where
  "mysqlError api handle action m = status_error IoError (action @ '': '' @ mysql_error api handle m)"

definition statementError :: "'m mysql_api \<Rightarrow> nat \<Rightarrow> string \<Rightarrow> 'm \<Rightarrow> status" where
  "statementError api st action m = status_error IoError (action @ '': '' @ mysql_stmt_error api st m)"

definition mysql_isConnected :: "mysql_conn \<Rightarrow> bool" where
  "mysql_isConnected c \<longleftrightarrow> mc_connected c \<and> mc_handle c \<noteq> None"

definition mysql_close :: "mysql_conn \<Rightarrow> mysql_conn" where
  "mysql_close c = c\<lparr>mc_handle := None, mc_connected := False\<rparr>"

definition notConnected :: "('m, 'a) sql" where
  "notConnected = failP (status_error InvalidArgument ''MySQL connection is not connected'')"

definition mysql_connect :: "'m mysql_api \<Rightarrow> mysql_config \<Rightarrow> ('m, unit) sql" where
  "mysql_connect api cfg = (\<lambda>(c, m).
     let c = mysql_close c in
     case mysql_init api m of
       (None, m) \<Rightarrow> (err InternalError ''mysql_init failed'', (c, m))
     | (Some h, m) \<Rightarrow>
         let c = c\<lparr>mc_handle := Some h\<rparr> in
         case mysql_options api h kUtf8Mb4 m of
           (False, m) \<Rightarrow>
             (Inl (mysqlError api h ''mysql_options MYSQL_SET_CHARSET_NAME failed'' m), (mysql_close c, m))
         | (True, m) \<Rightarrow>
             case mysql_real_connect api h cfg m of
               (False, m) \<Rightarrow> (Inl (mysqlError api h ''mysql_real_connect failed'' m), (mysql_close c, m))
             | (True, m) \<Rightarrow> (Inr (), (c\<lparr>mc_connected := True\<rparr>, m)))"

definition mysql_conn_ping :: "'m mysql_api \<Rightarrow> ('m, unit) sql" where
  "mysql_conn_ping api = (\<lambda>(c, m).
     if \<not> mysql_isConnected c then notConnected (c, m)
     else case mysql_ping api (the (mc_handle c)) m of
         (False, m) \<Rightarrow> (Inl (mysqlError api (the (mc_handle c)) ''mysql_ping failed'' m), (c, m))
       | (True, m) \<Rightarrow> (Inr (), (c, m)))"

definition executeSimple :: "'m mysql_api \<Rightarrow> string \<Rightarrow> ('m, unit) sql" where
  "executeSimple api sql = (\<lambda>(c, m).
     if \<not> mysql_isConnected c then notConnected (c, m)
     else
       let h = the (mc_handle c) in
       case mysql_query api h sql m of
         (False, m) \<Rightarrow> (Inl (mysqlError api h ''mysql_query failed'' m), (c, m))
       | (True, m) \<Rightarrow>
           case mysql_store_result api h m of
             (True, m) \<Rightarrow> (Inr (), (c, m))
           | (False, m) \<Rightarrow>
               if mysql_field_count api h m \<noteq> 0
               then (Inl (mysqlError api h ''mysql_store_result failed'' m), (c, m))
               else (Inr (), (c, m)))"

section \<open>Prepared statements\<close>

text \<open>\<open>PreparedStatementImpl\<close>: the handle, and for each parameter the bound value.\<close>

record prepared =
  ps_statement :: "nat option"
  ps_parameters :: "param option list"

definition new_prepared :: prepared where
  "new_prepared = \<lparr>ps_statement = None, ps_parameters = []\<rparr>"

definition isPrepared :: "prepared \<Rightarrow> bool" where
  "isPrepared ps \<longleftrightarrow> ps_statement ps \<noteq> None"

definition ps_close :: "'m mysql_api \<Rightarrow> prepared \<Rightarrow> 'm \<Rightarrow> 'm" where
  "ps_close api ps m = (case ps_statement ps of None \<Rightarrow> m | Some st \<Rightarrow> mysql_stmt_close api st m)"

definition ps_prepare :: "'m mysql_api \<Rightarrow> string \<Rightarrow> prepared \<Rightarrow> ('m, prepared) sql" where
  "ps_prepare api sql ps = (\<lambda>(c, m).
     let m = ps_close api ps m in
     if \<not> mysql_isConnected c then notConnected (c, m)
     else
       let h = the (mc_handle c) in
       case mysql_stmt_init api h m of
         (None, m) \<Rightarrow> (Inl (mysqlError api h ''mysql_stmt_init failed'' m), (c, m))
       | (Some st, m) \<Rightarrow>
           case mysql_stmt_prepare api st sql m of
             (False, m) \<Rightarrow>
               (Inl (statementError api st ''mysql_stmt_prepare failed'' m), (c, mysql_stmt_close api st m))
           | (True, m) \<Rightarrow>
               (Inr \<lparr>ps_statement = Some st, ps_parameters = replicate (mysql_stmt_param_count api st m) None\<rparr>, (c, m)))"

definition notPrepared :: "'a result" where
  "notPrepared = err InvalidArgument ''prepared statement is not prepared''"

definition bind_value :: "nat \<Rightarrow> param \<Rightarrow> prepared \<Rightarrow> prepared result" where
  "bind_value index value ps =
     (if \<not> isPrepared ps then notPrepared
      else if index \<ge> length (ps_parameters ps) then err InvalidArgument ''parameter index out of range''
      else Inr (ps\<lparr>ps_parameters := (ps_parameters ps)[index := Some value]\<rparr>))"

definition bindInt64 :: "nat \<Rightarrow> int \<Rightarrow> prepared \<Rightarrow> prepared result" where
  "bindInt64 index value ps = bind_value index (PInt value) ps"

definition bindUInt64 :: "nat \<Rightarrow> u64 \<Rightarrow> prepared \<Rightarrow> prepared result" where
  "bindUInt64 index value ps = bind_value index (PUint value) ps"

definition bindString :: "nat \<Rightarrow> string \<Rightarrow> prepared \<Rightarrow> prepared result" where
  "bindString index value ps = bind_value index (PString value) ps"

fun missing_bind :: "nat \<Rightarrow> param option list \<Rightarrow> unit result" where
  "missing_bind index [] = Inr ()"
| "missing_bind index (None # ps) =
     err InvalidArgument (''missing bind value for parameter index '' @ show_nat index)"
| "missing_bind index (Some _ # ps) = missing_bind (Suc index) ps"

definition bindParameters :: "'m mysql_api \<Rightarrow> prepared \<Rightarrow> ('m, unit) sql" where
  "bindParameters api ps = (\<lambda>(c, m).
     case ps_statement ps of
       None \<Rightarrow> (notPrepared, (c, m))
     | Some st \<Rightarrow>
         case missing_bind 0 (ps_parameters ps) of
           Inl e \<Rightarrow> (Inl e, (c, m))
         | Inr _ \<Rightarrow>
             if ps_parameters ps = [] then (Inr (), (c, m))
             else case mysql_stmt_bind_param api st (map the (ps_parameters ps)) m of
                 (False, m) \<Rightarrow> (Inl (statementError api st ''mysql_stmt_bind_param failed'' m), (c, m))
               | (True, m) \<Rightarrow> (Inr (), (c, m)))"

definition run_update :: "'m mysql_api \<Rightarrow> nat \<Rightarrow> ('m, u64) sql" where
  "run_update api st = (\<lambda>(c, m).
     case mysql_stmt_execute api st m of
       (False, m) \<Rightarrow> (Inl (statementError api st ''mysql_stmt_execute failed'' m), (c, m))
     | (True, m) \<Rightarrow>
         let affected = mysql_stmt_affected_rows api st m in
         if affected = - 1 then (Inl (statementError api st ''mysql_stmt_affected_rows failed'' m), (c, m))
         else (Inr affected, (c, mysql_stmt_free_result api st m)))"

definition executeUpdate :: "'m mysql_api \<Rightarrow> prepared \<Rightarrow> ('m, u64) sql" where
  "executeUpdate api ps = bindP (bindParameters api ps) (\<lambda>_. run_update api (the (ps_statement ps)))"

type_synonym mysql_row = "string option list"

record query_result =
  qr_columns :: "string list"
  qr_rows :: "mysql_row list"

definition fetchFullColumn :: "'m mysql_api \<Rightarrow> nat \<Rightarrow> (nat \<Rightarrow> nat \<Rightarrow> column_cell option) \<Rightarrow> nat \<Rightarrow> nat \<Rightarrow> 'm \<Rightarrow> string option result" where
  "fetchFullColumn api st fetch_column column len m =
     (case fetch_column column (len + 1) of
        None \<Rightarrow> Inl (statementError api st ''mysql_stmt_fetch_column failed'' m)
      | Some cell \<Rightarrow> if cc_is_null cell then Inr None else Inr (Some (take (cc_length cell) (cc_data cell))))"

text \<open>The buffer length that is bound for a column, and the value of a column of a fetched row.\<close>

definition buffer_length :: "mysql_field \<Rightarrow> nat" where
  "buffer_length f = max (mf_max_length f) 1 + 1"

definition column_value :: "'m mysql_api \<Rightarrow> nat \<Rightarrow> (nat \<Rightarrow> nat \<Rightarrow> column_cell option) \<Rightarrow> 'm \<Rightarrow> nat \<Rightarrow> nat \<Rightarrow> column_cell \<Rightarrow> string option result" where
  "column_value api st fetch_column m column len cell =
     (if cc_is_null cell then Inr None
      else if cc_error cell \<or> cc_length cell \<ge> len then fetchFullColumn api st fetch_column column (cc_length cell) m
      else Inr (Some (take (cc_length cell) (cc_data cell))))"

fun row_values :: "'m mysql_api \<Rightarrow> nat \<Rightarrow> (nat \<Rightarrow> nat \<Rightarrow> column_cell option) \<Rightarrow> 'm \<Rightarrow> nat \<Rightarrow> nat list \<Rightarrow> column_cell list \<Rightarrow> mysql_row result" where
  "row_values api st fetch_column m column (len # lens) (cell # cells) =
     bindR (column_value api st fetch_column m column len cell) (\<lambda>v.
     bindR (row_values api st fetch_column m (Suc column) lens cells) (\<lambda>vs. Inr (v # vs)))"
| "row_values api st fetch_column m column _ _ = Inr []"

text \<open>The fetch loop; \<open>Inl None\<close> when \<open>mysql_stmt_fetch\<close> failed, whose message is read after the result was freed.\<close>

fun fetch_loop :: "'m mysql_api \<Rightarrow> nat \<Rightarrow> nat list \<Rightarrow> 'm \<Rightarrow> fetch_outcome list \<Rightarrow> status option + mysql_row list" where
  "fetch_loop api st lens m [] = Inr []"
| "fetch_loop api st lens m (FetchFailed # outs) = Inl None"
| "fetch_loop api st lens m (FetchRow cells fetch_column # outs) =
     (case row_values api st fetch_column m 0 lens cells of
        Inl e \<Rightarrow> Inl (Some e)
      | Inr row \<Rightarrow> (case fetch_loop api st lens m outs of Inl e \<Rightarrow> Inl e | Inr rows \<Rightarrow> Inr (row # rows)))"

definition read_result :: "'m mysql_api \<Rightarrow> nat \<Rightarrow> ('m, query_result) sql" where
  "read_result api st = (\<lambda>(c, m).
     let flds = mysql_fetch_fields api st m;
         lens = map buffer_length flds in
     case (if lens = [] then (True, m) else mysql_stmt_bind_result api st lens m) of
       (False, m) \<Rightarrow>
         let m = mysql_stmt_free_result api st m in (Inl (statementError api st ''mysql_stmt_bind_result failed'' m), (c, m))
     | (True, m) \<Rightarrow>
         case fetch_loop api st lens m (mysql_stmt_fetch api st m) of
           Inl None \<Rightarrow>
             let m = mysql_stmt_free_result api st m in (Inl (statementError api st ''mysql_stmt_fetch failed'' m), (c, m))
         | Inl (Some e) \<Rightarrow> (Inl e, (c, mysql_stmt_free_result api st m))
         | Inr rows \<Rightarrow>
             (Inr \<lparr>qr_columns = map (\<lambda>f. case mf_name f of None \<Rightarrow> [] | Some n \<Rightarrow> n) flds, qr_rows = rows\<rparr>,
              (c, mysql_stmt_free_result api st m)))"

definition update_max_length :: "'m mysql_api \<Rightarrow> nat \<Rightarrow> ('m, unit) sql" where
  "update_max_length api st = (\<lambda>(c, m).
     case mysql_stmt_attr_set api st m of
       (False, m) \<Rightarrow> (Inl (statementError api st ''mysql_stmt_attr_set failed'' m), (c, m))
     | (True, m) \<Rightarrow> (Inr (), (c, m)))"

definition run_query :: "'m mysql_api \<Rightarrow> nat \<Rightarrow> ('m, query_result) sql" where
  "run_query api st = (\<lambda>(c, m).
     case mysql_stmt_execute api st m of
       (False, m) \<Rightarrow> (Inl (statementError api st ''mysql_stmt_execute failed'' m), (c, m))
     | (True, m) \<Rightarrow>
         if \<not> mysql_stmt_result_metadata api st m
         then (err InvalidArgument ''prepared statement did not return a result set'',
               (c, mysql_stmt_free_result api st m))
         else case mysql_stmt_store_result api st m of
             (False, m) \<Rightarrow> (Inl (statementError api st ''mysql_stmt_store_result failed'' m), (c, m))
           | (True, m) \<Rightarrow> read_result api st (c, m))"

definition executeQuery :: "'m mysql_api \<Rightarrow> prepared \<Rightarrow> ('m, query_result) sql" where
  "executeQuery api ps =
     (case ps_statement ps of
        None \<Rightarrow> liftP notPrepared
      | Some st \<Rightarrow>
          bindP (update_max_length api st) (\<lambda>_.
          bindP (bindParameters api ps) (\<lambda>_.
          run_query api st)))"

definition lastErrorNumber :: "'m mysql_api \<Rightarrow> prepared \<Rightarrow> 'm \<Rightarrow> nat" where
  "lastErrorNumber api ps m = (case ps_statement ps of None \<Rightarrow> 0 | Some st \<Rightarrow> mysql_stmt_errno api st m)"

text \<open>
  A statement that is local to a block: \<open>prepare\<close> on a new object, and the destructor when the block is left.
\<close>

definition prepareP :: "'m mysql_api \<Rightarrow> string \<Rightarrow> ('m, prepared) sql" where
  "prepareP api sql = ps_prepare api sql new_prepared"

definition scopedP :: "'m mysql_api \<Rightarrow> prepared \<Rightarrow> ('m, 'a) sql \<Rightarrow> ('m, 'a) sql" where
  "scopedP api ps f = (\<lambda>s. case f s of (r, (c, m)) \<Rightarrow> (r, (c, ps_close api ps m)))"

definition with_stmt :: "'m mysql_api \<Rightarrow> string \<Rightarrow> (prepared \<Rightarrow> ('m, 'a) sql) \<Rightarrow> ('m, 'a) sql" where
  "with_stmt api sql f = bindP (prepareP api sql) (\<lambda>ps. scopedP api ps (f ps))"

section \<open>The pool\<close>

definition mysql_ops :: "'m mysql_api \<Rightarrow> mysql_config \<Rightarrow> (mysql_conn, 'm) conn_ops" where
  "mysql_ops api cfg =
     \<lparr>co_new = new_mysql_conn, co_connect = mysql_connect api cfg, co_ping = mysql_conn_ping api, co_close = mysql_close,
      co_isConnected = mysql_isConnected, co_label = ''MySQL'', co_guard = ''ConnectionGuard''\<rparr>"

lemma mysql_connect_live: "mysql_connect api cfg (c, m) = (Inr (), (c', m')) \<Longrightarrow> mysql_isConnected c'"
  by (auto simp: mysql_connect_def mysql_isConnected_def mysql_close_def Let_def split: prod.splits option.splits bool.splits)

lemma mysql_ping_conn: "mysql_conn_ping api (c, m) = (res, (c', m')) \<Longrightarrow> c' = c"
  by (auto simp: mysql_conn_ping_def notConnected_def split: prod.splits bool.splits if_splits)

lemma mysql_close_dead [simp]: "\<not> mysql_isConnected (mysql_close c)"
  by (simp add: mysql_isConnected_def mysql_close_def)

interpretation mysql_pool: connection "mysql_ops api cfg"
  by unfold_locales (auto simp: mysql_ops_def dest: mysql_connect_live mysql_ping_conn)

definition mysql_pool_start :: "'m mysql_api \<Rightarrow> mysql_config \<Rightarrow> (mysql_conn conn_pool \<times> 'm, unit) prog" where
  "mysql_pool_start api cfg = pool_start (mysql_ops api cfg)"

definition mysql_acquire :: "'m mysql_api \<Rightarrow> mysql_config \<Rightarrow> int \<Rightarrow> bool \<Rightarrow> (mysql_conn conn_pool \<times> 'm, nat) prog" where
  "mysql_acquire api cfg = pool_acquire (mysql_ops api cfg)"

definition releaseConnection :: "'m mysql_api \<Rightarrow> mysql_config \<Rightarrow> nat \<Rightarrow> mysql_conn conn_pool \<Rightarrow> mysql_conn conn_pool" where
  "releaseConnection api cfg = release_conn (mysql_ops api cfg)"

definition closeIdleConnections :: "'m mysql_api \<Rightarrow> mysql_config \<Rightarrow> mysql_conn conn_pool \<Rightarrow> mysql_conn conn_pool" where
  "closeIdleConnections api cfg = close_idle (mysql_ops api cfg)"

definition mysql_guard_reset :: "'m mysql_api \<Rightarrow> mysql_config \<Rightarrow> nat option \<Rightarrow> mysql_conn conn_pool \<Rightarrow> mysql_conn conn_pool" where
  "mysql_guard_reset api cfg = guard_reset (mysql_ops api cfg)"

section \<open>Reading results\<close>

text \<open>
  What the library promises of a fetch into buffers of given sizes: the null flag, the whole length of the value, as many
  of its bytes as fit, and the error flag when some did not.
\<close>

definition cell_holds :: "nat \<Rightarrow> string option \<Rightarrow> column_cell \<Rightarrow> bool" where
  "cell_holds n v cell \<longleftrightarrow>
     (case v of
        None \<Rightarrow> cc_is_null cell
      | Some s \<Rightarrow> \<not> cc_is_null cell \<and> cc_length cell = length s \<and> cc_data cell = take n s \<and> (cc_error cell \<longleftrightarrow> n < length s))"

definition row_fetched :: "nat list \<Rightarrow> fetch_outcome \<Rightarrow> mysql_row \<Rightarrow> bool" where
  "row_fetched lens out row \<longleftrightarrow>
     (\<exists>cells fc. out = FetchRow cells fc \<and> length cells = length lens \<and> length row = length lens \<and>
        (\<forall>i < length lens. cell_holds (lens ! i) (row ! i) (cells ! i) \<and>
           (\<forall>n. \<exists>cell. fc i n = Some cell \<and> cell_holds n (row ! i) cell)))"

lemma column_value_whole:
  assumes "cell_holds len v cell" "\<forall>n. \<exists>cell. fc column n = Some cell \<and> cell_holds n v cell"
  shows "column_value api st fc m column len cell = Inr v"
proof (cases v)
  case None
  with assms(1) show ?thesis by (simp add: column_value_def cell_holds_def)
next
  case (Some s)
  obtain full where full: "fc column (length s + 1) = Some full" "cell_holds (length s + 1) (Some s) full"
    using assms(2) Some by blast
  with assms(1) Some show ?thesis
    by (auto simp: column_value_def cell_holds_def fetchFullColumn_def)
qed

lemma row_values_whole:
  assumes "length cells = length lens" "length row = length lens"
    and "\<forall>i < length lens. cell_holds (lens ! i) (row ! i) (cells ! i) \<and>
      (\<forall>n. \<exists>cell. fc (column + i) n = Some cell \<and> cell_holds n (row ! i) cell)"
  shows "row_values api st fc m column lens cells = Inr row"
  using assms
proof (induction lens arbitrary: column cells row)
  case (Cons len lens)
  obtain cell cells' where cells: "cells = cell # cells'" using Cons.prems(1) by (cases cells) auto
  obtain v row' where row: "row = v # row'" using Cons.prems(2) by (cases row) auto
  have "column_value api st fc m column len cell = Inr v"
    using Cons.prems(3) [rule_format, of 0] cells row by (intro column_value_whole) simp_all
  moreover have "row_values api st fc m (Suc column) lens cells' = Inr row'"
  proof (rule Cons.IH)
    show "\<forall>i < length lens. cell_holds (lens ! i) (row' ! i) (cells' ! i) \<and>
        (\<forall>n. \<exists>cell. fc (Suc column + i) n = Some cell \<and> cell_holds n (row' ! i) cell)"
      using Cons.prems(3) [rule_format, of "Suc _"] cells row by simp
  qed (use Cons.prems cells row in simp_all)
  ultimately show ?case using cells row by simp
qed simp

lemma fetch_loop_whole: "list_all2 (row_fetched lens) outs rows \<Longrightarrow> fetch_loop api st lens m outs = Inr rows"
proof (induction outs rows rule: list_all2_induct)
  case (Cons out outs row rows)
  then obtain cells fc where out: "out = FetchRow cells fc" and
    fetched: "length cells = length lens" "length row = length lens"
      "\<forall>i < length lens. cell_holds (lens ! i) (row ! i) (cells ! i) \<and>
         (\<forall>n. \<exists>cell. fc i n = Some cell \<and> cell_holds n (row ! i) cell)"
    by (auto simp: row_fetched_def)
  have "row_values api st fc m 0 lens cells = Inr row"
    using fetched by (intro row_values_whole) simp_all
  with Cons.IH out show ?case by simp
qed simp

text \<open>What a prepared statement goes through before its rows are read, each call being successful.\<close>

definition query_calls :: "'m mysql_api \<Rightarrow> nat \<Rightarrow> param list \<Rightarrow> 'm \<Rightarrow> 'm \<Rightarrow> bool" where
  "query_calls api st vs m m4 \<longleftrightarrow>
     (\<exists>m1 m2 m3. mysql_stmt_attr_set api st m = (True, m1) \<and>
        (if vs = [] then m2 = m1 else mysql_stmt_bind_param api st vs m1 = (True, m2)) \<and>
        mysql_stmt_execute api st m2 = (True, m3) \<and> mysql_stmt_result_metadata api st m3 \<and>
        mysql_stmt_store_result api st m3 = (True, m4))"

lemma missing_bind_none: "missing_bind i (map Some vs) = Inr ()"
  by (induction vs arbitrary: i) simp_all

lemma executeQuery_run:
  assumes "query_calls api st vs m m4"
  shows "executeQuery api \<lparr>ps_statement = Some st, ps_parameters = map Some vs\<rparr> (c, m) = read_result api st (c, m4)"
  using assms
  by (auto simp: query_calls_def executeQuery_def update_max_length_def run_query_def bindParameters_def missing_bind_none bindP_apply comp_def split: if_splits)

lemma all_less_two: "(\<forall>i < Suc (Suc 0). P i) \<longleftrightarrow> P 0 \<and> P 1"
  by (auto simp: less_Suc_eq)

section \<open>Properties\<close>

text \<open>
  A query loses nothing: when the calls of the library succeed, \<open>executeQuery\<close> returns the rows of the result set in
  order, each column with all its bytes and null as null, whatever maximum lengths the library reports for the
  columns and so however small the buffers for the first read are.
\<close>

theorem query_reads_all_rows:
  assumes "query_calls api st vs m m4" and "mysql_fetch_fields api st m4 \<noteq> []"
    and "mysql_stmt_bind_result api st (map buffer_length (mysql_fetch_fields api st m4)) m4 = (True, m5)"
    and "list_all2 (row_fetched (map buffer_length (mysql_fetch_fields api st m4))) (mysql_stmt_fetch api st m5) rows"
  shows "\<exists>res. executeQuery api \<lparr>ps_statement = Some st, ps_parameters = map Some vs\<rparr> (c, m) =
      (Inr res, (c, mysql_stmt_free_result api st m5)) \<and> qr_rows res = rows"
proof -
  have "fetch_loop api st (map buffer_length (mysql_fetch_fields api st m4)) m5 (mysql_stmt_fetch api st m5) = Inr rows"
    by (rule fetch_loop_whole) (rule assms(4))
  then show ?thesis
    using assms(2,3) by (simp add: executeQuery_run [OF assms(1)] read_result_def Let_def)
qed

section \<open>Witnesses\<close>

text \<open>A library that has one row, of a long text and a null, and reports 1 as the maximal length of both columns.\<close>

definition long_row :: mysql_row where
  "long_row = [Some ''hello world'', None]"

definition cell_of :: "nat \<Rightarrow> string option \<Rightarrow> column_cell" where
  "cell_of n v =
     (case v of
        None \<Rightarrow> \<lparr>cc_is_null = True, cc_length = 0, cc_error = False, cc_data = []\<rparr>
      | Some s \<Rightarrow> \<lparr>cc_is_null = False, cc_length = length s, cc_error = (n < length s), cc_data = take n s\<rparr>)"

lemma cell_of_holds [simp]: "cell_holds n v (cell_of n v)"
  by (simp add: cell_holds_def cell_of_def split: option.splits)

definition one_row_api :: "unit mysql_api" where
  "one_row_api =
     \<lparr>mysql_init = \<lambda>m. (Some 1, m), mysql_options = \<lambda>_ _ m. (True, m), mysql_real_connect = \<lambda>_ _ m. (True, m),
      mysql_error = \<lambda>_ _. [], mysql_ping = \<lambda>_ m. (True, m), mysql_query = \<lambda>_ _ m. (True, m),
      mysql_store_result = \<lambda>_ m. (False, m), mysql_field_count = \<lambda>_ _. 0, mysql_stmt_init = \<lambda>_ m. (Some 1, m),
      mysql_stmt_prepare = \<lambda>_ _ m. (True, m), mysql_stmt_param_count = \<lambda>_ _. 0, mysql_stmt_error = \<lambda>_ _. [],
      mysql_stmt_errno = \<lambda>_ _. 0, mysql_stmt_attr_set = \<lambda>_ m. (True, m), mysql_stmt_bind_param = \<lambda>_ _ m. (True, m),
      mysql_stmt_execute = \<lambda>_ m. (True, m), mysql_stmt_affected_rows = \<lambda>_ _. 0,
      mysql_stmt_result_metadata = \<lambda>_ _. True, mysql_stmt_store_result = \<lambda>_ m. (True, m),
      mysql_fetch_fields = \<lambda>_ _. [\<lparr>mf_name = Some ''a'', mf_max_length = 1\<rparr>, \<lparr>mf_name = None, mf_max_length = 1\<rparr>],
      mysql_stmt_bind_result = \<lambda>_ _ m. (True, m),
      mysql_stmt_fetch = \<lambda>_ _. [FetchRow [cell_of 2 (long_row ! 0), cell_of 2 (long_row ! 1)]
        (\<lambda>i n. Some (cell_of n (long_row ! i)))],
      mysql_stmt_free_result = \<lambda>_ m. m, mysql_stmt_close = \<lambda>_ m. m\<rparr>"

theorem query_reads_all_rows_witness:
  "\<exists>res. executeQuery one_row_api \<lparr>ps_statement = Some 7, ps_parameters = []\<rparr> (new_mysql_conn, ()) =
     (Inr res, (new_mysql_conn, ())) \<and> qr_rows res = [long_row]"
proof -
  have lens: "map buffer_length (mysql_fetch_fields one_row_api 7 ()) = [2, 2]"
    by (simp add: one_row_api_def buffer_length_def)
  have "query_calls one_row_api 7 [] () ()" by (simp add: query_calls_def one_row_api_def)
  moreover have "list_all2 (row_fetched [2, 2]) (mysql_stmt_fetch one_row_api 7 ()) [long_row]"
    by (simp add: one_row_api_def row_fetched_def long_row_def all_less_two)
  moreover have "mysql_fetch_fields one_row_api 7 () \<noteq> []"
    "mysql_stmt_bind_result one_row_api 7 [2, 2] () = (True, ())" "mysql_stmt_free_result one_row_api 7 () = ()"
    by (simp_all add: one_row_api_def)
  ultimately show ?thesis
    using query_reads_all_rows [of one_row_api 7 "[]" "()" "()" "()" "[long_row]" new_mysql_conn] by (simp add: lens)
qed

end
