(* ===== verification/Dao_Base.thy ===== *)
theory Dao_Base
  imports MySql_Connection
begin

text \<open>
  What the data access objects share: borrowing a connection of the MySQL pool, the clock, transactions that are rolled
  back on an early return, and reading rows. Each of the five classes under \<open>src/storage\<close> has its own copy of the row
  helpers, which differ in the status for a malformed row only.
\<close>

record 'm mysql_env =
  me_api :: "'m mysql_api"
  me_config :: mysql_config
  me_acquire_timeout :: int
  me_now :: "'m \<Rightarrow> int"

type_synonym 'm mysql_state = "mysql_conn conn_pool \<times> 'm"

definition with_connection :: "'m mysql_env \<Rightarrow> ('m, 'a) sql \<Rightarrow> ('m mysql_state, 'a) prog" where
  "with_connection env f = borrow (mysql_ops (me_api env) (me_config env)) (me_acquire_timeout env) f"

definition nowP :: "'m mysql_env \<Rightarrow> ('m, int) sql" where
  "nowP env = getsP (\<lambda>(c, m). me_now env m)"

definition rollbackSilently :: "'m mysql_api \<Rightarrow> ('m, unit) sql" where
  "rollbackSilently api = bindP (statusP (executeSimple api ''ROLLBACK'')) (\<lambda>_. retP ())"

definition rollbackAndReturn :: "'m mysql_api \<Rightarrow> status \<Rightarrow> ('m, 'a) sql" where
  "rollbackAndReturn api st = bindP (rollbackSilently api) (\<lambda>_. failP st)"

definition or_rollback :: "'m mysql_api \<Rightarrow> ('m, 'a) sql \<Rightarrow> ('m, 'a) sql" where
  "or_rollback api f = (\<lambda>s. case f s of (Inl st, s) \<Rightarrow> rollbackAndReturn api st s | (Inr x, s) \<Rightarrow> (Inr x, s))"

fun mapP :: "('a \<Rightarrow> ('s, 'b) prog) \<Rightarrow> 'a list \<Rightarrow> ('s, 'b list) prog" where
  "mapP f [] = retP []"
| "mapP f (x # xs) = bindP (f x) (\<lambda>y. bindP (mapP f xs) (\<lambda>ys. retP (y # ys)))"

fun mapR :: "('a \<Rightarrow> 'b result) \<Rightarrow> 'a list \<Rightarrow> 'b list result" where
  "mapR f [] = Inr []"
| "mapR f (x # xs) = bindR (f x) (\<lambda>y. bindR (mapR f xs) (\<lambda>ys. Inr (y # ys)))"

definition requiredValue :: "status \<Rightarrow> mysql_row \<Rightarrow> nat \<Rightarrow> string result" where
  "requiredValue malformed row index =
     (if index \<ge> length row \<or> row ! index = None then Inl malformed else Inr (the (row ! index)))"

definition row_parseUint64 :: "status \<Rightarrow> string \<Rightarrow> u64 result" where
  "row_parseUint64 malformed text =
     (case stoull text of
        None \<Rightarrow> Inl malformed
      | Some (v, parsed) \<Rightarrow> if parsed \<noteq> length text then Inl malformed else Inr v)"

definition row_parseInt64 :: "status \<Rightarrow> string \<Rightarrow> int result" where
  "row_parseInt64 malformed text =
     (case stoll text of
        None \<Rightarrow> Inl malformed
      | Some (v, parsed) \<Rightarrow> if parsed \<noteq> length text then Inl malformed else Inr v)"

definition nonzeroId :: "u64 \<Rightarrow> string \<Rightarrow> unit result" where
  "nonzeroId i field_name = (if i = 0 then err InvalidArgument (field_name @ '' must not be zero'') else Inr ())"

definition bindNonzero :: "nat \<Rightarrow> u64 \<Rightarrow> string \<Rightarrow> prepared \<Rightarrow> prepared result" where
  "bindNonzero index i field_name ps = bindR (nonzeroId i field_name) (\<lambda>_. bindUInt64 index i ps)"

definition kMysqlDuplicateEntry :: nat where "kMysqlDuplicateEntry = 1062"

text \<open>A query that must give one row, with the statuses for no row and for several.\<close>

definition single_row :: "status \<Rightarrow> status \<Rightarrow> query_result \<Rightarrow> mysql_row result" where
  "single_row none many res = (case qr_rows res of [] \<Rightarrow> Inl none | [row] \<Rightarrow> Inr row | _ \<Rightarrow> Inl many)"

end
