(* ===== verification/User_Dao.thy ===== *)
theory User_Dao
  imports Dao_Base
begin

text \<open>The users table (\<open>src/storage/UserDao.cpp\<close>).\<close>

definition malformedUserRowStatus :: status where
  "malformedUserRowStatus = status_error InternalError ''users query returned a malformed row''"

definition user_value :: "mysql_row \<Rightarrow> nat \<Rightarrow> string result" where
  "user_value = requiredValue malformedUserRowStatus"

definition user_parseUint64 :: "string \<Rightarrow> u64 result" where
  "user_parseUint64 = row_parseUint64 malformedUserRowStatus"

definition user_parseInt64 :: "string \<Rightarrow> int result" where
  "user_parseInt64 = row_parseInt64 malformedUserRowStatus"

definition rowToUserRecord :: "mysql_row \<Rightarrow> user_record result" where
  "rowToUserRecord row =
     (if length row \<noteq> 6 then Inl malformedUserRowStatus
      else
        bindR (user_value row 0) (\<lambda>user_id.
        bindR (user_value row 1) (\<lambda>username.
        bindR (user_value row 2) (\<lambda>password_hash.
        bindR (user_value row 3) (\<lambda>password_salt.
        bindR (user_value row 4) (\<lambda>nickname.
        bindR (user_value row 5) (\<lambda>created_at_ms.
        bindR (user_parseUint64 user_id) (\<lambda>uid.
        bindR (user_parseInt64 created_at_ms) (\<lambda>created.
        Inr \<lparr>ur_user_id = uid, ur_username = username, ur_password_hash = password_hash,
             ur_password_salt = password_salt, ur_nickname = nickname, ur_created_at_ms = created\<rparr>)))))))))"

definition querySingleUser :: "'m mysql_api \<Rightarrow> prepared \<Rightarrow> ('m, user_record) sql" where
  "querySingleUser api ps =
     bindP (executeQuery api ps) (\<lambda>res.
     liftP (bindR (single_row (status_error NotFound ''user was not found'')
                     (status_error InternalError ''users query returned multiple rows'') res) rowToUserRecord))"

definition insertUserSql :: string where
  "insertUserSql = ''INSERT INTO users (username, password_hash, password_salt, nickname, created_at_ms, updated_at_ms) VALUES (?, ?, ?, ?, ?, ?)''"

definition userByNameSql :: string where
  "userByNameSql = ''SELECT user_id, username, password_hash, password_salt, nickname, created_at_ms FROM users WHERE username = ? LIMIT 1''"

definition userByIdSql :: string where
  "userByIdSql = ''SELECT user_id, username, password_hash, password_salt, nickname, created_at_ms FROM users WHERE user_id = ? LIMIT 1''"

definition ud_findUserByUsername :: "'m mysql_env \<Rightarrow> string \<Rightarrow> ('m mysql_state, user_record) prog" where
  "ud_findUserByUsername env username =
     with_connection env
       (with_stmt (me_api env) userByNameSql (\<lambda>ps.
        bindP (liftP (bindString 0 username ps)) (\<lambda>ps.
        querySingleUser (me_api env) ps)))"

definition ud_findUserById :: "'m mysql_env \<Rightarrow> u64 \<Rightarrow> ('m mysql_state, user_record) prog" where
  "ud_findUserById env user_id =
     with_connection env
       (with_stmt (me_api env) userByIdSql (\<lambda>ps.
        bindP (liftP (bindUInt64 0 user_id ps)) (\<lambda>ps.
        querySingleUser (me_api env) ps)))"

definition insertUser :: "'m mysql_api \<Rightarrow> create_user_request \<Rightarrow> int \<Rightarrow> ('m, unit) sql" where
  "insertUser api rq now_ms =
     with_stmt api insertUserSql (\<lambda>ps.
     bindP (liftP (bindString 0 (cu_username rq) ps)) (\<lambda>ps.
     bindP (liftP (bindString 1 (cu_password_hash rq) ps)) (\<lambda>ps.
     bindP (liftP (bindString 2 (cu_password_salt rq) ps)) (\<lambda>ps.
     bindP (liftP (bindString 3 (cu_nickname rq) ps)) (\<lambda>ps.
     bindP (liftP (bindInt64 4 now_ms ps)) (\<lambda>ps.
     bindP (liftP (bindInt64 5 now_ms ps)) (\<lambda>ps.
     bindP (statusP (executeUpdate api ps)) (\<lambda>res.
     case res of
       Inl st \<Rightarrow>
         bindP (getsP (\<lambda>(c, m). lastErrorNumber api ps m)) (\<lambda>errno.
         if errno = kMysqlDuplicateEntry then failP (status_error AlreadyExists ''username already exists'')
         else failP st)
     | Inr affected_rows \<Rightarrow>
         if affected_rows \<noteq> 1
         then failP (status_error InternalError ''create user affected unexpected row count'')
         else retP ()))))))))"

definition ud_createUser :: "'m mysql_env \<Rightarrow> create_user_request \<Rightarrow> ('m mysql_state, user_record) prog" where
  "ud_createUser env rq =
     bindP (getsP (\<lambda>(p, m). me_now env m)) (\<lambda>now_ms.
     bindP (with_connection env (insertUser (me_api env) rq now_ms)) (\<lambda>_.
     ud_findUserByUsername env (cu_username rq)))"

end
