(* ===== verification/Friend_Dao.thy ===== *)
theory Friend_Dao
  imports Dao_Base
begin

text \<open>Friend requests and friendships (\<open>src/storage/FriendDao.cpp\<close>).\<close>

definition malformedFriendRowStatus :: status where
  "malformedFriendRowStatus = status_error InternalError ''friendships query returned a malformed row''"

definition friend_value :: "mysql_row \<Rightarrow> nat \<Rightarrow> string result" where
  "friend_value = requiredValue malformedFriendRowStatus"

definition friend_parseUint64 :: "string \<Rightarrow> u64 result" where
  "friend_parseUint64 = row_parseUint64 malformedFriendRowStatus"

definition friend_parseInt64 :: "string \<Rightarrow> int result" where
  "friend_parseInt64 = row_parseInt64 malformedFriendRowStatus"

definition parseFriendRequestStatus :: "string \<Rightarrow> friend_request_status result" where
  "parseFriendRequestStatus text =
     bindR (friend_parseUint64 text) (\<lambda>raw.
     if raw = friend_request_status_value FrPending then Inr FrPending
     else if raw = friend_request_status_value FrAccepted then Inr FrAccepted
     else if raw = friend_request_status_value FrRejected then Inr FrRejected
     else Inl malformedFriendRowStatus)"

definition validateFriendPair :: "u64 \<Rightarrow> u64 \<Rightarrow> unit result" where
  "validateFriendPair user_id friend_id =
     bindR (nonzeroId user_id ''user_id'') (\<lambda>_.
     bindR (nonzeroId friend_id ''friend_id'') (\<lambda>_.
     if user_id = friend_id then err InvalidArgument ''friendship user ids must be different'' else Inr ()))"

definition rowToFriendRequestRecord :: "mysql_row \<Rightarrow> friend_request_record result" where
  "rowToFriendRequestRecord row =
     (if length row \<noteq> 5 then Inl malformedFriendRowStatus
      else
        bindR (friend_value row 0) (\<lambda>requester_id.
        bindR (friend_value row 1) (\<lambda>target_user_id.
        bindR (friend_value row 2) (\<lambda>status.
        bindR (friend_value row 3) (\<lambda>created_at_ms.
        bindR (friend_value row 4) (\<lambda>updated_at_ms.
        bindR (friend_parseUint64 requester_id) (\<lambda>requester.
        bindR (friend_parseUint64 target_user_id) (\<lambda>target.
        bindR (parseFriendRequestStatus status) (\<lambda>st.
        bindR (friend_parseInt64 created_at_ms) (\<lambda>created.
        bindR (friend_parseInt64 updated_at_ms) (\<lambda>updated.
        Inr \<lparr>fr_requester_id = requester, fr_target_user_id = target, fr_status = st,
             fr_created_at_ms = created, fr_updated_at_ms = updated\<rparr>)))))))))))"

definition rowToUserProfileRecord :: "mysql_row \<Rightarrow> user_profile_record result" where
  "rowToUserProfileRecord row =
     (if length row \<noteq> 4 then Inl malformedFriendRowStatus
      else
        bindR (friend_value row 0) (\<lambda>user_id.
        bindR (friend_value row 1) (\<lambda>username.
        bindR (friend_value row 2) (\<lambda>nickname.
        bindR (friend_value row 3) (\<lambda>created_at_ms.
        bindR (friend_parseUint64 user_id) (\<lambda>uid.
        bindR (friend_parseInt64 created_at_ms) (\<lambda>created.
        Inr \<lparr>up_user_id = uid, up_username = username, up_nickname = nickname, up_created_at_ms = created\<rparr>)))))))"

definition friendRequestSql :: string where
  "friendRequestSql = ''SELECT requester_id, target_user_id, status, created_at_ms, updated_at_ms FROM friend_requests WHERE requester_id = ? AND target_user_id = ? LIMIT 1''"

definition areFriendsSql :: string where
  "areFriendsSql = ''SELECT 1 FROM friendships WHERE user_id = ? AND friend_id = ? LIMIT 1''"

definition insertFriendshipSql :: string where
  "insertFriendshipSql = ''INSERT INTO friendships (user_id, friend_id, created_at_ms) VALUES (?, ?, ?), (?, ?, ?) ON DUPLICATE KEY UPDATE created_at_ms = friendships.created_at_ms''"

definition insertFriendRequestSql :: string where
  "insertFriendRequestSql = ''INSERT INTO friend_requests (requester_id, target_user_id, status, created_at_ms, updated_at_ms) VALUES (?, ?, 0, ?, ?)''"

definition acceptRequestSql :: string where
  "acceptRequestSql = ''UPDATE friend_requests SET status = 1, updated_at_ms = ? WHERE requester_id = ? AND target_user_id = ? AND status = 0''"

definition rejectRequestSql :: string where
  "rejectRequestSql = ''UPDATE friend_requests SET status = 2, updated_at_ms = ? WHERE requester_id = ? AND target_user_id = ? AND status = 0''"

definition friendsSql :: string where
  "friendsSql = ''SELECT u.user_id, u.username, u.nickname, u.created_at_ms FROM friendships f JOIN users u ON u.user_id = f.friend_id WHERE f.user_id = ? ORDER BY u.user_id ASC''"

definition queryFriendRequest :: "'m mysql_api \<Rightarrow> u64 \<Rightarrow> u64 \<Rightarrow> ('m, friend_request_record) sql" where
  "queryFriendRequest api requester_id target_user_id =
     with_stmt api friendRequestSql (\<lambda>ps.
     bindP (liftP (bindUInt64 0 requester_id ps)) (\<lambda>ps.
     bindP (liftP (bindUInt64 1 target_user_id ps)) (\<lambda>ps.
     bindP (executeQuery api ps) (\<lambda>res.
     liftP (bindR (single_row (status_error NotFound ''friend request was not found'')
                     (status_error InternalError ''friend request query returned multiple rows'') res)
              rowToFriendRequestRecord)))))"

definition queryAreFriends :: "'m mysql_api \<Rightarrow> u64 \<Rightarrow> u64 \<Rightarrow> ('m, bool) sql" where
  "queryAreFriends api user_id friend_id =
     with_stmt api areFriendsSql (\<lambda>ps.
     bindP (liftP (bindUInt64 0 user_id ps)) (\<lambda>ps.
     bindP (liftP (bindUInt64 1 friend_id ps)) (\<lambda>ps.
     bindP (executeQuery api ps) (\<lambda>res.
     retP (qr_rows res \<noteq> [])))))"

definition insertFriendshipRows :: "'m mysql_api \<Rightarrow> u64 \<Rightarrow> u64 \<Rightarrow> int \<Rightarrow> ('m, unit) sql" where
  "insertFriendshipRows api user_id friend_id created_at_ms =
     with_stmt api insertFriendshipSql (\<lambda>ps.
     bindP (liftP (bindNonzero 0 user_id ''user_id'' ps)) (\<lambda>ps.
     bindP (liftP (bindNonzero 1 friend_id ''friend_id'' ps)) (\<lambda>ps.
     bindP (liftP (bindInt64 2 created_at_ms ps)) (\<lambda>ps.
     bindP (liftP (bindNonzero 3 friend_id ''friend_id'' ps)) (\<lambda>ps.
     bindP (liftP (bindNonzero 4 user_id ''user_id'' ps)) (\<lambda>ps.
     bindP (liftP (bindInt64 5 created_at_ms ps)) (\<lambda>ps.
     bindP (executeUpdate api ps) (\<lambda>affected_rows.
     if affected_rows > 2 then failP (status_error InternalError ''add friendship affected unexpected row count'')
     else retP ()))))))))"

text \<open>The checks before a request is created.\<close>

definition request_absent :: "'m mysql_api \<Rightarrow> u64 \<Rightarrow> u64 \<Rightarrow> ('m, unit) sql" where
  "request_absent api requester_id target_user_id =
     bindP (queryAreFriends api requester_id target_user_id) (\<lambda>are_friends.
     if are_friends then failP (status_error AlreadyExists ''friendship already exists'')
     else
       bindP (statusP (queryFriendRequest api requester_id target_user_id)) (\<lambda>existing.
       case existing of
         Inr _ \<Rightarrow> failP (status_error AlreadyExists ''friend request already exists'')
       | Inl existing_status \<Rightarrow>
           if code existing_status \<noteq> NotFound then failP existing_status
           else
             bindP (statusP (queryFriendRequest api target_user_id requester_id)) (\<lambda>rev_existing.
             case rev_existing of
               Inr rv \<Rightarrow>
                 if fr_status rv = FrPending
                 then failP (status_error AlreadyExists ''reverse friend request already exists'')
                 else if fr_status rv = FrAccepted
                 then failP (status_error AlreadyExists ''friend request already accepted'')
                 else retP ()
             | Inl reverse_status \<Rightarrow>
                 if code reverse_status \<noteq> NotFound then failP reverse_status else retP ())))"

definition insertFriendRequest :: "'m mysql_api \<Rightarrow> u64 \<Rightarrow> u64 \<Rightarrow> int \<Rightarrow> ('m, friend_request_record) sql" where
  "insertFriendRequest api requester_id target_user_id now_ms =
     with_stmt api insertFriendRequestSql (\<lambda>ps.
     bindP (liftP (bindUInt64 0 requester_id ps)) (\<lambda>ps.
     bindP (liftP (bindUInt64 1 target_user_id ps)) (\<lambda>ps.
     bindP (liftP (bindInt64 2 now_ms ps)) (\<lambda>ps.
     bindP (liftP (bindInt64 3 now_ms ps)) (\<lambda>ps.
     bindP (executeUpdate api ps) (\<lambda>affected_rows.
     if affected_rows \<noteq> 1
     then failP (status_error InternalError ''create friend request affected unexpected row count'')
     else retP \<lparr>fr_requester_id = requester_id, fr_target_user_id = target_user_id, fr_status = FrPending,
                fr_created_at_ms = now_ms, fr_updated_at_ms = now_ms\<rparr>))))))"

definition fd_createFriendRequest :: "'m mysql_env \<Rightarrow> u64 \<Rightarrow> u64 \<Rightarrow> ('m mysql_state, friend_request_record) prog" where
  "fd_createFriendRequest env requester_id target_user_id =
     bindP (liftP (validateFriendPair requester_id target_user_id)) (\<lambda>_.
     with_connection env
       (bindP (request_absent (me_api env) requester_id target_user_id) (\<lambda>_.
        bindP (nowP env) (\<lambda>now_ms.
        insertFriendRequest (me_api env) requester_id target_user_id now_ms))))"

text \<open>The checks before a request is accepted, and the change of its status.\<close>

definition request_pending :: "'m mysql_api \<Rightarrow> u64 \<Rightarrow> u64 \<Rightarrow> ('m, unit) sql" where
  "request_pending api requester_id target_user_id =
     bindP (statusP (queryFriendRequest api requester_id target_user_id)) (\<lambda>res.
     case res of
       Inl existing_status \<Rightarrow>
         if code existing_status = NotFound
         then bindP (queryAreFriends api requester_id target_user_id) (\<lambda>are_friends.
              if are_friends then failP (status_error AlreadyExists ''friend request already accepted'')
              else failP existing_status)
         else failP existing_status
     | Inr existing \<Rightarrow>
         if fr_status existing = FrAccepted
         then failP (status_error AlreadyExists ''friend request already accepted'')
         else if fr_status existing = FrRejected
         then failP (status_error AlreadyExists ''friend request is not pending'')
         else retP ())"

definition set_request_status :: "'m mysql_api \<Rightarrow> prepared \<Rightarrow> u64 \<Rightarrow> u64 \<Rightarrow> int \<Rightarrow> string \<Rightarrow> ('m, unit) sql" where
  "set_request_status api ps requester_id target_user_id now_ms unexpected =
     bindP (liftP (bindInt64 0 now_ms ps)) (\<lambda>ps.
     bindP (liftP (bindUInt64 1 requester_id ps)) (\<lambda>ps.
     bindP (liftP (bindUInt64 2 target_user_id ps)) (\<lambda>ps.
     bindP (executeUpdate api ps) (\<lambda>affected_rows.
     if affected_rows \<noteq> 1 then failP (status_error InternalError unexpected) else retP ()))))"

definition fd_acceptFriendRequest :: "'m mysql_env \<Rightarrow> u64 \<Rightarrow> u64 \<Rightarrow> ('m mysql_state, unit) prog" where
  "fd_acceptFriendRequest env requester_id target_user_id =
     (let api = me_api env in
      bindP (liftP (validateFriendPair requester_id target_user_id)) (\<lambda>_.
      with_connection env
        (bindP (executeSimple api ''START TRANSACTION'') (\<lambda>_.
         bindP (or_rollback api (request_pending api requester_id target_user_id)) (\<lambda>_.
         bindP (nowP env) (\<lambda>now_ms.
         bindP (or_rollback api (prepareP api acceptRequestSql)) (\<lambda>ps.
         bindP (scopedP api ps (or_rollback api
                 (set_request_status api ps requester_id target_user_id now_ms
                    ''accept friend request affected unexpected row count''))) (\<lambda>_.
         bindP (or_rollback api (insertFriendshipRows api requester_id target_user_id now_ms)) (\<lambda>_.
         executeSimple api ''COMMIT'')))))))))"

definition fd_rejectFriendRequest :: "'m mysql_env \<Rightarrow> u64 \<Rightarrow> u64 \<Rightarrow> ('m mysql_state, unit) prog" where
  "fd_rejectFriendRequest env requester_id target_user_id =
     (let api = me_api env in
      bindP (liftP (validateFriendPair requester_id target_user_id)) (\<lambda>_.
      with_connection env
        (bindP (queryFriendRequest api requester_id target_user_id) (\<lambda>existing.
         if fr_status existing = FrAccepted
         then failP (status_error AlreadyExists ''friend request already accepted'')
         else if fr_status existing = FrRejected
         then failP (status_error AlreadyExists ''friend request already rejected'')
         else
           with_stmt api rejectRequestSql (\<lambda>ps.
           bindP (nowP env) (\<lambda>now_ms.
           set_request_status api ps requester_id target_user_id now_ms
             ''reject friend request affected unexpected row count''))))))"

definition fd_areFriends :: "'m mysql_env \<Rightarrow> u64 \<Rightarrow> u64 \<Rightarrow> ('m mysql_state, bool) prog" where
  "fd_areFriends env user_id friend_id =
     bindP (liftP (validateFriendPair user_id friend_id)) (\<lambda>_.
     with_connection env (queryAreFriends (me_api env) user_id friend_id))"

definition fd_addFriendship :: "'m mysql_env \<Rightarrow> u64 \<Rightarrow> u64 \<Rightarrow> ('m mysql_state, unit) prog" where
  "fd_addFriendship env user_id friend_id =
     (let api = me_api env in
      bindP (liftP (validateFriendPair user_id friend_id)) (\<lambda>_.
      with_connection env
        (bindP (executeSimple api ''START TRANSACTION'') (\<lambda>_.
         bindP (nowP env) (\<lambda>now_ms.
         bindP (or_rollback api (insertFriendshipRows api user_id friend_id now_ms)) (\<lambda>_.
         executeSimple api ''COMMIT''))))))"

definition fd_getFriends :: "'m mysql_env \<Rightarrow> u64 \<Rightarrow> ('m mysql_state, user_profile_record list) prog" where
  "fd_getFriends env user_id =
     bindP (liftP (nonzeroId user_id ''user_id'')) (\<lambda>_.
     with_connection env
       (with_stmt (me_api env) friendsSql (\<lambda>ps.
        bindP (liftP (bindNonzero 0 user_id ''user_id'' ps)) (\<lambda>ps.
        bindP (executeQuery (me_api env) ps) (\<lambda>res.
        liftP (mapR rowToUserProfileRecord (qr_rows res)))))))"

end
