(* ===== verification/Group_Dao.thy ===== *)
theory Group_Dao
  imports Dao_Base
begin

text \<open>Groups and their members (\<open>src/storage/GroupDao.cpp\<close>).\<close>

definition malformedGroupRowStatus :: status where
  "malformedGroupRowStatus = status_error InternalError ''groups query returned a malformed row''"

definition group_value :: "mysql_row \<Rightarrow> nat \<Rightarrow> string result" where
  "group_value = requiredValue malformedGroupRowStatus"

definition group_parseUint64 :: "string \<Rightarrow> u64 result" where
  "group_parseUint64 = row_parseUint64 malformedGroupRowStatus"

definition group_parseInt64 :: "string \<Rightarrow> int result" where
  "group_parseInt64 = row_parseInt64 malformedGroupRowStatus"

definition rowToGroupRecord :: "mysql_row \<Rightarrow> group_record result" where
  "rowToGroupRecord row =
     (if length row \<noteq> 4 then Inl malformedGroupRowStatus
      else
        bindR (group_value row 0) (\<lambda>group_id.
        bindR (group_value row 1) (\<lambda>owner_id.
        bindR (group_value row 2) (\<lambda>group_name.
        bindR (group_value row 3) (\<lambda>created_at_ms.
        bindR (group_parseUint64 group_id) (\<lambda>gid.
        bindR (group_parseUint64 owner_id) (\<lambda>owner.
        bindR (group_parseInt64 created_at_ms) (\<lambda>created.
        Inr \<lparr>gr_group_id = gid, gr_owner_id = owner, gr_group_name = group_name, gr_created_at_ms = created\<rparr>))))))))"

definition rowToGroupMemberRecord :: "mysql_row \<Rightarrow> group_member_record result" where
  "rowToGroupMemberRecord row =
     (if length row \<noteq> 4 then Inl malformedGroupRowStatus
      else
        bindR (group_value row 0) (\<lambda>user_id.
        bindR (group_value row 1) (\<lambda>username.
        bindR (group_value row 2) (\<lambda>nickname.
        bindR (group_value row 3) (\<lambda>joined_at_ms.
        bindR (group_parseUint64 user_id) (\<lambda>uid.
        bindR (group_parseInt64 joined_at_ms) (\<lambda>joined.
        Inr \<lparr>gm_user_id = uid, gm_username = username, gm_nickname = nickname, gm_joined_at_ms = joined\<rparr>)))))))"

definition querySingleGroup :: "'m mysql_api \<Rightarrow> prepared \<Rightarrow> ('m, group_record) sql" where
  "querySingleGroup api ps =
     bindP (executeQuery api ps) (\<lambda>res.
     liftP (bindR (single_row (status_error NotFound ''group was not found'')
                     (status_error InternalError ''groups query returned multiple rows'') res) rowToGroupRecord))"

definition lastGroupSql :: string where
  "lastGroupSql = ''SELECT group_id, owner_id, group_name, created_at_ms FROM chat_groups WHERE group_id = LAST_INSERT_ID() LIMIT 1''"

definition groupOwnerSql :: string where
  "groupOwnerSql = ''SELECT owner_id FROM chat_groups WHERE group_id = ? LIMIT 1''"

definition insertMemberSql :: string where
  "insertMemberSql = ''INSERT INTO group_members (group_id, user_id, joined_at_ms) VALUES (?, ?, ?) ON DUPLICATE KEY UPDATE joined_at_ms = group_members.joined_at_ms''"

definition insertGroupSql :: string where
  "insertGroupSql = ''INSERT INTO chat_groups (owner_id, group_name, created_at_ms, updated_at_ms) VALUES (?, ?, ?, ?)''"

definition deleteMemberSql :: string where
  "deleteMemberSql = ''DELETE FROM group_members WHERE group_id = ? AND user_id = ?''"

definition groupMembersSql :: string where
  "groupMembersSql = ''SELECT u.user_id, u.username, u.nickname, gm.joined_at_ms FROM group_members gm JOIN users u ON u.user_id = gm.user_id WHERE gm.group_id = ? ORDER BY gm.joined_at_ms ASC, u.user_id ASC''"

definition groupByIdSql :: string where
  "groupByIdSql = ''SELECT group_id, owner_id, group_name, created_at_ms FROM chat_groups WHERE group_id = ? LIMIT 1''"

definition groupsForUserSql :: string where
  "groupsForUserSql = ''SELECT cg.group_id, cg.owner_id, cg.group_name, cg.created_at_ms FROM group_members gm JOIN chat_groups cg ON cg.group_id = gm.group_id WHERE gm.user_id = ? ORDER BY cg.group_id ASC''"

definition queryLastInsertedGroup :: "'m mysql_api \<Rightarrow> ('m, group_record) sql" where
  "queryLastInsertedGroup api = with_stmt api lastGroupSql (querySingleGroup api)"

definition queryGroupOwner :: "'m mysql_api \<Rightarrow> u64 \<Rightarrow> ('m, u64) sql" where
  "queryGroupOwner api group_id =
     with_stmt api groupOwnerSql (\<lambda>ps.
     bindP (liftP (bindNonzero 0 group_id ''group_id'' ps)) (\<lambda>ps.
     bindP (executeQuery api ps) (\<lambda>res.
     if qr_rows res = [] then failP (status_error NotFound ''group was not found'')
     else if length (qr_rows res) \<noteq> 1 \<or> length (hd (qr_rows res)) \<noteq> 1 then failP malformedGroupRowStatus
     else liftP (bindR (group_value (hd (qr_rows res)) 0) group_parseUint64))))"

definition insertGroupMember :: "'m mysql_api \<Rightarrow> u64 \<Rightarrow> u64 \<Rightarrow> int \<Rightarrow> ('m, unit) sql" where
  "insertGroupMember api group_id user_id joined_at_ms =
     with_stmt api insertMemberSql (\<lambda>ps.
     bindP (liftP (bindNonzero 0 group_id ''group_id'' ps)) (\<lambda>ps.
     bindP (liftP (bindNonzero 1 user_id ''user_id'' ps)) (\<lambda>ps.
     bindP (liftP (bindInt64 2 joined_at_ms ps)) (\<lambda>ps.
     bindP (executeUpdate api ps) (\<lambda>_.
     retP ())))))"

text \<open>The group row of a new group, and its owner as first member.\<close>

definition insertGroup :: "'m mysql_api \<Rightarrow> prepared \<Rightarrow> create_group_request \<Rightarrow> int \<Rightarrow> ('m, group_record) sql" where
  "insertGroup api ps rq now_ms =
     bindP (liftP (bindNonzero 0 (cg_owner_id rq) ''owner_id'' ps)) (\<lambda>ps.
     bindP (liftP (bindString 1 (cg_group_name rq) ps)) (\<lambda>ps.
     bindP (liftP (bindInt64 2 now_ms ps)) (\<lambda>ps.
     bindP (liftP (bindInt64 3 now_ms ps)) (\<lambda>ps.
     bindP (executeUpdate api ps) (\<lambda>affected_rows.
     if affected_rows \<noteq> 1 then failP (status_error InternalError ''create group affected unexpected row count'')
     else
       bindP (queryLastInsertedGroup api) (\<lambda>created_group.
       bindP (insertGroupMember api (gr_group_id created_group) (cg_owner_id rq) now_ms) (\<lambda>_.
       retP created_group)))))))"

definition gd_createGroup :: "'m mysql_env \<Rightarrow> create_group_request \<Rightarrow> ('m mysql_state, group_record) prog" where
  "gd_createGroup env rq =
     (let api = me_api env in
      bindP (liftP (nonzeroId (cg_owner_id rq) ''owner_id'')) (\<lambda>_.
      if cg_group_name rq = [] then failP (status_error InvalidArgument ''group_name must not be empty'')
      else
        with_connection env
          (bindP (executeSimple api ''START TRANSACTION'') (\<lambda>_.
           bindP (or_rollback api (prepareP api insertGroupSql)) (\<lambda>ps.
           bindP (scopedP api ps
                   (bindP (nowP env) (\<lambda>now_ms. or_rollback api (insertGroup api ps rq now_ms)))) (\<lambda>created_group.
           bindP (executeSimple api ''COMMIT'') (\<lambda>_.
           retP created_group)))))))"

definition gd_addGroupMember :: "'m mysql_env \<Rightarrow> u64 \<Rightarrow> u64 \<Rightarrow> ('m mysql_state, unit) prog" where
  "gd_addGroupMember env group_id user_id =
     bindP (liftP (nonzeroId group_id ''group_id'')) (\<lambda>_.
     bindP (liftP (nonzeroId user_id ''user_id'')) (\<lambda>_.
     with_connection env
       (bindP (nowP env) (\<lambda>now_ms. insertGroupMember (me_api env) group_id user_id now_ms))))"

definition gd_removeGroupMember :: "'m mysql_env \<Rightarrow> u64 \<Rightarrow> u64 \<Rightarrow> ('m mysql_state, unit) prog" where
  "gd_removeGroupMember env group_id user_id =
     (let api = me_api env in
      bindP (liftP (nonzeroId group_id ''group_id'')) (\<lambda>_.
      bindP (liftP (nonzeroId user_id ''user_id'')) (\<lambda>_.
      with_connection env
        (bindP (queryGroupOwner api group_id) (\<lambda>owner_id.
         if owner_id = user_id
         then failP (status_error InvalidArgument ''group owner cannot be removed from members'')
         else
           with_stmt api deleteMemberSql (\<lambda>ps.
           bindP (liftP (bindNonzero 0 group_id ''group_id'' ps)) (\<lambda>ps.
           bindP (liftP (bindNonzero 1 user_id ''user_id'' ps)) (\<lambda>ps.
           bindP (executeUpdate api ps) (\<lambda>affected_rows.
           if affected_rows = 0 then failP (status_error NotFound ''group member was not found'')
           else retP ())))))))))"

definition gd_getGroupMembers :: "'m mysql_env \<Rightarrow> u64 \<Rightarrow> ('m mysql_state, group_member_record list) prog" where
  "gd_getGroupMembers env group_id =
     bindP (liftP (nonzeroId group_id ''group_id'')) (\<lambda>_.
     with_connection env
       (with_stmt (me_api env) groupMembersSql (\<lambda>ps.
        bindP (liftP (bindNonzero 0 group_id ''group_id'' ps)) (\<lambda>ps.
        bindP (executeQuery (me_api env) ps) (\<lambda>res.
        liftP (mapR rowToGroupMemberRecord (qr_rows res)))))))"

definition gd_findGroupById :: "'m mysql_env \<Rightarrow> u64 \<Rightarrow> ('m mysql_state, group_record) prog" where
  "gd_findGroupById env group_id =
     bindP (liftP (nonzeroId group_id ''group_id'')) (\<lambda>_.
     with_connection env
       (with_stmt (me_api env) groupByIdSql (\<lambda>ps.
        bindP (liftP (bindNonzero 0 group_id ''group_id'' ps)) (\<lambda>ps.
        querySingleGroup (me_api env) ps))))"

definition gd_getGroupsForUser :: "'m mysql_env \<Rightarrow> u64 \<Rightarrow> ('m mysql_state, group_record list) prog" where
  "gd_getGroupsForUser env user_id =
     bindP (liftP (nonzeroId user_id ''user_id'')) (\<lambda>_.
     with_connection env
       (with_stmt (me_api env) groupsForUserSql (\<lambda>ps.
        bindP (liftP (bindNonzero 0 user_id ''user_id'' ps)) (\<lambda>ps.
        bindP (executeQuery (me_api env) ps) (\<lambda>res.
        liftP (mapR rowToGroupRecord (qr_rows res)))))))"

end
