(* ===== verification/Message_Dao.thy ===== *)
theory Message_Dao
  imports Dao_Base
begin

text \<open>The messages table (\<open>src/storage/MessageDao.cpp\<close>).\<close>

definition kMaxHistoryLimit :: u32 where "kMaxHistoryLimit = 50"

definition malformedMessageRowStatus :: status where
  "malformedMessageRowStatus = status_error InternalError ''messages query returned a malformed row''"

definition message_value :: "mysql_row \<Rightarrow> nat \<Rightarrow> string result" where
  "message_value = requiredValue malformedMessageRowStatus"

definition message_parseUint64 :: "string \<Rightarrow> u64 result" where
  "message_parseUint64 = row_parseUint64 malformedMessageRowStatus"

definition message_parseInt64 :: "string \<Rightarrow> int result" where
  "message_parseInt64 = row_parseInt64 malformedMessageRowStatus"

definition row_parseConversationType :: "status \<Rightarrow> string \<Rightarrow> conversation_type result" where
  "row_parseConversationType malformed text =
     bindR (row_parseUint64 malformed text) (\<lambda>raw_type.
     if raw_type = conversation_type_value kPrivate then Inr kPrivate
     else if raw_type = conversation_type_value kGroup then Inr kGroup
     else Inl malformed)"

definition message_parseConversationType :: "string \<Rightarrow> conversation_type result" where
  "message_parseConversationType = row_parseConversationType malformedMessageRowStatus"

definition bindConversationType :: "nat \<Rightarrow> conversation_type \<Rightarrow> prepared \<Rightarrow> prepared result" where
  "bindConversationType index type ps = bindInt64 index (uint (conversation_type_value type)) ps"

definition rowToMessageRecord :: "mysql_row \<Rightarrow> message_record result" where
  "rowToMessageRecord row =
     (if length row \<noteq> 8 then Inl malformedMessageRowStatus
      else
        bindR (message_value row 0) (\<lambda>message_id.
        bindR (message_value row 1) (\<lambda>conversation_type.
        bindR (message_value row 2) (\<lambda>conversation_id.
        bindR (message_value row 3) (\<lambda>sender_id.
        bindR (message_value row 4) (\<lambda>receiver_id.
        bindR (message_value row 5) (\<lambda>message_text.
        bindR (message_value row 6) (\<lambda>created_at_ms.
        bindR (message_parseUint64 message_id) (\<lambda>mid.
        bindR (message_parseConversationType conversation_type) (\<lambda>ctype.
        bindR (message_parseUint64 conversation_id) (\<lambda>cid.
        bindR (message_parseUint64 sender_id) (\<lambda>sender.
        bindR (message_parseUint64 receiver_id) (\<lambda>receiver.
        bindR (message_parseInt64 created_at_ms) (\<lambda>created.
        Inr \<lparr>mr_message_id = mid, mr_conversation = \<lparr>ck_type = ctype, ck_id = cid\<rparr>, mr_sender_id = sender,
             mr_receiver_id = receiver, mr_text = message_text, mr_created_at_ms = created,
             mr_client_msg_id = (case row ! 7 of None \<Rightarrow> [] | Some x \<Rightarrow> x)\<rparr>))))))))))))))"

definition validateConversationKey :: "conversation_key \<Rightarrow> unit result" where
  "validateConversationKey k =
     (if ck_type k \<noteq> kPrivate \<and> ck_type k \<noteq> kGroup then err InvalidArgument ''conversation type is invalid''
      else if ck_id k = 0 then err InvalidArgument ''conversation id must not be zero'' else Inr ())"

definition messageTypeMismatchStatus :: status where
  "messageTypeMismatchStatus = status_error InvalidArgument ''message conversation type does not match DAO method''"

definition normalizeMessageForInsert :: "int \<Rightarrow> message_record \<Rightarrow> (u64 \<times> int) result" where
  "normalizeMessageForInsert now_ms input =
     bindR (validateConversationKey (mr_conversation input)) (\<lambda>_.
     if mr_sender_id input = 0 then err InvalidArgument ''sender id must not be zero''
     else if ck_type (mr_conversation input) = kPrivate \<and> mr_receiver_id input = 0
     then err InvalidArgument ''private message receiver id must not be zero''
     else
       let receiver_id =
         (if ck_type (mr_conversation input) = kGroup \<and> mr_receiver_id input = 0
          then ck_id (mr_conversation input) else mr_receiver_id input)
       in Inr (receiver_id, if mr_created_at_ms input > 0 then mr_created_at_ms input else now_ms))"

definition querySingleMessage :: "'m mysql_api \<Rightarrow> prepared \<Rightarrow> ('m, message_record) sql" where
  "querySingleMessage api ps =
     bindP (executeQuery api ps) (\<lambda>res.
     liftP (bindR (single_row (status_error NotFound ''message was not found'')
                     (status_error InternalError ''messages query returned multiple rows'') res) rowToMessageRecord))"

definition messageColumns :: string where
  "messageColumns = ''SELECT message_id, conversation_type, conversation_id, sender_id, receiver_id, message_text, created_at_ms, client_msg_id ''"

definition lastMessageSql :: string where
  "lastMessageSql = messageColumns @ ''FROM messages WHERE message_id = LAST_INSERT_ID() LIMIT 1''"

definition messageByIdSql :: string where
  "messageByIdSql = messageColumns @ ''FROM messages WHERE message_id = ? LIMIT 1''"

definition insertMessageSql :: string where
  "insertMessageSql = ''INSERT INTO messages (conversation_type, conversation_id, sender_id, receiver_id, message_text, created_at_ms, client_msg_id) VALUES (?, ?, ?, ?, ?, ?, NULLIF(?, '' @ [CHR 0x27, CHR 0x27] @ ''))''"

definition messageByClientIdSql :: string where
  "messageByClientIdSql = messageColumns @ ''FROM messages WHERE sender_id = ? AND client_msg_id = ? LIMIT 1''"

definition latestHistorySql :: string where
  "latestHistorySql = messageColumns @ ''FROM messages WHERE conversation_type = ? AND conversation_id = ? ORDER BY message_id DESC LIMIT ?''"

definition earlierHistorySql :: string where
  "earlierHistorySql = messageColumns @ ''FROM messages WHERE conversation_type = ? AND conversation_id = ? AND message_id < ? ORDER BY message_id DESC LIMIT ?''"

definition queryLastInsertedMessage :: "'m mysql_api \<Rightarrow> ('m, message_record) sql" where
  "queryLastInsertedMessage api = with_stmt api lastMessageSql (querySingleMessage api)"

definition queryMessageById :: "'m mysql_api \<Rightarrow> u64 \<Rightarrow> ('m, message_record) sql" where
  "queryMessageById api message_id =
     (if message_id = 0 then failP (status_error InvalidArgument ''message id must not be zero'')
      else
        with_stmt api messageByIdSql (\<lambda>ps.
        bindP (liftP (bindUInt64 0 message_id ps)) (\<lambda>ps.
        querySingleMessage api ps)))"

definition insertMessageRecordInTransaction :: "'m mysql_env \<Rightarrow> message_record \<Rightarrow> ('m, message_record) sql" where
  "insertMessageRecordInTransaction env msg =
     (let api = me_api env in
      bindP (nowP env) (\<lambda>now_ms.
      bindP (liftP (normalizeMessageForInsert now_ms msg)) (\<lambda>(receiver_id, created_at_ms).
      with_stmt api insertMessageSql (\<lambda>ps.
      bindP (liftP (bindConversationType 0 (ck_type (mr_conversation msg)) ps)) (\<lambda>ps.
      bindP (liftP (bindUInt64 1 (ck_id (mr_conversation msg)) ps)) (\<lambda>ps.
      bindP (liftP (bindUInt64 2 (mr_sender_id msg) ps)) (\<lambda>ps.
      bindP (liftP (bindUInt64 3 receiver_id ps)) (\<lambda>ps.
      bindP (liftP (bindString 4 (mr_text msg) ps)) (\<lambda>ps.
      bindP (liftP (bindInt64 5 created_at_ms ps)) (\<lambda>ps.
      bindP (liftP (bindString 6 (mr_client_msg_id msg) ps)) (\<lambda>ps.
      bindP (statusP (executeUpdate api ps)) (\<lambda>res.
      case res of
        Inl st \<Rightarrow>
          bindP (getsP (\<lambda>(c, m). lastErrorNumber api ps m)) (\<lambda>errno.
          if mr_client_msg_id msg \<noteq> [] \<and> errno = kMysqlDuplicateEntry
          then failP (status_error AlreadyExists ''client message id already exists'')
          else failP st)
      | Inr affected_rows \<Rightarrow>
          if affected_rows \<noteq> 1
          then failP (status_error InternalError ''save message affected unexpected row count'')
          else queryLastInsertedMessage api))))))))))))"

definition saveMessageWithType :: "'m mysql_env \<Rightarrow> message_record \<Rightarrow> conversation_type \<Rightarrow> ('m mysql_state, message_record) prog" where
  "saveMessageWithType env msg expected_type =
     (if ck_type (mr_conversation msg) \<noteq> expected_type then failP messageTypeMismatchStatus
      else
        with_connection env
          (bindP (executeSimple (me_api env) ''START TRANSACTION'') (\<lambda>_.
           bindP (or_rollback (me_api env) (insertMessageRecordInTransaction env msg)) (\<lambda>saved.
           bindP (executeSimple (me_api env) ''COMMIT'') (\<lambda>_.
           retP saved)))))"

definition md_savePrivateMessage :: "'m mysql_env \<Rightarrow> message_record \<Rightarrow> ('m mysql_state, message_record) prog" where
  "md_savePrivateMessage env msg = saveMessageWithType env msg kPrivate"

definition md_saveGroupMessage :: "'m mysql_env \<Rightarrow> message_record \<Rightarrow> ('m mysql_state, message_record) prog" where
  "md_saveGroupMessage env msg = saveMessageWithType env msg kGroup"

definition md_findByClientMessageId :: "'m mysql_env \<Rightarrow> u64 \<Rightarrow> string \<Rightarrow> ('m mysql_state, message_record) prog" where
  "md_findByClientMessageId env sender_id client_msg_id =
     (if sender_id = 0 then failP (status_error InvalidArgument ''sender id must not be zero'')
      else if client_msg_id = [] then failP (status_error InvalidArgument ''client message id must not be empty'')
      else
        with_connection env
          (with_stmt (me_api env) messageByClientIdSql (\<lambda>ps.
           bindP (liftP (bindUInt64 0 sender_id ps)) (\<lambda>ps.
           bindP (liftP (bindString 1 client_msg_id ps)) (\<lambda>ps.
           querySingleMessage (me_api env) ps)))))"

definition md_getHistoryByConversation :: "'m mysql_env \<Rightarrow> history_query \<Rightarrow> ('m mysql_state, message_record list) prog" where
  "md_getHistoryByConversation env q =
     bindP (liftP (validateConversationKey (hq_conversation q))) (\<lambda>_.
     if hq_limit q = 0 then failP (status_error InvalidArgument ''history query limit must not be zero'')
     else
       let lim = min (hq_limit q) kMaxHistoryLimit in
       with_connection env
         (with_stmt (me_api env) (if hq_before_message_id q = 0 then latestHistorySql else earlierHistorySql) (\<lambda>ps.
          bindP (liftP (bindConversationType 0 (ck_type (hq_conversation q)) ps)) (\<lambda>ps.
          bindP (liftP (bindUInt64 1 (ck_id (hq_conversation q)) ps)) (\<lambda>ps.
          bindP (liftP (if hq_before_message_id q \<noteq> 0 then bindUInt64 2 (hq_before_message_id q) ps else Inr ps)) (\<lambda>ps.
          bindP (liftP (bindInt64 (if hq_before_message_id q \<noteq> 0 then 3 else 2) (uint lim) ps)) (\<lambda>ps.
          bindP (executeQuery (me_api env) ps) (\<lambda>res.
          liftP (mapR rowToMessageRecord (qr_rows res))))))))))"

end
