(* ===== verification/Offline_Dao.thy ===== *)
theory Offline_Dao
  imports Message_Dao
begin

text \<open>Offline messages and delivery states (\<open>src/storage/OfflineMessageDao.cpp\<close>).\<close>

definition malformedOfflineMessageRowStatus :: status where
  "malformedOfflineMessageRowStatus = status_error InternalError ''offline_messages query returned a malformed row''"

definition offline_value :: "mysql_row \<Rightarrow> nat \<Rightarrow> string result" where
  "offline_value = requiredValue malformedOfflineMessageRowStatus"

definition offline_parseUint64 :: "string \<Rightarrow> u64 result" where
  "offline_parseUint64 = row_parseUint64 malformedOfflineMessageRowStatus"

definition offline_parseInt64 :: "string \<Rightarrow> int result" where
  "offline_parseInt64 = row_parseInt64 malformedOfflineMessageRowStatus"

definition offline_parseConversationType :: "string \<Rightarrow> conversation_type result" where
  "offline_parseConversationType = row_parseConversationType malformedOfflineMessageRowStatus"

fun unique_ids :: "status \<Rightarrow> u64 list \<Rightarrow> u64 list \<Rightarrow> u64 list result" where
  "unique_ids invalid [] unique = Inr unique"
| "unique_ids invalid (i # is) unique =
     (if i = 0 then Inl invalid
      else if i \<in> set unique then unique_ids invalid is unique
      else unique_ids invalid is (unique @ [i]))"

definition validateMessageIds :: "u64 list \<Rightarrow> u64 list result" where
  "validateMessageIds message_ids = unique_ids (status_error InvalidArgument ''message_id is invalid'') message_ids []"

definition rowToOfflineMessageRecord :: "mysql_row \<Rightarrow> offline_message_record result" where
  "rowToOfflineMessageRecord row =
     (if length row \<noteq> 11 then Inl malformedOfflineMessageRowStatus
      else
        bindR (offline_value row 0) (\<lambda>offline_message_id.
        bindR (offline_value row 1) (\<lambda>user_id.
        bindR (offline_value row 2) (\<lambda>offline_created_at_ms.
        bindR (offline_value row 3) (\<lambda>message_id.
        bindR (offline_value row 4) (\<lambda>conversation_type.
        bindR (offline_value row 5) (\<lambda>conversation_id.
        bindR (offline_value row 6) (\<lambda>sender_id.
        bindR (offline_value row 7) (\<lambda>receiver_id.
        bindR (offline_value row 8) (\<lambda>message_text.
        bindR (offline_value row 9) (\<lambda>message_created_at_ms.
        bindR (offline_parseUint64 offline_message_id) (\<lambda>oid.
        bindR (offline_parseUint64 user_id) (\<lambda>uid.
        bindR (offline_parseInt64 offline_created_at_ms) (\<lambda>offline_created.
        bindR (offline_parseUint64 message_id) (\<lambda>mid.
        bindR (offline_parseConversationType conversation_type) (\<lambda>ctype.
        bindR (offline_parseUint64 conversation_id) (\<lambda>cid.
        bindR (offline_parseUint64 sender_id) (\<lambda>sender.
        bindR (offline_parseUint64 receiver_id) (\<lambda>receiver.
        bindR (offline_parseInt64 message_created_at_ms) (\<lambda>created.
        Inr \<lparr>om_offline_message_id = oid, om_user_id = uid,
             om_message =
               \<lparr>mr_message_id = mid, mr_conversation = \<lparr>ck_type = ctype, ck_id = cid\<rparr>, mr_sender_id = sender,
                mr_receiver_id = receiver, mr_text = message_text, mr_created_at_ms = created,
                mr_client_msg_id = (case row ! 10 of None \<Rightarrow> [] | Some x \<Rightarrow> x)\<rparr>,
             om_created_at_ms = offline_created\<rparr>))))))))))))))))))))"

definition offlineColumns :: string where
  "offlineColumns = ''SELECT om.offline_message_id, om.user_id, om.created_at_ms, m.message_id, m.conversation_type, m.conversation_id, m.sender_id, m.receiver_id, m.message_text, m.created_at_ms, m.client_msg_id FROM offline_messages om JOIN messages m ON m.message_id = om.message_id ''"

definition pendingOfflineSql :: string where
  "pendingOfflineSql = offlineColumns @ ''WHERE om.user_id = ? AND om.delivered = 0 ORDER BY om.offline_message_id ASC LIMIT ?''"

definition offlineForAckSql :: string where
  "offlineForAckSql = offlineColumns @ ''WHERE om.user_id = ? AND om.message_id = ? LIMIT 1''"

definition insertOfflineSql :: string where
  "insertOfflineSql = ''INSERT INTO offline_messages (user_id, message_id, delivered, created_at_ms, delivered_at_ms) VALUES (?, ?, 0, ?, NULL)''"

definition deliveryPendingSql :: string where
  "deliveryPendingSql = ''INSERT INTO message_deliveries (message_id, user_id, status, pushed_at_ms, delivered_at_ms, read_at_ms) VALUES (?, ?, 0, NULL, NULL, NULL) ON DUPLICATE KEY UPDATE status = status''"

definition markDeliveredSql :: string where
  "markDeliveredSql = ''UPDATE offline_messages SET delivered = 1, delivered_at_ms = ? WHERE user_id = ? AND message_id = ? AND delivered = 0''"

definition ackDeliveredSql :: string where
  "ackDeliveredSql = ''UPDATE offline_messages SET delivered = 1, delivered_at_ms = COALESCE(delivered_at_ms, ?) WHERE user_id = ? AND message_id = ?''"

definition ackDeliverySql :: string where
  "ackDeliverySql = ''INSERT INTO message_deliveries (message_id, user_id, status, pushed_at_ms, delivered_at_ms, read_at_ms) VALUES (?, ?, 2, NULL, ?, NULL) ON DUPLICATE KEY UPDATE status = GREATEST(status, VALUES(status)), delivered_at_ms = COALESCE(delivered_at_ms, VALUES(delivered_at_ms))''"

definition fetchOfflineMessageForAck :: "'m mysql_api \<Rightarrow> prepared \<Rightarrow> u64 \<Rightarrow> u64 \<Rightarrow> ('m, offline_message_record) sql" where
  "fetchOfflineMessageForAck api ps user_id message_id =
     bindP (liftP (bindUInt64 0 user_id ps)) (\<lambda>ps.
     bindP (liftP (bindUInt64 1 message_id ps)) (\<lambda>ps.
     bindP (executeQuery api ps) (\<lambda>res.
     liftP (bindR (single_row (status_error NotFound ''offline message was not found'')
                     (status_error InternalError ''offline message ack query returned multiple rows'') res)
              rowToOfflineMessageRecord))))"

text \<open>The loops bind every parameter of their statement anew in each round.\<close>

definition markOfflineDeliveredInTransaction :: "'m mysql_api \<Rightarrow> u64 \<Rightarrow> u64 list \<Rightarrow> int \<Rightarrow> ('m, unit) sql" where
  "markOfflineDeliveredInTransaction api user_id message_ids delivered_at_ms =
     with_stmt api ackDeliveredSql (\<lambda>ps.
     forP (\<lambda>message_id.
       bindP (liftP (bindInt64 0 delivered_at_ms ps)) (\<lambda>ps.
       bindP (liftP (bindUInt64 1 user_id ps)) (\<lambda>ps.
       bindP (liftP (bindUInt64 2 message_id ps)) (\<lambda>ps.
       bindP (executeUpdate api ps) (\<lambda>_.
       retP ()))))) message_ids)"

definition od_upsertDeliveryDelivered :: "'m mysql_api \<Rightarrow> u64 \<Rightarrow> u64 list \<Rightarrow> int \<Rightarrow> ('m, unit) sql" where
  "od_upsertDeliveryDelivered api user_id message_ids delivered_at_ms =
     with_stmt api ackDeliverySql (\<lambda>ps.
     forP (\<lambda>message_id.
       bindP (liftP (bindUInt64 0 message_id ps)) (\<lambda>ps.
       bindP (liftP (bindUInt64 1 user_id ps)) (\<lambda>ps.
       bindP (liftP (bindInt64 2 delivered_at_ms ps)) (\<lambda>ps.
       bindP (executeUpdate api ps) (\<lambda>_.
       retP ()))))) message_ids)"

definition upsertDeliveryPending :: "'m mysql_api \<Rightarrow> u64 \<Rightarrow> u64 \<Rightarrow> ('m, unit) sql" where
  "upsertDeliveryPending api user_id message_id =
     with_stmt api deliveryPendingSql (\<lambda>ps.
     bindP (liftP (bindUInt64 0 message_id ps)) (\<lambda>ps.
     bindP (liftP (bindUInt64 1 user_id ps)) (\<lambda>ps.
     bindP (executeUpdate api ps) (\<lambda>affected_rows.
     if affected_rows > 2
     then failP (status_error InternalError ''save delivery state affected unexpected row count'')
     else retP ()))))"

text \<open>\<open>saveOfflineMessage\<close> rolls back before it looks at the error number of the statement.\<close>

definition insertPendingOffline :: "'m mysql_env \<Rightarrow> prepared \<Rightarrow> u64 \<Rightarrow> u64 \<Rightarrow> ('m, unit) sql" where
  "insertPendingOffline env ps user_id message_id =
     (let api = me_api env in
      bindP (or_rollback api (liftP (bindNonzero 0 user_id ''user_id'' ps))) (\<lambda>ps.
      bindP (or_rollback api (liftP (bindNonzero 1 message_id ''message_id'' ps))) (\<lambda>ps.
      bindP (nowP env) (\<lambda>now_ms.
      bindP (or_rollback api (liftP (bindInt64 2 now_ms ps))) (\<lambda>ps.
      bindP (statusP (executeUpdate api ps)) (\<lambda>res.
      case res of
        Inl st \<Rightarrow>
          bindP (rollbackSilently api) (\<lambda>_.
          bindP (getsP (\<lambda>(c, m). lastErrorNumber api ps m)) (\<lambda>errno.
          if errno = kMysqlDuplicateEntry then failP (status_error AlreadyExists ''offline message already exists'')
          else failP st))
      | Inr affected_rows \<Rightarrow>
          if affected_rows \<noteq> 1
          then rollbackAndReturn api (status_error InternalError ''save offline message affected unexpected row count'')
          else retP ()))))))"

definition od_saveOfflineMessage :: "'m mysql_env \<Rightarrow> u64 \<Rightarrow> u64 \<Rightarrow> ('m mysql_state, unit) prog" where
  "od_saveOfflineMessage env user_id message_id =
     (let api = me_api env in
      with_connection env
        (bindP (executeSimple api ''START TRANSACTION'') (\<lambda>_.
         bindP (or_rollback api (prepareP api insertOfflineSql)) (\<lambda>ps.
         bindP (scopedP api ps (insertPendingOffline env ps user_id message_id)) (\<lambda>_.
         bindP (or_rollback api (upsertDeliveryPending api user_id message_id)) (\<lambda>_.
         executeSimple api ''COMMIT''))))))"

definition od_getOfflineMessages :: "'m mysql_env \<Rightarrow> u64 \<Rightarrow> u32 \<Rightarrow> ('m mysql_state, offline_message_record list) prog" where
  "od_getOfflineMessages env user_id lim =
     (if user_id = 0 then failP (status_error InvalidArgument ''user_id is invalid'')
      else if lim = 0 then failP (status_error InvalidArgument ''offline message limit must be positive'')
      else
        with_connection env
          (with_stmt (me_api env) pendingOfflineSql (\<lambda>ps.
           bindP (liftP (bindNonzero 0 user_id ''user_id'' ps)) (\<lambda>ps.
           bindP (liftP (bindNonzero 1 (ucast lim) ''limit'' ps)) (\<lambda>ps.
           bindP (executeQuery (me_api env) ps) (\<lambda>res.
           liftP (mapR rowToOfflineMessageRecord (qr_rows res))))))))"

definition markPending :: "'m mysql_env \<Rightarrow> u64 \<Rightarrow> u64 list \<Rightarrow> ('m, unit) sql" where
  "markPending env user_id message_ids =
     (let api = me_api env in
      with_stmt api markDeliveredSql (\<lambda>ps.
      bindP (nowP env) (\<lambda>delivered_at_ms.
      forP (\<lambda>message_id.
        bindP (liftP (bindInt64 0 delivered_at_ms ps)) (\<lambda>ps.
        bindP (liftP (bindUInt64 1 user_id ps)) (\<lambda>ps.
        bindP (liftP (bindUInt64 2 message_id ps)) (\<lambda>ps.
        bindP (executeUpdate api ps) (\<lambda>affected_rows.
        if affected_rows \<noteq> 1 then failP (status_error NotFound ''offline message was not pending'')
        else retP ()))))) message_ids)))"

definition od_markOfflineDelivered :: "'m mysql_env \<Rightarrow> u64 \<Rightarrow> u64 list \<Rightarrow> ('m mysql_state, unit) prog" where
  "od_markOfflineDelivered env user_id message_ids =
     (if message_ids = [] then retP ()
      else if user_id = 0 then failP (status_error InvalidArgument ''user_id is invalid'')
      else if 0 \<in> set message_ids then failP (status_error InvalidArgument ''message_id is invalid'')
      else
        with_connection env
          (bindP (executeSimple (me_api env) ''START TRANSACTION'') (\<lambda>_.
           bindP (or_rollback (me_api env) (markPending env user_id message_ids)) (\<lambda>_.
           executeSimple (me_api env) ''COMMIT''))))"

definition od_ackOfflineMessages :: "'m mysql_env \<Rightarrow> u64 \<Rightarrow> u64 list \<Rightarrow> ('m mysql_state, offline_message_record list) prog" where
  "od_ackOfflineMessages env user_id message_ids =
     (let api = me_api env in
      if message_ids = [] then retP []
      else if user_id = 0 then failP (status_error InvalidArgument ''user_id is invalid'')
      else
        bindP (liftP (validateMessageIds message_ids)) (\<lambda>unique_message_ids.
        with_connection env
          (bindP (executeSimple api ''START TRANSACTION'') (\<lambda>_.
           bindP (or_rollback api (with_stmt api offlineForAckSql (\<lambda>ps.
                   mapP (fetchOfflineMessageForAck api ps user_id) unique_message_ids))) (\<lambda>records.
           bindP (nowP env) (\<lambda>delivered_at_ms.
           bindP (or_rollback api
                   (markOfflineDeliveredInTransaction api user_id unique_message_ids delivered_at_ms)) (\<lambda>_.
           bindP (or_rollback api (od_upsertDeliveryDelivered api user_id unique_message_ids delivered_at_ms)) (\<lambda>_.
           bindP (executeSimple api ''COMMIT'') (\<lambda>_.
           retP records)))))))))"

end
