(* ===== verification/MySql_Storage.thy ===== *)
theory MySql_Storage
  imports User_Dao Friend_Dao Group_Dao Offline_Dao
begin

text \<open>
  The storage of the server (\<open>src/storage/MySqlStorage.cpp\<close>): the \<open>IStorage\<close> interface over the data access objects,
  with the operations that span several tables in one transaction.
\<close>

definition validateOfflineRecipients :: "u64 list \<Rightarrow> u64 list result" where
  "validateOfflineRecipients offline_user_ids =
     unique_ids (status_error InvalidArgument ''offline recipient user_id must not be zero'') offline_user_ids []"

definition insertOfflineMessage :: "'m mysql_api \<Rightarrow> u64 \<Rightarrow> u64 \<Rightarrow> int \<Rightarrow> ('m, unit) sql" where
  "insertOfflineMessage api user_id message_id created_at_ms =
     with_stmt api insertOfflineSql (\<lambda>ps.
     bindP (liftP (bindUInt64 0 user_id ps)) (\<lambda>ps.
     bindP (liftP (bindUInt64 1 message_id ps)) (\<lambda>ps.
     bindP (liftP (bindInt64 2 created_at_ms ps)) (\<lambda>ps.
     bindP (executeUpdate api ps) (\<lambda>affected_rows.
     if affected_rows \<noteq> 1
     then failP (status_error InternalError ''save offline message affected unexpected row count'')
     else retP ())))))"

definition ms_upsertDeliveryPending :: "'m mysql_api \<Rightarrow> u64 \<Rightarrow> u64 \<Rightarrow> ('m, unit) sql" where
  "ms_upsertDeliveryPending = upsertDeliveryPending"

definition deliveryDeliveredSql :: string where
  "deliveryDeliveredSql = ''INSERT INTO message_deliveries (message_id, user_id, status, pushed_at_ms, delivered_at_ms, read_at_ms) VALUES (?, ?, 2, NULL, ?, NULL) ON DUPLICATE KEY UPDATE status = IF(status > VALUES(status), status, VALUES(status)), delivered_at_ms = COALESCE(delivered_at_ms, VALUES(delivered_at_ms))''"

definition deliveryStatusSql :: string where
  "deliveryStatusSql = ''SELECT status FROM message_deliveries WHERE message_id = ? AND user_id = ? LIMIT 1''"

definition upsertDeliveryDelivered :: "'m mysql_api \<Rightarrow> u64 \<Rightarrow> u64 \<Rightarrow> int \<Rightarrow> ('m, unit) sql" where
  "upsertDeliveryDelivered api user_id message_id delivered_at_ms =
     with_stmt api deliveryDeliveredSql (\<lambda>ps.
     bindP (liftP (bindUInt64 0 message_id ps)) (\<lambda>ps.
     bindP (liftP (bindUInt64 1 user_id ps)) (\<lambda>ps.
     bindP (liftP (bindInt64 2 delivered_at_ms ps)) (\<lambda>ps.
     bindP (executeUpdate api ps) (\<lambda>affected_rows.
     if affected_rows > 2
     then failP (status_error InternalError ''ack delivery state affected unexpected row count'')
     else retP ())))))"

definition parseDeliveryStatus :: "string \<Rightarrow> delivery_status result" where
  "parseDeliveryStatus text =
     (case stoull text of
        None \<Rightarrow> err InternalError ''delivery status query returned malformed value''
      | Some (raw_status, parsed) \<Rightarrow>
          if parsed \<noteq> length text then err InternalError ''delivery status query returned malformed value''
          else if raw_status = delivery_status_value DsPending then Inr DsPending
          else if raw_status = delivery_status_value DsPushed then Inr DsPushed
          else if raw_status = delivery_status_value DsDelivered then Inr DsDelivered
          else if raw_status = delivery_status_value DsReadReserved then Inr DsReadReserved
          else err InternalError ''delivery status query returned unknown value'')"

definition ms_saveMessageWithOfflineRecipients ::
  "'m mysql_env \<Rightarrow> message_record \<Rightarrow> u64 list \<Rightarrow> ('m mysql_state, message_record) prog" where
  "ms_saveMessageWithOfflineRecipients env msg offline_user_ids =
     (let api = me_api env in
      bindP (liftP (validateOfflineRecipients offline_user_ids)) (\<lambda>unique_offline_user_ids.
      with_connection env
        (bindP (executeSimple api ''START TRANSACTION'') (\<lambda>_.
         bindP (or_rollback api (insertMessageRecordInTransaction env msg)) (\<lambda>saved_message.
         bindP (nowP env) (\<lambda>offline_created_at_ms.
         bindP (or_rollback api (forP (\<lambda>user_id.
                  bindP (insertOfflineMessage api user_id (mr_message_id saved_message) offline_created_at_ms) (\<lambda>_.
                  ms_upsertDeliveryPending api user_id (mr_message_id saved_message))) unique_offline_user_ids)) (\<lambda>_.
         bindP (executeSimple api ''COMMIT'') (\<lambda>_.
         retP saved_message))))))))"

definition ms_saveMessage :: "'m mysql_env \<Rightarrow> message_record \<Rightarrow> ('m mysql_state, u64) prog" where
  "ms_saveMessage env msg =
     bindP (ms_saveMessageWithOfflineRecipients env msg []) (\<lambda>saved_message. retP (mr_message_id saved_message))"

definition delivery_row :: "query_result \<Rightarrow> delivery_status result" where
  "delivery_row res =
     (case qr_rows res of
        [] \<Rightarrow> err NotFound ''delivery status was not found''
      | [[Some text]] \<Rightarrow> parseDeliveryStatus text
      | _ \<Rightarrow> err InternalError ''delivery status query returned malformed row'')"

definition ms_findDeliveryStatus :: "'m mysql_env \<Rightarrow> u64 \<Rightarrow> u64 \<Rightarrow> ('m mysql_state, delivery_status) prog" where
  "ms_findDeliveryStatus env user_id message_id =
     (if user_id = 0 then failP (status_error InvalidArgument ''user id must not be zero'')
      else if message_id = 0 then failP (status_error InvalidArgument ''message id must not be zero'')
      else
        with_connection env
          (with_stmt (me_api env) deliveryStatusSql (\<lambda>ps.
           bindP (liftP (bindUInt64 0 message_id ps)) (\<lambda>ps.
           bindP (liftP (bindUInt64 1 user_id ps)) (\<lambda>ps.
           bindP (executeQuery (me_api env) ps) (\<lambda>res.
           liftP (delivery_row res)))))))"

definition ackPrivate :: "'m mysql_env \<Rightarrow> u64 \<Rightarrow> u64 \<Rightarrow> ('m, message_record) sql" where
  "ackPrivate env user_id message_id =
     (let api = me_api env in
      bindP (queryMessageById api message_id) (\<lambda>found.
      if ck_type (mr_conversation found) \<noteq> kPrivate \<or> mr_receiver_id found \<noteq> user_id
      then failP (status_error NotFound ''private message delivery target was not found'')
      else
        bindP (nowP env) (\<lambda>delivered_at_ms.
        bindP (upsertDeliveryDelivered api user_id message_id delivered_at_ms) (\<lambda>_.
        retP found))))"

definition ms_ackPrivateMessageDelivery :: "'m mysql_env \<Rightarrow> u64 \<Rightarrow> u64 \<Rightarrow> ('m mysql_state, message_record) prog" where
  "ms_ackPrivateMessageDelivery env user_id message_id =
     (let api = me_api env in
      if user_id = 0 then failP (status_error InvalidArgument ''user id must not be zero'')
      else if message_id = 0 then failP (status_error InvalidArgument ''message id must not be zero'')
      else
        with_connection env
          (bindP (executeSimple api ''START TRANSACTION'') (\<lambda>_.
           bindP (or_rollback api (ackPrivate env user_id message_id)) (\<lambda>found.
           bindP (executeSimple api ''COMMIT'') (\<lambda>_.
           retP found)))))"

definition mysql_storage :: "'m mysql_env \<Rightarrow> 'm mysql_state storage_ops" where
  "mysql_storage env =
     \<lparr>createUser = ud_createUser env,
      findUserByUsername = ud_findUserByUsername env,
      findUserById = ud_findUserById env,
      findMessageByClientMessageId = md_findByClientMessageId env,
      createFriendRequest = fd_createFriendRequest env,
      acceptFriendRequest = fd_acceptFriendRequest env,
      rejectFriendRequest = fd_rejectFriendRequest env,
      areFriends = fd_areFriends env,
      addFriendship = fd_addFriendship env,
      getFriends = fd_getFriends env,
      createGroup = gd_createGroup env,
      addGroupMember = gd_addGroupMember env,
      removeGroupMember = gd_removeGroupMember env,
      getGroupMembers = gd_getGroupMembers env,
      findGroupById = gd_findGroupById env,
      getGroupsForUser = gd_getGroupsForUser env,
      saveMessage = ms_saveMessage env,
      saveMessageWithOfflineRecipients = ms_saveMessageWithOfflineRecipients env,
      saveOfflineMessage = od_saveOfflineMessage env,
      findDeliveryStatus = ms_findDeliveryStatus env,
      getOfflineMessages = od_getOfflineMessages env,
      markOfflineDelivered = od_markOfflineDelivered env,
      ackOfflineMessages = od_ackOfflineMessages env,
      ackPrivateMessageDelivery = ms_ackPrivateMessageDelivery env,
      getHistory = md_getHistoryByConversation env\<rparr>"

end
