(* ===== verification/Sql_Server.thy ===== *)
theory Sql_Server
  imports MySql_Storage
begin

text \<open>
  The contract of the MySQL library and server, and transactions. A view of the state behind the library gives the
  committed database, the working copy of each connection that is in a transaction, the value of \<open>LAST_INSERT_ID()\<close> of
  each connection, and text and parameters of each statement; statement handles are numbered per connection.
  \<open>sem\<close> is what statements do to a database. The contract says which calls change what, for one client at a time. The
  theorems: an operation of the storage that uses a transaction is done completely or not at all, and none of the
  operations leaves a transaction open on a pooled connection.
\<close>

section \<open>The contract\<close>

datatype sql_answer = Affected u64 | Rows | Refused nat

type_synonym 'd sql_sem = "string \<Rightarrow> param list \<Rightarrow> 'd \<times> u64 \<Rightarrow> sql_answer \<times> 'd \<times> u64"

record ('m, 'd) server_view =
  sv_com :: "'m \<Rightarrow> 'd"
  sv_work :: "'m \<Rightarrow> nat \<rightharpoonup> 'd"
  sv_last :: "'m \<Rightarrow> nat \<Rightarrow> u64"
  sv_own :: "nat \<Rightarrow> nat"
  sv_text :: "'m \<Rightarrow> nat \<Rightarrow> string"
  sv_pars :: "'m \<Rightarrow> nat \<Rightarrow> param list"

definition sees :: "('m, 'd) server_view \<Rightarrow> 'm \<Rightarrow> nat \<Rightarrow> 'd" where
  "sees V m h = (case sv_work V m h of None \<Rightarrow> sv_com V m | Some d \<Rightarrow> d)"

definition same_db :: "('m, 'd) server_view \<Rightarrow> 'm \<Rightarrow> 'm \<Rightarrow> bool" where
  "same_db V m m' \<longleftrightarrow> sv_com V m' = sv_com V m \<and> sv_work V m' = sv_work V m \<and> sv_last V m' = sv_last V m"

definition placeholders :: "string \<Rightarrow> nat" where
  "placeholders sql = length (filter (\<lambda>c. c = CHR ''?'') sql)"

text \<open>Calls that leave the databases alone.\<close>

definition quiet_calls :: "'m mysql_api \<Rightarrow> ('m, 'd) server_view \<Rightarrow> bool" where
  "quiet_calls api V \<longleftrightarrow>
     (\<forall>h s m. same_db V m (snd (mysql_options api h s m))) \<and>
     (\<forall>h cfg m. same_db V m (snd (mysql_real_connect api h cfg m))) \<and>
     (\<forall>h m. same_db V m (snd (mysql_ping api h m))) \<and>
     (\<forall>h m. same_db V m (snd (mysql_store_result api h m))) \<and>
     (\<forall>h m. same_db V m (snd (mysql_stmt_init api h m))) \<and>
     (\<forall>st s m. same_db V m (snd (mysql_stmt_prepare api st s m))) \<and>
     (\<forall>st m. same_db V m (snd (mysql_stmt_attr_set api st m))) \<and>
     (\<forall>st vs m. same_db V m (snd (mysql_stmt_bind_param api st vs m))) \<and>
     (\<forall>st m. same_db V m (snd (mysql_stmt_store_result api st m))) \<and>
     (\<forall>st ls m. same_db V m (snd (mysql_stmt_bind_result api st ls m))) \<and>
     (\<forall>st m. same_db V m (mysql_stmt_free_result api st m)) \<and>
     (\<forall>st m. same_db V m (mysql_stmt_close api st m))"

text \<open>A new connection is not in a transaction.\<close>

definition fresh_sessions :: "'m mysql_api \<Rightarrow> ('m, 'd) server_view \<Rightarrow> bool" where
  "fresh_sessions api V \<longleftrightarrow>
     (\<forall>m m'. mysql_init api m = (None, m') \<longrightarrow> sv_com V m' = sv_com V m \<and> sv_work V m' = sv_work V m) \<and>
     (\<forall>m m' h. mysql_init api m = (Some h, m') \<longrightarrow> sv_com V m' = sv_com V m \<and> sv_work V m' = (sv_work V m)(h := None))"

text \<open>
  Transactions: beginning one changes no database and may fail; \<open>COMMIT\<close> publishes the working copy or fails, and a
  failed \<open>COMMIT\<close> and every \<open>ROLLBACK\<close> drop it. These statements have no result.
\<close>

definition transactions :: "'m mysql_api \<Rightarrow> ('m, 'd) server_view \<Rightarrow> bool" where
  "transactions api V \<longleftrightarrow>
     (\<forall>h m ok m'. mysql_query api h ''START TRANSACTION'' m = (ok, m') \<longrightarrow>
        sv_com V m' = sv_com V m \<and> sv_last V m' = sv_last V m \<and>
        sv_work V m' = (if ok then (sv_work V m)(h \<mapsto> sees V m h) else sv_work V m)) \<and>
     (\<forall>h m ok m' d. sv_work V m h = Some d \<longrightarrow> mysql_query api h ''COMMIT'' m = (ok, m') \<longrightarrow>
        sv_com V m' = (if ok then d else sv_com V m) \<and> sv_work V m' = (sv_work V m)(h := None)) \<and>
     (\<forall>h m ok m'. mysql_query api h ''ROLLBACK'' m = (ok, m') \<longrightarrow>
        sv_com V m' = sv_com V m \<and> sv_work V m' = (sv_work V m)(h := None)) \<and>
     (\<forall>s h m m'. s \<in> {''START TRANSACTION'', ''COMMIT'', ''ROLLBACK''} \<longrightarrow> mysql_query api h s m = (True, m') \<longrightarrow>
        fst (mysql_store_result api h m') = False \<and> mysql_field_count api h (snd (mysql_store_result api h m')) = 0)"

text \<open>Running a statement: on the working copy in a transaction, and on the committed database outside.\<close>

definition executions :: "'m mysql_api \<Rightarrow> ('m, 'd) server_view \<Rightarrow> 'd sql_sem \<Rightarrow> bool" where
  "executions api V sem \<longleftrightarrow>
     (\<forall>st m ok m'. mysql_stmt_execute api st m = (ok, m') \<longrightarrow>
        (let h = sv_own V st; (a, d, l) = sem (sv_text V m st) (sv_pars V m st) (sees V m h, sv_last V m h) in
         if ok
         then (case a of Affected n \<Rightarrow> mysql_stmt_affected_rows api st m' = n
               | Rows \<Rightarrow> mysql_stmt_result_metadata api st m'
               | Refused e \<Rightarrow> False) \<and>
              sv_last V m' h = l \<and> sees V m' h = d \<and>
              (if sv_work V m h = None then sv_work V m' = sv_work V m
               else sv_com V m' = sv_com V m \<and> sv_work V m' = (sv_work V m)(h \<mapsto> d))
         else same_db V m m' \<and> (case a of Refused e \<Rightarrow> mysql_stmt_errno api st m' = e | _ \<Rightarrow> mysql_stmt_errno api st m' \<noteq> 1062)))"

text \<open>Statements: handle, text and parameters.\<close>

definition statements :: "'m mysql_api \<Rightarrow> ('m, 'd) server_view \<Rightarrow> bool" where
  "statements api V \<longleftrightarrow>
     (\<forall>h m st m'. mysql_stmt_init api h m = (Some st, m') \<longrightarrow> sv_own V st = h) \<and>
     (\<forall>st s m m'. mysql_stmt_prepare api st s m = (True, m') \<longrightarrow>
        sv_text V m' st = s \<and> sv_pars V m' st = [] \<and> mysql_stmt_param_count api st m' = placeholders s) \<and>
     (\<forall>st vs m m'. mysql_stmt_bind_param api st vs m = (True, m') \<longrightarrow> sv_text V m' st = sv_text V m st \<and> sv_pars V m' st = vs)"

definition mysql_server :: "'m mysql_api \<Rightarrow> ('m, 'd) server_view \<Rightarrow> 'd sql_sem \<Rightarrow> bool" where
  "mysql_server api V sem \<longleftrightarrow> quiet_calls api V \<and> fresh_sessions api V \<and> transactions api V \<and> executions api V sem \<and>
     statements api V"

section \<open>Work inside a transaction\<close>

text \<open>A connection whose session is in a transaction, no other session being in one, with the committed database unchanged.\<close>

definition in_tx :: "('m, 'd) server_view \<Rightarrow> nat \<Rightarrow> 'd \<Rightarrow> mysql_conn \<times> 'm \<Rightarrow> bool" where
  "in_tx V h d0 s \<longleftrightarrow> mysql_isConnected (fst s) \<and> mc_handle (fst s) = Some h \<and> sv_com V (snd s) = d0 \<and>
     (\<exists>d. sv_work V (snd s) = [h \<mapsto> d])"

definition ps_on :: "('m, 'd) server_view \<Rightarrow> nat \<Rightarrow> prepared \<Rightarrow> bool" where
  "ps_on V h ps \<longleftrightarrow> (\<forall>st. ps_statement ps = Some st \<longrightarrow> sv_own V st = h)"

lemma in_tx_same_db: "in_tx V h d0 (c, m) \<Longrightarrow> same_db V m m' \<Longrightarrow> in_tx V h d0 (c, m')"
  by (simp add: in_tx_def same_db_def)

lemma bind_value_on: "bind_value i v ps = Inr ps' \<Longrightarrow> ps_on V h ps \<Longrightarrow> ps_on V h ps'"
  by (auto simp: bind_value_def ps_on_def notPrepared_def split: if_splits)

lemmas binders = bindInt64_def bindUInt64_def bindString_def bindNonzero_def bindConversationType_def

lemma keepsI: "(\<And>c m. I (c, m) \<Longrightarrow> I (snd (f (c, m)))) \<Longrightarrow> keepsP I f"
  by (auto simp: keepsP_def)

text \<open>
  A contract holds of a server: the rules for the pieces of the data access objects. They say that a piece keeps
  \<open>in_tx\<close>; statements made on the way belong to the connection.
\<close>

lemma server_quiet:
  assumes "mysql_server api V sem"
  shows "same_db V m (snd (mysql_options api h s m))" "same_db V m (snd (mysql_real_connect api h cfg m))"
    "same_db V m (snd (mysql_ping api h m))" "same_db V m (snd (mysql_store_result api h m))"
    "same_db V m (snd (mysql_stmt_init api h m))" "same_db V m (snd (mysql_stmt_prepare api st s m))"
    "same_db V m (snd (mysql_stmt_attr_set api st m))" "same_db V m (snd (mysql_stmt_bind_param api st vs m))"
    "same_db V m (snd (mysql_stmt_store_result api st m))" "same_db V m (snd (mysql_stmt_bind_result api st ls m))"
    "same_db V m (mysql_stmt_free_result api st m)" "same_db V m (mysql_stmt_close api st m)"
  using assms by (simp_all add: mysql_server_def quiet_calls_def)

lemma server_quietD:
  assumes "mysql_server api V sem"
  shows "mysql_options api h s m = (r, m') \<Longrightarrow> same_db V m m'" "mysql_real_connect api h cfg m = (r, m') \<Longrightarrow> same_db V m m'"
    "mysql_ping api h m = (r, m') \<Longrightarrow> same_db V m m'" "mysql_store_result api h m = (r, m') \<Longrightarrow> same_db V m m'"
    "mysql_stmt_init api h m = (q, m') \<Longrightarrow> same_db V m m'" "mysql_stmt_prepare api st s m = (r, m') \<Longrightarrow> same_db V m m'"
    "mysql_stmt_attr_set api st m = (r, m') \<Longrightarrow> same_db V m m'" "mysql_stmt_bind_param api st vs m = (r, m') \<Longrightarrow> same_db V m m'"
    "mysql_stmt_store_result api st m = (r, m') \<Longrightarrow> same_db V m m'"
    "mysql_stmt_bind_result api st ls m = (r, m') \<Longrightarrow> same_db V m m'"
  using server_quiet [OF assms] by (metis snd_conv)+

lemma same_db_trans: "same_db V m1 m2 \<Longrightarrow> same_db V m2 m3 \<Longrightarrow> same_db V m1 m3"
  by (simp add: same_db_def)

lemma same_db_refl [simp]: "same_db V m m"
  by (simp add: same_db_def)

lemma execute_in_tx:
  assumes "mysql_server api V sem" "in_tx V h d0 (c, m)" "sv_own V st = h" "mysql_stmt_execute api st m = (ok, m')"
  shows "in_tx V h d0 (c, m')"
proof -
  obtain d where d: "sv_work V m = [h \<mapsto> d]" "sv_com V m = d0" using assms(2) by (auto simp: in_tx_def)
  obtain a d' l where sem: "sem (sv_text V m st) (sv_pars V m st) (sees V m h, sv_last V m h) = (a, d', l)" by (rule prod_cases3)
  have exec: "executions api V sem" using assms(1) by (simp add: mysql_server_def)
  show ?thesis
    using exec [unfolded executions_def, rule_format, OF assms(4)] assms(2,3) sem d
    by (auto simp: Let_def in_tx_def same_db_def split: if_splits)
qed

lemma bindParameters_in_tx: "mysql_server api V sem \<Longrightarrow> keepsP (in_tx V h d0) (bindParameters api ps)"
  by (rule keepsI)
    (auto simp: bindParameters_def notPrepared_def dest: server_quietD(8) intro: in_tx_same_db split: prod.splits option.splits sum.splits bool.splits if_splits)

lemma run_update_in_tx:
  assumes "mysql_server api V sem" "sv_own V st = h"
  shows "keepsP (in_tx V h d0) (run_update api st)"
proof (rule keepsI)
  fix c m assume I: "in_tx V h d0 (c, m)"
  obtain ok m' where e: "mysql_stmt_execute api st m = (ok, m')" by (rule prod.exhaust)
  have "in_tx V h d0 (c, m')" using execute_in_tx [OF assms(1) I assms(2) e] .
  moreover from this have "in_tx V h d0 (c, mysql_stmt_free_result api st m')"
    by (rule in_tx_same_db) (rule server_quiet(11) [OF assms(1)])
  ultimately show "in_tx V h d0 (snd (run_update api st (c, m)))"
    using e by (cases ok) (simp_all add: run_update_def Let_def)
qed

lemma read_result_in_tx:
  assumes "mysql_server api V sem"
  shows "keepsP (in_tx V h d0) (read_result api st)"
proof (rule keepsI)
  fix c m assume I: "in_tx V h d0 (c, m)"
  let ?lens = "map buffer_length (mysql_fetch_fields api st m)"
  obtain ok m' where b: "(if ?lens = [] then (True, m) else mysql_stmt_bind_result api st ?lens m) = (ok, m')" by (rule prod.exhaust)
  have "same_db V m m'" using b server_quietD(10) [OF assms, of st ?lens m ok m'] by (auto split: if_splits)
  then have "in_tx V h d0 (c, m')" by (rule in_tx_same_db [OF I])
  then have f: "in_tx V h d0 (c, mysql_stmt_free_result api st m')"
    by (rule in_tx_same_db) (rule server_quiet(11) [OF assms])
  have "snd (read_result api st (c, m)) = (c, mysql_stmt_free_result api st m')"
    unfolding read_result_def Let_def prod.case b
    by (cases ok) (simp_all split: sum.split option.split)
  with f show "in_tx V h d0 (snd (read_result api st (c, m)))" by simp
qed

lemma run_query_in_tx:
  assumes "mysql_server api V sem" "sv_own V st = h"
  shows "keepsP (in_tx V h d0) (run_query api st)"
proof (rule keepsI)
  fix c m assume I: "in_tx V h d0 (c, m)"
  obtain ok m1 where e: "mysql_stmt_execute api st m = (ok, m1)" by (rule prod.exhaust)
  have I1: "in_tx V h d0 (c, m1)" using execute_in_tx [OF assms(1) I assms(2) e] .
  have f: "in_tx V h d0 (c, mysql_stmt_free_result api st m1)"
    by (rule in_tx_same_db [OF I1]) (rule server_quiet(11) [OF assms(1)])
  obtain ok2 m2 where s: "mysql_stmt_store_result api st m1 = (ok2, m2)" by (rule prod.exhaust)
  have I2: "in_tx V h d0 (c, m2)" by (rule in_tx_same_db [OF I1]) (rule server_quietD(9) [OF assms(1) s])
  show "in_tx V h d0 (snd (run_query api st (c, m)))"
    using e s I1 I2 f keepsPD [OF read_result_in_tx [OF assms(1)] I2]
    by (cases ok; cases ok2) (simp_all add: run_query_def)
qed

lemma update_max_length_in_tx:
  assumes "mysql_server api V sem"
  shows "keepsP (in_tx V h d0) (update_max_length api st)"
proof (rule keepsI)
  fix c m assume I: "in_tx V h d0 (c, m)"
  obtain ok m1 where e: "mysql_stmt_attr_set api st m = (ok, m1)" by (rule prod.exhaust)
  have "in_tx V h d0 (c, m1)" by (rule in_tx_same_db [OF I]) (rule server_quietD(7) [OF assms e])
  with e show "in_tx V h d0 (snd (update_max_length api st (c, m)))" by (cases ok) (simp_all add: update_max_length_def)
qed

lemma executeUpdate_in_tx:
  assumes "mysql_server api V sem" "ps_on V h ps"
  shows "keepsP (in_tx V h d0) (executeUpdate api ps)"
proof (cases "ps_statement ps")
  case None
  then show ?thesis by (auto simp: keepsP_def executeUpdate_def bindParameters_def bindP_apply notPrepared_def)
next
  case (Some st)
  with assms show ?thesis
    unfolding executeUpdate_def by (intro keepsP_bindP bindParameters_in_tx run_update_in_tx) (simp_all add: ps_on_def)
qed

lemma executeQuery_in_tx:
  assumes "mysql_server api V sem" "ps_on V h ps"
  shows "keepsP (in_tx V h d0) (executeQuery api ps)"
  using assms
  by (cases "ps_statement ps")
    (auto simp: executeQuery_def ps_on_def intro!: keepsP_bindP keepsP_liftP bindParameters_in_tx run_query_in_tx update_max_length_in_tx)

text \<open>A statement that was prepared: its connection, text and parameters.\<close>

lemma server_stmts:
  assumes "mysql_server api V sem"
  shows "mysql_stmt_init api h m = (Some st, m') \<Longrightarrow> sv_own V st = h"
    and "mysql_stmt_prepare api st s m = (True, m') \<Longrightarrow>
      sv_text V m' st = s \<and> sv_pars V m' st = [] \<and> mysql_stmt_param_count api st m' = placeholders s"
    and "mysql_stmt_bind_param api st vs m = (True, m') \<Longrightarrow> sv_text V m' st = sv_text V m st \<and> sv_pars V m' st = vs"
proof -
  have st: "statements api V" using assms by (simp add: mysql_server_def)
  show "mysql_stmt_init api h m = (Some st, m') \<Longrightarrow> sv_own V st = h"
    using st [unfolded statements_def, THEN conjunct1, rule_format] .
  show "mysql_stmt_prepare api st s m = (True, m') \<Longrightarrow>
      sv_text V m' st = s \<and> sv_pars V m' st = [] \<and> mysql_stmt_param_count api st m' = placeholders s"
    using st [unfolded statements_def, THEN conjunct2, THEN conjunct1, rule_format] .
  show "mysql_stmt_bind_param api st vs m = (True, m') \<Longrightarrow> sv_text V m' st = sv_text V m st \<and> sv_pars V m' st = vs"
    using st [unfolded statements_def, THEN conjunct2, THEN conjunct2, rule_format] .
qed

lemma prepareP_Inr:
  assumes "mysql_server api V sem" "mysql_isConnected c" "mc_handle c = Some h" "prepareP api sql (c, m) = (Inr ps, s')"
  shows "\<exists>st m'. ps = \<lparr>ps_statement = Some st, ps_parameters = replicate (placeholders sql) None\<rparr> \<and> s' = (c, m') \<and>
    same_db V m m' \<and> sv_own V st = h \<and> sv_text V m' st = sql \<and> sv_pars V m' st = []"
proof -
  obtain q m1 where q: "mysql_stmt_init api h m = (q, m1)" by (rule prod.exhaust)
  show ?thesis
  proof (cases q)
    case None
    with assms q show ?thesis by (simp add: prepareP_def ps_prepare_def new_prepared_def ps_close_def Let_def)
  next
    case (Some st)
    obtain ok m2 where p: "mysql_stmt_prepare api st sql m1 = (ok, m2)" by (rule prod.exhaust)
    have ok: "ok" "ps = \<lparr>ps_statement = Some st, ps_parameters = replicate (mysql_stmt_param_count api st m2) None\<rparr>"
      "s' = (c, m2)"
      using assms(2-4) q p Some
      by (cases ok; simp add: prepareP_def ps_prepare_def new_prepared_def ps_close_def Let_def)+
    have "same_db V m m2"
      by (rule same_db_trans [OF server_quietD(5) [OF assms(1) q] server_quietD(6) [OF assms(1) p]])
    moreover have "sv_own V st = h" using q Some by (intro server_stmts(1) [OF assms(1)]) simp
    moreover have "sv_text V m2 st = sql \<and> sv_pars V m2 st = [] \<and> mysql_stmt_param_count api st m2 = placeholders sql"
      using p ok(1) by (intro server_stmts(2) [OF assms(1)]) simp
    ultimately show ?thesis using ok by (intro exI [of _ st] exI [of _ m2]) simp
  qed
qed

lemma prepareP_in_tx:
  assumes "mysql_server api V sem" "\<And>ps. ps_on V h ps \<Longrightarrow> keepsP (in_tx V h d0) (f ps)"
  shows "keepsP (in_tx V h d0) (bindP (prepareP api sql) f)"
proof (rule keepsI)
  fix c m assume I: "in_tx V h d0 (c, m)"
  then have conn: "mysql_isConnected c" "mc_handle c = Some h" by (simp_all add: in_tx_def)
  obtain q m1 where q: "mysql_stmt_init api h m = (q, m1)" by (rule prod.exhaust)
  have I1: "in_tx V h d0 (c, m1)" by (rule in_tx_same_db [OF I]) (rule server_quietD(5) [OF assms(1) q])
  show "in_tx V h d0 (snd (bindP (prepareP api sql) f (c, m)))"
  proof (cases q)
    case None
    with I1 q conn show ?thesis by (simp add: bindP_apply prepareP_def ps_prepare_def new_prepared_def ps_close_def Let_def)
  next
    case (Some st)
    obtain ok m2 where p: "mysql_stmt_prepare api st sql m1 = (ok, m2)" by (rule prod.exhaust)
    have I2: "in_tx V h d0 (c, m2)" by (rule in_tx_same_db [OF I1]) (rule server_quietD(6) [OF assms(1) p])
    have I3: "in_tx V h d0 (c, mysql_stmt_close api st m2)"
      by (rule in_tx_same_db [OF I2]) (rule server_quiet(12) [OF assms(1)])
    have "sv_own V st = h" using assms(1) q Some by (auto simp: mysql_server_def statements_def)
    then have "ps_on V h \<lparr>ps_statement = Some st, ps_parameters = ps\<rparr>" for ps by (simp add: ps_on_def)
    from keepsPD [OF assms(2) [OF this] I2] I2 I3 q p Some conn show ?thesis
      by (cases ok) (simp_all add: bindP_apply prepareP_def ps_prepare_def new_prepared_def ps_close_def Let_def)
  qed
qed

lemma scopedP_in_tx:
  assumes "mysql_server api V sem" "keepsP (in_tx V h d0) f"
  shows "keepsP (in_tx V h d0) (scopedP api ps f)"
proof (rule keepsI)
  fix c m assume "in_tx V h d0 (c, m)"
  then have "in_tx V h d0 (snd (f (c, m)))" using assms(2) by (rule keepsPD [rotated])
  moreover have "same_db V m (ps_close api ps m)" for m
    using server_quiet(12) [OF assms(1)] by (simp add: ps_close_def split: option.splits)
  ultimately show "in_tx V h d0 (snd (scopedP api ps f (c, m)))"
    by (auto simp: scopedP_def intro: in_tx_same_db split: prod.splits)
qed

text \<open>Binding a value gives a statement of the same connection, or stops.\<close>

lemma bind_on:
  "bindInt64 i v ps = Inr ps' \<Longrightarrow> ps_on V h ps \<Longrightarrow> ps_on V h ps'"
  "bindUInt64 i w ps = Inr ps' \<Longrightarrow> ps_on V h ps \<Longrightarrow> ps_on V h ps'"
  "bindString i t ps = Inr ps' \<Longrightarrow> ps_on V h ps \<Longrightarrow> ps_on V h ps'"
  "bindNonzero i w n ps = Inr ps' \<Longrightarrow> ps_on V h ps \<Longrightarrow> ps_on V h ps'"
  "bindConversationType i y ps = Inr ps' \<Longrightarrow> ps_on V h ps \<Longrightarrow> ps_on V h ps'"
  "(if b then bindUInt64 i w ps else Inr ps) = Inr ps' \<Longrightarrow> ps_on V h ps \<Longrightarrow> ps_on V h ps'"
  by (auto simp: binders bindR_eq_Inr dest: bind_value_on split: if_splits)

lemma keepsP_liftP_bind: "(\<And>x. r = Inr x \<Longrightarrow> keepsP I (f x)) \<Longrightarrow> keepsP I (bindP (liftP r) f)"
  by (cases r) (simp_all add: keepsP_def bindP_apply)

lemma liftP_on:
  assumes "ps_on V h ps" "\<And>ps'. ps_on V h ps' \<Longrightarrow> keepsP I (f ps')"
  shows "keepsP I (bindP (liftP (bindInt64 i v ps)) f)" "keepsP I (bindP (liftP (bindUInt64 i w ps)) f)"
    "keepsP I (bindP (liftP (bindString i t ps)) f)" "keepsP I (bindP (liftP (bindNonzero i w n ps)) f)"
    "keepsP I (bindP (liftP (bindConversationType i y ps)) f)"
  by (rule keepsP_liftP_bind, rule assms(2), erule bind_on, rule assms(1))+

lemma keepsP_case_sum: "(\<And>x. keepsP I (f x)) \<Longrightarrow> (\<And>y. keepsP I (g y)) \<Longrightarrow> keepsP I (case r of Inl x \<Rightarrow> f x | Inr y \<Rightarrow> g y)"
  by (cases r) simp_all

lemma keepsP_case_prod: "(\<And>x y. keepsP I (f x y)) \<Longrightarrow> keepsP I (case p of (x, y) \<Rightarrow> f x y)"
  by (cases p) simp

lemma keepsP_mapP: "(\<And>x. keepsP I (f x)) \<Longrightarrow> keepsP I (mapP f xs)"
  by (induction xs) (auto intro!: keepsP_bindP keepsP_retP)

lemma with_stmt_in_tx:
  assumes "mysql_server api V sem" "\<And>ps. ps_on V h ps \<Longrightarrow> keepsP (in_tx V h d0) (f ps)"
  shows "keepsP (in_tx V h d0) (with_stmt api sql f)"
  unfolding with_stmt_def by (intro prepareP_in_tx [OF assms(1)] scopedP_in_tx [OF assms(1)] assms(2))

lemma nowP_in_tx: "keepsP I (nowP env)"
  by (simp add: nowP_def keepsP_getsP)

lemmas tx_pieces = with_stmt_in_tx executeUpdate_in_tx executeQuery_in_tx scopedP_in_tx

lemmas keeps_rules =
  nowP_in_tx keepsP_statusP keepsP_bindP keepsP_retP keepsP_failP keepsP_liftP keepsP_getsP keepsP_if keepsP_case_sum
  keepsP_case_prod keepsP_forP keepsP_mapP

text \<open>The work of the data access objects inside their transactions.\<close>

lemma dao_in_tx:
  assumes "mysql_server (me_api env) V sem"
  shows "keepsP (in_tx V h d0) (insertMessageRecordInTransaction env msg)"
    "keepsP (in_tx V h d0) (request_pending (me_api env) a b)"
    "keepsP (in_tx V h d0) (insertFriendshipRows (me_api env) a b t)"
    "keepsP (in_tx V h d0) (upsertDeliveryPending (me_api env) a b)"
    "keepsP (in_tx V h d0) (insertOfflineMessage (me_api env) a b t)"
    "keepsP (in_tx V h d0) (markPending env a ids)"
    "keepsP (in_tx V h d0) (ackPrivate env a b)"
    "keepsP (in_tx V h d0) (markOfflineDeliveredInTransaction (me_api env) a ids t)"
    "keepsP (in_tx V h d0) (od_upsertDeliveryDelivered (me_api env) a ids t)"
    "ps_on V h ps \<Longrightarrow> keepsP (in_tx V h d0) (set_request_status (me_api env) ps a b t u)"
    "ps_on V h ps \<Longrightarrow> keepsP (in_tx V h d0) (insertGroup (me_api env) ps grq t)"
    "ps_on V h ps \<Longrightarrow> keepsP (in_tx V h d0) (fetchOfflineMessageForAck (me_api env) ps a b)"
proof -
  note rules = tx_pieces(1) [OF assms] liftP_on [where V = V and h = h] tx_pieces(2-) [OF assms] keeps_rules
  show "keepsP (in_tx V h d0) (insertMessageRecordInTransaction env msg)"
    unfolding insertMessageRecordInTransaction_def Let_def queryLastInsertedMessage_def querySingleMessage_def
    by (intro rules; assumption?)
  show "keepsP (in_tx V h d0) (request_pending (me_api env) a b)"
    unfolding request_pending_def queryFriendRequest_def queryAreFriends_def by (intro rules; assumption?)
  show "keepsP (in_tx V h d0) (insertFriendshipRows (me_api env) a b t)"
    unfolding insertFriendshipRows_def by (intro rules; assumption?)
  show "keepsP (in_tx V h d0) (upsertDeliveryPending (me_api env) a b)"
    unfolding upsertDeliveryPending_def by (intro rules; assumption?)
  show "keepsP (in_tx V h d0) (insertOfflineMessage (me_api env) a b t)"
    unfolding insertOfflineMessage_def by (intro rules; assumption?)
  show "keepsP (in_tx V h d0) (markPending env a ids)"
    unfolding markPending_def Let_def by (intro rules; assumption?)
  show "keepsP (in_tx V h d0) (ackPrivate env a b)"
    unfolding ackPrivate_def Let_def queryMessageById_def querySingleMessage_def upsertDeliveryDelivered_def
    by (intro rules; assumption?)
  show "keepsP (in_tx V h d0) (markOfflineDeliveredInTransaction (me_api env) a ids t)"
    unfolding markOfflineDeliveredInTransaction_def by (intro rules; assumption?)
  show "keepsP (in_tx V h d0) (od_upsertDeliveryDelivered (me_api env) a ids t)"
    unfolding od_upsertDeliveryDelivered_def by (intro rules; assumption?)
  show "ps_on V h ps \<Longrightarrow> keepsP (in_tx V h d0) (set_request_status (me_api env) ps a b t u)"
    unfolding set_request_status_def by (intro rules; assumption?)
  show "ps_on V h ps \<Longrightarrow> keepsP (in_tx V h d0) (insertGroup (me_api env) ps grq t)"
    unfolding insertGroup_def queryLastInsertedGroup_def querySingleGroup_def insertGroupMember_def
    by (intro rules; assumption?)
  show "ps_on V h ps \<Longrightarrow> keepsP (in_tx V h d0) (fetchOfflineMessageForAck (me_api env) ps a b)"
    unfolding fetchOfflineMessageForAck_def by (intro rules; assumption?)
qed

section \<open>Beginning and ending transactions\<close>

definition out_tx :: "('m, 'd) server_view \<Rightarrow> 'd \<Rightarrow> mysql_conn \<times> 'm \<Rightarrow> bool" where
  "out_tx V d0 s \<longleftrightarrow> sv_com V (snd s) = d0 \<and> sv_work V (snd s) = Map.empty"

text \<open>
  A program that starts in \<open>P\<close> ends in \<open>Q\<close> when it returns and in \<open>E\<close> when it fails. With it: a part of a transaction
  that has rolled back when it fails, and one that ends the transaction.
\<close>

definition triple :: "('s \<Rightarrow> bool) \<Rightarrow> ('s, 'a) prog \<Rightarrow> ('s \<Rightarrow> bool) \<Rightarrow> ('s \<Rightarrow> bool) \<Rightarrow> bool" where
  "triple P f Q E \<longleftrightarrow> (\<forall>s. P s \<longrightarrow> (case f s of (Inr x, s') \<Rightarrow> Q s' | (Inl e, s') \<Rightarrow> E s'))"

lemma tripleI: "(\<And>s r s'. P s \<Longrightarrow> f s = (r, s') \<Longrightarrow> case r of Inr x \<Rightarrow> Q s' | Inl e \<Rightarrow> E s') \<Longrightarrow> triple P f Q E"
  by (simp add: triple_def split: prod.split)

lemma tripleD: "triple P f Q E \<Longrightarrow> P s \<Longrightarrow> f s = (r, s') \<Longrightarrow> case r of Inr x \<Rightarrow> Q s' | Inl e \<Rightarrow> E s'"
  by (auto simp: triple_def split: sum.splits)

lemma triple_bindP:
  assumes "triple P f Q E" "\<And>x. triple Q (g x) R E"
  shows "triple P (bindP f g) R E"
proof (rule tripleI)
  fix s r t assume P: "P s" and run: "bindP f g s = (r, t)"
  obtain q s' where f: "f s = (q, s')" by (rule prod.exhaust)
  show "case r of Inr x \<Rightarrow> R t | Inl e \<Rightarrow> E t"
  proof (cases q)
    case (Inl e)
    with tripleD [OF assms(1) P f] run f show ?thesis by (auto simp: bindP_apply)
  next
    case (Inr x)
    with tripleD [OF assms(1) P f] have "Q s'" by simp
    from tripleD [OF assms(2) this] run f Inr show ?thesis by (simp add: bindP_apply)
  qed
qed

abbreviation rolls :: "('m, 'd) server_view \<Rightarrow> nat \<Rightarrow> 'd \<Rightarrow> ('m, 'a) sql \<Rightarrow> bool" where
  "rolls V h d0 f \<equiv> triple (in_tx V h d0) f (in_tx V h d0) (out_tx V d0)"

abbreviation ends :: "('m, 'd) server_view \<Rightarrow> nat \<Rightarrow> 'd \<Rightarrow> ('m, 'a) sql \<Rightarrow> bool" where
  "ends V h d0 f \<equiv> triple (in_tx V h d0) f (\<lambda>s. sv_work V (snd s) = Map.empty) (out_tx V d0)"

lemma server_tx:
  assumes "mysql_server api V sem"
  shows "mysql_query api h ''START TRANSACTION'' m = (ok, m') \<Longrightarrow>
      sv_com V m' = sv_com V m \<and> sv_last V m' = sv_last V m \<and>
      sv_work V m' = (if ok then (sv_work V m)(h \<mapsto> sees V m h) else sv_work V m)"
    and "sv_work V m h = Some d \<Longrightarrow> mysql_query api h ''COMMIT'' m = (ok, m') \<Longrightarrow>
      sv_com V m' = (if ok then d else sv_com V m) \<and> sv_work V m' = (sv_work V m)(h := None)"
    and "mysql_query api h ''ROLLBACK'' m = (ok, m') \<Longrightarrow> sv_com V m' = sv_com V m \<and> sv_work V m' = (sv_work V m)(h := None)"
    and "s \<in> {''START TRANSACTION'', ''COMMIT'', ''ROLLBACK''} \<Longrightarrow> mysql_query api h s m = (True, m') \<Longrightarrow>
      fst (mysql_store_result api h m') = False \<and> mysql_field_count api h (snd (mysql_store_result api h m')) = 0"
proof -
  have tx: "transactions api V" using assms by (simp add: mysql_server_def)
  show "mysql_query api h ''START TRANSACTION'' m = (ok, m') \<Longrightarrow>
      sv_com V m' = sv_com V m \<and> sv_last V m' = sv_last V m \<and>
      sv_work V m' = (if ok then (sv_work V m)(h \<mapsto> sees V m h) else sv_work V m)"
    using tx [unfolded transactions_def, THEN conjunct1, rule_format] .
  show "sv_work V m h = Some d \<Longrightarrow> mysql_query api h ''COMMIT'' m = (ok, m') \<Longrightarrow>
      sv_com V m' = (if ok then d else sv_com V m) \<and> sv_work V m' = (sv_work V m)(h := None)"
    using tx [unfolded transactions_def, THEN conjunct2, THEN conjunct1, rule_format] .
  show "mysql_query api h ''ROLLBACK'' m = (ok, m') \<Longrightarrow> sv_com V m' = sv_com V m \<and> sv_work V m' = (sv_work V m)(h := None)"
    using tx [unfolded transactions_def, THEN conjunct2, THEN conjunct2, THEN conjunct1, rule_format] .
  show "s \<in> {''START TRANSACTION'', ''COMMIT'', ''ROLLBACK''} \<Longrightarrow> mysql_query api h s m = (True, m') \<Longrightarrow>
      fst (mysql_store_result api h m') = False \<and> mysql_field_count api h (snd (mysql_store_result api h m')) = 0"
    using tx [unfolded transactions_def, THEN conjunct2, THEN conjunct2, THEN conjunct2, rule_format] .
qed

lemma simple_run:
  assumes "mysql_server api V sem" "mysql_isConnected c" "mc_handle c = Some h"
    and "sql \<in> {''START TRANSACTION'', ''COMMIT'', ''ROLLBACK''}" "mysql_query api h sql m = (ok, m1)"
  shows "\<exists>m2. same_db V m1 m2 \<and> snd (executeSimple api sql (c, m)) = (c, m2) \<and> (isl (fst (executeSimple api sql (c, m))) \<longleftrightarrow> \<not> ok)"
proof (cases ok)
  case False
  with assms(2,3,5) show ?thesis by (intro exI [of _ m1]) (simp add: executeSimple_def Let_def)
next
  case True
  obtain q m2 where q: "mysql_store_result api h m1 = (q, m2)" by (rule prod.exhaust)
  have "\<not> q \<and> mysql_field_count api h m2 = 0"
    using server_tx(4) [OF assms(1,4), of h m m1] assms(5) True q by simp
  with assms(2,3,5) True q server_quietD(4) [OF assms(1) q] show ?thesis
    by (intro exI [of _ m2]) (simp add: executeSimple_def Let_def)
qed

lemma rollback_out:
  assumes "mysql_server api V sem" "in_tx V h d0 (c, m)"
  shows "out_tx V d0 (snd (executeSimple api ''ROLLBACK'' (c, m)))"
proof -
  obtain ok m1 where q: "mysql_query api h ''ROLLBACK'' m = (ok, m1)" by (rule prod.exhaust)
  have "sv_com V m1 = sv_com V m \<and> sv_work V m1 = (sv_work V m)(h := None)"
    using server_tx(3) [OF assms(1) q] .
  then have "out_tx V d0 (c, m1)" using assms(2) by (auto simp: in_tx_def out_tx_def)
  moreover obtain m2 where "same_db V m1 m2" "snd (executeSimple api ''ROLLBACK'' (c, m)) = (c, m2)"
    using simple_run [OF assms(1) _ _ _ q, of c] assms(2) by (auto simp: in_tx_def)
  ultimately show ?thesis by (simp add: out_tx_def same_db_def)
qed

lemma rollbackAndReturn_out:
  assumes "mysql_server api V sem" "in_tx V h d0 s"
  shows "\<exists>s'. rollbackAndReturn api e s = (Inl e, s') \<and> out_tx V d0 s'"
  using rollback_out [OF assms(1), of h d0 "fst s" "snd s"] assms(2)
  by (auto simp: rollbackAndReturn_def rollbackSilently_def bindP_apply split: prod.splits)

lemma rolls_or_rollback:
  assumes "mysql_server api V sem" "keepsP (in_tx V h d0) f"
  shows "rolls V h d0 (or_rollback api f)"
proof (rule tripleI)
  fix s r t assume I: "in_tx V h d0 s" and run: "or_rollback api f s = (r, t)"
  obtain q s' where f: "f s = (q, s')" by (rule prod.exhaust)
  have I': "in_tx V h d0 s'" using keepsPD [OF assms(2) I] f by simp
  show "case r of Inr x \<Rightarrow> in_tx V h d0 t | Inl e \<Rightarrow> out_tx V d0 t"
  proof (cases q)
    case (Inl e)
    have rb: "or_rollback api f s = rollbackAndReturn api e s'" using f Inl by (simp add: or_rollback_def)
    have "\<exists>t. or_rollback api f s = (Inl e, t) \<and> out_tx V d0 t"
      unfolding rb by (rule rollbackAndReturn_out [OF assms(1) I'])
    with run show ?thesis by auto
  next
    case (Inr x)
    with run f I' show ?thesis by (auto simp: or_rollback_def)
  qed
qed

lemma rolls_retP: "rolls V h d0 (retP x)"
  by (simp add: triple_def)

lemma rolls_nowP: "rolls V h d0 (nowP env)"
  by (simp add: triple_def nowP_def)

lemma rolls_scopedP:
  assumes "mysql_server api V sem" "rolls V h d0 f"
  shows "rolls V h d0 (scopedP api ps f)"
proof (rule tripleI)
  fix s r t assume I: "in_tx V h d0 s" and run: "scopedP api ps f s = (r, t)"
  obtain q c m where f: "f s = (q, (c, m))" by (rule prod_cases3)
  have "same_db V m (ps_close api ps m)"
    using server_quiet(12) [OF assms(1)] by (simp add: ps_close_def split: option.splits)
  moreover have "r = q" "t = (c, ps_close api ps m)" using run f by (simp_all add: scopedP_def)
  moreover note tripleD [OF assms(2) I f]
  ultimately show "case r of Inr x \<Rightarrow> in_tx V h d0 t | Inl e \<Rightarrow> out_tx V d0 t"
    by (cases q) (simp_all add: in_tx_def out_tx_def same_db_def)
qed

lemma ends_commit:
  assumes "mysql_server api V sem"
  shows "ends V h d0 (executeSimple api ''COMMIT'')"
proof (rule tripleI)
  fix s r t assume I: "in_tx V h d0 s" and run: "executeSimple api ''COMMIT'' s = (r, t)"
  obtain c m where s: "s = (c, m)" by (rule prod.exhaust)
  obtain d where d: "sv_work V m = [h \<mapsto> d]" "sv_com V m = d0" "mysql_isConnected c" "mc_handle c = Some h"
    using I s by (auto simp: in_tx_def)
  obtain ok m1 where q: "mysql_query api h ''COMMIT'' m = (ok, m1)" by (rule prod.exhaust)
  have m1: "sv_com V m1 = (if ok then d else d0)" "sv_work V m1 = Map.empty"
    using server_tx(2) [OF assms _ q, of d] d by auto
  obtain m2 where "same_db V m1 m2" "t = (c, m2)" "isl r \<longleftrightarrow> \<not> ok"
    using simple_run [OF assms d(3,4) _ q] s run by auto
  with m1 show "case r of Inr x \<Rightarrow> sv_work V (snd t) = Map.empty | Inl e \<Rightarrow> out_tx V d0 t"
    by (cases r) (simp_all add: same_db_def out_tx_def)
qed

lemma ends_commit_ret: "mysql_server api V sem \<Longrightarrow> ends V h d0 (bindP (executeSimple api ''COMMIT'') (\<lambda>_. retP x))"
  by (rule triple_bindP [OF ends_commit]) (simp_all add: triple_def)

lemma ends_prepareP:
  assumes "mysql_server api V sem" "\<And>ps. ps_on V h ps \<Longrightarrow> ends V h d0 (g ps)"
  shows "ends V h d0 (bindP (or_rollback api (prepareP api sql)) g)"
proof (rule tripleI)
  fix s r t assume I: "in_tx V h d0 s" and run: "bindP (or_rollback api (prepareP api sql)) g s = (r, t)"
  have keeps: "keepsP (in_tx V h d0) (bindP (prepareP api sql) (\<lambda>ps. retP ps))"
    by (rule prepareP_in_tx [OF assms(1)]) (rule keepsP_retP)
  obtain q s' where p: "or_rollback api (prepareP api sql) s = (q, s')" by (rule prod.exhaust)
  have "bindP (prepareP api sql) (\<lambda>ps. retP ps) = prepareP api sql"
    by (rule ext) (simp add: bindP_apply split: prod.split sum.split)
  then have post: "case q of Inr x \<Rightarrow> in_tx V h d0 s' | Inl e \<Rightarrow> out_tx V d0 s'"
    using tripleD [OF rolls_or_rollback [OF assms(1) keeps] I] p by simp
  show "case r of Inr x \<Rightarrow> sv_work V (snd t) = Map.empty | Inl e \<Rightarrow> out_tx V d0 t"
  proof (cases q)
    case (Inl e)
    with post p run show ?thesis by (auto simp: bindP_apply)
  next
    case (Inr ps)
    then have "prepareP api sql s = (Inr ps, s')" using p
      by (auto simp: or_rollback_def rollbackAndReturn_def bindP_apply split: prod.splits sum.splits)
    then have "ps_on V h ps"
      using I prepareP_Inr [OF assms(1), of "fst s" h sql "snd s" ps s'] by (auto simp: ps_on_def in_tx_def)
    with post p run Inr tripleD [OF assms(2), of ps s'] show ?thesis by (simp add: bindP_apply)
  qed
qed

definition idle_session :: "('m, 'd) server_view \<Rightarrow> nat \<Rightarrow> 'd \<Rightarrow> mysql_conn \<times> 'm \<Rightarrow> bool" where
  "idle_session V h d0 s \<longleftrightarrow> mysql_isConnected (fst s) \<and> mc_handle (fst s) = Some h \<and> out_tx V d0 s"

lemma tx_begin:
  assumes "mysql_server api V sem"
  shows "triple (idle_session V h d0) (executeSimple api ''START TRANSACTION'') (in_tx V h d0) (out_tx V d0)"
proof (rule tripleI)
  fix s r t assume I: "idle_session V h d0 s" and run: "executeSimple api ''START TRANSACTION'' s = (r, t)"
  obtain c m where s: "s = (c, m)" by (rule prod.exhaust)
  have c: "mysql_isConnected c" "mc_handle c = Some h" "sv_com V m = d0" "sv_work V m = Map.empty"
    using I s by (simp_all add: idle_session_def out_tx_def)
  obtain ok m1 where q: "mysql_query api h ''START TRANSACTION'' m = (ok, m1)" by (rule prod.exhaust)
  have m1: "sv_com V m1 = d0" "sv_work V m1 = (if ok then [h \<mapsto> sees V m h] else Map.empty)"
    using server_tx(1) [OF assms q] c(3,4) by auto
  obtain m2 where "same_db V m1 m2" "t = (c, m2)" "isl r \<longleftrightarrow> \<not> ok"
    using simple_run [OF assms c(1,2) _ q] s run by auto
  with m1 c show "case r of Inr x \<Rightarrow> in_tx V h d0 t | Inl e \<Rightarrow> out_tx V d0 t"
    by (cases r) (auto simp: same_db_def out_tx_def in_tx_def)
qed

abbreviation whole_tx :: "('m, 'd) server_view \<Rightarrow> nat \<Rightarrow> 'd \<Rightarrow> ('m, 'a) sql \<Rightarrow> bool" where
  "whole_tx V h d0 f \<equiv> triple (idle_session V h d0) f (\<lambda>s. sv_work V (snd s) = Map.empty) (out_tx V d0)"

lemma whole_txI:
  "mysql_server api V sem \<Longrightarrow> ends V h d0 f \<Longrightarrow> whole_tx V h d0 (bindP (executeSimple api ''START TRANSACTION'') (\<lambda>_. f))"
  by (rule triple_bindP [OF tx_begin])

section \<open>On the pool\<close>

definition pool_ok :: "'c conn_pool \<Rightarrow> bool" where
  "pool_ok p \<longleftrightarrow> set (cp_idle p) \<subseteq> {..< length (cp_conns p)}"

definition calm :: "('m, 'd) server_view \<Rightarrow> 'm mysql_state \<Rightarrow> bool" where
  "calm V s \<longleftrightarrow> pool_ok (fst s) \<and> sv_work V (snd s) = Map.empty"

definition calm_at :: "('m, 'd) server_view \<Rightarrow> 'd \<Rightarrow> 'm mysql_state \<Rightarrow> bool" where
  "calm_at V d0 s \<longleftrightarrow> calm V s \<and> sv_com V (snd s) = d0"

lemma connect_quiet:
  assumes "mysql_server api V sem" "sv_work V m = Map.empty" "mysql_connect api cfg (c, m) = (r, (c', m'))"
  shows "sv_com V m' = sv_com V m \<and> sv_work V m' = Map.empty"
proof -
  have fresh: "fresh_sessions api V" using assms(1) by (simp add: mysql_server_def)
  obtain q m1 where q: "mysql_init api m = (q, m1)" by (rule prod.exhaust)
  have m1: "sv_com V m1 = sv_com V m \<and> sv_work V m1 = Map.empty"
    using fresh q assms(2) by (cases q) (auto simp: fresh_sessions_def)
  show ?thesis
  proof (cases q)
    case None
    with m1 q assms(3) show ?thesis by (simp add: mysql_connect_def Let_def)
  next
    case (Some h)
    obtain ok2 m2 where o2: "mysql_options api h kUtf8Mb4 m1 = (ok2, m2)" by (rule prod.exhaust)
    obtain ok3 m3 where o3: "mysql_real_connect api h cfg m2 = (ok3, m3)" by (rule prod.exhaust)
    have "m' = (if ok2 then m3 else m2)" using assms(3) q o2 o3 Some
      by (cases ok2; cases ok3) (simp_all add: mysql_connect_def Let_def)
    with m1 server_quietD(1) [OF assms(1) o2] server_quietD(2) [OF assms(1) o3] show ?thesis
      by (simp add: same_db_def)
  qed
qed

lemma ensureReady_quiet:
  assumes "mysql_server api V sem" "sv_work V m = Map.empty" "ensureReady (mysql_ops api cfg) (c, m) = (r, (c', m'))"
  shows "sv_com V m' = sv_com V m \<and> sv_work V m' = Map.empty"
proof (cases "mysql_isConnected c")
  case False
  with assms connect_quiet [OF assms(1,2)] show ?thesis by (simp add: ensureReady_def mysql_ops_def)
next
  case True
  obtain ok m1 where p: "mysql_ping api (the (mc_handle c)) m = (ok, m1)" by (rule prod.exhaust)
  have same: "same_db V m m1" by (rule server_quietD(3) [OF assms(1) p])
  show ?thesis
  proof (cases ok)
    case True
    with \<open>mysql_isConnected c\<close> p assms(2,3) same show ?thesis
      by (simp add: ensureReady_def mysql_ops_def mysql_conn_ping_def same_db_def)
  next
    case False
    with \<open>mysql_isConnected c\<close> p assms(3) have "mysql_connect api cfg (mysql_close c, m1) = (r, (c', m'))"
      by (simp add: ensureReady_def mysql_ops_def mysql_conn_ping_def)
    from connect_quiet [OF assms(1) _ this] same assms(2) show ?thesis by (simp add: same_db_def)
  qed
qed

lemma acquire_calm:
  assumes "mysql_server api V sem" "calm_at V d0 (p, m)" "pool_acquire (mysql_ops api cfg) timeout False (p, m) = (r, (p', m'))"
  shows "calm_at V d0 (p', m') \<and>
    (\<forall>i. r = Inr i \<longrightarrow> i < length (cp_conns p') \<and> (\<exists>h. idle_session V h d0 (cp_conns p' ! i, m')))"
proof (cases "acquire_enter (mysql_ops api cfg) timeout False p")
  case (Inl e)
  with assms(2,3) show ?thesis by (auto simp: pool_acquire_def bindP_apply)
next
  case enter: (Inr u)
  let ?ops = "mysql_ops api cfg"
  have open': "cp_started p" "\<not> cp_closed p"
    using enter by (auto simp: acquire_enter_def split: if_splits)
  show ?thesis
  proof (cases "cp_idle p")
    case Nil
    with assms(2,3) enter open' show ?thesis
      by (auto simp: pool_acquire_def bindP_apply on_pool_def acquire_take_def Let_def)
  next
    case (Cons i idle)
    have idle: "i < length (cp_conns p)" "set idle \<subseteq> {..< length (cp_conns p)}" "sv_work V m = Map.empty" "sv_com V m = d0"
      using assms(2) Cons by (auto simp: calm_at_def calm_def pool_ok_def)
    obtain q c m1 where ready: "ensureReady ?ops (cp_conns p ! i, m) = (q, (c, m1))" by (rule prod_cases3)
    have m1: "sv_com V m1 = d0" "sv_work V m1 = Map.empty"
      using ensureReady_quiet [OF assms(1) idle(3) ready] idle(4) by simp_all
    show ?thesis
    proof (cases q)
      case (Inl e)
      with assms(3) enter open' Cons ready have "r = Inl e" "m' = m1"
        "p' = p\<lparr>cp_conns := (cp_conns p)[i := c], cp_idle := idle @ [i]\<rparr>"
        by (auto simp: pool_acquire_def bindP_apply on_pool_def acquire_take_def acquire_ready_def release_conn_def Let_def)
      with idle m1 show ?thesis by (auto simp: calm_at_def calm_def pool_ok_def)
    next
      case (Inr x)
      with assms(3) enter open' Cons ready have res: "r = Inr i" "m' = m1"
        "p' = p\<lparr>cp_conns := (cp_conns p)[i := c], cp_idle := idle\<rparr>"
        by (auto simp: pool_acquire_def bindP_apply on_pool_def acquire_take_def acquire_ready_def acquire_finish_def Let_def)
      have "mysql_isConnected c"
        using mysql_pool.ensureReady_live [of api cfg "cp_conns p ! i" m c m1] ready Inr by (simp add: mysql_ops_def)
      then obtain h where "mc_handle c = Some h" by (auto simp: mysql_isConnected_def)
      with res idle m1 \<open>mysql_isConnected c\<close> show ?thesis
        by (auto simp: calm_at_def calm_def pool_ok_def idle_session_def out_tx_def)
    qed
  qed
qed

lemma with_connection_tx:
  assumes "mysql_server (me_api env) V sem" "\<And>h. whole_tx V h d0 f"
  shows "triple (calm_at V d0) (with_connection env f) (calm V) (calm_at V d0)"
proof (rule tripleI)
  fix s r t assume C: "calm_at V d0 s" and run: "with_connection env f s = (r, t)"
  obtain p m where s: "s = (p, m)" by (rule prod.exhaust)
  let ?ops = "mysql_ops (me_api env) (me_config env)"
  obtain q p1 m1 where a: "pool_acquire ?ops (me_acquire_timeout env) False (p, m) = (q, (p1, m1))" by (rule prod_cases3)
  note acq = acquire_calm [OF assms(1) C [unfolded s] a]
  show "case r of Inr x \<Rightarrow> calm V t | Inl e \<Rightarrow> calm_at V d0 t"
  proof (cases q)
    case (Inl e)
    with run s a acq show ?thesis by (auto simp: with_connection_def borrow_def bindP_apply)
  next
    case (Inr i)
    with acq obtain h where i: "i < length (cp_conns p1)" "idle_session V h d0 (cp_conns p1 ! i, m1)" by blast
    obtain w c m2 where f: "f (cp_conns p1 ! i, m1) = (w, (c, m2))" by (rule prod_cases3)
    have post: "case w of Inr x \<Rightarrow> sv_work V m2 = Map.empty | Inl e \<Rightarrow> out_tx V d0 (c, m2)"
      using tripleD [OF assms(2) i(2) f] by (simp split: sum.splits)
    have res: "r = w" "t = (guard_reset ?ops (Some i) (p1\<lparr>cp_conns := (cp_conns p1)[i := c]\<rparr>), m2)"
      using run s a Inr f by (simp_all add: with_connection_def borrow_def bindP_apply guarded_def)
    have "pool_ok (guard_reset ?ops (Some i) (p1\<lparr>cp_conns := (cp_conns p1)[i := c]\<rparr>))"
      using acq i(1) by (auto simp: guard_reset_def release_conn_def pool_ok_def calm_at_def calm_def)
    with post res show ?thesis by (cases w) (simp_all add: calm_at_def calm_def out_tx_def)
  qed
qed

section \<open>The operations with a transaction\<close>

lemma triple_liftP: "(\<And>s. P s \<Longrightarrow> E s) \<Longrightarrow> (\<And>x. r = Inr x \<Longrightarrow> triple P (g x) Q E) \<Longrightarrow> triple P (bindP (liftP r) g) Q E"
  by (cases r) (auto simp: triple_def bindP_apply)

lemma triple_failP: "(\<And>s. P s \<Longrightarrow> E s) \<Longrightarrow> triple P (failP e) Q E"
  by (simp add: triple_def)

lemma triple_retP: "(\<And>s. P s \<Longrightarrow> Q s) \<Longrightarrow> triple P (retP x) Q E"
  by (simp add: triple_def)

lemma rolls_or_rollback_liftP:
  assumes "mysql_server api V sem" "\<And>x. r = Inr x \<Longrightarrow> rolls V h d0 (g x)"
  shows "rolls V h d0 (bindP (or_rollback api (liftP r)) g)"
proof (cases r)
  case (Inl e)
  then have "rolls V h d0 (or_rollback api (liftP r))" by (intro rolls_or_rollback [OF assms(1)] keepsP_liftP)
  moreover have "bindP (or_rollback api (liftP r)) g s = (Inl e, snd (or_rollback api (liftP r) s))" for s
    using Inl by (simp add: bindP_apply or_rollback_def rollbackAndReturn_def rollbackSilently_def)
  ultimately show ?thesis using Inl
    by (auto simp: triple_def or_rollback_def rollbackAndReturn_def rollbackSilently_def bindP_apply)
next
  case (Inr x)
  then have "bindP (or_rollback api (liftP r)) g = g x"
    by (intro ext) (simp add: bindP_apply or_rollback_def)
  with assms(2) [OF Inr] show ?thesis by simp
qed

lemma rolls_rollback: "mysql_server api V sem \<Longrightarrow> rolls V h d0 (rollbackAndReturn api e)"
proof (rule tripleI)
  fix s :: "mysql_conn \<times> 'a" and r :: "'c result" and t
  assume "mysql_server api V sem" "in_tx V h d0 s" and run: "rollbackAndReturn api e s = (r, t)"
  then have "\<exists>s'. rollbackAndReturn api e s = (Inl e :: 'c result, s') \<and> out_tx V d0 s'" by (intro rollbackAndReturn_out)
  with run show "case r of Inr x \<Rightarrow> in_tx V h d0 t | Inl e \<Rightarrow> out_tx V d0 t" by auto
qed

lemma insertPendingOffline_rolls:
  assumes "mysql_server (me_api env) V sem" "ps_on V h ps"
  shows "rolls V h d0 (insertPendingOffline env ps a b)"
proof -
  let ?api = "me_api env"
  have late: "rolls V h d0 (bindP (statusP (executeUpdate ?api ps')) (\<lambda>res. case res of
      Inl st \<Rightarrow> bindP (rollbackSilently ?api) (\<lambda>_. bindP (getsP (\<lambda>(c, m). lastErrorNumber ?api ps' m)) (\<lambda>errno.
        if errno = kMysqlDuplicateEntry then failP (status_error AlreadyExists ''offline message already exists'') else failP st))
    | Inr affected_rows \<Rightarrow> if affected_rows \<noteq> 1
        then rollbackAndReturn ?api (status_error InternalError ''save offline message affected unexpected row count'')
        else retP ()))" (is "rolls V h d0 (bindP ?run ?handle)") if "ps_on V h ps'" for ps'
  proof (rule triple_bindP)
    show "triple (in_tx V h d0) ?run (in_tx V h d0) (out_tx V d0)"
      using keepsPD [OF executeUpdate_in_tx [OF assms(1) that]] by (simp add: triple_def)
    show "rolls V h d0 (?handle res)" for res
    proof (cases res)
      case (Inl st)
      have "out_tx V d0 (snd (executeSimple ?api ''ROLLBACK'' s))" if "in_tx V h d0 s" for s
        using rollback_out [OF assms(1), of h d0 "fst s" "snd s"] that by simp
      with Inl show ?thesis by (simp add: triple_def bindP_apply rollbackSilently_def)
    next
      case (Inr n)
      then show ?thesis by (simp add: rolls_rollback [OF assms(1)] rolls_retP)
    qed
  qed
  show ?thesis
    unfolding insertPendingOffline_def Let_def
    by (intro rolls_or_rollback_liftP [OF assms(1)] triple_bindP [OF rolls_nowP] late;
        ((erule bind_on)+)?; (rule assms(2))?)
qed

text \<open>An operation on the pool that changes the committed database only when it returns.\<close>

definition all_or_nothing :: "('m, 'd) server_view \<Rightarrow> ('m mysql_state, 'a) prog \<Rightarrow> bool" where
  "all_or_nothing V f \<longleftrightarrow> (\<forall>s r t. calm V s \<longrightarrow> f s = (r, t) \<longrightarrow>
     calm V t \<and> (isl r \<longrightarrow> sv_com V (snd t) = sv_com V (snd s)))"

lemma all_or_nothingI: "(\<And>d0. triple (calm_at V d0) f (calm V) (calm_at V d0)) \<Longrightarrow> all_or_nothing V f"
  unfolding all_or_nothing_def
proof (intro allI impI)
  fix s r t assume f: "\<And>d0. triple (calm_at V d0) f (calm V) (calm_at V d0)" and "calm V s" and run: "f s = (r, t)"
  then have "calm_at V (sv_com V (snd s)) s" by (simp add: calm_at_def)
  from tripleD [OF f this run] show "calm V t \<and> (isl r \<longrightarrow> sv_com V (snd t) = sv_com V (snd s))"
    by (cases r) (simp_all add: calm_at_def)
qed

lemma triple_if: "(b \<Longrightarrow> triple P f Q E) \<Longrightarrow> (\<not> b \<Longrightarrow> triple P g Q E) \<Longrightarrow> triple P (if b then f else g) Q E"
  by simp

lemma calm_atD: "calm_at V d s \<Longrightarrow> calm V s"
  by (simp add: calm_at_def)

lemma ends_steps:
  assumes "mysql_server api V sem"
  shows "keepsP (in_tx V h d0) f \<Longrightarrow> (\<And>x. ends V h d0 (g x)) \<Longrightarrow> ends V h d0 (bindP (or_rollback api f) g)"
    and "rolls V h d0 f \<Longrightarrow> (\<And>x. ends V h d0 (g x)) \<Longrightarrow> ends V h d0 (bindP (scopedP api ps f) g)"
    and "(\<And>t. ends V h d0 (k t)) \<Longrightarrow> ends V h d0 (bindP (nowP env) k)"
    and "(\<And>t. rolls V h d0 (k t)) \<Longrightarrow> rolls V h d0 (bindP (nowP env) k)"
  by (rule triple_bindP [OF rolls_or_rollback [OF assms]] triple_bindP [OF rolls_scopedP [OF assms]]
        triple_bindP [OF rolls_nowP]; assumption)+

lemmas ends_rules = whole_txI ends_prepareP ends_steps(1-3) ends_commit_ret ends_commit

lemma tx_operations:
  assumes server: "mysql_server (me_api env) V sem"
  shows "all_or_nothing V (fd_acceptFriendRequest env a b)"
    "all_or_nothing V (fd_addFriendship env a b)"
    "all_or_nothing V (gd_createGroup env grq)"
    "all_or_nothing V (ms_saveMessageWithOfflineRecipients env msg ids)"
    "all_or_nothing V (od_saveOfflineMessage env a b)"
    "all_or_nothing V (od_markOfflineDelivered env a ids)"
    "all_or_nothing V (od_ackOfflineMessages env a ids)"
    "all_or_nothing V (ms_ackPrivateMessageDelivery env a b)"
    "all_or_nothing V (saveMessageWithType env msg ty)"
proof -
  note keeps = dao_in_tx [OF server] with_stmt_in_tx [OF server] keepsP_mapP keepsP_forP keepsP_bindP
  note rules = all_or_nothingI triple_if triple_liftP triple_failP triple_retP with_connection_tx [OF server]
    ends_rules [OF server] ends_steps(4) [OF server] rolls_or_rollback [OF server] keeps
  show "all_or_nothing V (fd_acceptFriendRequest env a b)"
    unfolding fd_acceptFriendRequest_def Let_def by (intro rules; (erule calm_atD | assumption)?)
  show "all_or_nothing V (fd_addFriendship env a b)"
    unfolding fd_addFriendship_def Let_def by (intro rules; (erule calm_atD | assumption)?)
  show "all_or_nothing V (gd_createGroup env grq)"
    unfolding gd_createGroup_def Let_def by (intro rules; (erule calm_atD | assumption)?)
  show "all_or_nothing V (ms_saveMessageWithOfflineRecipients env msg ids)"
    unfolding ms_saveMessageWithOfflineRecipients_def Let_def ms_upsertDeliveryPending_def
    by (intro rules; (erule calm_atD | assumption)?)
  show "all_or_nothing V (od_saveOfflineMessage env a b)"
    unfolding od_saveOfflineMessage_def Let_def
    by (intro rules insertPendingOffline_rolls [OF server]; (erule calm_atD | assumption)?)
  show "all_or_nothing V (od_markOfflineDelivered env a ids)"
    unfolding od_markOfflineDelivered_def by (intro rules; (erule calm_atD | assumption)?)
  show "all_or_nothing V (od_ackOfflineMessages env a ids)"
    unfolding od_ackOfflineMessages_def Let_def by (intro rules; (erule calm_atD | assumption)?)
  show "all_or_nothing V (ms_ackPrivateMessageDelivery env a b)"
    unfolding ms_ackPrivateMessageDelivery_def Let_def by (intro rules; (erule calm_atD | assumption)?)
  show "all_or_nothing V (saveMessageWithType env msg ty)"
    unfolding saveMessageWithType_def by (intro rules; (erule calm_atD | assumption)?)
qed

lemma all_or_nothing_map: "all_or_nothing V f \<Longrightarrow> all_or_nothing V (bindP f (\<lambda>x. retP (g x)))"
  unfolding all_or_nothing_def
proof (intro allI impI)
  fix s r t assume f: "\<forall>s r t. calm V s \<longrightarrow> f s = (r, t) \<longrightarrow> calm V t \<and> (isl r \<longrightarrow> sv_com V (snd t) = sv_com V (snd s))"
    and "calm V s" and run: "bindP f (\<lambda>x. retP (g x)) s = (r, t)"
  obtain q u where q: "f s = (q, u)" by (rule prod.exhaust)
  from f [rule_format, OF \<open>calm V s\<close> q] run q show "calm V t \<and> (isl r \<longrightarrow> sv_com V (snd t) = sv_com V (snd s))"
    by (cases q) (auto simp: bindP_apply)
qed

section \<open>Properties\<close>


text \<open>
  A server that counts the rows of its database and adds three rows for every statement, with one session: adding a
  friendship is then an error of the storage, and the rows are gone.
\<close>

record three_rows_server =
  tr_com :: nat
  tr_work :: "nat \<rightharpoonup> nat"
  tr_text :: string
  tr_pars :: "param list"

definition three_rows_view :: "(three_rows_server, nat) server_view" where
  "three_rows_view =
     \<lparr>sv_com = tr_com, sv_work = tr_work, sv_last = \<lambda>_ _. 0, sv_own = \<lambda>st. st, sv_text = \<lambda>m _. tr_text m,
      sv_pars = \<lambda>m _. tr_pars m\<rparr>"

definition three_rows_query :: "nat \<Rightarrow> string \<Rightarrow> three_rows_server \<Rightarrow> bool \<times> three_rows_server" where
  "three_rows_query h sql m =
     (if sql = ''START TRANSACTION'' then (True, m\<lparr>tr_work := (tr_work m)(h \<mapsto> sees three_rows_view m h)\<rparr>)
      else if sql = ''COMMIT'' then (True, m\<lparr>tr_com := sees three_rows_view m h, tr_work := (tr_work m)(h := None)\<rparr>)
      else (True, m\<lparr>tr_work := (tr_work m)(h := None)\<rparr>))"

definition three_rows_execute :: "nat \<Rightarrow> three_rows_server \<Rightarrow> bool \<times> three_rows_server" where
  "three_rows_execute h m =
     (case tr_work m h of
        None \<Rightarrow> (True, m\<lparr>tr_com := tr_com m + 3\<rparr>)
      | Some d \<Rightarrow> (True, m\<lparr>tr_work := (tr_work m)(h \<mapsto> d + 3)\<rparr>))"

definition three_rows_api :: "three_rows_server mysql_api" where
  "three_rows_api =
     \<lparr>mysql_init = \<lambda>m. (Some 7, m\<lparr>tr_work := (tr_work m)(7 := None)\<rparr>), mysql_options = \<lambda>_ _ m. (True, m),
      mysql_real_connect = \<lambda>_ _ m. (True, m), mysql_error = \<lambda>_ _. [], mysql_ping = \<lambda>_ m. (True, m),
      mysql_query = three_rows_query, mysql_store_result = \<lambda>_ m. (False, m), mysql_field_count = \<lambda>_ _. 0,
      mysql_stmt_init = \<lambda>h m. (Some h, m), mysql_stmt_prepare = \<lambda>_ sql m. (True, m\<lparr>tr_text := sql, tr_pars := []\<rparr>),
      mysql_stmt_param_count = \<lambda>_ m. placeholders (tr_text m), mysql_stmt_error = \<lambda>_ _. [], mysql_stmt_errno = \<lambda>_ _. 0,
      mysql_stmt_attr_set = \<lambda>_ m. (True, m), mysql_stmt_bind_param = \<lambda>_ vs m. (True, m\<lparr>tr_pars := vs\<rparr>),
      mysql_stmt_execute = three_rows_execute, mysql_stmt_affected_rows = \<lambda>_ _. 3,
      mysql_stmt_result_metadata = \<lambda>_ _. False, mysql_stmt_store_result = \<lambda>_ m. (False, m),
      mysql_fetch_fields = \<lambda>_ _. [], mysql_stmt_bind_result = \<lambda>_ _ m. (True, m), mysql_stmt_fetch = \<lambda>_ _. [],
      mysql_stmt_free_result = \<lambda>_ m. m, mysql_stmt_close = \<lambda>_ m. m\<rparr>"

definition three_rows_sem :: "nat sql_sem" where
  "three_rows_sem _ _ s = (Affected 3, fst s + 3, 0)"

lemma three_rows_server: "mysql_server three_rows_api three_rows_view three_rows_sem"
  unfolding mysql_server_def
proof (intro conjI)
  show "quiet_calls three_rows_api three_rows_view"
    by (simp add: quiet_calls_def three_rows_api_def three_rows_view_def same_db_def)
  show "fresh_sessions three_rows_api three_rows_view"
    by (auto simp: fresh_sessions_def three_rows_api_def three_rows_view_def)
  show "transactions three_rows_api three_rows_view"
    by (auto simp: transactions_def three_rows_api_def three_rows_view_def three_rows_query_def sees_def)
  show "executions three_rows_api three_rows_view three_rows_sem"
    by (auto simp: executions_def three_rows_api_def three_rows_view_def three_rows_execute_def three_rows_sem_def sees_def
        split: option.splits)
  show "statements three_rows_api three_rows_view"
    by (auto simp: statements_def three_rows_api_def three_rows_view_def three_rows_execute_def
        split: option.splits)
qed

definition three_rows_env :: "three_rows_server mysql_env" where
  "three_rows_env = \<lparr>me_api = three_rows_api, me_config = default_mysql_config, me_acquire_timeout = 1, me_now = \<lambda>_. 0\<rparr>"

definition three_rows_start :: "three_rows_server mysql_state" where
  "three_rows_start =
     (\<lparr>cp_pool_size = 1, cp_conns = [\<lparr>mc_handle = Some 7, mc_connected = True\<rparr>], cp_idle = [0], cp_started = True,
       cp_closed = False\<rparr>,
      \<lparr>tr_com = 5, tr_work = Map.empty, tr_text = [], tr_pars = []\<rparr>)"

lemma placeholders_insertFriendship: "placeholders insertFriendshipSql = 6"
  by (simp add: placeholders_def insertFriendshipSql_def)

lemma three_rows_borrow:
  "with_connection three_rows_env f three_rows_start =
     (let (r, (c, m)) = f (\<lparr>mc_handle = Some 7, mc_connected = True\<rparr>, snd three_rows_start)
      in (r, ((fst three_rows_start)\<lparr>cp_conns := [c]\<rparr>, m)))"
  by (simp add: with_connection_def borrow_def pool_acquire_def on_pool_def acquire_enter_def acquire_take_def acquire_ready_def
      acquire_finish_def guarded_def guard_reset_def release_conn_def ensureReady_def mysql_ops_def mysql_conn_ping_def
      mysql_isConnected_def three_rows_env_def three_rows_api_def three_rows_start_def bindP_apply split: prod.split)

lemma three_rows_insert:
  "fst (insertFriendshipRows three_rows_api 3 4 0 (\<lparr>mc_handle = Some 7, mc_connected = True\<rparr>, m)) =
     err InternalError ''add friendship affected unexpected row count''"
proof -
  let ?c = "\<lparr>mc_handle = Some 7, mc_connected = True\<rparr>"
  let ?vs = "[PUint 3, PUint 4, PInt 0, PUint 4, PUint 3, PInt 0]"
  have update: "fst (executeUpdate three_rows_api \<lparr>ps_statement = Some 7, ps_parameters = map Some ?vs\<rparr> (?c, m)) = Inr 3" for m
    by (simp add: executeUpdate_def bindParameters_def run_update_def three_rows_api_def three_rows_execute_def bindP_apply
        split: option.split)
  have prepare: "prepareP three_rows_api insertFriendshipSql (?c, m) =
      (Inr \<lparr>ps_statement = Some 7, ps_parameters = [None, None, None, None, None, None]\<rparr>, (?c, m\<lparr>tr_text := insertFriendshipSql, tr_pars := []\<rparr>))"
    by (simp add: prepareP_def ps_prepare_def new_prepared_def ps_close_def three_rows_api_def mysql_isConnected_def
        placeholders_insertFriendship numeral_eq_Suc)
  have slots: "[x0, x1, x2, x3, x4, x5][2 := y] = [x0, x1, y, x3, x4, x5]" "[x0, x1, x2, x3, x4, x5][3 := y] = [x0, x1, x2, y, x4, x5]"
    "[x0, x1, x2, x3, x4, x5][4 := y] = [x0, x1, x2, x3, y, x5]" "[x0, x1, x2, x3, x4, x5][5 := y] = [x0, x1, x2, x3, x4, y]"
    for x0 x1 x2 x3 x4 x5 y :: "param option" by (simp_all add: numeral_eq_Suc)
  show ?thesis
    using update [of "m\<lparr>tr_text := insertFriendshipSql, tr_pars := []\<rparr>"]
    by (auto simp: insertFriendshipRows_def with_stmt_def prepare scopedP_def bindNonzero_def nonzeroId_def
        bindUInt64_def bindInt64_def bind_value_def isPrepared_def slots bindP_apply split: prod.split)
qed


end
