(* ===== verification/Client_Cli.thy ===== *)
theory Client_Cli
  imports Service_Base Decimal
begin

text \<open>
  The command line client (\<open>client_cli/ClientCli.cpp\<close>, \<open>client_cli/main.cpp\<close>): commands to packets, packets to
  text, and blocking reads and writes of whole packets on the socket. The string stream of a command is the text that
  is left to read. Results of \<open>read\<close> and \<open>write\<close> are lists of outcomes; a list that ends is a call that blocks. The
  theorems: every accepted line is one of the commands of the help text with well-formed fields that the server reads
  back, each command can be written, and the packets that the client reads from a connection are those the server
  sent, however the bytes arrive.
\<close>

section \<open>Reading a command\<close>

definition invalidCommand :: "string \<Rightarrow> 'a result" where
  "invalidCommand text = err InvalidArgument text"

definition ioError :: "string \<Rightarrow> 'a result" where
  "ioError text = err IoError text"

definition is_blank :: "char \<Rightarrow> bool" where
  "is_blank c \<longleftrightarrow> c \<in> set [CHR '' '', CHR 0x09, CHR 0x0D, CHR 0x0A]"

definition cli_trim :: "string \<Rightarrow> string" where
  "cli_trim input = rev (dropWhile is_blank (rev (dropWhile is_blank input)))"

definition cli_readToken :: "string \<Rightarrow> string option \<times> string" where
  "cli_readToken stream =
     (let rest = dropWhile is_space stream; token = takeWhile (Not \<circ> is_space) rest
      in if token = [] then (None, []) else (Some token, dropWhile (Not \<circ> is_space) rest))"

definition remainingText :: "string \<Rightarrow> string \<times> string" where
  "remainingText stream =
     (cli_trim (takeWhile (\<lambda>c. c \<noteq> CHR 0x0A) stream), tl (dropWhile (\<lambda>c. c \<noteq> CHR 0x0A) stream))"

text \<open>\<open>strtoull\<close> reads the C string, that is, up to a zero character.\<close>

definition c_str :: "string \<Rightarrow> string" where
  "c_str s = takeWhile (\<lambda>c. c \<noteq> CHR 0x00) s"

definition cli_parseUint64 :: "string \<Rightarrow> string \<Rightarrow> u64 result" where
  "cli_parseUint64 token field_name =
     (if token = [] then invalidCommand (field_name @ '' is required'')
      else if hd token = CHR ''-'' then invalidCommand (field_name @ '' must be an unsigned integer'')
      else case stoull (c_str token) of
          None \<Rightarrow> invalidCommand (field_name @ '' must be an unsigned integer'')
        | Some (parsed, end) \<Rightarrow>
            if end \<noteq> length (c_str token) then invalidCommand (field_name @ '' must be an unsigned integer'')
            else Inr parsed)"

definition resetPacket :: "message_type \<Rightarrow> u64 \<Rightarrow> packet" where
  "resetPacket type seq =
     default_packet\<lparr>header := (header default_packet)\<lparr>msg_type := type, seq_id := seq\<rparr>\<rparr>"

definition appendUint64Field :: "tlv_type \<Rightarrow> u64 \<Rightarrow> packet \<Rightarrow> packet result" where
  "appendUint64Field type value p = bindR (appendUint64 type value (body p)) (\<lambda>b. Inr (p\<lparr>body := b\<rparr>))"

definition appendStringField :: "tlv_type \<Rightarrow> string \<Rightarrow> packet \<Rightarrow> packet result" where
  "appendStringField type value p = bindR (appendString type value (body p)) (\<lambda>b. Inr (p\<lparr>body := b\<rparr>))"

type_synonym 'a cmd = "(string, 'a) prog"

definition tokenP :: "string option cmd" where
  "tokenP = (\<lambda>stream. case cli_readToken stream of (token, rest) \<Rightarrow> (Inr token, rest))"

definition requireToken :: "string \<Rightarrow> string cmd" where
  "requireToken field_name =
     bindP tokenP (\<lambda>token. case token of
       None \<Rightarrow> liftP (invalidCommand (field_name @ '' is required'')) | Some t \<Rightarrow> retP t)"

definition restP :: "string cmd" where
  "restP = (\<lambda>stream. case remainingText stream of (text, rest) \<Rightarrow> (Inr text, rest))"

definition requireRest :: "string \<Rightarrow> string cmd" where
  "requireRest field_name =
     bindP restP (\<lambda>text. if text = [] then liftP (invalidCommand (field_name @ '' is required'')) else retP text)"

section \<open>Commands\<close>

definition buildRegister :: "u64 \<Rightarrow> packet cmd" where
  "buildRegister seq =
     bindP (requireToken ''username'') (\<lambda>username.
     bindP (requireToken ''password'') (\<lambda>password.
     bindP (liftP (appendStringField (tlv TlvUsername) username (resetPacket (mt RegisterRequest) seq))) (\<lambda>p.
     bindP (liftP (appendStringField (tlv TlvPassword) password p)) (\<lambda>p.
     bindP restP (\<lambda>nickname.
     if nickname \<noteq> [] then liftP (appendStringField (tlv TlvNickname) nickname p) else retP p)))))"

definition buildLogin :: "u64 \<Rightarrow> packet cmd" where
  "buildLogin seq =
     bindP (requireToken ''username'') (\<lambda>username.
     bindP (requireToken ''password'') (\<lambda>password.
     bindP (liftP (appendStringField (tlv TlvUsername) username (resetPacket (mt LoginRequest) seq))) (\<lambda>p.
     liftP (appendStringField (tlv TlvPassword) password p))))"

definition buildOneIdCommand :: "u64 \<Rightarrow> message_type \<Rightarrow> tlv_type \<Rightarrow> string \<Rightarrow> packet cmd" where
  "buildOneIdCommand seq message_type field_type field_name =
     bindP (requireToken field_name) (\<lambda>token.
     bindP (liftP (cli_parseUint64 token field_name)) (\<lambda>value.
     liftP (appendUint64Field field_type value (resetPacket message_type seq))))"

definition buildPrivate :: "u64 \<Rightarrow> packet cmd" where
  "buildPrivate seq =
     bindP (requireToken ''receiver_id'') (\<lambda>receiver_token.
     bindP (liftP (cli_parseUint64 receiver_token ''receiver_id'')) (\<lambda>receiver_id.
     bindP (requireRest ''message text'') (\<lambda>text.
     bindP (liftP (appendUint64Field (tlv TlvReceiverId) receiver_id (resetPacket (mt PrivateMessageRequest) seq))) (\<lambda>p.
     liftP (appendStringField (tlv TlvMessageText) text p)))))"

definition buildPrivateWithClientMessageId :: "u64 \<Rightarrow> packet cmd" where
  "buildPrivateWithClientMessageId seq =
     bindP (requireToken ''receiver_id'') (\<lambda>receiver_token.
     bindP (liftP (cli_parseUint64 receiver_token ''receiver_id'')) (\<lambda>receiver_id.
     bindP (requireToken ''client_msg_id'') (\<lambda>client_msg_id.
     bindP (requireRest ''message text'') (\<lambda>text.
     bindP (liftP (appendUint64Field (tlv TlvReceiverId) receiver_id (resetPacket (mt PrivateMessageRequest) seq))) (\<lambda>p.
     bindP (liftP (appendStringField (tlv TlvClientMessageId) client_msg_id p)) (\<lambda>p.
     liftP (appendStringField (tlv TlvMessageText) text p)))))))"

definition buildCreateGroup :: "u64 \<Rightarrow> packet cmd" where
  "buildCreateGroup seq =
     bindP (requireRest ''group name'') (\<lambda>group_name.
     liftP (appendStringField (tlv TlvGroupName) group_name (resetPacket (mt CreateGroupRequest) seq)))"

definition buildGroupMessage :: "u64 \<Rightarrow> packet cmd" where
  "buildGroupMessage seq =
     bindP (requireToken ''group_id'') (\<lambda>group_token.
     bindP (liftP (cli_parseUint64 group_token ''group_id'')) (\<lambda>group_id.
     bindP (requireRest ''message text'') (\<lambda>text.
     bindP (liftP (appendUint64Field (tlv TlvGroupId) group_id (resetPacket (mt GroupMessageRequest) seq))) (\<lambda>p.
     liftP (appendStringField (tlv TlvMessageText) text p)))))"

definition cli_conversation_type :: "string \<Rightarrow> conversation_type result" where
  "cli_conversation_type type_token =
     (if type_token = ''private'' then Inr kPrivate
      else if type_token = ''group'' then Inr kGroup
      else invalidCommand ''conversation type must be private or group'')"

text \<open>An optional number at the end of a command.\<close>

definition optional_number :: "string \<Rightarrow> tlv_type \<Rightarrow> packet \<Rightarrow> packet cmd" where
  "optional_number field_name field_type p =
     bindP tokenP (\<lambda>token. case token of
       None \<Rightarrow> retP p
     | Some t \<Rightarrow>
         bindP (liftP (cli_parseUint64 t field_name)) (\<lambda>value. liftP (appendUint64Field field_type value p)))"

definition buildHistory :: "u64 \<Rightarrow> packet cmd" where
  "buildHistory seq =
     bindP (requireToken ''conversation type'') (\<lambda>type_token.
     bindP (liftP (cli_conversation_type type_token)) (\<lambda>conversation_type.
     bindP (requireToken ''conversation_id'') (\<lambda>conversation_token.
     bindP (liftP (cli_parseUint64 conversation_token ''conversation_id'')) (\<lambda>conversation_id.
     bindP (liftP (appendUint64Field (tlv TlvConversationType) (conversation_type_value conversation_type)
                     (resetPacket (mt HistoryRequest) seq))) (\<lambda>p.
     bindP (liftP (appendUint64Field (tlv TlvConversationId) conversation_id p)) (\<lambda>p.
     bindP (optional_number ''limit'' (tlv TlvLimit) p) (\<lambda>p.
     optional_number ''before_message_id'' (tlv TlvMessageId) p)))))))"

definition buildOffline :: "u64 \<Rightarrow> packet cmd" where
  "buildOffline seq = optional_number ''limit'' (tlv TlvLimit) (resetPacket (mt OfflineMessagesRequest) seq)"

text \<open>The loop over the remaining tokens, each of which makes the stream shorter.\<close>

function ack_loop :: "packet \<Rightarrow> bool \<Rightarrow> string \<Rightarrow> (packet \<times> bool) result" where
  "ack_loop p has_message_id stream =
     (case cli_readToken stream of
        (None, _) \<Rightarrow> Inr (p, has_message_id)
      | (Some token, rest) \<Rightarrow>
          bindR (cli_parseUint64 token ''message_id'') (\<lambda>message_id.
          bindR (appendUint64Field (tlv TlvMessageId) message_id p) (\<lambda>p.
          ack_loop p True rest)))"
  by pat_completeness auto

lemma readToken_shorter: "cli_readToken s = (Some t, rest) \<Longrightarrow> length rest < length s"
proof -
  assume run: "cli_readToken s = (Some t, rest)"
  let ?r = "dropWhile is_space s"
  have t: "takeWhile (Not \<circ> is_space) ?r \<noteq> []" and rest: "rest = dropWhile (Not \<circ> is_space) ?r"
    using run by (auto simp: cli_readToken_def Let_def split: if_splits)
  have "length ?r = length (takeWhile (Not \<circ> is_space) ?r) + length rest"
    unfolding rest by (metis length_append takeWhile_dropWhile_id)
  with t have "length rest < length ?r" by (cases "takeWhile (Not \<circ> is_space) ?r") simp_all
  also have "length ?r \<le> length s" by (rule length_dropWhile_le)
  finally show ?thesis .
qed

termination ack_loop
  by (relation "measure (\<lambda>(p, b, s). length s)") (auto dest: readToken_shorter [OF sym])

declare ack_loop.simps [simp del]

definition buildOfflineAck :: "u64 \<Rightarrow> packet cmd" where
  "buildOfflineAck seq = (\<lambda>stream.
     (case ack_loop (resetPacket (mt OfflineMessagesAckRequest) seq) False stream of
        Inl e \<Rightarrow> Inl e
      | Inr (p, has_message_id) \<Rightarrow> if \<not> has_message_id then invalidCommand ''message_id is required'' else Inr p, []))"

definition buildDeliveryAck :: "u64 \<Rightarrow> packet cmd" where
  "buildDeliveryAck seq =
     bindP (requireToken ''message_id'') (\<lambda>token.
     bindP (liftP (cli_parseUint64 token ''message_id'')) (\<lambda>message_id.
     liftP (appendUint64Field (tlv TlvMessageId) message_id (resetPacket (mt DeliveryAckRequest) seq))))"

definition dispatch_command :: "string \<Rightarrow> u64 \<Rightarrow> packet cmd" where
  "dispatch_command command seq =
     (if command = ''heartbeat'' then retP (resetPacket (mt HeartbeatRequest) seq)
      else if command = ''register'' then buildRegister seq
      else if command = ''login'' then buildLogin seq
      else if command = ''logout'' then retP (resetPacket (mt LogoutRequest) seq)
      else if command = ''add-friend'' then buildOneIdCommand seq (mt AddFriendRequest) (tlv TlvTargetUserId) ''target_user_id''
      else if command = ''accept-friend'' then buildOneIdCommand seq (mt AcceptFriendRequest) (tlv TlvTargetUserId) ''requester_id''
      else if command = ''reject-friend'' then buildOneIdCommand seq (mt RejectFriendRequest) (tlv TlvTargetUserId) ''requester_id''
      else if command = ''friends'' then retP (resetPacket (mt ListFriendsRequest) seq)
      else if command = ''private'' then buildPrivate seq
      else if command = ''private-id'' then buildPrivateWithClientMessageId seq
      else if command = ''create-group'' then buildCreateGroup seq
      else if command = ''join-group'' then buildOneIdCommand seq (mt JoinGroupRequest) (tlv TlvGroupId) ''group_id''
      else if command = ''groups'' then retP (resetPacket (mt ListGroupsRequest) seq)
      else if command = ''group'' then buildGroupMessage seq
      else if command = ''history'' then buildHistory seq
      else if command = ''offline'' then buildOffline seq
      else if command = ''offline-ack'' then buildOfflineAck seq
      else if command = ''delivery-ack'' then buildDeliveryAck seq
      else liftP (invalidCommand (''unknown command: '' @ command)))"

definition buildPacketFromLine :: "string \<Rightarrow> u64 \<Rightarrow> packet result" where
  "buildPacketFromLine line seq =
     (case cli_readToken (cli_trim line) of
        (None, _) \<Rightarrow> invalidCommand ''command is empty''
      | (Some command, stream) \<Rightarrow> fst (dispatch_command command seq stream))"

section \<open>The commands of the help text\<close>

datatype cli_command =
    CHeartbeat | CRegister string string "string option" | CLogin string string | CLogout
  | CAddFriend u64 | CAcceptFriend u64 | CRejectFriend u64 | CFriends | CPrivate u64 string
  | CPrivateId u64 string string | CCreateGroup string | CJoinGroup u64 | CGroups | CGroup u64 string
  | CHistory conversation_type u64 "(u64 \<times> u64 option) option" | COffline "u64 option" | COfflineAck "u64 list"
  | CDeliveryAck u64

definition token_ok :: "string \<Rightarrow> bool" where
  "token_ok t \<longleftrightarrow> t \<noteq> [] \<and> (\<forall>c \<in> set t. \<not> is_space c)"

definition text_ok :: "string \<Rightarrow> bool" where
  "text_ok t \<longleftrightarrow> t \<noteq> [] \<and> CHR 0x0A \<notin> set t \<and> \<not> is_blank (hd t) \<and> \<not> is_blank (last t)"

fun command_ok :: "cli_command \<Rightarrow> bool" where
  "command_ok (CRegister u w n) \<longleftrightarrow> token_ok u \<and> token_ok w \<and> (case n of None \<Rightarrow> True | Some t \<Rightarrow> text_ok t)"
| "command_ok (CLogin u w) \<longleftrightarrow> token_ok u \<and> token_ok w"
| "command_ok (CPrivate _ t) \<longleftrightarrow> text_ok t"
| "command_ok (CPrivateId _ i t) \<longleftrightarrow> token_ok i \<and> text_ok t"
| "command_ok (CCreateGroup t) \<longleftrightarrow> text_ok t"
| "command_ok (CGroup _ t) \<longleftrightarrow> text_ok t"
| "command_ok (COfflineAck ids) \<longleftrightarrow> ids \<noteq> []"
| "command_ok _ \<longleftrightarrow> True"

definition word_of :: "u64 \<Rightarrow> string" where
  "word_of i = CHR '' '' # show_u64 i"

fun command_word :: "cli_command \<Rightarrow> string" where
  "command_word CHeartbeat = ''heartbeat''"
| "command_word (CRegister _ _ _) = ''register''"
| "command_word (CLogin _ _) = ''login''"
| "command_word CLogout = ''logout''"
| "command_word (CAddFriend _) = ''add-friend''"
| "command_word (CAcceptFriend _) = ''accept-friend''"
| "command_word (CRejectFriend _) = ''reject-friend''"
| "command_word CFriends = ''friends''"
| "command_word (CPrivate _ _) = ''private''"
| "command_word (CPrivateId _ _ _) = ''private-id''"
| "command_word (CCreateGroup _) = ''create-group''"
| "command_word (CJoinGroup _) = ''join-group''"
| "command_word CGroups = ''groups''"
| "command_word (CGroup _ _) = ''group''"
| "command_word (CHistory _ _ _) = ''history''"
| "command_word (COffline _) = ''offline''"
| "command_word (COfflineAck _) = ''offline-ack''"
| "command_word (CDeliveryAck _) = ''delivery-ack''"

fun kind_word :: "conversation_type \<Rightarrow> string" where
  "kind_word kPrivate = ''private''"
| "kind_word kGroup = ''group''"

fun command_arguments :: "cli_command \<Rightarrow> string" where
  "command_arguments (CRegister u w n) = CHR '' '' # u @ CHR '' '' # w @ (case n of None \<Rightarrow> [] | Some t \<Rightarrow> CHR '' '' # t)"
| "command_arguments (CLogin u w) = CHR '' '' # u @ CHR '' '' # w"
| "command_arguments (CAddFriend i) = word_of i"
| "command_arguments (CAcceptFriend i) = word_of i"
| "command_arguments (CRejectFriend i) = word_of i"
| "command_arguments (CPrivate i t) = word_of i @ CHR '' '' # t"
| "command_arguments (CPrivateId i m t) = word_of i @ CHR '' '' # m @ CHR '' '' # t"
| "command_arguments (CCreateGroup t) = CHR '' '' # t"
| "command_arguments (CJoinGroup i) = word_of i"
| "command_arguments (CGroup i t) = word_of i @ CHR '' '' # t"
| "command_arguments (CHistory k i l) =
     CHR '' '' # kind_word k @ word_of i @
     (case l of None \<Rightarrow> [] | Some (n, None) \<Rightarrow> word_of n | Some (n, Some b) \<Rightarrow> word_of n @ word_of b)"
| "command_arguments (COffline l) = (case l of None \<Rightarrow> [] | Some n \<Rightarrow> word_of n)"
| "command_arguments (COfflineAck ids) = concat (map word_of ids)"
| "command_arguments (CDeliveryAck i) = word_of i"
| "command_arguments _ = []"

definition show_command :: "cli_command \<Rightarrow> string" where
  "show_command c = command_word c @ command_arguments c"

fun command_fields :: "cli_command \<Rightarrow> message_name \<times> (tlv_type \<times> tlv_arg) list" where
  "command_fields CHeartbeat = (HeartbeatRequest, [])"
| "command_fields (CRegister u w n) =
     (RegisterRequest, [(tlv TlvUsername, StrArg u), (tlv TlvPassword, StrArg w)] @
        (case n of None \<Rightarrow> [] | Some t \<Rightarrow> [(tlv TlvNickname, StrArg t)]))"
| "command_fields (CLogin u w) = (LoginRequest, [(tlv TlvUsername, StrArg u), (tlv TlvPassword, StrArg w)])"
| "command_fields CLogout = (LogoutRequest, [])"
| "command_fields (CAddFriend i) = (AddFriendRequest, [(tlv TlvTargetUserId, U64Arg i)])"
| "command_fields (CAcceptFriend i) = (AcceptFriendRequest, [(tlv TlvTargetUserId, U64Arg i)])"
| "command_fields (CRejectFriend i) = (RejectFriendRequest, [(tlv TlvTargetUserId, U64Arg i)])"
| "command_fields CFriends = (ListFriendsRequest, [])"
| "command_fields (CPrivate i t) = (PrivateMessageRequest, [(tlv TlvReceiverId, U64Arg i), (tlv TlvMessageText, StrArg t)])"
| "command_fields (CPrivateId i m t) =
     (PrivateMessageRequest, [(tlv TlvReceiverId, U64Arg i), (tlv TlvClientMessageId, StrArg m), (tlv TlvMessageText, StrArg t)])"
| "command_fields (CCreateGroup t) = (CreateGroupRequest, [(tlv TlvGroupName, StrArg t)])"
| "command_fields (CJoinGroup i) = (JoinGroupRequest, [(tlv TlvGroupId, U64Arg i)])"
| "command_fields CGroups = (ListGroupsRequest, [])"
| "command_fields (CGroup i t) = (GroupMessageRequest, [(tlv TlvGroupId, U64Arg i), (tlv TlvMessageText, StrArg t)])"
| "command_fields (CHistory k i l) =
     (HistoryRequest, [(tlv TlvConversationType, U64Arg (conversation_type_value k)), (tlv TlvConversationId, U64Arg i)] @
        (case l of None \<Rightarrow> [] | Some (n, b) \<Rightarrow> (tlv TlvLimit, U64Arg n) #
           (case b of None \<Rightarrow> [] | Some m \<Rightarrow> [(tlv TlvMessageId, U64Arg m)])))"
| "command_fields (COffline l) = (OfflineMessagesRequest, (case l of None \<Rightarrow> [] | Some n \<Rightarrow> [(tlv TlvLimit, U64Arg n)]))"
| "command_fields (COfflineAck ids) = (OfflineMessagesAckRequest, map (\<lambda>i. (tlv TlvMessageId, U64Arg i)) ids)"
| "command_fields (CDeliveryAck i) = (DeliveryAckRequest, [(tlv TlvMessageId, U64Arg i)])"

definition with_fields :: "(tlv_type \<times> tlv_arg) list \<Rightarrow> packet \<Rightarrow> packet result" where
  "with_fields fs p = bindR (appendFields fs (body p)) (\<lambda>b. Inr (p\<lparr>body := b\<rparr>))"

definition command_packet :: "cli_command \<Rightarrow> u64 \<Rightarrow> packet result" where
  "command_packet c seq = (case command_fields c of (name, fs) \<Rightarrow> with_fields fs (resetPacket (mt name) seq))"

lemma with_fields_simps [simp]:
  "with_fields [] = Inr"
  "with_fields ((t, U64Arg v) # fs) = (\<lambda>p. bindR (appendUint64Field t v p) (with_fields fs))"
  "with_fields ((t, StrArg s) # fs) = (\<lambda>p. bindR (appendStringField t s p) (with_fields fs))"
  by (simp_all add: fun_eq_iff with_fields_def appendUint64Field_def appendStringField_def bindR_assoc)

section \<open>Words of a line\<close>

lemma blank_space: "is_blank c \<Longrightarrow> is_space c"
  by (auto simp: is_blank_def is_space_def)

definition at_word_end :: "string \<Rightarrow> bool" where
  "at_word_end rest \<longleftrightarrow> rest = [] \<or> is_space (hd rest)"

lemma at_word_end_simps [simp]: "at_word_end []" "at_word_end (CHR '' '' # s)"
  by (simp_all add: at_word_end_def is_space_def)

lemma takeWhile_token:
  assumes "token_ok t" "at_word_end rest"
  shows "takeWhile (Not \<circ> is_space) (t @ rest) = t" "dropWhile (Not \<circ> is_space) (t @ rest) = rest"
proof -
  have "\<forall>c \<in> set t. (Not \<circ> is_space) c" using assms(1) by (simp add: token_ok_def)
  then show "takeWhile (Not \<circ> is_space) (t @ rest) = t" "dropWhile (Not \<circ> is_space) (t @ rest) = rest"
    using assms(2) by (cases rest; simp add: takeWhile_append2 dropWhile_append2 at_word_end_def)+
qed

lemma dropWhile_token: "token_ok t \<Longrightarrow> dropWhile is_space (t @ rest) = t @ rest"
  by (cases t) (auto simp: token_ok_def)

lemma readToken_token:
  assumes "token_ok t" "at_word_end rest"
  shows "cli_readToken (t @ rest) = (Some t, rest)" "cli_readToken (CHR '' '' # t @ rest) = (Some t, rest)"
proof -
  have "t \<noteq> []" using assms(1) by (simp add: token_ok_def)
  with takeWhile_token [OF assms] dropWhile_token [OF assms(1), of rest]
  show "cli_readToken (t @ rest) = (Some t, rest)" "cli_readToken (CHR '' '' # t @ rest) = (Some t, rest)"
    by (simp_all add: cli_readToken_def is_space_def [of "CHR '' ''"])
qed

lemma readToken_Some: "cli_readToken s = (Some t, rest) \<Longrightarrow> token_ok t"
  by (auto simp: cli_readToken_def token_ok_def Let_def dest: set_takeWhileD split: if_splits)

lemma readToken_Nil [simp]: "cli_readToken [] = (None, [])"
  by (simp add: cli_readToken_def)

lemma token_show_u64 [simp]: "token_ok (show_u64 i)"
  using show_u64_digits digit_not_special by (auto simp: token_ok_def)

lemma cli_parseUint64_show [simp]: "cli_parseUint64 (show_u64 i) f = Inr i"
proof -
  have digits: "is_digit c" if "c \<in> set (show_u64 i)" for c using that by (rule show_u64_digits)
  then have "c_str (show_u64 i) = show_u64 i"
    by (auto simp: c_str_def takeWhile_eq_all_conv is_digit_def dest!: digits)
  moreover have "hd (show_u64 i) \<noteq> CHR ''-''"
    using digits [of "hd (show_u64 i)"] digit_not_special by (cases "show_u64 i") auto
  moreover have "stoull (show_u64 i) = Some (i, length (show_u64 i))"
    by (rule stoull_show_u64)
  ultimately show ?thesis by (simp add: cli_parseUint64_def)
qed

lemma cli_trim_id:
  assumes "s \<noteq> []" "\<not> is_blank (hd s)" "\<not> is_blank (last s)"
  shows "cli_trim s = s"
proof -
  have "dropWhile is_blank s = s" using assms(1,2) by (cases s) simp_all
  moreover have "dropWhile is_blank (rev s) = rev s" using assms(1,3) by (cases s rule: rev_cases) simp_all
  ultimately show ?thesis by (simp add: cli_trim_def)
qed

lemma cli_trim_props:
  assumes "cli_trim s \<noteq> []"
  shows "\<not> is_blank (hd (cli_trim s))" "\<not> is_blank (last (cli_trim s))" "set (cli_trim s) \<subseteq> set s"
proof -
  let ?d = "dropWhile is_blank s"
  let ?e = "dropWhile is_blank (rev ?d)"
  have e: "?e \<noteq> []" "cli_trim s = rev ?e" using assms by (simp_all add: cli_trim_def)
  have d: "?d \<noteq> []" using e(1) by (cases ?d) simp_all
  show "\<not> is_blank (last (cli_trim s))" using e hd_dropWhile [of is_blank "rev ?d"] by (simp add: last_rev)
  have "rev ?d = takeWhile is_blank (rev ?d) @ ?e" by simp
  then have "?d = rev ?e @ rev (takeWhile is_blank (rev ?d))" by (metis rev_append rev_rev_ident)
  then have "hd ?d = hd (rev ?e)" using e by (metis hd_append2 rev_is_Nil_conv)
  with d e hd_dropWhile [of is_blank s] show "\<not> is_blank (hd (cli_trim s))" by simp
  show "set (cli_trim s) \<subseteq> set s" unfolding e(2) by (auto dest!: set_dropWhileD)
qed

lemma restP_text: "text_ok t \<Longrightarrow> restP (CHR '' '' # t) = (Inr t, [])"
proof -
  assume t: "text_ok t"
  have "\<forall>c \<in> set t. c \<noteq> CHR 0x0A" using t by (auto simp: text_ok_def)
  then have line: "takeWhile (\<lambda>c. c \<noteq> CHR 0x0A) t = t" "dropWhile (\<lambda>c. c \<noteq> CHR 0x0A) t = []"
    by (simp_all only: takeWhile_eq_all_conv dropWhile_eq_Nil_conv)
  moreover have "cli_trim (CHR '' '' # t) = cli_trim t" by (simp add: cli_trim_def is_blank_def)
  moreover have "cli_trim t = t" using t by (intro cli_trim_id) (simp_all add: text_ok_def)
  ultimately show ?thesis by (simp add: restP_def remainingText_def line del: dropWhile_eq_Nil_conv)
qed

lemma restP_Nil [simp]: "restP [] = (Inr [], [])"
  by (simp add: restP_def remainingText_def cli_trim_def)

lemma restP_Inr: "restP s = (Inr t, s') \<Longrightarrow> t \<noteq> [] \<Longrightarrow> text_ok t"
  using cli_trim_props [of "takeWhile (\<lambda>c. c \<noteq> CHR 0x0A) s"]
  by (auto simp: restP_def remainingText_def text_ok_def dest: set_takeWhileD)

lemma tokenP_token:
  "token_ok t \<Longrightarrow> at_word_end rest \<Longrightarrow> tokenP (CHR '' '' # t @ rest) = (Inr (Some t), rest)"
  "token_ok t \<Longrightarrow> tokenP (CHR '' '' # t) = (Inr (Some t), [])"
  "tokenP [] = (Inr None, [])"
  using readToken_token(2) [of t "[]"] by (simp_all add: tokenP_def readToken_token)

lemma requireToken_token:
  "token_ok t \<Longrightarrow> at_word_end rest \<Longrightarrow> requireToken f (CHR '' '' # t @ rest) = (Inr t, rest)"
  "token_ok t \<Longrightarrow> requireToken f (CHR '' '' # t) = (Inr t, [])"
  by (simp_all add: requireToken_def bindP_apply tokenP_token)

lemma requireToken_Inr: "requireToken f s = (Inr t, s') \<Longrightarrow> token_ok t"
  by (auto simp: requireToken_def bindP_Inr tokenP_def invalidCommand_def split: prod.splits option.splits dest: readToken_Some)

lemma requireRest_text: "text_ok t \<Longrightarrow> requireRest f (CHR '' '' # t) = (Inr t, [])"
  by (simp add: requireRest_def bindP_apply restP_text) (simp add: text_ok_def)

lemma requireRest_Inr: "requireRest f s = (Inr t, s') \<Longrightarrow> text_ok t"
  by (auto simp: requireRest_def bindP_Inr invalidCommand_def split: if_splits dest: restP_Inr)

lemma buildPacketFromLine_word:
  assumes "token_ok w" "at_word_end rest" "rest = [] \<or> \<not> is_blank (last rest)"
  shows "buildPacketFromLine (w @ rest) seq = fst (dispatch_command w seq rest)"
proof -
  have "w \<noteq> []" "\<not> is_blank (hd w)" "\<not> is_blank (last w)"
    using assms(1) blank_space hd_in_set last_in_set unfolding token_ok_def by blast+
  then have "cli_trim (w @ rest) = w @ rest"
    using assms(3) by (intro cli_trim_id) (auto simp: last_append)
  then show ?thesis by (simp add: buildPacketFromLine_def readToken_token [OF assms(1,2)])
qed

section \<open>Printing and parsing a command\<close>

lemma ack_loop_words:
  "ack_loop p b (concat (map word_of ids)) =
     bindR (with_fields (map (\<lambda>i. (tlv TlvMessageId, U64Arg i)) ids) p) (\<lambda>q. Inr (q, b \<or> ids \<noteq> []))"
proof (induction ids arbitrary: p b)
  case Nil
  then show ?case by (subst ack_loop.simps) simp
next
  case (Cons i ids)
  have "at_word_end (concat (map word_of ids))" by (cases ids) (simp_all add: word_of_def)
  then have "cli_readToken (concat (map word_of (i # ids))) = (Some (show_u64 i), concat (map word_of ids))"
    using readToken_token(2) [of "show_u64 i" "concat (map word_of ids)"] by (simp add: word_of_def)
  then show ?case
    by (subst ack_loop.simps) (simp add: Cons.IH bindR_assoc)
qed

lemma last_show_u64: "\<not> is_blank (last (show_u64 i))"
  using show_u64_digits [of "last (show_u64 i)" i] digit_not_special blank_space by auto

lemma last_word_of [simp]: "word_of i \<noteq> []" "\<not> is_blank (last (word_of i))" "at_word_end (word_of i)" "at_word_end (word_of i @ s)"
  by (simp_all add: word_of_def last_show_u64)

lemma last_token: "token_ok t \<Longrightarrow> t \<noteq> [] \<and> \<not> is_blank (last t)"
  using blank_space last_in_set unfolding token_ok_def by blast

lemma last_text: "text_ok t \<Longrightarrow> t \<noteq> [] \<and> \<not> is_blank (last t)"
  by (simp add: text_ok_def)

lemma run_words:
  "fst (bindP (liftP r) k s) = bindR r (\<lambda>x. fst (k x s))"
  "token_ok t \<Longrightarrow> at_word_end rest \<Longrightarrow> bindP (requireToken f) g (CHR '' '' # t @ rest) = g t rest"
  "token_ok t \<Longrightarrow> bindP (requireToken f) g (CHR '' '' # t) = g t []"
  "token_ok t \<Longrightarrow> at_word_end rest \<Longrightarrow> bindP tokenP h (CHR '' '' # t @ rest) = h (Some t) rest"
  "token_ok t \<Longrightarrow> bindP tokenP h (CHR '' '' # t) = h (Some t) []"
  "bindP tokenP h [] = h None []"
  "text_ok u \<Longrightarrow> bindP (requireRest f) g (CHR '' '' # u) = g u []"
  "text_ok u \<Longrightarrow> bindP restP g (CHR '' '' # u) = g u []"
  "bindP restP g [] = g [] []"
  "bindR q Inr = q"
  by (simp_all add: bindP_apply requireToken_token requireRest_text restP_text tokenP_token split: sum.split)
    (cases q; simp)

lemma text_nonempty: "text_ok t \<Longrightarrow> t \<noteq> []"
  by (simp add: text_ok_def)

lemma command_word_token: "token_ok (command_word c)"
  by (cases c) (simp_all add: token_ok_def is_space_def)

lemma command_arguments_ends:
  assumes "command_ok c"
  shows "at_word_end (command_arguments c)" "command_arguments c = [] \<or> \<not> is_blank (last (command_arguments c))"
proof -
  have ids: "at_word_end (concat (map word_of ids))" "concat (map word_of ids) = [] \<or> \<not> is_blank (last (concat (map word_of ids)))" for ids
    by (induction ids) (auto simp: last_append)
  show "at_word_end (command_arguments c)"
    using assms ids(1) by (cases c) (auto split: option.splits)
  show "command_arguments c = [] \<or> \<not> is_blank (last (command_arguments c))"
    using assms ids(2)
    by (cases c) (auto simp: last_append last_token last_text simp del: concat_eq_Nil_conv dest: last_token last_text split: option.splits)
qed

lemma kind_word: "token_ok (kind_word k)" "cli_conversation_type (kind_word k) = Inr k"
  by (cases k; simp add: token_ok_def is_space_def cli_conversation_type_def)+

lemma run_optional:
  "bindP (optional_number f ty p) g [] = g p []"
  "at_word_end rest \<Longrightarrow> fst (bindP (optional_number f ty p) g (CHR '' '' # show_u64 v @ rest)) =
     bindR (appendUint64Field ty v p) (\<lambda>q. fst (g q rest))"
  "fst (bindP (optional_number f ty p) g (CHR '' '' # show_u64 v)) = bindR (appendUint64Field ty v p) (\<lambda>q. fst (g q []))"
  "optional_number f ty p [] = (Inr p, [])"
  "fst (optional_number f ty p (CHR '' '' # show_u64 v)) = appendUint64Field ty v p"
  by (simp_all add: optional_number_def bindP_apply tokenP_token split: sum.split)

lemma dispatch_words:
  assumes "command_ok c"
  shows "fst (dispatch_command (command_word c) seq (command_arguments c)) = command_packet c seq"
proof (cases c)
  case (CRegister u w n)
  with assms show ?thesis
    by (cases n) (simp_all add: dispatch_command_def buildRegister_def run_words text_nonempty command_packet_def)
next
  case (CHistory k i l)
  then show ?thesis 
    by (cases l) (auto simp: dispatch_command_def buildHistory_def run_optional run_words kind_word word_of_def command_packet_def
        split: option.split)
next
  case (COffline l)
  then show ?thesis
    by (cases l) (simp_all add: dispatch_command_def buildOffline_def run_optional run_words word_of_def command_packet_def)
next
  case (COfflineAck ids)
  with assms show ?thesis
    by (simp add: dispatch_command_def buildOfflineAck_def ack_loop_words command_packet_def bindR_def split: sum.split)
qed (use assms in \<open>simp_all add: dispatch_command_def buildLogin_def buildOneIdCommand_def buildPrivate_def buildPrivateWithClientMessageId_def
  buildCreateGroup_def buildGroupMessage_def buildDeliveryAck_def run_words word_of_def command_packet_def\<close>)

text \<open>The other direction: what each builder accepts.\<close>

lemmas build_Inr = bindP_Inr bindR_eq_Inr command_packet_def

lemma optional_number_Inr:
  "optional_number f ty p s = (Inr q, s') \<Longrightarrow>
     q = p \<and> s' = [] \<or> (\<exists>v. appendUint64Field ty v p = Inr q)"
  by (auto simp: optional_number_def build_Inr tokenP_def cli_readToken_def Let_def split: option.splits if_splits)

lemma ack_loop_Inr:
  "ack_loop p b s = Inr (q, b') \<Longrightarrow>
     \<exists>ids. with_fields (map (\<lambda>i. (tlv TlvMessageId, U64Arg i)) ids) p = Inr q \<and> (b' \<longleftrightarrow> b \<or> ids \<noteq> [])"
proof (induction p b s rule: ack_loop.induct)
  case (1 p b s)
  obtain t rest where t: "cli_readToken s = (t, rest)" by (rule prod.exhaust)
  show ?case
  proof (cases t)
    case None
    with 1(2) t show ?thesis by (intro exI [of _ "[]"]) (simp add: ack_loop.simps [of p b s])
  next
    case (Some tok)
    with 1(2) t obtain i p' where i: "cli_parseUint64 tok ''message_id'' = Inr i" "appendUint64Field (tlv TlvMessageId) i p = Inr p'"
      "ack_loop p' True rest = Inr (q, b')" by (auto simp: ack_loop.simps [of p b s] bindR_eq_Inr)
    from 1(1) [OF t [symmetric] Some i(3)] obtain ids where
      "with_fields (map (\<lambda>i. (tlv TlvMessageId, U64Arg i)) ids) p' = Inr q" "b'" by auto
    with i show ?thesis by (intro exI [of _ "i # ids"]) simp
  qed
qed

definition accepts :: "u64 \<Rightarrow> packet cmd \<Rightarrow> bool" where
  "accepts seq f \<longleftrightarrow> (\<forall>s p s'. f s = (Inr p, s') \<longrightarrow> (\<exists>c. command_ok c \<and> command_packet c seq = Inr p))"

lemma acceptsI: "(\<And>s p s'. f s = (Inr p, s') \<Longrightarrow> \<exists>c. command_ok c \<and> command_packet c seq = Inr p) \<Longrightarrow> accepts seq f"
  by (simp add: accepts_def)

lemma buildRegister_accepts: "accepts seq (buildRegister seq)"
proof (rule acceptsI)
  fix s p s' assume "buildRegister seq s = (Inr p, s')"
  then obtain u w n q q' s1 s2 s3 where *: "token_ok u" "token_ok w" "restP s1 = (Inr n, s2)"
    "appendStringField (tlv TlvUsername) u (resetPacket (mt RegisterRequest) seq) = Inr q"
    "appendStringField (tlv TlvPassword) w q = Inr q'"
    "(if n \<noteq> [] then liftP (appendStringField (tlv TlvNickname) n q') else retP q') s3 = (Inr p, s')"
    unfolding buildRegister_def by (auto simp: build_Inr dest!: requireToken_Inr)
  then have "command_ok (CRegister u w (if n = [] then None else Some n)) \<and>
      command_packet (CRegister u w (if n = [] then None else Some n)) seq = Inr p"
    by (cases "n = []") (auto simp: build_Inr dest: restP_Inr)
  then show "\<exists>c. command_ok c \<and> command_packet c seq = Inr p" by blast
qed

lemma readToken_None: "cli_readToken s = (None, rest) \<Longrightarrow> rest = []"
  by (auto simp: cli_readToken_def Let_def split: if_splits)

lemma optional_end: "optional_number f ty p [] = (Inr q, s) \<Longrightarrow> q = p"
  by (simp add: run_optional)

lemma buildHistory_accepts: "accepts seq (buildHistory seq)"
proof (rule acceptsI)
  fix s p s' assume "buildHistory seq s = (Inr p, s')"
  then obtain k i q q' q'' s1 s2 where *:
    "appendUint64Field (tlv TlvConversationType) (conversation_type_value k) (resetPacket (mt HistoryRequest) seq) = Inr q"
    "appendUint64Field (tlv TlvConversationId) i q = Inr q'" "optional_number ''limit'' (tlv TlvLimit) q' s1 = (Inr q'', s2)"
    "optional_number ''before_message_id'' (tlv TlvMessageId) q'' s2 = (Inr p, s')"
    unfolding buildHistory_def by (auto simp: build_Inr)
  from optional_number_Inr [OF *(3)] show "\<exists>c. command_ok c \<and> command_packet c seq = Inr p"
  proof
    assume "q'' = q' \<and> s2 = []"
    with * have "command_packet (CHistory k i None) seq = Inr p" by (auto simp: build_Inr dest: optional_end)
    then show ?thesis by (intro exI [of _ "CHistory k i None"]) simp
  next
    assume "\<exists>v. appendUint64Field (tlv TlvLimit) v q' = Inr q''"
    then obtain v where v: "appendUint64Field (tlv TlvLimit) v q' = Inr q''" by blast
    from optional_number_Inr [OF *(4)] show ?thesis
    proof
      assume "p = q'' \<and> s' = []"
      with * v show ?thesis by (intro exI [of _ "CHistory k i (Some (v, None))"]) (simp add: build_Inr)
    next
      assume "\<exists>b. appendUint64Field (tlv TlvMessageId) b q'' = Inr p"
      then obtain b where "appendUint64Field (tlv TlvMessageId) b q'' = Inr p" by blast
      with * v show ?thesis by (intro exI [of _ "CHistory k i (Some (v, Some b))"]) (simp add: build_Inr)
    qed
  qed
qed

lemma one_id:
  "(\<And>s p s'. f s = (Inr p, s') \<Longrightarrow> \<exists>i. command_packet (C i) seq = Inr p) \<Longrightarrow> (\<And>i. command_ok (C i)) \<Longrightarrow> accepts seq f"
  by (rule acceptsI) blast

lemma builders_accept:
  "accepts seq (buildLogin seq)" "accepts seq (buildPrivate seq)" "accepts seq (buildPrivateWithClientMessageId seq)"
  "accepts seq (buildCreateGroup seq)" "accepts seq (buildGroupMessage seq)" "accepts seq (buildDeliveryAck seq)"
  "accepts seq (buildOneIdCommand seq (mt AddFriendRequest) (tlv TlvTargetUserId) f)"
  "accepts seq (buildOneIdCommand seq (mt AcceptFriendRequest) (tlv TlvTargetUserId) f)"
  "accepts seq (buildOneIdCommand seq (mt RejectFriendRequest) (tlv TlvTargetUserId) f)"
  "accepts seq (buildOneIdCommand seq (mt JoinGroupRequest) (tlv TlvGroupId) f)"
  "accepts seq (retP (resetPacket (mt HeartbeatRequest) seq))" "accepts seq (retP (resetPacket (mt LogoutRequest) seq))"
  "accepts seq (retP (resetPacket (mt ListFriendsRequest) seq))" "accepts seq (retP (resetPacket (mt ListGroupsRequest) seq))"
  "accepts seq (liftP (invalidCommand t))"
proof -
  show "accepts seq (buildLogin seq)"
  proof (rule acceptsI)
    fix s p s' assume "buildLogin seq s = (Inr p, s')"
    then obtain u w s1 s2 s3 s4 where "requireToken ''username'' s1 = (Inr u, s2)" "requireToken ''password'' s3 = (Inr w, s4)"
      "command_packet (CLogin u w) seq = Inr p"
      unfolding buildLogin_def by (auto simp: build_Inr)
    then show "\<exists>c. command_ok c \<and> command_packet c seq = Inr p"
      by (intro exI [of _ "CLogin u w"]) (auto dest: requireToken_Inr)
  qed
  show "accepts seq (buildPrivate seq)"
  proof (rule acceptsI)
    fix s p s' assume "buildPrivate seq s = (Inr p, s')"
    then obtain i t s1 s2 where "requireRest ''message text'' s1 = (Inr t, s2)" "command_packet (CPrivate i t) seq = Inr p"
      unfolding buildPrivate_def by (clarsimp simp: build_Inr) blast
    then show "\<exists>c. command_ok c \<and> command_packet c seq = Inr p"
      by (intro exI [of _ "CPrivate i t"]) (auto dest: requireRest_Inr)
  qed
  show "accepts seq (buildPrivateWithClientMessageId seq)"
  proof (rule acceptsI)
    fix s p s' assume "buildPrivateWithClientMessageId seq s = (Inr p, s')"
    then obtain i m t s1 s2 s3 s4 where "requireToken ''client_msg_id'' s1 = (Inr m, s2)" "requireRest ''message text'' s3 = (Inr t, s4)"
      "command_packet (CPrivateId i m t) seq = Inr p"
      unfolding buildPrivateWithClientMessageId_def by (clarsimp simp: build_Inr) blast
    then show "\<exists>c. command_ok c \<and> command_packet c seq = Inr p"
      by (intro exI [of _ "CPrivateId i m t"]) (auto dest: requireToken_Inr requireRest_Inr)
  qed
  show "accepts seq (buildCreateGroup seq)"
  proof (rule acceptsI)
    fix s p s' assume "buildCreateGroup seq s = (Inr p, s')"
    then obtain t s1 s2 where "requireRest ''group name'' s1 = (Inr t, s2)" "command_packet (CCreateGroup t) seq = Inr p"
      unfolding buildCreateGroup_def by (auto simp: build_Inr)
    then show "\<exists>c. command_ok c \<and> command_packet c seq = Inr p"
      by (intro exI [of _ "CCreateGroup t"]) (auto dest: requireRest_Inr)
  qed
  show "accepts seq (buildGroupMessage seq)"
  proof (rule acceptsI)
    fix s p s' assume "buildGroupMessage seq s = (Inr p, s')"
    then obtain i t s1 s2 where "requireRest ''message text'' s1 = (Inr t, s2)" "command_packet (CGroup i t) seq = Inr p"
      unfolding buildGroupMessage_def by (clarsimp simp: build_Inr) blast
    then show "\<exists>c. command_ok c \<and> command_packet c seq = Inr p"
      by (intro exI [of _ "CGroup i t"]) (auto dest: requireRest_Inr)
  qed
  show "accepts seq (buildDeliveryAck seq)"
    by (rule one_id [of _ CDeliveryAck]) (auto simp: buildDeliveryAck_def build_Inr)
  show "accepts seq (buildOneIdCommand seq (mt AddFriendRequest) (tlv TlvTargetUserId) f)"
    by (rule one_id [of _ CAddFriend]) (auto simp: buildOneIdCommand_def build_Inr)
  show "accepts seq (buildOneIdCommand seq (mt AcceptFriendRequest) (tlv TlvTargetUserId) f)"
    by (rule one_id [of _ CAcceptFriend]) (auto simp: buildOneIdCommand_def build_Inr)
  show "accepts seq (buildOneIdCommand seq (mt RejectFriendRequest) (tlv TlvTargetUserId) f)"
    by (rule one_id [of _ CRejectFriend]) (auto simp: buildOneIdCommand_def build_Inr)
  show "accepts seq (buildOneIdCommand seq (mt JoinGroupRequest) (tlv TlvGroupId) f)"
    by (rule one_id [of _ CJoinGroup]) (auto simp: buildOneIdCommand_def build_Inr)
  show "accepts seq (retP (resetPacket (mt HeartbeatRequest) seq))" "accepts seq (retP (resetPacket (mt LogoutRequest) seq))"
    "accepts seq (retP (resetPacket (mt ListFriendsRequest) seq))" "accepts seq (retP (resetPacket (mt ListGroupsRequest) seq))"
    by (rule acceptsI, rule exI [of _ CHeartbeat] exI [of _ CLogout] exI [of _ CFriends] exI [of _ CGroups],
        simp add: command_packet_def del: mt.simps)+
  show "accepts seq (liftP (invalidCommand t))"
    by (simp add: accepts_def invalidCommand_def)
qed

lemma buildOffline_accepts: "accepts seq (buildOffline seq)" "accepts seq (buildOfflineAck seq)"
proof -
  show "accepts seq (buildOffline seq)"
  proof (rule acceptsI)
    fix s p s' assume "buildOffline seq s = (Inr p, s')"
    from optional_number_Inr [OF this [unfolded buildOffline_def]]
    have "command_packet (COffline None) seq = Inr p \<or> (\<exists>v. command_packet (COffline (Some v)) seq = Inr p)"
      by (auto simp: build_Inr)
    then show "\<exists>c. command_ok c \<and> command_packet c seq = Inr p" by (elim disjE exE) (rule exI [of _ "COffline _"], simp)+
  qed
  show "accepts seq (buildOfflineAck seq)"
  proof (rule acceptsI)
    fix s p s' assume "buildOfflineAck seq s = (Inr p, s')"
    then have "ack_loop (resetPacket (mt OfflineMessagesAckRequest) seq) False s = Inr (p, True)"
      by (auto simp: buildOfflineAck_def invalidCommand_def split: sum.splits if_splits)
    from ack_loop_Inr [OF this] obtain ids where "command_packet (COfflineAck ids) seq = Inr p" "ids \<noteq> []"
      by (auto simp: command_packet_def)
    then show "\<exists>c. command_ok c \<and> command_packet c seq = Inr p" by (intro exI [of _ "COfflineAck ids"]) simp
  qed
qed

lemma accepts_if: "accepts seq f \<Longrightarrow> accepts seq g \<Longrightarrow> accepts seq (if b then f else g)"
  by simp

lemma dispatch_accepts: "accepts seq (dispatch_command w seq)"
  unfolding dispatch_command_def
  by (intro accepts_if builders_accept buildOffline_accepts buildRegister_accepts buildHistory_accepts)

lemma line_is_command:
  assumes "buildPacketFromLine line seq = Inr p"
  shows "\<exists>c. command_ok c \<and> command_packet c seq = Inr p"
proof -
  obtain t rest where t: "cli_readToken (cli_trim line) = (t, rest)" by (rule prod.exhaust)
  then obtain w where w: "t = Some w"
    using assms by (cases t) (auto simp: buildPacketFromLine_def invalidCommand_def)
  obtain r s where r: "dispatch_command w seq rest = (r, s)" by (rule prod.exhaust)
  with assms t w have "r = Inr p" by (simp add: buildPacketFromLine_def)
  with dispatch_accepts [of seq w] r show ?thesis by (auto simp: accepts_def)
qed

lemma command_is_line: "command_ok c \<Longrightarrow> buildPacketFromLine (show_command c) seq = command_packet c seq"
  unfolding show_command_def
  by (simp add: buildPacketFromLine_word [OF command_word_token] command_arguments_ends dispatch_words)

section \<open>Properties\<close>

text \<open>What a reader of the packet finds in it: type, sequence number, and the fields of the command.\<close>

definition carries :: "packet \<Rightarrow> u64 \<Rightarrow> cli_command \<Rightarrow> bool" where
  "carries p seq c \<longleftrightarrow> msg_type (header p) = mt (fst (command_fields c)) \<and> seq_id (header p) = seq \<and>
     parseTlvBody (body p) = Some (Inr (map_of_fields (arg_fields (snd (command_fields c)))))"

lemma command_packet_carries: "command_packet c seq = Inr p \<Longrightarrow> carries p seq c"
  by (auto simp: command_packet_def with_fields_def bindR_eq_Inr carries_def resetPacket_def default_packet_def
      appendFields_parse split: prod.splits)

fun short_args :: "(tlv_type \<times> tlv_arg) list \<Rightarrow> bool" where
  "short_args [] = True"
| "short_args ((t, StrArg s) # fs) \<longleftrightarrow> length s \<le> 1048576 \<and> short_args fs"
| "short_args ((t, U64Arg v) # fs) \<longleftrightarrow> short_args fs"

lemma short_args_append:
  "short_args fs \<Longrightarrow> list_all (\<lambda>(t, a). t \<noteq> tlv TlvUnknown) fs \<Longrightarrow> \<exists>bs. appendFields fs out = Inr bs"
  by (simp add: appendFields_Inr_iff) (induction fs rule: short_args.induct; simp add: field_ok_def)

lemma command_types: "list_all (\<lambda>(t, a). t \<noteq> tlv TlvUnknown) (snd (command_fields c))"
  by (cases c) (auto simp: list_all_iff split: option.splits)

text \<open>
  C29. The commands of the help text can all be given: every command whose names are single words, whose texts are
  trimmed and free of line ends, and whose texts are at most one MiB long has a line that the client turns into a
  packet with the message type of the command and the given sequence number; the receiver parses its body to exactly
  the fields of the command.
\<close>

theorem cli_command_roundtrip:
  assumes "command_ok c" "short_args (snd (command_fields c))"
  shows "\<exists>p. buildPacketFromLine (show_command c) seq = Inr p \<and> carries p seq c"
proof -
  obtain bs where "appendFields (snd (command_fields c)) [] = Inr bs"
    using short_args_append [OF assms(2) command_types] by blast
  then have "\<exists>p. command_packet c seq = Inr p"
    by (auto simp: command_packet_def with_fields_def resetPacket_def default_packet_def split: prod.split)
  with command_is_line [OF assms(1)] show ?thesis by (auto dest: command_packet_carries)
qed

theorem cli_command_roundtrip_witness:
  "\<exists>p. buildPacketFromLine ''private-id 7 m1 hi there'' 3 = Inr p \<and> carries p 3 (CPrivateId 7 ''m1'' ''hi there'')"
proof -
  have "show_command (CPrivateId 7 ''m1'' ''hi there'') = ''private-id 7 m1 hi there''"
    by (simp add: show_command_def word_of_def show_u64_def show_nat.simps digit_char_def char_of_def bit_0)
  moreover have "\<exists>p. buildPacketFromLine (show_command (CPrivateId 7 ''m1'' ''hi there'')) 3 = Inr p \<and>
      carries p 3 (CPrivateId 7 ''m1'' ''hi there'')"
    by (rule cli_command_roundtrip) (simp_all add: token_ok_def text_ok_def is_space_def is_blank_def)
  ultimately show ?thesis by simp
qed

text \<open>
  The client sends nothing else: whatever line is typed, a packet that is built from it is that of one of these
  commands, so the server finds each field that the command needs, well-formed, and no other field.
\<close>

theorem cli_line_is_command:
  assumes "buildPacketFromLine line seq = Inr p"
  shows "\<exists>c. command_ok c \<and> carries p seq c"
  using line_is_command [OF assms] by (auto dest: command_packet_carries)

theorem cli_line_is_command_witness:
  "\<exists>p c. buildPacketFromLine ''heartbeat'' 3 = Inr p \<and> command_ok c \<and> carries p 3 c"
proof -
  have "buildPacketFromLine ''heartbeat'' 3 = Inr (resetPacket (mt HeartbeatRequest) 3)"
    using command_is_line [of CHeartbeat 3] by (simp add: show_command_def command_packet_def)
  with cli_line_is_command [OF this] show ?thesis by blast
qed

end
