(* ===== verification/Client_Net.thy ===== *)
theory Client_Net
  imports Client_Cli Session_Core
begin

text \<open>
  The connection of the command line client (\<open>ProtocolClient\<close> in \<open>client_cli/ClientCli.cpp\<close>), the text it prints for
  a packet, and its main program (\<open>client_cli/main.cpp\<close>). The socket is what arrives on it and what its writes return,
  both as lists of events, and the bytes written so far. A call that finds no more events blocks, which is the value
  \<open>None\<close>. The theorems: a packet that was sent is on the wire completely, the server's session decodes it to the
  command that was typed, and the client reads the packets of the server in order, however they are cut.
\<close>

section \<open>Socket\<close>

datatype arrival = Arrive bytes | ArriveEof | ArriveIntr | ArriveError string

datatype receipt = RecvBytes bytes | RecvEof | RecvIntr | RecvFailed string

fun sock_read :: "nat \<Rightarrow> arrival list \<Rightarrow> (receipt \<times> arrival list) option" where
  "sock_read n [] = None"
| "sock_read n (Arrive bs # evs) =
     (if bs = [] then sock_read n evs
      else Some (RecvBytes (take n bs), if length bs \<le> n then evs else Arrive (drop n bs) # evs))"
| "sock_read n (ArriveEof # evs) = Some (RecvEof, ArriveEof # evs)"
| "sock_read n (ArriveIntr # evs) = Some (RecvIntr, evs)"
| "sock_read n (ArriveError text # evs) = Some (RecvFailed text, evs)"

datatype sending = SendSome nat | SendIntr | SendFailed string

record protocol_client =
  pc_socket :: bool
  pc_in :: "arrival list"
  pc_writes :: "sending list"
  pc_out :: bytes

section \<open>Whole packets\<close>

fun arrival_size :: "arrival \<Rightarrow> nat" where
  "arrival_size (Arrive bs) = Suc (length bs)"
| "arrival_size _ = 1"

lemma sock_read_smaller:
  "0 < n \<Longrightarrow> sock_read n evs = Some (r, evs') \<Longrightarrow> r \<noteq> RecvEof \<Longrightarrow>
     sum_list (map arrival_size evs') < sum_list (map arrival_size evs)"
  by (induction n evs rule: sock_read.induct) (auto split: if_splits)

function read_full :: "string \<Rightarrow> nat \<Rightarrow> bytes \<Rightarrow> arrival list \<Rightarrow> (bytes result \<times> arrival list) option" where
  "read_full what want got evs =
     (if length got < want then
        (case sock_read (want - length got) evs of
           None \<Rightarrow> None
         | Some (RecvBytes bs, evs) \<Rightarrow> read_full what want (got @ bs) evs
         | Some (RecvEof, evs) \<Rightarrow> Some (ioError (''connection closed while reading packet '' @ what), evs)
         | Some (RecvIntr, evs) \<Rightarrow> read_full what want got evs
         | Some (RecvFailed text, evs) \<Rightarrow> Some (ioError (''read packet '' @ what @ '' failed: '' @ text), evs))
      else Some (Inr got, evs))"
  by pat_completeness auto
termination
  by (relation "measure (\<lambda>(what, want, got, evs). sum_list (map arrival_size evs))") (auto dest: sock_read_smaller [rotated])

declare read_full.simps [simp del]

definition parseHeaderFromSocket :: "arrival list \<Rightarrow> (packet_header result \<times> arrival list) option" where
  "parseHeaderFromSocket evs =
     (case read_full ''header'' kPacketHeaderSize [] evs of
        None \<Rightarrow> None
      | Some (Inl e, evs) \<Rightarrow> Some (Inl e, evs)
      | Some (Inr bs, evs) \<Rightarrow>
          (case parseHeader (Some bs) (length bs) of None \<Rightarrow> None | Some r \<Rightarrow> Some (r, evs)))"

definition readBodyFromSocket :: "u32 \<Rightarrow> arrival list \<Rightarrow> (bytes result \<times> arrival list) option" where
  "readBodyFromSocket len evs = read_full ''body'' (unat len) [] evs"

definition client_readPacket :: "protocol_client \<Rightarrow> (packet result \<times> protocol_client) option" where
  "client_readPacket pc =
     (if \<not> pc_socket pc then Some (err NotFound ''client is not connected'', pc)
      else case parseHeaderFromSocket (pc_in pc) of
          None \<Rightarrow> None
        | Some (Inl e, evs) \<Rightarrow> Some (Inl e, pc\<lparr>pc_in := evs\<rparr>)
        | Some (Inr h, evs) \<Rightarrow>
            (case readBodyFromSocket (body_len h) evs of
               None \<Rightarrow> None
             | Some (Inl e, evs) \<Rightarrow> Some (Inl e, pc\<lparr>pc_in := evs\<rparr>)
             | Some (Inr b, evs) \<Rightarrow> Some (Inr \<lparr>header = h, body = b\<rparr>, pc\<lparr>pc_in := evs\<rparr>)))"

text \<open>A write takes at most what it is given. A write of zero bytes is reported as an error, with the text of \<open>errno\<close>.\<close>

fun writeAll :: "string \<Rightarrow> bytes \<Rightarrow> sending list \<Rightarrow> bytes \<Rightarrow> (unit result \<times> sending list \<times> bytes) option" where
  "writeAll errno_text [] outcomes wire = Some (Inr (), outcomes, wire)"
| "writeAll errno_text (b # bs) [] wire = None"
| "writeAll errno_text (b # bs) (SendSome k # outcomes) wire =
     (if k = 0 then Some (ioError (''write packet failed: '' @ errno_text), outcomes, wire)
      else writeAll errno_text (drop k (b # bs)) outcomes (wire @ take k (b # bs)))"
| "writeAll errno_text (b # bs) (SendIntr # outcomes) wire = writeAll errno_text (b # bs) outcomes wire"
| "writeAll errno_text (b # bs) (SendFailed text # outcomes) wire =
     Some (ioError (''write packet failed: '' @ text), outcomes, wire)"

definition client_sendPacket :: "string \<Rightarrow> packet \<Rightarrow> protocol_client \<Rightarrow> (unit result \<times> protocol_client) option" where
  "client_sendPacket errno_text p pc =
     (case encodePacket p of
        Inl e \<Rightarrow> Some (Inl e, pc)
      | Inr encoded \<Rightarrow>
          if \<not> pc_socket pc then Some (err NotFound ''client is not connected'', pc)
          else case writeAll errno_text encoded (pc_writes pc) (pc_out pc) of
              None \<Rightarrow> None
            | Some (r, writes, wire) \<Rightarrow> Some (r, pc\<lparr>pc_writes := writes, pc_out := wire\<rparr>))"

definition client_close :: "protocol_client \<Rightarrow> protocol_client" where
  "client_close pc = (if \<not> pc_socket pc then pc else pc\<lparr>pc_socket := False\<rparr>)"

definition client_connected :: "protocol_client \<Rightarrow> bool" where
  "client_connected pc = pc_socket pc"

text \<open>
  \<open>connectTo\<close>: name resolution gives a list of addresses or the text of an error; an address has no socket, refuses the
  connection or accepts it as a fresh socket.
\<close>

datatype address = NoSocket | Refuses | Accepts "arrival list" "sending list"

fun connect_loop :: "string \<Rightarrow> address list \<Rightarrow> protocol_client \<Rightarrow> unit result \<times> protocol_client" where
  "connect_loop errno_text [] pc = (ioError (''connect failed: '' @ errno_text), pc)"
| "connect_loop errno_text (NoSocket # as) pc = connect_loop errno_text as pc"
| "connect_loop errno_text (Refuses # as) pc = connect_loop errno_text as pc"
| "connect_loop errno_text (Accepts evs writes # as) pc =
     (Inr (), \<lparr>pc_socket = True, pc_in = evs, pc_writes = writes, pc_out = []\<rparr>)"

definition connectTo :: "(string + address list) \<Rightarrow> string \<Rightarrow> protocol_client \<Rightarrow> unit result \<times> protocol_client" where
  "connectTo resolved errno_text pc =
     (let pc = client_close pc in
      case resolved of
        Inl text \<Rightarrow> (ioError (''resolve address failed: '' @ text), pc)
      | Inr addresses \<Rightarrow> connect_loop errno_text addresses pc)"

section \<open>Reading a stream of packets\<close>

fun arrived :: "arrival list \<Rightarrow> bytes" where
  "arrived [] = []"
| "arrived (Arrive bs # evs) = bs @ arrived evs"
| "arrived (_ # evs) = arrived evs"

definition flowing :: "arrival list \<Rightarrow> bool" where
  "flowing evs \<longleftrightarrow> (\<forall>e \<in> set evs. e = ArriveIntr \<or> (\<exists>bs. e = Arrive bs))"

lemma sock_read_flowing:
  assumes "flowing evs" "arrived evs \<noteq> []" "0 < n"
  shows "\<exists>r evs'. sock_read n evs = Some (r, evs') \<and> flowing evs' \<and>
    (r = RecvIntr \<and> arrived evs' = arrived evs \<or>
     (\<exists>bs. r = RecvBytes bs \<and> length bs \<le> n \<and> arrived evs = bs @ arrived evs'))"
  using assms
proof (induction n evs rule: sock_read.induct)
  case (2 n bs evs)
  then show ?case by (cases "bs = []") (auto simp: flowing_def)
qed (auto simp: flowing_def)

lemma read_full_flowing:
  assumes "flowing evs" "length got \<le> want" "want - length got \<le> length (arrived evs)"
  shows "\<exists>evs'. read_full what want got evs = Some (Inr (got @ take (want - length got) (arrived evs)), evs') \<and>
    flowing evs' \<and> arrived evs' = drop (want - length got) (arrived evs)"
  using assms
proof (induction what want got evs rule: read_full.induct)
  case (1 what want got evs)
  show ?case
  proof (cases "length got < want")
    case False
    with 1(3-5) show ?thesis by (subst read_full.simps) simp
  next
    case True
    then have "arrived evs \<noteq> []" "0 < want - length got" using 1(5) by auto
    from sock_read_flowing [OF 1(3) this] obtain r evs' where r: "sock_read (want - length got) evs = Some (r, evs')" "flowing evs'"
      and cases: "r = RecvIntr \<and> arrived evs' = arrived evs \<or>
        (\<exists>bs. r = RecvBytes bs \<and> length bs \<le> want - length got \<and> arrived evs = bs @ arrived evs')" by blast
    from cases show ?thesis
    proof
      assume intr: "r = RecvIntr \<and> arrived evs' = arrived evs"
      then have "read_full what want got evs = read_full what want got evs'"
        using r True by (subst read_full.simps) simp
      with 1(2) [OF True r(1) refl _ r(2) 1(4)] intr 1(5) show ?thesis by simp
    next
      assume "\<exists>bs. r = RecvBytes bs \<and> length bs \<le> want - length got \<and> arrived evs = bs @ arrived evs'"
      then obtain bs where bs: "r = RecvBytes bs" "length bs \<le> want - length got" "arrived evs = bs @ arrived evs'" by blast
      then have step: "read_full what want got evs = read_full what want (got @ bs) evs'"
        using r True by (subst read_full.simps) simp
      have len: "length (got @ bs) \<le> want" "want - length (got @ bs) \<le> length (arrived evs')"
        using bs 1(4,5) by auto
      have "take (want - length got) (arrived evs) = bs @ take (want - length (got @ bs)) (arrived evs')"
        "drop (want - length got) (arrived evs) = drop (want - length (got @ bs)) (arrived evs')"
        using bs(2,3) by simp_all
      with 1(1) [OF True r(1) refl bs(1) r(2) len] step show ?thesis by simp
    qed
  qed
qed

lemma readPacket_flowing:
  assumes "pc_socket pc" "flowing (pc_in pc)" "encodePacket p = Inr enc" "arrived (pc_in pc) = enc @ rest"
  shows "\<exists>evs. client_readPacket pc = Some (Inr (framed p), pc\<lparr>pc_in := evs\<rparr>) \<and> flowing evs \<and> arrived evs = rest"
proof -
  let ?h = "(header p)\<lparr>body_len := of_nat (length (body p))\<rparr>"
  have enc: "enc = header_bytes ?h @ body p" "length (body p) \<le> 1048576" "isOk (validateHeader ?h)"
    using assms(3) by (auto simp: encodePacket_Inr_iff validateHeader_ok_iff body_len_of_length)
  obtain evs1 where h: "read_full ''header'' 20 [] (pc_in pc) = Some (Inr (header_bytes ?h), evs1)" "flowing evs1"
    "arrived evs1 = body p @ rest"
    using read_full_flowing [OF assms(2), of "[]" 20 "''header''"] assms(4) enc(1) by auto
  have parse: "parseHeader (Some (header_bytes ?h)) (length (header_bytes ?h)) = Some (Inr ?h)"
    using parseHeader_header_bytes [OF enc(3), of 20 "[]"] by simp
  have len: "unat (body_len ?h) = length (body p)" using enc(2) by (simp add: body_len_of_length)
  obtain evs2 where b: "readBodyFromSocket (body_len ?h) evs1 = Some (Inr (body p), evs2)" "flowing evs2" "arrived evs2 = rest"
    using read_full_flowing [OF h(2), of "[]" "length (body p)" "''body''"] h(3) len
    by (auto simp: readBodyFromSocket_def)
  have "client_readPacket pc = Some (Inr \<lparr>header = ?h, body = body p\<rparr>, pc\<lparr>pc_in := evs2\<rparr>)"
    using assms(1) h(1) parse b(1)
    by (simp add: client_readPacket_def parseHeaderFromSocket_def kPacketHeaderSize_def del: length_header_bytes)
  moreover have "\<lparr>header = ?h, body = body p\<rparr> = framed p" by (simp add: framed_def)
  ultimately show ?thesis using b by (intro exI [of _ evs2]) simp
qed

text \<open>Writing: the bytes that left the client.\<close>

lemma writeAll_wire:
  "writeAll e bs outcomes wire = Some (r, outcomes', wire') \<Longrightarrow>
     \<exists>k. wire' = wire @ take k bs \<and> (r = Inr () \<longrightarrow> wire' = wire @ bs)"
proof (induction e bs outcomes wire rule: writeAll.induct)
  case (3 e b bs k outcomes wire)
  show ?case
  proof (cases "k = 0")
    case True
    with 3(2) show ?thesis by (intro exI [of _ 0]) (auto simp: ioError_def)
  next
    case False
    with 3 obtain j where j: "wire' = (wire @ take k (b # bs)) @ take j (drop k (b # bs))"
      "r = Inr () \<longrightarrow> wire' = (wire @ take k (b # bs)) @ drop k (b # bs)" by auto
    have "take k (b # bs) @ take j (drop k (b # bs)) = take (k + j) (b # bs)" by (rule take_add [symmetric])
    with j show ?thesis by (intro exI [of _ "k + j"]) (metis append.assoc append_take_drop_id)
  qed
qed (auto simp: ioError_def intro: exI [of _ 0])

lemma sendPacket_wire:
  assumes "client_sendPacket e p pc = Some (Inr (), pc')"
  shows "\<exists>enc. encodePacket p = Inr enc \<and> pc_out pc' = pc_out pc @ enc"
proof (cases "encodePacket p")
  case (Inl st)
  with assms show ?thesis by (simp add: client_sendPacket_def)
next
  case (Inr enc)
  with assms obtain writes wire where "writeAll e enc (pc_writes pc) (pc_out pc) = Some (Inr (), writes, wire)" "pc_out pc' = wire"
    by (auto simp: client_sendPacket_def split: if_splits option.splits)
  with writeAll_wire Inr show ?thesis by blast
qed

section \<open>The text of a packet\<close>

definition appendStringFieldDescription :: "tlv_map \<Rightarrow> tlv_type \<Rightarrow> string \<Rightarrow> string \<Rightarrow> string" where
  "appendStringFieldDescription fs type label stream =
     (case getRepeatedString fs type of
        Inl _ \<Rightarrow> stream
      | Inr vs \<Rightarrow> stream @ concat (map (\<lambda>v. '' '' @ label @ ''='' @ [CHR 0x22] @ v @ [CHR 0x22]) vs))"

definition appendUint64FieldDescription :: "tlv_map \<Rightarrow> tlv_type \<Rightarrow> string \<Rightarrow> string \<Rightarrow> string" where
  "appendUint64FieldDescription fs type label stream =
     (case getRepeatedUint64 fs type of
        Inl _ \<Rightarrow> stream
      | Inr vs \<Rightarrow> stream @ concat (map (\<lambda>v. '' '' @ label @ ''='' @ show_u64 v) vs))"

definition described_fields :: "(tlv_name \<times> string \<times> bool) list" where
  "described_fields =
     [(TlvUserId, ''user_id'', False), (TlvUsername, ''username'', True), (TlvNickname, ''nickname'', True),
      (TlvSessionId, ''session_id'', False), (TlvFriendId, ''friend_id'', False), (TlvTargetUserId, ''target_user_id'', False),
      (TlvOnlineStatus, ''online'', False), (TlvFriendRequestStatus, ''friend_request_status'', False),
      (TlvGroupId, ''group_id'', False), (TlvGroupName, ''group_name'', True), (TlvConversationType, ''conversation_type'', False),
      (TlvConversationId, ''conversation_id'', False), (TlvMessageId, ''message_id'', False), (TlvSenderId, ''sender_id'', False),
      (TlvReceiverId, ''receiver_id'', False), (TlvClientMessageId, ''client_msg_id'', True), (TlvTimestampMs, ''timestamp_ms'', False),
      (TlvLimit, ''limit'', False), (TlvUnreadCount, ''unread'', False), (TlvDeliveryStatus, ''delivery_status'', False),
      (TlvErrorCode, ''error_code'', False), (TlvErrorMessage, ''error'', True), (TlvMessageText, ''text'', True)]"

definition describe_field :: "tlv_map \<Rightarrow> tlv_name \<times> string \<times> bool \<Rightarrow> string \<Rightarrow> string" where
  "describe_field fs f stream =
     (case f of (name, label, is_string) \<Rightarrow>
        if is_string then appendStringFieldDescription fs (tlv name) label stream
        else appendUint64FieldDescription fs (tlv name) label stream)"

definition describePacket :: "packet \<Rightarrow> string option" where
  "describePacket p =
     (let stream = message_toString (msg_type (header p)) @ '' seq='' @ show_u64 (seq_id (header p)) in
      if body p = [] then Some stream
      else case parseTlvBody (body p) of
          None \<Rightarrow> None
        | Some (Inl e) \<Rightarrow>
            Some (stream @ '' body_bytes='' @ show_nat (length (body p)) @ '' parse_error='' @ [CHR 0x22] @ message e @ [CHR 0x22])
        | Some (Inr fs) \<Rightarrow> Some (fold (describe_field fs) described_fields stream))"

lemma describePacket_returns: "\<exists>text. describePacket p = Some text"
proof -
  obtain r where "parseTlvBody (body p) = Some r"
    using tlv_loop_total [of 0 "length (body p)" "body p" Map.empty] by (auto simp: parseTlvBody_def parseTlvMap_def)
  then show ?thesis by (cases r) (simp_all add: describePacket_def Let_def)
qed

section \<open>The program\<close>

definition helpText :: string where
  "helpText = ''commands:'' @ [CHR 0x0A] @
     ''  register <username> <password> [nickname...]'' @ [CHR 0x0A] @
     ''  login <username> <password>'' @ [CHR 0x0A] @
     ''  logout'' @ [CHR 0x0A] @
     ''  add-friend <user_id>'' @ [CHR 0x0A] @
     ''  accept-friend <requester_id>'' @ [CHR 0x0A] @
     ''  reject-friend <requester_id>'' @ [CHR 0x0A] @
     ''  friends'' @ [CHR 0x0A] @
     ''  private <receiver_id> <text...>'' @ [CHR 0x0A] @
     ''  private-id <receiver_id> <client_msg_id> <text...>'' @ [CHR 0x0A] @
     ''  create-group <name...>'' @ [CHR 0x0A] @
     ''  join-group <group_id>'' @ [CHR 0x0A] @
     ''  groups'' @ [CHR 0x0A] @
     ''  group <group_id> <text...>'' @ [CHR 0x0A] @
     ''  history private|group <conversation_id> [limit] [before_message_id]'' @ [CHR 0x0A] @
     ''  offline [limit]'' @ [CHR 0x0A] @
     ''  offline-ack <message_id> [message_id...]'' @ [CHR 0x0A] @
     ''  delivery-ack <message_id>'' @ [CHR 0x0A] @
     ''  heartbeat'' @ [CHR 0x0A] @
     ''  help'' @ [CHR 0x0A] @
     ''  quit''"

datatype cli_args = ArgsOk string u16 | ArgsHelp | ArgsBad

definition parse_port_arg :: "string \<Rightarrow> u16 option" where
  "parse_port_arg port_text =
     (case stoull port_text of
        None \<Rightarrow> None
      | Some (parsed, end) \<Rightarrow> if end \<noteq> length port_text \<or> parsed = 0 \<or> parsed > 65535 then None else Some (ucast parsed))"

fun parseArgs :: "string list \<Rightarrow> string \<Rightarrow> u16 \<Rightarrow> cli_args" where
  "parseArgs [] host port = ArgsOk host port"
| "parseArgs (arg # rest) host port =
     (if arg = ''--help'' \<or> arg = ''-h'' then ArgsHelp
      else case rest of
          [] \<Rightarrow> ArgsBad
        | value # rest \<Rightarrow>
            if arg = ''--host'' then parseArgs rest value port
            else if arg = ''--port'' then
              (case parse_port_arg value of None \<Rightarrow> ArgsBad | Some p \<Rightarrow> parseArgs rest host p)
            else ArgsBad)"

text \<open>
  The three threads: the input loop, the heartbeat and the receiver. \<open>cm_reading\<close> and \<open>cm_receiving\<close> say that a
  thread has found \<open>running\<close> set and waits for a line or for a packet, \<open>cm_typed\<close> and \<open>cm_beat\<close> are packets that a
  thread has built and not sent. The last two fields are history: the packets sent, and whether a send failed.
\<close>

record cli_main =
  cm_client :: protocol_client
  cm_running :: bool
  cm_left :: bool
  cm_reading :: bool
  cm_receiving :: bool
  cm_receiver :: bool
  cm_next_seq :: u64
  cm_typed :: "packet option"
  cm_beat :: "packet option"
  cm_printed :: "string list"
  cm_sent :: "packet list"
  cm_send_failed :: bool

definition cli_connected :: "string \<Rightarrow> u16 \<Rightarrow> protocol_client \<Rightarrow> cli_main" where
  "cli_connected host port pc =
     \<lparr>cm_client = pc, cm_running = True, cm_left = False, cm_reading = False, cm_receiving = False, cm_receiver = True,
      cm_next_seq = 1, cm_typed = None, cm_beat = None, 
      cm_printed = [''connected to '' @ host @ '':'' @ show_nat (unat port), helpText], cm_sent = [], cm_send_failed = False\<rparr>"

definition kDefaultPort :: u16 where "kDefaultPort = 9000"

definition new_client :: protocol_client where
  "new_client = \<lparr>pc_socket = False, pc_in = [], pc_writes = [], pc_out = []\<rparr>"

definition cli_start :: "string list \<Rightarrow> (string \<Rightarrow> u16 \<Rightarrow> string + address list) \<Rightarrow> string \<Rightarrow> cli_main option" where
  "cli_start args resolve errno_text =
     (case parseArgs args ''127.0.0.1'' kDefaultPort of
        ArgsOk host port \<Rightarrow>
          (case connectTo (resolve host port) errno_text new_client of
             (Inl e, _) \<Rightarrow> None
           | (Inr _, pc) \<Rightarrow> Some (cli_connected host port pc))
      | _ \<Rightarrow> None)"

definition cli_print :: "string \<Rightarrow> cli_main \<Rightarrow> cli_main" where
  "cli_print text m = m\<lparr>cm_printed := cm_printed m @ [text]\<rparr>"

definition leave_input :: "cli_main \<Rightarrow> cli_main" where
  "leave_input m = m\<lparr>cm_running := False, cm_client := client_close (cm_client m), cm_left := True, cm_reading := False\<rparr>"

definition input_head :: "cli_main \<Rightarrow> cli_main" where
  "input_head m = (if cm_running m then m\<lparr>cm_reading := True\<rparr> else leave_input m)"

definition typed_line :: "string \<Rightarrow> cli_main \<Rightarrow> cli_main" where
  "typed_line line m =
     (let m = m\<lparr>cm_reading := False\<rparr> in
      if line = ''quit'' \<or> line = ''exit'' then leave_input m
      else if line = ''help'' then cli_print helpText m
      else
        let seq = cm_next_seq m; m = m\<lparr>cm_next_seq := seq + 1\<rparr> in
        case buildPacketFromLine line seq of
          Inl e \<Rightarrow> cli_print (''command error: '' @ message e) m
        | Inr p \<Rightarrow> m\<lparr>cm_typed := Some p\<rparr>)"

text \<open>Sending a packet that a thread has built; \<open>None\<close> while the write blocks.\<close>

definition cli_send :: "string \<Rightarrow> packet \<Rightarrow> cli_main \<Rightarrow> (unit result \<times> cli_main) option" where
  "cli_send errno_text p m =
     (case client_sendPacket errno_text p (cm_client m) of
        None \<Rightarrow> None
      | Some (Inl e, pc) \<Rightarrow> Some (Inl e, m\<lparr>cm_client := pc, cm_send_failed := True\<rparr>)
      | Some (Inr u, pc) \<Rightarrow> Some (Inr u, m\<lparr>cm_client := pc, cm_sent := cm_sent m @ [p]\<rparr>))"

definition send_typed :: "string \<Rightarrow> packet \<Rightarrow> cli_main \<Rightarrow> cli_main option" where
  "send_typed errno_text p m =
     (case cli_send errno_text p (m\<lparr>cm_typed := None\<rparr>) of
        None \<Rightarrow> None
      | Some (Inl e, m) \<Rightarrow> Some (leave_input (cli_print (''send failed: '' @ message e) m))
      | Some (Inr _, m) \<Rightarrow> Some m)"

definition heartbeat_due :: "cli_main \<Rightarrow> cli_main" where
  "heartbeat_due m =
     (let seq = cm_next_seq m; m = m\<lparr>cm_next_seq := seq + 1\<rparr> in
      case buildPacketFromLine ''heartbeat'' seq of Inl _ \<Rightarrow> m | Inr p \<Rightarrow> m\<lparr>cm_beat := Some p\<rparr>)"

definition send_beat :: "string \<Rightarrow> packet \<Rightarrow> cli_main \<Rightarrow> cli_main option" where
  "send_beat errno_text p m =
     (case cli_send errno_text p (m\<lparr>cm_beat := None\<rparr>) of
        None \<Rightarrow> None
      | Some (Inl e, m) \<Rightarrow> Some ((cli_print (''heartbeat failed: '' @ message e) m)\<lparr>cm_running := False\<rparr>)
      | Some (Inr _, m) \<Rightarrow> Some m)"

definition receiver_head :: "cli_main \<Rightarrow> cli_main" where
  "receiver_head m = (if cm_running m then m\<lparr>cm_receiving := True\<rparr> else m\<lparr>cm_receiver := False\<rparr>)"

definition receive_packet :: "cli_main \<Rightarrow> cli_main option" where
  "receive_packet m =
     (case client_readPacket (cm_client m) of
        None \<Rightarrow> None
      | Some (Inl e, pc) \<Rightarrow>
          let m = m\<lparr>cm_client := pc, cm_receiving := False\<rparr>;
              m = (if cm_running m then cli_print (''receive failed: '' @ message e) m else m)
          in Some (m\<lparr>cm_running := False, cm_receiver := False\<rparr>)
      | Some (Inr p, pc) \<Rightarrow>
          (case describePacket p of
             None \<Rightarrow> None
           | Some text \<Rightarrow> Some (cli_print (''< '' @ text) (m\<lparr>cm_client := pc, cm_receiving := False\<rparr>))))"

inductive cli_step :: "cli_main \<Rightarrow> cli_main \<Rightarrow> bool" where
  "\<not> cm_left m \<Longrightarrow> \<not> cm_reading m \<Longrightarrow> cm_typed m = None \<Longrightarrow> cli_step m (input_head m)"
| "cm_reading m \<Longrightarrow> cli_step m (leave_input m)"
| "cm_reading m \<Longrightarrow> cli_step m (typed_line line m)"
| "cm_typed m = Some p \<Longrightarrow> send_typed e p m = Some m' \<Longrightarrow> cli_step m m'"
| "cm_running m \<Longrightarrow> cm_beat m = None \<Longrightarrow> cli_step m (heartbeat_due m)"
| "cm_beat m = Some p \<Longrightarrow> send_beat e p m = Some m' \<Longrightarrow> cli_step m m'"
| "cm_receiver m \<Longrightarrow> \<not> cm_receiving m \<Longrightarrow> cli_step m (receiver_head m)"
| "cm_receiving m \<Longrightarrow> receive_packet m = Some m' \<Longrightarrow> cli_step m m'"

inductive_cases cli_stepE: "cli_step m m'"

section \<open>Sequence numbers and the output stream\<close>

abbreviation packet_seq :: "packet \<Rightarrow> u64" where
  "packet_seq p \<equiv> seq_id (header p)"

fun pending :: "packet option \<Rightarrow> packet list" where
  "pending None = []"
| "pending (Some p) = [p]"

definition built :: "cli_main \<Rightarrow> packet list" where
  "built m = cm_sent m @ pending (cm_typed m) @ pending (cm_beat m)"

definition cli_inv :: "nat \<Rightarrow> cli_main \<Rightarrow> bool" where
  "cli_inv k m \<longleftrightarrow> unat (cm_next_seq m) \<le> Suc k \<and> distinct (map packet_seq (built m)) \<and>
     (\<forall>p \<in> set (built m). unat (packet_seq p) < unat (cm_next_seq m) \<and> (\<exists>c. command_ok c \<and> carries p (packet_seq p) c)) \<and>
     (\<not> cm_send_failed m \<longrightarrow>
        (\<exists>bss. list_all2 (\<lambda>p bs. encodePacket p = Inr bs) (cm_sent m) bss \<and> pc_out (cm_client m) = concat bss))"

lemma built_carries: "cli_inv k m \<Longrightarrow> p \<in> set (built m) \<Longrightarrow> \<exists>c. command_ok c \<and> carries p (packet_seq p) c"
  by (simp add: cli_inv_def)

lemma carries_framed: "carries (framed p) seq c = carries p seq c"
  by (simp add: carries_def framed_def)

lemma cli_inv_mono: "cli_inv k m \<Longrightarrow> cli_inv (Suc k) m"
  by (auto simp: cli_inv_def)

text \<open>Steps that build nothing and send nothing.\<close>

definition same_stream :: "cli_main \<Rightarrow> cli_main \<Rightarrow> bool" where
  "same_stream m m' \<longleftrightarrow> cm_next_seq m' = cm_next_seq m \<and> cm_typed m' = cm_typed m \<and> cm_beat m' = cm_beat m \<and> cm_sent m' = cm_sent m \<and>
     cm_send_failed m' = cm_send_failed m \<and> pc_out (cm_client m') = pc_out (cm_client m)"

lemma same_stream_inv: "same_stream m m' \<Longrightarrow> cli_inv k m \<Longrightarrow> cli_inv k m'"
  by (simp add: same_stream_def cli_inv_def built_def)

lemma close_out [simp]: "pc_out (client_close pc) = pc_out pc"
  by (simp add: client_close_def)

lemma readPacket_out: "client_readPacket pc = Some (r, pc') \<Longrightarrow> pc_out pc' = pc_out pc"
  by (auto simp: client_readPacket_def split: if_splits option.splits prod.splits sum.splits)

lemma quiet_steps:
  "same_stream m (cli_print t m)" "same_stream m (leave_input m)" "same_stream m (input_head m)" "same_stream m (receiver_head m)"
  "receive_packet m = Some m' \<Longrightarrow> same_stream m m'"
  by (auto simp: same_stream_def cli_print_def leave_input_def input_head_def receiver_head_def receive_packet_def Let_def
      dest!: readPacket_out split: option.splits sum.splits prod.splits if_splits)

lemma new_packet:
  assumes "buildPacketFromLine line seq = Inr p"
  shows "packet_seq p = seq" "\<exists>c. command_ok c \<and> carries p seq c"
proof -
  show "\<exists>c. command_ok c \<and> carries p seq c"
    using line_is_command [OF assms] by (auto dest: command_packet_carries)
  then show "packet_seq p = seq" by (auto simp: carries_def)
qed

lemma next_seq:
  assumes "cli_inv k m" "k < 2 ^ 64 - 2"
  shows "unat (cm_next_seq m + 1) = Suc (unat (cm_next_seq m))"
proof -
  have "unat (cm_next_seq m) + unat (1 :: u64) < 2 ^ LENGTH(64)" using assms by (simp add: cli_inv_def)
  then show ?thesis by (simp only: unat_add_lem) simp
qed

lemma cli_inv_skip: "cli_inv k m \<Longrightarrow> k < 2 ^ 64 - 2 \<Longrightarrow> cli_inv (Suc k) (m\<lparr>cm_next_seq := cm_next_seq m + 1\<rparr>)"
  using next_seq [of k m] by (auto simp: cli_inv_def built_def less_Suc_eq)

lemma cli_inv_build:
  assumes "cli_inv k m" "k < 2 ^ 64 - 2" "buildPacketFromLine line (cm_next_seq m) = Inr p"
  shows "cli_inv (Suc k) (m\<lparr>cm_next_seq := cm_next_seq m + 1, cm_typed := Some p\<rparr>)"
    "cli_inv (Suc k) (m\<lparr>cm_next_seq := cm_next_seq m + 1, cm_beat := Some p\<rparr>)"
proof -
  note seq = next_seq [OF assms(1,2)] new_packet [OF assms(3)]
  have new: "packet_seq p \<noteq> packet_seq q" if "q \<in> set (built m)" for q
    using that assms(1) seq(2) by (auto simp: cli_inv_def)
  show "cli_inv (Suc k) (m\<lparr>cm_next_seq := cm_next_seq m + 1, cm_typed := Some p\<rparr>)"
    "cli_inv (Suc k) (m\<lparr>cm_next_seq := cm_next_seq m + 1, cm_beat := Some p\<rparr>)"
    using assms(1) seq new unfolding cli_inv_def built_def
    by (auto simp: image_iff less_Suc_eq split: option.splits)
qed

lemma cli_inv_reading: "cli_inv k m \<Longrightarrow> cli_inv k (m\<lparr>cm_reading := b\<rparr>)"
  by (simp add: cli_inv_def built_def)

lemma cli_inv_running: "cli_inv k m \<Longrightarrow> cli_inv k (m\<lparr>cm_running := b\<rparr>)"
  by (simp add: cli_inv_def built_def)

lemma typed_line_inv:
  assumes "cli_inv k m" "k < 2 ^ 64 - 2"
  shows "cli_inv (Suc k) (typed_line line m)"
proof -
  let ?m = "m\<lparr>cm_reading := False\<rparr>"
  have inv: "cli_inv k ?m" using assms(1) by (rule cli_inv_reading)
  note quiet = same_stream_inv [OF quiet_steps(1)] same_stream_inv [OF quiet_steps(2)]
  show ?thesis
    using cli_inv_build(1) [OF inv assms(2), of line] cli_inv_skip [OF inv assms(2)] cli_inv_mono [OF inv]
    by (auto simp: typed_line_def Let_def quiet split: sum.split)
qed

lemma heartbeat_due_inv: "cli_inv k m \<Longrightarrow> k < 2 ^ 64 - 2 \<Longrightarrow> cli_inv (Suc k) (heartbeat_due m)"
  using cli_inv_build(2) [of k m "''heartbeat''"] cli_inv_skip [of k m] by (auto simp: heartbeat_due_def Let_def split: sum.split)

lemma cli_send_inv:
  assumes "cli_inv k m" "cm_sent m' = cm_sent m" "cm_next_seq m' = cm_next_seq m" "cm_client m' = cm_client m"
    "cm_send_failed m' = cm_send_failed m" "set (built m) = insert p (set (built m'))" "distinct (map packet_seq (p # built m'))"
    "cli_send e p m' = Some (r, m'')"
  shows "cli_inv k m''"
proof -
  have p: "unat (packet_seq p) < unat (cm_next_seq m)" "\<exists>c. command_ok c \<and> carries p (packet_seq p) c"
    "\<forall>q \<in> set (built m'). unat (packet_seq q) < unat (cm_next_seq m) \<and> (\<exists>c. command_ok c \<and> carries q (packet_seq q) c)"
    using assms(1,6) by (auto simp: cli_inv_def)
  obtain q pc where q: "client_sendPacket e p (cm_client m') = Some (q, pc)"
    using assms(8) by (auto simp: cli_send_def split: option.splits)
  show ?thesis
  proof (cases q)
    case (Inl st)
    with assms(8) q have "m'' = m'\<lparr>cm_client := pc, cm_send_failed := True\<rparr>" by (auto simp: cli_send_def)
    with assms(1,3,7) p show ?thesis by (simp add: cli_inv_def built_def)
  next
    case (Inr u)
    with assms(8) q have m'': "m'' = m'\<lparr>cm_client := pc, cm_sent := cm_sent m' @ [p]\<rparr>" by (auto simp: cli_send_def)
    obtain enc where enc: "encodePacket p = Inr enc" "pc_out pc = pc_out (cm_client m') @ enc"
      using sendPacket_wire [of e p "cm_client m'" pc] q Inr by auto
    have "\<exists>bss. list_all2 (\<lambda>p bs. encodePacket p = Inr bs) (cm_sent m @ [p]) bss \<and> pc_out pc = concat bss"
      if "\<not> cm_send_failed m"
    proof -
      from assms(1) that obtain bss where "list_all2 (\<lambda>p bs. encodePacket p = Inr bs) (cm_sent m) bss"
        "pc_out (cm_client m) = concat bss" by (auto simp: cli_inv_def)
      with enc assms(4) show ?thesis by (intro exI [of _ "bss @ [enc]"]) (simp add: list_all2_appendI)
    qed
    with assms(1-5,7) p m'' show ?thesis by (auto simp: cli_inv_def built_def)
  qed
qed

lemma send_typed_inv:
  assumes "cli_inv k m" "cm_typed m = Some p" "send_typed e p m = Some m'"
  shows "cli_inv k m'"
proof -
  obtain r t where s: "cli_send e p (m\<lparr>cm_typed := None\<rparr>) = Some (r, t)"
    using assms(3) by (auto simp: send_typed_def split: option.splits)
  have "cli_inv k t"
    using assms(1,2) by (intro cli_send_inv [OF assms(1) _ _ _ _ _ _ s]) (auto simp: cli_inv_def built_def)
  with s assms(3) show ?thesis
    by (auto simp: send_typed_def split: sum.splits intro: same_stream_inv [OF quiet_steps(1)] same_stream_inv [OF quiet_steps(2)])
qed

lemma send_beat_inv:
  assumes "cli_inv k m" "cm_beat m = Some p" "send_beat e p m = Some m'"
  shows "cli_inv k m'"
proof -
  obtain r t where s: "cli_send e p (m\<lparr>cm_beat := None\<rparr>) = Some (r, t)"
    using assms(3) by (auto simp: send_beat_def split: option.splits)
  have "cli_inv k t"
    using assms(1,2) by (intro cli_send_inv [OF assms(1) _ _ _ _ _ _ s]) (auto simp: cli_inv_def built_def)
  with s assms(3) show ?thesis
    by (auto simp: send_beat_def split: sum.splits intro: cli_inv_running same_stream_inv [OF quiet_steps(1)])
qed

lemma cli_step_inv:
  assumes "cli_step m m'" "cli_inv k m" "k < 2 ^ 64 - 2"
  shows "cli_inv (Suc k) m'"
  using assms(1)
proof cases
  case 1
  then show ?thesis using same_stream_inv [OF quiet_steps(3) assms(2)] by (simp add: cli_inv_mono)
next
  case 2
  then show ?thesis using same_stream_inv [OF quiet_steps(2) assms(2)] by (simp add: cli_inv_mono)
next
  case (3 line)
  then show ?thesis using typed_line_inv [OF assms(2,3)] by simp
next
  case (4 p e)
  then show ?thesis using send_typed_inv [OF assms(2)] by (simp add: cli_inv_mono)
next
  case 5
  then show ?thesis using heartbeat_due_inv [OF assms(2,3)] by simp
next
  case (6 p e)
  then show ?thesis using send_beat_inv [OF assms(2)] by (simp add: cli_inv_mono)
next
  case 7
  then show ?thesis using same_stream_inv [OF quiet_steps(4) assms(2)] by (simp add: cli_inv_mono)
next
  case 8
  then show ?thesis using same_stream_inv [OF quiet_steps(5) assms(2)] by (simp add: cli_inv_mono)
qed

lemma connect_loop_out: "connect_loop e as pc = (Inr u, pc') \<Longrightarrow> pc_out pc' = []"
  by (induction e as pc rule: connect_loop.induct) (auto simp: ioError_def)

lemma cli_start_inv: "cli_start args resolve e = Some m \<Longrightarrow> cli_inv 0 m"
  by (auto simp: cli_start_def connectTo_def Let_def ioError_def cli_inv_def built_def cli_connected_def
      dest!: connect_loop_out split: cli_args.splits sum.splits prod.splits)

lemma cli_run_inv: "(cli_step ^^ k) m0 m \<Longrightarrow> cli_inv 0 m0 \<Longrightarrow> k < 2 ^ 64 - 1 \<Longrightarrow> cli_inv k m"
proof (induction k arbitrary: m)
  case (Suc k)
  then obtain m' where "(cli_step ^^ k) m0 m'" "cli_step m' m" by auto
  with Suc show ?case by (intro cli_step_inv [of m']) simp_all
qed simp

section \<open>Properties\<close>

text \<open>
  C11. Whatever is typed and however the threads of the command line client interleave: if no send failed and the
  client made less than \<open>2 ^ 64 - 1\<close> steps, the bytes on the wire, cut into any chunks, make the server's session call its
  message callback with exactly the packets that the client sent, in order; each of them is a command of the help text,
  well-formed, and no two have the same sequence number.
\<close>

theorem cli_client_stream:
  assumes "cli_start args resolve e = Some m0" "(cli_step ^^ k) m0 m" "k < 2 ^ 64 - 1" "\<not> cm_send_failed m"
    and "concat chunks = pc_out (cm_client m)" "logs_messages cbs"
  shows "snd (session_handleRead cbs now_ms (map ReadBytes chunks) (session_startInLoop (new_session i ip t0), w)) =
      w @ map framed (cm_sent m) \<and>
    distinct (map packet_seq (cm_sent m)) \<and>
    (\<forall>p \<in> set (cm_sent m). \<exists>c. command_ok c \<and> carries (framed p) (packet_seq p) c)"
proof -
  have inv: "cli_inv k m" by (rule cli_run_inv [OF assms(2) cli_start_inv [OF assms(1)] assms(3)])
  then obtain bss where bss: "list_all2 (\<lambda>p bs. encodePacket p = Inr bs) (cm_sent m) bss" "concat chunks = concat bss"
    using assms(4,5) unfolding cli_inv_def by auto
  have "split_frames (concat chunks) = (map framed (cm_sent m), [], None)"
    unfolding bss(2) by (rule split_frames_packets [OF bss(1)])
  then have "snd (session_handleRead cbs now_ms (map ReadBytes chunks) (session_startInLoop (new_session i ip t0), w)) =
      w @ map framed (cm_sent m)"
    by (rule started_reader_logs [OF assms(6)])
  moreover have "distinct (map packet_seq (cm_sent m))" using inv by (simp add: cli_inv_def built_def)
  moreover have "\<exists>c. command_ok c \<and> carries (framed p) (packet_seq p) c" if "p \<in> set (cm_sent m)" for p
    using built_carries [OF inv, of p] that by (simp add: built_def carries_framed)
  ultimately show ?thesis by simp
qed

text \<open>The line \<open>heartbeat\<close>, sent in two writes and read in two chunks.\<close>

definition heartbeat_client :: protocol_client where
  "heartbeat_client = \<lparr>pc_socket = True, pc_in = [], pc_writes = [SendSome 5, SendIntr, SendSome 15], pc_out = []\<rparr>"

definition heartbeat_packet :: packet where
  "heartbeat_packet = resetPacket (mt HeartbeatRequest) 1"

lemma heartbeat_run:
  "(cli_step ^^ 3) (cli_connected h n heartbeat_client)
     ((cli_connected h n heartbeat_client)\<lparr>cm_next_seq := 2, cm_client := heartbeat_client\<lparr>pc_writes := [],
        pc_out := header_bytes (header heartbeat_packet)\<rparr>, cm_sent := [heartbeat_packet]\<rparr>)"
proof -
  let ?s = "cli_connected h n heartbeat_client"
  let ?v = "?s\<lparr>cm_next_seq := 2, cm_client := heartbeat_client\<lparr>pc_writes := [], pc_out := header_bytes (header heartbeat_packet)\<rparr>,
    cm_sent := [heartbeat_packet]\<rparr>"
  let ?t = "?s\<lparr>cm_reading := True\<rparr>"
  let ?u = "?s\<lparr>cm_next_seq := 2, cm_typed := Some heartbeat_packet\<rparr>"
  have s: "cm_running ?s" "cm_next_seq ?s = 1" "cm_typed ?s = None" "\<not> cm_left ?s" "\<not> cm_reading ?s" "cm_sent ?s = []"
    "cm_client ?s = heartbeat_client" "cm_beat ?s = None" "?s\<lparr>cm_reading := False\<rparr> = ?s" "?s\<lparr>cm_typed := None\<rparr> = ?s"
    by (simp_all add: cli_connected_def)
  have enc: "encodePacket heartbeat_packet = Inr (header_bytes (header heartbeat_packet))"
    by (simp add: encodePacket_Inr_iff heartbeat_packet_def resetPacket_def default_packet_def default_header_def)
  have "cli_step ?s (input_head ?s)" by (rule cli_step.intros(1)) (simp_all add: s)
  then have 1: "cli_step ?s ?t" by (simp add: input_head_def s)
  have build: "buildPacketFromLine ''heartbeat'' 1 = Inr heartbeat_packet"
    using command_is_line [of CHeartbeat 1] by (simp add: show_command_def command_packet_def heartbeat_packet_def)
  have "cli_step ?t (typed_line ''heartbeat'' ?t)" by (rule cli_step.intros(3)) simp
  moreover have "typed_line ''heartbeat'' ?t = ?u"
    using build by (simp add: typed_line_def Let_def s)
  ultimately have 2: "cli_step ?t ?u" by simp
  have len: "length (header_bytes (header heartbeat_packet)) = 20" by simp
  then obtain b bs where bs: "header_bytes (header heartbeat_packet) = b # bs" "length bs = 19"
    by (cases "header_bytes (header heartbeat_packet)") simp_all
  have "length (drop 5 (b # bs)) = 15" using bs(2) by simp
  then obtain b' bs' where bs': "drop 5 (b # bs) = b' # bs'" by (cases "drop 5 (b # bs)") simp_all
  have "length (b' # bs') = 15" using \<open>length (drop 5 (b # bs)) = 15\<close> unfolding bs' .
  have "writeAll [] (b # bs) [SendSome 5, SendIntr, SendSome 15] [] = Some (Inr (), [], b # bs)"
    using bs' \<open>length (b' # bs') = 15\<close> append_take_drop_id [of 5 "b # bs"] by (simp del: append_take_drop_id)
  then have "client_sendPacket [] heartbeat_packet heartbeat_client =
      Some (Inr (), heartbeat_client\<lparr>pc_writes := [], pc_out := header_bytes (header heartbeat_packet)\<rparr>)"
    using enc bs(1) by (simp add: client_sendPacket_def heartbeat_client_def)
  then have "send_typed [] heartbeat_packet ?u = Some ?v"
    by (simp add: send_typed_def cli_send_def s)
  then have 3: "cli_step ?u ?v" by (intro cli_step.intros(4)) simp_all
  show ?thesis
    unfolding numeral_3_eq_3 by (rule relpowp_Suc_I, rule relpowp_Suc_I, rule relpowp_Suc_I, rule relpowp_0_I) (rule 1 2 3)+
qed

theorem cli_client_stream_witness:
  "\<exists>m0 m chunks. cli_start [''--port'', ''7''] (\<lambda>_ _. Inr [Refuses, Accepts [] [SendSome 5, SendIntr, SendSome 15]]) [] = Some m0 \<and>
     (cli_step ^^ 3) m0 m \<and> concat chunks = pc_out (cm_client m) \<and>
     snd (session_handleRead logging_callbacks 5 (map ReadBytes chunks) (session_startInLoop (new_session 2 [] 0), [])) =
       [heartbeat_packet]"
proof -
  let ?s = "cli_connected ''127.0.0.1'' 7 heartbeat_client"
  let ?m = "?s\<lparr>cm_next_seq := 2, cm_client := heartbeat_client\<lparr>pc_writes := [], pc_out := header_bytes (header heartbeat_packet)\<rparr>,
    cm_sent := [heartbeat_packet]\<rparr>"
  let ?chunks = "[take 7 (header_bytes (header heartbeat_packet)), drop 7 (header_bytes (header heartbeat_packet))]"
  have start: "cli_start [''--port'', ''7''] (\<lambda>_ _. Inr [Refuses, Accepts [] [SendSome 5, SendIntr, SendSome 15]]) [] = Some ?s"
    by (simp add: cli_start_def parse_port_arg_def stoull_def split_number_def is_space_def is_digit_def read_digits_def
        digit_value_def connectTo_def client_close_def new_client_def heartbeat_client_def)
  have "framed heartbeat_packet = heartbeat_packet"
    by (simp add: framed_def heartbeat_packet_def resetPacket_def default_packet_def default_header_def)
  moreover have "\<not> cm_send_failed ?m" "concat ?chunks = pc_out (cm_client ?m)" "cm_sent ?m = [heartbeat_packet]"
    by (simp_all add: cli_connected_def)
  moreover note cli_client_stream [OF start heartbeat_run, of ?chunks logging_callbacks 5 2 "[]" 0 "[]"]
  ultimately have "snd (session_handleRead logging_callbacks 5 (map ReadBytes ?chunks)
      (session_startInLoop (new_session 2 [] 0), [])) = [heartbeat_packet]"
    by (simp add: logging_callbacks_ok)
  with start heartbeat_run \<open>concat ?chunks = pc_out (cm_client ?m)\<close> show ?thesis
    by (intro exI [of _ ?s] exI [of _ ?m] exI [of _ ?chunks]) simp
qed

primrec client_reads :: "nat \<Rightarrow> protocol_client \<Rightarrow> (packet list \<times> protocol_client) option" where
  "client_reads 0 pc = Some ([], pc)"
| "client_reads (Suc n) pc =
     (case client_readPacket pc of
        Some (Inr p, pc) \<Rightarrow> (case client_reads n pc of None \<Rightarrow> None | Some (ps, pc) \<Rightarrow> Some (p # ps, pc))
      | _ \<Rightarrow> None)"

lemma client_reads_packets:
  "list_all2 (\<lambda>p bs. encodePacket p = Inr bs) ps bss \<Longrightarrow> pc_socket pc \<Longrightarrow> flowing (pc_in pc) \<Longrightarrow>
     arrived (pc_in pc) = concat bss @ rest \<Longrightarrow>
     \<exists>pc'. client_reads (length ps) pc = Some (map framed ps, pc') \<and> arrived (pc_in pc') = rest"
proof (induction ps bss arbitrary: pc rule: list_all2_induct)
  case (Cons p ps bs bss)
  then obtain evs where evs: "client_readPacket pc = Some (Inr (framed p), pc\<lparr>pc_in := evs\<rparr>)" "flowing evs"
    "arrived evs = concat bss @ rest"
    using readPacket_flowing [of pc p bs "concat bss @ rest"] by auto
  with Cons.IH [of "pc\<lparr>pc_in := evs\<rparr>"] Cons.prems(1) show ?case by auto
qed simp

text \<open>
  C12. The client reads what the server sent: if a server session accepted a list of packets and wrote all of its
  output, and these bytes arrive at the client in any pieces, with reads interrupted at any point, then the client's
  blocking reads return exactly these packets, in order, and use up every byte.
\<close>

theorem client_reads_session_output:
  assumes "callbacks_ok scbs" and "session_inv scbs s" and "ss_accepted s = []"
    and "send_all scbs ps (s, v) = Some (t, v')"
    and "session_handleWrite scbs writes (t, v') = (u, v'')" and "\<not> ss_closed u" and "contents (ss_output u) = []"
    and "pc_socket pc" and "flowing (pc_in pc)" and "arrived (pc_in pc) = ss_wire u"
  shows "\<exists>pc'. client_reads (length ps) pc = Some (map framed ps, pc') \<and> arrived (pc_in pc') = []"
proof -
  from written_packets [OF assms(1-7)] obtain bss where
    "list_all2 (\<lambda>p bs. encodePacket p = Inr bs) ps bss" "ss_wire u = concat bss" by blast
  with assms(8-10) show ?thesis by (intro client_reads_packets [of ps bss]) simp_all
qed

theorem client_reads_session_output_witness:
  "\<exists>u v pc'. session_handleWrite logging_callbacks [Wrote 20]
      (the (send_all logging_callbacks [default_packet] (session_startInLoop (new_session 1 [] 0), []))) = (u, v) \<and>
     client_reads 1 (new_client\<lparr>pc_socket := True, pc_in := [Arrive (take 7 (ss_wire u)), ArriveIntr, Arrive (drop 7 (ss_wire u))]\<rparr>) =
       Some ([default_packet], pc')"
proof (rule one_packet_written)
  fix t u
  assume send: "send_all logging_callbacks [default_packet] (session_startInLoop (new_session 1 [] 0), []) = Some (t, [])"
    and written: "session_handleWrite logging_callbacks [Wrote 20] (t, []) = (u, [])"
    and "\<not> ss_closed u" "contents (ss_output u) = []"
  then have "\<exists>pc'. client_reads (length [default_packet])
      (new_client\<lparr>pc_socket := True, pc_in := [Arrive (take 7 (ss_wire u)), ArriveIntr, Arrive (drop 7 (ss_wire u))]\<rparr>) =
        Some (map framed [default_packet], pc') \<and> arrived (pc_in pc') = []"
    by (intro client_reads_session_output [OF logging_callbacks_ok(1) started_session_inv send written])
      (simp_all add: flowing_def)
  moreover have "framed default_packet = default_packet"
    by (simp add: framed_def default_packet_def default_header_def)
  ultimately show ?thesis using send written by auto
qed

text \<open>A port argument with a minus sign wraps around.\<close>

lemma parse_port_arg_wraps: "parse_port_arg ''-18446744073709551615'' = Some 1"
  by (simp add: parse_port_arg_def stoull_def split_number_def is_space_def is_digit_def read_digits_def digit_value_def)

end
