(* ===== verification/Event_Loop.thy ===== *)
theory Event_Loop
  imports LiteIM_Prelude
begin

text \<open>
  The event loop (\<open>src/net/EventLoop.cpp\<close>). Tasks and channel events are abstract: what one of them does to the loop is a
  list of effects, queueing a task or asking the loop to quit. The loop thread is a program counter through \<open>loop\<close>;
  other threads queue tasks and ask to quit in two steps, because \<open>queueInLoop\<close> and \<open>quit\<close> write to the event
  descriptor after they have changed the loop. \<open>el_wakers\<close> counts the threads between the two steps. The last fields
  are history. The theorems: tasks run once and in the order they were queued, and the loop never sleeps while there
  is a task to run or a request to quit.
\<close>

section \<open>State\<close>

datatype 'k loop_pc =
    NotLooping | Draining bool | Calling bool "'k list" | Checking bool | Polling | Handling bool nat | Stopped

record 'k event_loop =
  el_pc :: "'k loop_pc"
  el_quit :: bool
  el_pending :: "'k list"
  el_calling :: bool
  el_wakeup :: nat
  el_wakers :: nat
  el_queued :: "'k list"
  el_run :: "'k list"

definition new_event_loop :: "'k event_loop" where
  "new_event_loop = \<lparr>el_pc = NotLooping, el_quit = False, el_pending = [], el_calling = False, el_wakeup = 0, el_wakers = 0,
     el_queued = [], el_run = []\<rparr>"

section \<open>Operations\<close>

text \<open>The counter of the event descriptor; a write that would overflow it fails and leaves it positive.\<close>

definition wakeup :: "'k event_loop \<Rightarrow> 'k event_loop" where
  "wakeup l = l\<lparr>el_wakeup := (if el_wakeup l < 2 ^ 64 - 2 then el_wakeup l + 1 else el_wakeup l)\<rparr>"

definition handleWakeup :: "'k event_loop \<Rightarrow> 'k event_loop" where
  "handleWakeup l = l\<lparr>el_wakeup := 0\<rparr>"

definition push_task :: "'k \<Rightarrow> 'k event_loop \<Rightarrow> 'k event_loop" where
  "push_task t l = l\<lparr>el_pending := el_pending l @ [t], el_queued := el_queued l @ [t]\<rparr>"

definition queueInLoop :: "bool \<Rightarrow> 'k \<Rightarrow> 'k event_loop \<Rightarrow> 'k event_loop" where
  "queueInLoop in_loop t l =
     (let l = push_task t l in if \<not> in_loop \<or> el_calling l then wakeup l else l)"

definition loop_quit :: "bool \<Rightarrow> 'k event_loop \<Rightarrow> 'k event_loop" where
  "loop_quit in_loop l =
     (let l = l\<lparr>el_quit := True\<rparr> in if \<not> in_loop then wakeup l else l)"

text \<open>What a task or a channel callback does on the loop's thread.\<close>

datatype 'k effect = Queues 'k | Quits

primrec do_effect :: "'k effect \<Rightarrow> 'k event_loop \<Rightarrow> 'k event_loop" where
  "do_effect (Queues t) l = queueInLoop True t l"
| "do_effect Quits l = loop_quit True l"

definition runInLoop :: "bool \<Rightarrow> 'k \<Rightarrow> 'k effect list \<Rightarrow> 'k event_loop \<Rightarrow> 'k event_loop" where
  "runInLoop in_loop t effs l = (if in_loop then fold do_effect effs l else queueInLoop False t l)"

definition doPendingTasks_swap :: "bool \<Rightarrow> 'k event_loop \<Rightarrow> 'k event_loop" where
  "doPendingTasks_swap bottom l = l\<lparr>el_pending := [], el_calling := True, el_pc := Calling bottom (el_pending l)\<rparr>"

definition call_task :: "bool \<Rightarrow> 'k \<Rightarrow> 'k list \<Rightarrow> 'k effect list \<Rightarrow> 'k event_loop \<Rightarrow> 'k event_loop" where
  "call_task bottom t ts effs l = (fold do_effect effs (l\<lparr>el_run := el_run l @ [t]\<rparr>))\<lparr>el_pc := Calling bottom ts\<rparr>"

definition doPendingTasks_end :: "bool \<Rightarrow> 'k event_loop \<Rightarrow> 'k event_loop" where
  "doPendingTasks_end bottom l = l\<lparr>el_calling := False, el_pc := Checking bottom\<rparr>"

definition check_quit :: "bool \<Rightarrow> 'k event_loop \<Rightarrow> 'k event_loop" where
  "check_quit bottom l =
     l\<lparr>el_pc := (if el_quit l then Stopped else if bottom then Draining False else Polling)\<rparr>"

text \<open>
  One step of the loop thread. \<open>poll\<close> returns when the event descriptor or another channel is ready, or when it is
  interrupted, and then with any number of the ready channels; the event descriptor is one of them at most if its
  counter is positive. A failing \<open>poll\<close> leaves the loop with an exception.
\<close>

inductive loop_step :: "'k event_loop \<Rightarrow> 'k event_loop \<Rightarrow> bool" where
  start: "el_pc l = NotLooping \<Longrightarrow> loop_step l (l\<lparr>el_pc := Draining False\<rparr>)"
| swap: "el_pc l = Draining bottom \<Longrightarrow> loop_step l (doPendingTasks_swap bottom l)"
| call: "el_pc l = Calling bottom (t # ts) \<Longrightarrow> loop_step l (call_task bottom t ts effs l)"
| drained: "el_pc l = Calling bottom [] \<Longrightarrow> loop_step l (doPendingTasks_end bottom l)"
| check: "el_pc l = Checking bottom \<Longrightarrow> loop_step l (check_quit bottom l)"
| poll: "el_pc l = Polling \<Longrightarrow> (woken \<Longrightarrow> 0 < el_wakeup l) \<Longrightarrow> loop_step l (l\<lparr>el_pc := Handling woken others\<rparr>)"
| poll_fails: "el_pc l = Polling \<Longrightarrow> loop_step l (l\<lparr>el_pc := Stopped\<rparr>)"
| handle_wakeup: "el_pc l = Handling True others \<Longrightarrow> loop_step l ((handleWakeup l)\<lparr>el_pc := Handling False others\<rparr>)"
| handle_other: "el_pc l = Handling woken (Suc others) \<Longrightarrow>
    loop_step l ((fold do_effect effs l)\<lparr>el_pc := Handling woken others\<rparr>)"
| handled: "el_pc l = Handling False 0 \<Longrightarrow> loop_step l (l\<lparr>el_pc := Draining True\<rparr>)"

inductive other_step :: "'k event_loop \<Rightarrow> 'k event_loop \<Rightarrow> bool" where
  push: "other_step l ((push_task t l)\<lparr>el_wakers := el_wakers l + 1\<rparr>)"
| quit: "other_step l (l\<lparr>el_quit := True, el_wakers := el_wakers l + 1\<rparr>)"
| wake: "0 < el_wakers l \<Longrightarrow> other_step l ((wakeup l)\<lparr>el_wakers := el_wakers l - 1\<rparr>)"

definition el_step :: "'k event_loop \<Rightarrow> 'k event_loop \<Rightarrow> bool" where
  "el_step l l' \<longleftrightarrow> loop_step l l' \<or> other_step l l'"

section \<open>Invariant\<close>

definition alarm :: "'k event_loop \<Rightarrow> bool" where
  "alarm l \<longleftrightarrow> 0 < el_wakeup l \<or> 0 < el_wakers l"

fun to_call :: "'k loop_pc \<Rightarrow> 'k list" where
  "to_call (Calling _ ts) = ts"
| "to_call _ = []"

text \<open>From the moment the pending tasks are taken until the next channels are handled, a new task rings the alarm.\<close>

fun after_swap :: "'k loop_pc \<Rightarrow> bool" where
  "after_swap (Calling _ _) = True"
| "after_swap (Checking _) = True"
| "after_swap Polling = True"
| "after_swap _ = False"

fun is_calling :: "'k loop_pc \<Rightarrow> bool" where
  "is_calling (Calling _ _) = True"
| "is_calling _ = False"

definition el_inv :: "'k event_loop \<Rightarrow> bool" where
  "el_inv l \<longleftrightarrow> el_queued l = el_run l @ to_call (el_pc l) @ el_pending l \<and>
     (el_calling l \<longleftrightarrow> is_calling (el_pc l)) \<and>
     (after_swap (el_pc l) \<longrightarrow> el_pending l \<noteq> [] \<longrightarrow> alarm l) \<and>
     (el_pc l = Polling \<longrightarrow> el_quit l \<longrightarrow> alarm l)"

lemma wakeup_simps [simp]:
  "el_pc (wakeup l) = el_pc l" "el_quit (wakeup l) = el_quit l" "el_pending (wakeup l) = el_pending l"
  "el_calling (wakeup l) = el_calling l" "el_wakers (wakeup l) = el_wakers l" "el_queued (wakeup l) = el_queued l"
  "el_run (wakeup l) = el_run l" "0 < el_wakeup (wakeup l)"
  by (simp_all add: wakeup_def)

definition grows :: "'k event_loop \<Rightarrow> 'k event_loop \<Rightarrow> bool" where
  "grows l l' \<longleftrightarrow> el_pc l' = el_pc l \<and> el_calling l' = el_calling l \<and> el_run l' = el_run l \<and> el_wakers l' = el_wakers l \<and>
     (\<exists>ts. el_pending l' = el_pending l @ ts \<and> el_queued l' = el_queued l @ ts \<and> (el_calling l \<longrightarrow> ts \<noteq> [] \<longrightarrow> 0 < el_wakeup l')) \<and>
     (0 < el_wakeup l \<longrightarrow> 0 < el_wakeup l')"

lemma grows_refl: "grows l l"
  by (simp add: grows_def)

lemma do_effect_grows: "grows l (do_effect e l)"
  by (cases e) (auto simp: grows_def queueInLoop_def push_task_def loop_quit_def Let_def)

lemma grows_trans: "grows l l' \<Longrightarrow> grows l' l'' \<Longrightarrow> grows l l''"
  unfolding grows_def by auto

lemma effects_grow: "grows l (fold do_effect effs l)"
  by (induction effs arbitrary: l) (auto intro: grows_refl grows_trans do_effect_grows)

lemma new_event_loop_inv: "el_inv new_event_loop"
  by (simp add: el_inv_def new_event_loop_def)

lemma call_task_inv:
  assumes "el_inv l" "el_pc l = Calling bottom (t # ts)"
  shows "el_inv (call_task bottom t ts effs l)"
proof -
  let ?l = "l\<lparr>el_run := el_run l @ [t]\<rparr>"
  have "grows ?l (fold do_effect effs ?l)" by (rule effects_grow)
  with assms show ?thesis by (auto simp: el_inv_def call_task_def grows_def alarm_def)
qed

lemma loop_step_inv: "loop_step l l' \<Longrightarrow> el_inv l \<Longrightarrow> el_inv l'"
proof (induction rule: loop_step.induct)
  case (call l bottom t ts effs)
  then show ?case by (intro call_task_inv)
next
  case (handle_other l woken others effs)
  with effects_grow [of l effs] show ?case by (auto simp: el_inv_def grows_def)
qed (auto simp: el_inv_def doPendingTasks_swap_def doPendingTasks_end_def check_quit_def handleWakeup_def alarm_def)

lemma other_step_inv: "other_step l l' \<Longrightarrow> el_inv l \<Longrightarrow> el_inv l'"
  by (induction rule: other_step.induct) (auto simp: el_inv_def push_task_def alarm_def)

lemma reachable_inv: "el_step\<^sup>*\<^sup>* new_event_loop l \<Longrightarrow> el_inv l"
  by (induction rule: rtranclp_induct) (auto simp: el_step_def new_event_loop_inv intro: loop_step_inv other_step_inv)

text \<open>The loop thread can always move, except that \<open>poll\<close> waits for the event descriptor or another channel.\<close>

definition loop_can_move :: "'k event_loop \<Rightarrow> bool" where
  "loop_can_move l \<longleftrightarrow> (case el_pc l of Polling \<Rightarrow> 0 < el_wakeup l | Stopped \<Rightarrow> False | _ \<Rightarrow> True)"

lemma loop_can_move_step: "loop_can_move l \<Longrightarrow> \<exists>l'. loop_step l l'"
proof (cases "el_pc l")
  case NotLooping
  then show ?thesis by (intro exI) (rule loop_step.start)
next
  case (Draining bottom)
  then show ?thesis by (intro exI) (rule loop_step.swap)
next
  case (Calling bottom ts)
  show ?thesis
  proof (cases ts)
    case Nil
    with Calling show ?thesis by (intro exI) (rule loop_step.drained, simp)
  next
    case (Cons t ts')
    with Calling show ?thesis by (intro exI) (rule loop_step.call, simp)
  qed
next
  case (Checking bottom)
  then show ?thesis by (intro exI) (rule loop_step.check)
next
  case Polling
  assume "loop_can_move l"
  with Polling have "0 < el_wakeup l" by (simp add: loop_can_move_def)
  with Polling show ?thesis by (intro exI) (rule loop_step.poll [where woken = True], simp_all)
next
  case (Handling woken others)
  show ?thesis
  proof (cases woken)
    case True
    with Handling show ?thesis by (intro exI) (rule loop_step.handle_wakeup, simp)
  next
    case False
    then show ?thesis
    proof (cases others)
      case 0
      with Handling False show ?thesis by (intro exI) (rule loop_step.handled, simp)
    next
      case (Suc n)
      with Handling show ?thesis by (intro exI) (rule loop_step.handle_other, simp)
    qed
  qed
qed (simp add: loop_can_move_def)

section \<open>Properties\<close>

text \<open>
  C8. The loop never sleeps on work. Whatever other threads do and whatever the tasks and channel callbacks do: in
  every state that the loop can reach before it stopped, if a task is queued or the loop was asked to quit, then the
  loop thread can move, and does not wait in \<open>poll\<close> with a zero event counter, or a thread that queued or asked is
  about to write to the event descriptor. The tasks that ran, the ones being called and the queued ones are, in this
  order, exactly the tasks ever queued: each runs once, in the order of queueing.
\<close>

theorem loop_never_sleeps_on_work:
  assumes "el_step\<^sup>*\<^sup>* new_event_loop l"
  shows "el_queued l = el_run l @ to_call (el_pc l) @ el_pending l \<and>
    (el_pc l \<noteq> Stopped \<longrightarrow> el_pending l \<noteq> [] \<or> el_quit l \<longrightarrow>
       loop_can_move l \<and> (\<exists>l'. loop_step l l') \<or> 0 < el_wakers l)"
proof -
  have inv: "el_inv l" using assms by (rule reachable_inv)
  have "loop_can_move l \<or> 0 < el_wakers l" if "el_pc l \<noteq> Stopped" "el_pending l \<noteq> [] \<or> el_quit l"
    using inv that by (auto simp: el_inv_def loop_can_move_def alarm_def split: loop_pc.split)
  with inv loop_can_move_step [of l] show ?thesis by (auto simp: el_inv_def)
qed

text \<open>The first turn of a loop without tasks, up to the test of the quit flag.\<close>

lemma first_check: "el_step\<^sup>*\<^sup>* new_event_loop (new_event_loop\<lparr>el_pc := Checking False\<rparr> :: nat event_loop)"
proof -
  have 1: "el_step new_event_loop (new_event_loop\<lparr>el_pc := Draining False\<rparr> :: nat event_loop)"
    unfolding el_step_def by (intro disjI1 loop_step.start) (simp add: new_event_loop_def)
  have 2: "el_step (new_event_loop\<lparr>el_pc := Draining False\<rparr>)
      (new_event_loop\<lparr>el_pc := Calling False [], el_calling := True\<rparr> :: nat event_loop)"
    using loop_step.swap [of "new_event_loop\<lparr>el_pc := Draining False\<rparr> :: nat event_loop" False]
    by (simp add: el_step_def doPendingTasks_swap_def new_event_loop_def)
  have 3: "el_step (new_event_loop\<lparr>el_pc := Calling False [], el_calling := True\<rparr>)
      (new_event_loop\<lparr>el_pc := Checking False\<rparr> :: nat event_loop)"
    using loop_step.drained [of "new_event_loop\<lparr>el_pc := Calling False [], el_calling := True\<rparr> :: nat event_loop" False]
    by (simp add: el_step_def doPendingTasks_end_def new_event_loop_def)
  show ?thesis
    by (rule converse_rtranclp_into_rtranclp, rule 1, rule converse_rtranclp_into_rtranclp, rule 2, rule r_into_rtranclp, rule 3)
qed

text \<open>Another thread queues task 7 while the loop sleeps; the alarm follows.\<close>

theorem loop_never_sleeps_on_work_witness:
  "\<exists>l. el_step\<^sup>*\<^sup>* new_event_loop l \<and> el_pc l = Polling \<and> el_pending l = [7 :: nat] \<and> loop_can_move l"
proof -
  let ?a = "new_event_loop\<lparr>el_pc := Polling\<rparr> :: nat event_loop"
  let ?b = "?a\<lparr>el_pending := [7], el_queued := [7], el_wakers := 1\<rparr>"
  let ?c = "?b\<lparr>el_wakers := 0, el_wakeup := 1\<rparr>"
  have 4: "el_step (new_event_loop\<lparr>el_pc := Checking False\<rparr>) ?a"
    using loop_step.check [of "new_event_loop\<lparr>el_pc := Checking False\<rparr> :: nat event_loop" False]
    by (simp add: el_step_def check_quit_def new_event_loop_def)
  have 5: "el_step ?a ?b"
    using other_step.push [of ?a 7] by (simp add: el_step_def push_task_def new_event_loop_def)
  have 6: "el_step ?b ?c"
    using other_step.wake [of ?b] by (simp add: el_step_def wakeup_def new_event_loop_def)
  have run: "el_step\<^sup>*\<^sup>* new_event_loop ?c" 
    by (rule rtranclp.rtrancl_into_rtrancl, rule rtranclp.rtrancl_into_rtrancl, rule rtranclp.rtrancl_into_rtrancl,
        rule first_check, rule 4, rule 5, rule 6)
  from loop_never_sleeps_on_work [OF run] have "loop_can_move ?c" by (simp add: new_event_loop_def)
  with run show ?thesis by (intro exI [of _ ?c]) simp
qed

text \<open>
  C40. A task can be lost when the loop is asked to quit. The loop tests the quit flag after it has taken the pending
  tasks: a thread that queues a task and then asks the loop to quit, both between the two, is answered by a loop that
  stops without running the task.
\<close>

theorem quit_can_drop_task:
  "\<exists>l l'. el_step\<^sup>*\<^sup>* new_event_loop l \<and> el_pending l = [7 :: nat] \<and> \<not> el_quit l \<and>
     el_step\<^sup>*\<^sup>* l l' \<and> el_pc l' = Stopped \<and> el_pending l' = [7] \<and> el_run l' = []"
proof -
  let ?a = "new_event_loop\<lparr>el_pc := Checking False\<rparr> :: nat event_loop"
  let ?b = "?a\<lparr>el_pending := [7], el_queued := [7], el_wakers := 1\<rparr>"
  let ?c = "?b\<lparr>el_wakers := 0, el_wakeup := 1\<rparr>"
  let ?d = "?c\<lparr>el_quit := True, el_wakers := 1\<rparr>"
  let ?e = "?d\<lparr>el_pc := Stopped\<rparr>"
  have b: "el_step ?a ?b"
    using other_step.push [of ?a 7] by (simp add: el_step_def push_task_def new_event_loop_def)
  have c: "el_step ?b ?c"
    using other_step.wake [of ?b] by (simp add: el_step_def wakeup_def new_event_loop_def)
  have d: "el_step ?c ?d"
    using other_step.quit [of ?c] by (simp add: el_step_def new_event_loop_def)
  have e: "el_step ?d ?e"
    using loop_step.check [of ?d False] by (simp add: el_step_def check_quit_def new_event_loop_def)
  have "el_step\<^sup>*\<^sup>* new_event_loop ?c"
    by (rule rtranclp.rtrancl_into_rtrancl, rule rtranclp.rtrancl_into_rtrancl, rule first_check, rule b, rule c)
  moreover have "el_step\<^sup>*\<^sup>* ?c ?e"
    by (rule converse_rtranclp_into_rtranclp, rule d, rule r_into_rtranclp, rule e)
  ultimately show ?thesis by (intro exI [of _ ?c] exI [of _ ?e]) (simp add: new_event_loop_def)
qed

end
