(* ===== verification/Loop_Pool.thy ===== *)
theory Loop_Pool
  imports LiteIM_Prelude
begin

text \<open>
  Threads that run event loops (\<open>src/net/EventLoopThread.cpp\<close>) and the pool that hands them out in turn
  (\<open>src/net/EventLoopThreadPool.cpp\<close>). A loop is known by a number. The state of an event loop thread is its members and
  where its thread is; the thread may fail to create its loop, and its loop may end with an exception. The theorems:
  the pool hands out its loops in turn, and the members
  of a loop thread agree with where its thread is, under every interleaving with \<open>startLoop\<close> and \<open>stop\<close>.
\<close>

section \<open>One thread\<close>

datatype thread_at = NoThread | Starting | InLoop | Finished

record loop_thread =
  et_started :: bool
  et_running :: bool
  et_loop :: "nat option"
  et_exception :: "string option"
  et_thread :: thread_at
  et_quit :: bool
  et_join_started :: bool

definition new_loop_thread :: loop_thread where
  "new_loop_thread = \<lparr>et_started = False, et_running = False, et_loop = None, et_exception = None, et_thread = NoThread,
     et_quit = False, et_join_started = False\<rparr>"

text \<open>The first part of \<open>startLoop\<close>, up to the wait; \<open>Inl\<close> is the exception it throws.\<close>

definition startLoop_begin :: "loop_thread \<Rightarrow> string + loop_thread" where
  "startLoop_begin t =
     (if et_started t then Inl ''EventLoopThread has already been started''
      else Inr (t\<lparr>et_started := True, et_running := True, et_thread := Starting\<rparr>))"

definition startLoop_ready :: "loop_thread \<Rightarrow> bool" where
  "startLoop_ready t \<longleftrightarrow> et_loop t \<noteq> None \<or> et_exception t \<noteq> None \<or> \<not> et_running t"

text \<open>The rest of \<open>startLoop\<close>, once the wait is over: the exception of the thread, or its loop.\<close>

definition startLoop_end :: "loop_thread \<Rightarrow> (string + nat option) \<times> loop_thread" where
  "startLoop_end t =
     (case et_exception t of
        Some text \<Rightarrow> (Inl text, t\<lparr>et_exception := None\<rparr>)
      | None \<Rightarrow> (Inr (et_loop t), t))"

text \<open>\<open>threadFunc\<close>: the loop is made and published, or making it fails; the loop ends, or throws.\<close>

definition thread_publish :: "nat \<Rightarrow> loop_thread \<Rightarrow> loop_thread" where
  "thread_publish i t = t\<lparr>et_loop := Some i, et_thread := InLoop\<rparr>"

definition thread_fails :: "string \<Rightarrow> loop_thread \<Rightarrow> loop_thread" where
  "thread_fails text t = t\<lparr>et_loop := None, et_running := False, et_exception := Some text, et_thread := Finished\<rparr>"

definition thread_returns :: "loop_thread \<Rightarrow> loop_thread" where
  "thread_returns t = t\<lparr>et_loop := None, et_running := False, et_thread := Finished\<rparr>"

text \<open>\<open>stop\<close> after its wait, and the join.\<close>

definition stop_ready :: "loop_thread \<Rightarrow> bool" where
  "stop_ready t \<longleftrightarrow> \<not> (et_started t \<and> et_running t \<and> et_loop t = None \<and> et_exception t = None)"

definition stop_request :: "loop_thread \<Rightarrow> loop_thread" where
  "stop_request t = (if et_loop t \<noteq> None then t\<lparr>et_quit := True\<rparr> else t)"

definition stop_joins :: "bool \<Rightarrow> loop_thread \<Rightarrow> bool" where
  "stop_joins called_from_loop_thread t \<longleftrightarrow>
     et_started t \<and> \<not> called_from_loop_thread \<and> \<not> et_join_started t \<and> et_thread t \<noteq> NoThread"

inductive thread_step :: "loop_thread \<Rightarrow> loop_thread \<Rightarrow> bool" where
  "startLoop_begin t = Inr t' \<Longrightarrow> thread_step t t'"
| "et_thread t = Starting \<Longrightarrow> thread_step t (thread_publish i t)"
| "et_thread t = Starting \<Longrightarrow> thread_step t (thread_fails text t)"
| "et_thread t = InLoop \<Longrightarrow> et_quit t \<Longrightarrow> thread_step t (thread_returns t)"
| "et_thread t = InLoop \<Longrightarrow> thread_step t (thread_fails text t)"
| "et_started t \<Longrightarrow> startLoop_ready t \<Longrightarrow> thread_step t (snd (startLoop_end t))"
| "stop_ready t \<Longrightarrow> thread_step t (stop_request t)"

definition thread_inv :: "loop_thread \<Rightarrow> bool" where
  "thread_inv t \<longleftrightarrow>
     (et_started t \<longleftrightarrow> et_thread t \<noteq> NoThread) \<and>
     (et_running t \<longleftrightarrow> et_thread t \<in> {Starting, InLoop}) \<and>
     (et_loop t \<noteq> None \<longleftrightarrow> et_thread t = InLoop) \<and>
     (et_exception t \<noteq> None \<longrightarrow> et_thread t = Finished) \<and>
     (et_quit t \<longrightarrow> et_thread t \<in> {InLoop, Finished})"

lemma thread_step_inv: "thread_step t t' \<Longrightarrow> thread_inv t \<Longrightarrow> thread_inv t'"
  by (induction rule: thread_step.induct)
    (auto simp: thread_inv_def startLoop_begin_def thread_publish_def thread_fails_def thread_returns_def startLoop_end_def
      stop_request_def split: if_splits option.splits)

lemma thread_reachable_inv: "thread_step\<^sup>*\<^sup>* new_loop_thread t \<Longrightarrow> thread_inv t"
proof (induction rule: rtranclp_induct)
  case base
  show ?case by (simp add: thread_inv_def new_loop_thread_def)
next
  case (step t t')
  then show ?case by (blast intro: thread_step_inv)
qed

section \<open>The pool\<close>

record loop_pool =
  lp_base :: nat
  lp_thread_count :: nat
  lp_started :: bool
  lp_loops :: "nat list"
  lp_next :: nat

definition new_loop_pool :: "nat \<Rightarrow> nat \<Rightarrow> loop_pool" where
  "new_loop_pool base n = \<lparr>lp_base = base, lp_thread_count = n, lp_started = False, lp_loops = [], lp_next = 0\<rparr>"

definition loop_pool_stop :: "loop_pool \<Rightarrow> loop_pool" where
  "loop_pool_stop p = p\<lparr>lp_loops := [], lp_next := 0, lp_started := False\<rparr>"

text \<open>The loop of \<open>start\<close> over the threads to make; their \<open>startLoop\<close> results are an argument.\<close>

fun start_threads :: "(string + nat) list \<Rightarrow> loop_pool \<Rightarrow> string option \<times> loop_pool" where
  "start_threads [] p = (None, p\<lparr>lp_started := True\<rparr>)"
| "start_threads (Inr i # rs) p = start_threads rs (p\<lparr>lp_loops := lp_loops p @ [i]\<rparr>)"
| "start_threads (Inl text # rs) p = (Some text, loop_pool_stop p)"

definition loop_pool_start :: "(string + nat) list \<Rightarrow> loop_pool \<Rightarrow> string option \<times> loop_pool" where
  "loop_pool_start results p = (if lp_started p then (None, p) else start_threads (take (lp_thread_count p) results) p)"

definition getNextLoop :: "loop_pool \<Rightarrow> (nat \<times> loop_pool) option" where
  "getNextLoop p =
     (if \<not> lp_started p then None
      else if lp_loops p = [] then Some (lp_base p, p)
      else Some (lp_loops p ! lp_next p, p\<lparr>lp_next := (lp_next p + 1) mod length (lp_loops p)\<rparr>))"

primrec next_loops :: "nat \<Rightarrow> loop_pool \<Rightarrow> (nat list \<times> loop_pool) option" where
  "next_loops 0 p = Some ([], p)"
| "next_loops (Suc k) p =
     (case next_loops k p of
        None \<Rightarrow> None
      | Some (is, p) \<Rightarrow> (case getNextLoop p of None \<Rightarrow> None | Some (i, p) \<Rightarrow> Some (is @ [i], p)))"

lemma start_threads_all: "start_threads (map Inr is) p = (None, p\<lparr>lp_loops := lp_loops p @ is, lp_started := True\<rparr>)"
  by (induction "is" arbitrary: p) simp_all

text \<open>
  New connections are spread evenly: a pool that started with the loops of its threads hands them out in turn, so
  that the \<open>k\<close>-th request after the start gets the loop at position \<open>k\<close> modulo their number; a pool without threads
  always hands out the base loop.
\<close>

theorem loops_in_turn:
  assumes "loop_pool_start (map Inr is) (new_loop_pool base (length is)) = (r, p)"
  shows "r = None \<and> map_option fst (next_loops k p) =
    Some (map (\<lambda>j. if is = [] then base else is ! (j mod length is)) [0..<k])"
proof -
  have p: "r = None" "p = \<lparr>lp_base = base, lp_thread_count = length is, lp_started = True, lp_loops = is, lp_next = 0\<rparr>"
    using assms by (auto simp: loop_pool_start_def new_loop_pool_def start_threads_all)
  have "next_loops k p = Some (map (\<lambda>j. if is = [] then base else is ! (j mod length is)) [0..<k],
      p\<lparr>lp_next := (if is = [] then 0 else k mod length is)\<rparr>)"
    by (induction k) (auto simp: p getNextLoop_def mod_Suc_eq)
  with p show ?thesis by simp
qed

theorem loops_in_turn_witness:
  "\<exists>r p. loop_pool_start [Inr 5, Inr 6, Inr 7] (new_loop_pool 1 (Suc 2)) = (r, p) \<and>
     map_option fst (next_loops 4 p) = Some [5, 6, 7, 5]"
proof -
  obtain r p where run: "loop_pool_start (map Inr [5, 6, 7]) (new_loop_pool 1 (length [5, 6, 7 :: nat])) = (r, p)"
    by (rule prod.exhaust)
  from loops_in_turn [OF this, of 4] have "map_option fst (next_loops 4 p) = Some [5, 6, 7, 5]"
    by (simp add: upt_rec)
  with run show ?thesis by (intro exI [of _ r] exI [of _ p]) (simp add: numeral_2_eq_2)
qed

end
