(* ===== verification/Reactor.thy ===== *)
theory Reactor
  imports Decimal
begin

text \<open>
  Channels and the epoll wrapper (\<open>src/net/Channel.cpp\<close>, \<open>src/net/Epoller.cpp\<close>, and \<open>updateChannel\<close> and
  \<open>removeChannel\<close> of \<open>src/net/EventLoop.cpp\<close>). Channels live in a store, a pointer to one is an address or \<open>None\<close>. The
  kernel's interest list is part of the state; whether a call of \<open>epoll_ctl\<close> fails, and with which error number, is an
  argument. An exception of the event loop is an error result with its text. The theorems: the kernel watches exactly
  the registered channels, with the events that the operations asked for.
\<close>

section \<open>State\<close>

definition EPOLLIN :: u32 where "EPOLLIN = 0x001"
definition EPOLLPRI :: u32 where "EPOLLPRI = 0x002"
definition EPOLLOUT :: u32 where "EPOLLOUT = 0x004"
definition EPOLLERR :: u32 where "EPOLLERR = 0x008"
definition EPOLLHUP :: u32 where "EPOLLHUP = 0x010"
definition EPOLLRDHUP :: u32 where "EPOLLRDHUP = 0x2000"

lemmas epoll_bits = EPOLLIN_def EPOLLPRI_def EPOLLOUT_def EPOLLERR_def EPOLLHUP_def EPOLLRDHUP_def

definition kNoneEvent :: u32 where "kNoneEvent = 0"
definition kReadEvent :: u32 where "kReadEvent = EPOLLIN OR EPOLLPRI OR EPOLLRDHUP"
definition kWriteEvent :: u32 where "kWriteEvent = EPOLLOUT"

record channel =
  ch_owner :: "nat option"
  ch_fd :: int
  ch_events :: u32
  ch_revents :: u32
  ch_tied :: bool
  ch_read_callback :: bool
  ch_write_callback :: bool
  ch_close_callback :: bool
  ch_error_callback :: bool

definition new_channel :: "nat option \<Rightarrow> int \<Rightarrow> channel" where
  "new_channel owner fd = \<lparr>ch_owner = owner, ch_fd = fd, ch_events = kNoneEvent, ch_revents = kNoneEvent, ch_tied = False,
     ch_read_callback = False, ch_write_callback = False, ch_close_callback = False, ch_error_callback = False\<rparr>"

definition isNoneEvent :: "channel \<Rightarrow> bool" where "isNoneEvent c \<longleftrightarrow> ch_events c = kNoneEvent"
definition isReading :: "channel \<Rightarrow> bool" where "isReading c \<longleftrightarrow> ch_events c AND kReadEvent \<noteq> 0"
definition isWriting :: "channel \<Rightarrow> bool" where "isWriting c \<longleftrightarrow> ch_events c AND kWriteEvent \<noteq> 0"

record reactor =
  rx_chans :: "nat \<Rightarrow> channel"
  rx_epoll_fd :: int
  rx_owner :: "nat option"
  rx_channels :: "int \<rightharpoonup> nat"
  rx_kernel :: "int \<rightharpoonup> u32 \<times> nat"
  rx_list_size :: nat

definition kInitialEventListSize :: nat where "kInitialEventListSize = 16"

definition new_reactor :: "nat option \<Rightarrow> int \<Rightarrow> (nat \<Rightarrow> channel) \<Rightarrow> reactor" where
  "new_reactor owner epoll_fd chans = \<lparr>rx_chans = chans, rx_epoll_fd = epoll_fd, rx_owner = owner, rx_channels = Map.empty,
     rx_kernel = Map.empty, rx_list_size = kInitialEventListSize\<rparr>"

section \<open>Epoller\<close>

definition invalidEpollStatus :: "string \<Rightarrow> status" where
  "invalidEpollStatus action = status_error IoError (action @ '' failed because epoll fd is invalid'')"

definition epoll_errnoStatus :: "string \<Rightarrow> nat \<Rightarrow> status" where
  "epoll_errnoStatus action error_number = status_error IoError (action @ '' failed with errno '' @ show_nat error_number)"

definition validateChannel :: "string \<Rightarrow> nat option \<Rightarrow> reactor \<Rightarrow> nat result" where
  "validateChannel action ptr rx =
     (case ptr of
        None \<Rightarrow> err InvalidArgument (action @ '' requires a valid channel'')
      | Some a \<Rightarrow> if ch_fd (rx_chans rx a) < 0 then err InvalidArgument (action @ '' requires a valid channel'') else Inr a)"

definition validateChannelOwner :: "nat \<Rightarrow> reactor \<Rightarrow> unit result" where
  "validateChannelOwner a rx =
     (if rx_owner rx \<noteq> None \<and> ch_owner (rx_chans rx a) \<noteq> rx_owner rx
      then err InvalidArgument ''channel belongs to a different EventLoop'' else Inr ())"

definition set_revents :: "nat \<Rightarrow> u32 \<Rightarrow> reactor \<Rightarrow> reactor" where
  "set_revents a ev rx = rx\<lparr>rx_chans := (rx_chans rx)(a := (rx_chans rx a)\<lparr>ch_revents := ev\<rparr>)\<rparr>"

text \<open>\<open>epoll_ctl\<close> on the interest list; it changes nothing when it fails.\<close>

definition epoll_ctl :: "string \<Rightarrow> int \<Rightarrow> (u32 \<times> nat) option \<Rightarrow> nat option \<Rightarrow> (reactor, unit) prog" where
  "epoll_ctl action fd entry failure =
     (case failure of
        Some error_number \<Rightarrow> failP (epoll_errnoStatus action error_number)
      | None \<Rightarrow> (\<lambda>rx. (Inr (), rx\<lparr>rx_kernel := (rx_kernel rx)(fd := entry)\<rparr>)))"

definition epoller_updateChannel :: "nat option \<Rightarrow> nat option \<Rightarrow> (reactor, unit) prog" where
  "epoller_updateChannel failure ptr = (\<lambda>rx.
     bindP (liftP (validateChannel ''updateChannel'' ptr rx)) (\<lambda>a.
     bindP (liftP (validateChannelOwner a rx)) (\<lambda>_.
     if rx_epoll_fd rx < 0 then failP (invalidEpollStatus ''epoll_ctl'')
     else
       let c = rx_chans rx a; fd = ch_fd c in
       case rx_channels rx fd of
         None \<Rightarrow>
           if isNoneEvent c then failP (status_error InvalidArgument ''cannot add channel without interested events'')
           else bindP (epoll_ctl ''epoll_ctl(ADD)'' fd (Some (ch_events c, a)) failure) (\<lambda>_ rx.
             (Inr (), rx\<lparr>rx_channels := (rx_channels rx)(fd \<mapsto> a)\<rparr>))
       | Some b \<Rightarrow>
           if b \<noteq> a then failP (status_error InvalidArgument ''fd already belongs to a different channel'')
           else if isNoneEvent c then
             bindP (epoll_ctl ''epoll_ctl(DEL)'' fd None failure) (\<lambda>_ rx.
               (Inr (), set_revents a kNoneEvent (rx\<lparr>rx_channels := (rx_channels rx)(fd := None)\<rparr>)))
           else epoll_ctl ''epoll_ctl(MOD)'' fd (Some (ch_events c, a)) failure)) rx)"

definition epoller_removeChannel :: "nat option \<Rightarrow> nat option \<Rightarrow> (reactor, unit) prog" where
  "epoller_removeChannel failure ptr = (\<lambda>rx.
     bindP (liftP (validateChannel ''removeChannel'' ptr rx)) (\<lambda>a.
     bindP (liftP (validateChannelOwner a rx)) (\<lambda>_.
     if rx_epoll_fd rx < 0 then failP (invalidEpollStatus ''epoll_ctl'')
     else
       let fd = ch_fd (rx_chans rx a) in
       if rx_channels rx fd \<noteq> Some a then failP (status_error InvalidArgument ''channel is not registered in epoller'')
       else bindP (epoll_ctl ''epoll_ctl(DEL)'' fd None failure) (\<lambda>_ rx.
         (Inr (), set_revents a kNoneEvent (rx\<lparr>rx_channels := (rx_channels rx)(fd := None)\<rparr>))))) rx)"

text \<open>
  \<open>poll\<close>: \<open>epoll_wait\<close> fails with an error number or fills at most as many entries as the event list has. A full list
  is doubled for the next call.
\<close>

definition EINTR :: nat where "EINTR = 4"

definition epoller_poll :: "nat + (u32 \<times> nat option) list \<Rightarrow> (reactor, nat list) prog" where
  "epoller_poll waited = (\<lambda>rx.
     if rx_epoll_fd rx < 0 then (Inl (invalidEpollStatus ''epoll_wait''), rx)
     else case waited of
         Inl error_number \<Rightarrow>
           if error_number = EINTR then (Inr [], rx) else (Inl (epoll_errnoStatus ''epoll_wait'' error_number), rx)
       | Inr ready \<Rightarrow>
           let found = [(ev, a). (ev, Some a) \<leftarrow> ready];
               rx = fold (\<lambda>(ev, a). set_revents a ev) found rx
           in (Inr (map snd found),
               if length ready = rx_list_size rx then rx\<lparr>rx_list_size := rx_list_size rx * 2\<rparr> else rx))"

section \<open>Event loop and channel\<close>

definition loop_updateChannel :: "bool \<Rightarrow> nat option \<Rightarrow> nat option \<Rightarrow> (reactor, unit) prog" where
  "loop_updateChannel in_loop failure ptr =
     (if \<not> in_loop then failP (status_error InternalError ''EventLoop used from a different thread'')
      else epoller_updateChannel failure ptr)"

definition loop_removeChannel :: "bool \<Rightarrow> nat option \<Rightarrow> nat option \<Rightarrow> (reactor, unit) prog" where
  "loop_removeChannel in_loop failure ptr =
     (if \<not> in_loop then failP (status_error InternalError ''EventLoop used from a different thread'')
      else epoller_removeChannel failure ptr)"

definition channel_update :: "bool \<Rightarrow> nat option \<Rightarrow> nat \<Rightarrow> (reactor, unit) prog" where
  "channel_update in_loop failure a = (\<lambda>rx.
     (case ch_owner (rx_chans rx a) of None \<Rightarrow> retP () | Some _ \<Rightarrow> loop_updateChannel in_loop failure (Some a)) rx)"

definition set_events :: "(u32 \<Rightarrow> u32) \<Rightarrow> bool \<Rightarrow> nat option \<Rightarrow> nat \<Rightarrow> (reactor, unit) prog" where
  "set_events f in_loop failure a = (\<lambda>rx.
     channel_update in_loop failure a
       (rx\<lparr>rx_chans := (rx_chans rx)(a := (rx_chans rx a)\<lparr>ch_events := f (ch_events (rx_chans rx a))\<rparr>)\<rparr>))"

definition enableReading :: "bool \<Rightarrow> nat option \<Rightarrow> nat \<Rightarrow> (reactor, unit) prog" where
  "enableReading = set_events (\<lambda>ev. ev OR kReadEvent)"

definition disableReading :: "bool \<Rightarrow> nat option \<Rightarrow> nat \<Rightarrow> (reactor, unit) prog" where
  "disableReading = set_events (\<lambda>ev. ev AND NOT kReadEvent)"

definition enableWriting :: "bool \<Rightarrow> nat option \<Rightarrow> nat \<Rightarrow> (reactor, unit) prog" where
  "enableWriting = set_events (\<lambda>ev. ev OR kWriteEvent)"

definition disableWriting :: "bool \<Rightarrow> nat option \<Rightarrow> nat \<Rightarrow> (reactor, unit) prog" where
  "disableWriting = set_events (\<lambda>ev. ev AND NOT kWriteEvent)"

definition disableAll :: "bool \<Rightarrow> nat option \<Rightarrow> nat \<Rightarrow> (reactor, unit) prog" where
  "disableAll = set_events (\<lambda>_. kNoneEvent)"

text \<open>The callbacks that one event calls, in order. \<open>alive\<close> says whether the tied owner still exists.\<close>

datatype callback = CbError | CbClose | CbRead | CbWrite

definition handleEvent :: "bool \<Rightarrow> channel \<Rightarrow> callback list" where
  "handleEvent alive c =
     (if ch_tied c \<and> \<not> alive then []
      else
        let active_events = ch_revents c in
        if active_events AND EPOLLHUP \<noteq> 0 \<and> active_events AND EPOLLIN = 0 then
          (if active_events AND EPOLLERR \<noteq> 0 \<and> ch_error_callback c then [CbError] else []) @
          (if ch_close_callback c then [CbClose] else [])
        else
          (if active_events AND EPOLLERR \<noteq> 0 \<and> ch_error_callback c then [CbError] else []) @
          (if active_events AND (EPOLLIN OR EPOLLPRI OR EPOLLRDHUP) \<noteq> 0 \<and> ch_read_callback c then [CbRead] else []) @
          (if active_events AND EPOLLOUT \<noteq> 0 \<and> ch_write_callback c then [CbWrite] else []))"

section \<open>What the kernel watches\<close>

text \<open>The contract: the events of each channel, and the interest list as a map from descriptors.\<close>

datatype rx_op = OpEvents "u32 \<Rightarrow> u32" nat | OpRemove nat

fun run_op :: "rx_op \<times> nat option \<Rightarrow> (reactor, unit) prog" where
  "run_op (OpEvents f a, failure) = set_events f True failure a"
| "run_op (OpRemove a, failure) = loop_removeChannel True failure (Some a)"

type_synonym interest = "(nat \<Rightarrow> u32) \<times> (int \<rightharpoonup> u32 \<times> nat)"

fun interest_step :: "(nat \<Rightarrow> int) \<Rightarrow> rx_op \<Rightarrow> interest \<Rightarrow> interest" where
  "interest_step fd (OpEvents f a) (E, W) =
     (let ev = f (E a) in (E(a := ev), W(fd a := if ev = 0 then None else Some (ev, a))))"
| "interest_step fd (OpRemove a) (E, W) = (E, W(fd a := None))"

definition interest_of :: "reactor \<Rightarrow> interest" where
  "interest_of rx = (\<lambda>a. ch_events (rx_chans rx a), rx_kernel rx)"

definition rx_inv :: "(nat \<Rightarrow> int) \<Rightarrow> reactor \<Rightarrow> bool" where
  "rx_inv fd rx \<longleftrightarrow> (\<forall>a. ch_fd (rx_chans rx a) = fd a \<and> ch_owner (rx_chans rx a) = rx_owner rx) \<and> rx_owner rx \<noteq> None \<and>
     rx_channels rx = (\<lambda>d. map_option snd (rx_kernel rx d))"

lemma set_revents_simps [simp]:
  "rx_owner (set_revents a ev rx) = rx_owner rx" "rx_channels (set_revents a ev rx) = rx_channels rx"
  "rx_kernel (set_revents a ev rx) = rx_kernel rx" "rx_epoll_fd (set_revents a ev rx) = rx_epoll_fd rx"
  "ch_fd (rx_chans (set_revents a ev rx) b) = ch_fd (rx_chans rx b)"
  "ch_owner (rx_chans (set_revents a ev rx) b) = ch_owner (rx_chans rx b)"
  "ch_events (rx_chans (set_revents a ev rx) b) = ch_events (rx_chans rx b)"
  by (simp_all add: set_revents_def)

lemma updateChannel_step:
  assumes "rx_inv fd rx" "epoller_updateChannel failure (Some a) rx = (r, rx')"
  shows "rx_inv fd rx' \<and> (\<forall>b. ch_events (rx_chans rx' b) = ch_events (rx_chans rx b)) \<and>
    rx_kernel rx' = (case r of Inl _ \<Rightarrow> rx_kernel rx
      | Inr _ \<Rightarrow> (rx_kernel rx)(fd a := let ev = ch_events (rx_chans rx a) in if ev = 0 then None else Some (ev, a)))"
proof -
  have fd: "ch_fd (rx_chans rx a) = fd a" and chans: "rx_channels rx (fd a) = map_option snd (rx_kernel rx (fd a))"
    and inv: "\<forall>a. ch_fd (rx_chans rx a) = fd a \<and> ch_owner (rx_chans rx a) = rx_owner rx" "rx_owner rx \<noteq> None"
      "rx_channels rx = (\<lambda>d. map_option snd (rx_kernel rx d))"
    using assms(1) by (simp_all add: rx_inv_def)
  show ?thesis
    using assms(2) inv
    by (cases failure; cases "rx_channels rx (fd a)")
      (auto simp: epoller_updateChannel_def validateChannel_def validateChannelOwner_def bindP_apply Let_def epoll_ctl_def
        isNoneEvent_def kNoneEvent_def rx_inv_def fun_eq_iff split: if_splits)
qed

lemma removeChannel_step:
  assumes "rx_inv fd rx" "epoller_removeChannel failure (Some a) rx = (r, rx')"
  shows "rx_inv fd rx' \<and> (\<forall>b. ch_events (rx_chans rx' b) = ch_events (rx_chans rx b)) \<and>
    rx_kernel rx' = (case r of Inl _ \<Rightarrow> rx_kernel rx | Inr _ \<Rightarrow> (rx_kernel rx)(fd a := None))"
  using assms
  by (cases failure)
    (auto simp: epoller_removeChannel_def validateChannel_def validateChannelOwner_def bindP_apply Let_def epoll_ctl_def
      rx_inv_def fun_eq_iff split: if_splits)

lemma set_events_step:
  assumes "rx_inv fd rx" "set_events f True failure a rx = (r, rx')"
  shows "rx_inv fd rx' \<and> (case r of Inl _ \<Rightarrow> rx_kernel rx' = rx_kernel rx
    | Inr _ \<Rightarrow> interest_of rx' = interest_step fd (OpEvents f a) (interest_of rx))"
proof -
  let ?rx = "rx\<lparr>rx_chans := (rx_chans rx)(a := (rx_chans rx a)\<lparr>ch_events := f (ch_events (rx_chans rx a))\<rparr>)\<rparr>"
  have inv: "rx_inv fd ?rx" using assms(1) by (simp add: rx_inv_def)
  have "ch_owner (rx_chans rx a) \<noteq> None" using assms(1) by (simp add: rx_inv_def)
  then have "epoller_updateChannel failure (Some a) ?rx = (r, rx')"
    using assms(2) by (auto simp: set_events_def channel_update_def loop_updateChannel_def split: option.splits)
  from updateChannel_step [OF inv this] show ?thesis
    by (cases r) (auto simp: interest_of_def Let_def fun_eq_iff)
qed

lemma run_op_step:
  assumes "rx_inv fd rx" "run_op op rx = (r, rx')"
  shows "rx_inv fd rx' \<and> (case r of Inl _ \<Rightarrow> rx_kernel rx' = rx_kernel rx
    | Inr _ \<Rightarrow> interest_of rx' = interest_step fd (fst op) (interest_of rx))"
proof (cases op rule: run_op.cases)
  case (1 f a failure)
  with set_events_step [OF assms(1), of f failure a r rx'] assms(2) show ?thesis by (cases r) simp_all
next
  case (2 a failure)
  with removeChannel_step [OF assms(1), of failure a r rx'] assms(2) show ?thesis
    by (cases r) (auto simp: loop_removeChannel_def interest_of_def)
qed

section \<open>Properties\<close>

text \<open>
  C21. The kernel watches what the channels ask for. Whatever sequence of enabling, disabling and removing is run on
  the channels of a loop, as long as each call returned: the interest list of the kernel has exactly the descriptors
  of the channels with a non-empty set of events that were not removed since, each with the events last asked for and
  with its own channel; the epoll wrapper's own table has the same descriptors and channels. A call that fails
  changes neither.
\<close>

theorem epoller_refines_interest:
  assumes "\<forall>a. ch_owner (chans a) = owner" "owner \<noteq> None" "forP run_op ops (new_reactor owner epoll_fd chans) = (Inr (), rx)"
  shows "interest_of rx = fold (interest_step (\<lambda>a. ch_fd (chans a))) (map fst ops) (\<lambda>a. ch_events (chans a), Map.empty) \<and>
    rx_channels rx = (\<lambda>d. map_option snd (rx_kernel rx d)) \<and>
    (\<forall>op e rx'. run_op op rx = (Inl e, rx') \<longrightarrow> rx_kernel rx' = rx_kernel rx \<and> rx_channels rx' = rx_channels rx)"
proof -
  let ?fd = "\<lambda>a. ch_fd (chans a)"
  have run: "rx_inv ?fd s \<Longrightarrow> forP run_op ops s = (Inr (), t) \<Longrightarrow>
      rx_inv ?fd t \<and> interest_of t = fold (interest_step ?fd) (map fst ops) (interest_of s)" for s t
  proof (induction ops arbitrary: s)
    case (Cons op ops)
    then obtain u where u: "run_op op s = (Inr (), u)" "forP run_op ops u = (Inr (), t)" by (auto simp: bindP_Inr)
    from run_op_step [OF Cons.prems(1) u(1)] have "rx_inv ?fd u" "interest_of u = interest_step ?fd (fst op) (interest_of s)"
      by simp_all
    with Cons.IH [OF this(1) u(2)] show ?case by simp
  qed simp
  have "rx_inv ?fd (new_reactor owner epoll_fd chans)"
    using assms(1,2) by (simp add: rx_inv_def new_reactor_def)
  from run [OF this assms(3)] have t: "rx_inv ?fd rx"
    "interest_of rx = fold (interest_step ?fd) (map fst ops) (\<lambda>a. ch_events (chans a), Map.empty)"
    by (simp_all add: interest_of_def new_reactor_def)
  have "rx_kernel rx' = rx_kernel rx \<and> rx_channels rx' = rx_channels rx" if "run_op op rx = (Inl e, rx')" for op e rx'
    using run_op_step [OF t(1) that] t(1) by (simp add: rx_inv_def)
  with t show ?thesis by (simp add: rx_inv_def)
qed

theorem epoller_refines_interest_witness:
  "\<exists>rx. forP run_op [(OpEvents (\<lambda>ev. ev OR kReadEvent) 7, None), (OpEvents (\<lambda>ev. ev OR kWriteEvent) 7, None),
       (OpEvents (\<lambda>ev. ev OR kReadEvent) 8, None), (OpRemove 8, None)] (new_reactor (Some 1) 3 (\<lambda>a. new_channel (Some 1) (int a))) =
     (Inr (), rx) \<and> rx_kernel rx = [7 \<mapsto> (0x2007, 7)]"
proof -
  let ?ops = "[(OpEvents (\<lambda>ev. ev OR kReadEvent) 7, None), (OpEvents (\<lambda>ev. ev OR kWriteEvent) 7, None),
    (OpEvents (\<lambda>ev. ev OR kReadEvent) 8, None), (OpRemove 8, None)]"
  let ?chans = "\<lambda>a. new_channel (Some 1) (int a)"
  obtain r rx where run: "forP run_op ?ops (new_reactor (Some 1) 3 ?chans) = (r, rx)" by (rule prod.exhaust)
  have "r = Inr ()"
    using run
    by (simp add: bindP_apply set_events_def channel_update_def loop_updateChannel_def loop_removeChannel_def
        epoller_updateChannel_def epoller_removeChannel_def validateChannel_def validateChannelOwner_def epoll_ctl_def Let_def
        isNoneEvent_def new_reactor_def new_channel_def set_revents_def kNoneEvent_def kReadEvent_def kWriteEvent_def epoll_bits)
  with epoller_refines_interest [of ?chans "Some 1" ?ops 3 rx] run have
    "interest_of rx = fold (interest_step (\<lambda>a. ch_fd (?chans a))) (map fst ?ops) (\<lambda>a. ch_events (?chans a), Map.empty)"
    by (simp add: new_channel_def)
  then have "rx_kernel rx = [7 \<mapsto> (0x2007, 7)]"
    by (simp add: interest_of_def new_channel_def Let_def kNoneEvent_def kReadEvent_def kWriteEvent_def epoll_bits fun_eq_iff)
  with run \<open>r = Inr ()\<close> show ?thesis by auto
qed

end
