(* ===== verification/Net_Sockets.thy ===== *)
theory Net_Sockets
  imports Reactor
begin

text \<open>
  Descriptors and the listening socket (\<open>src/net/UniqueFd.cpp\<close>, \<open>src/net/SocketUtil.cpp\<close>, \<open>src/net/Acceptor.cpp\<close>). The
  results of system calls are arguments: an error number, or \<open>None\<close> for success. The owners of descriptors are
  numbered handles over the set of open descriptors of the process. The theorems: a handle never closes a descriptor
  that is not its own, no descriptor is leaked, and the acceptor hands on every connection it accepted.
\<close>

section \<open>Socket options\<close>

definition kInvalidFd :: int where "kInvalidFd = - 1"

definition invalidFdStatus :: status where
  "invalidFdStatus = status_error InvalidArgument ''socket fd is invalid''"

definition socket_errnoStatus :: "string \<Rightarrow> nat \<Rightarrow> status" where
  "socket_errnoStatus action error_number = status_error IoError (action @ '' failed with errno '' @ show_nat error_number)"

definition setSocketOption :: "int \<Rightarrow> nat option \<Rightarrow> string \<Rightarrow> unit result" where
  "setSocketOption fd failure option_name =
     (if fd < 0 then Inl invalidFdStatus
      else case failure of Some e \<Rightarrow> Inl (socket_errnoStatus option_name e) | None \<Rightarrow> Inr ())"

definition setReuseAddr :: "int \<Rightarrow> nat option \<Rightarrow> unit result" where
  "setReuseAddr fd failure = setSocketOption fd failure ''setsockopt(SO_REUSEADDR)''"

definition setReusePort :: "int \<Rightarrow> nat option \<Rightarrow> unit result" where
  "setReusePort fd failure = setSocketOption fd failure ''setsockopt(SO_REUSEPORT)''"

definition setTcpNoDelay :: "int \<Rightarrow> nat option \<Rightarrow> unit result" where
  "setTcpNoDelay fd failure = setSocketOption fd failure ''setsockopt(TCP_NODELAY)''"

definition setKeepAlive :: "int \<Rightarrow> nat option \<Rightarrow> unit result" where
  "setKeepAlive fd failure = setSocketOption fd failure ''setsockopt(SO_KEEPALIVE)''"

definition createNonBlockingSocket :: "nat + int \<Rightarrow> int result" where
  "createNonBlockingSocket created =
     (case created of Inl e \<Rightarrow> Inl (socket_errnoStatus ''socket'' e) | Inr fd \<Rightarrow> Inr fd)"

definition O_NONBLOCK :: "32 word" where "O_NONBLOCK = 0x800"

text \<open>\<open>setNonBlocking\<close> reads the flags and sets them only when the bit is missing; the result has the new flags.\<close>

definition setNonBlocking :: "int \<Rightarrow> nat + 32 word \<Rightarrow> nat option \<Rightarrow> 32 word result" where
  "setNonBlocking fd getfl setfl =
     (if fd < 0 then Inl invalidFdStatus
      else case getfl of
          Inl e \<Rightarrow> Inl (socket_errnoStatus ''fcntl(F_GETFL)'' e)
        | Inr flags \<Rightarrow>
            if flags AND O_NONBLOCK \<noteq> 0 then Inr flags
            else case setfl of
                Some e \<Rightarrow> Inl (socket_errnoStatus ''fcntl(F_SETFL)'' e)
              | None \<Rightarrow> Inr (flags OR O_NONBLOCK))"

definition getSocketError :: "int \<Rightarrow> nat + int \<Rightarrow> int result" where
  "getSocketError fd got =
     (if fd < 0 then Inl invalidFdStatus
      else case got of Inl e \<Rightarrow> Inl (socket_errnoStatus ''getsockopt(SO_ERROR)'' e) | Inr code' \<Rightarrow> Inr code')"

lemma setNonBlocking_sets: "setNonBlocking fd getfl setfl = Inr flags \<Longrightarrow> bit flags 11"
proof -
  assume run: "setNonBlocking fd getfl setfl = Inr flags"
  have n: "O_NONBLOCK = push_bit 11 1" by (simp add: O_NONBLOCK_def)
  have set: "x AND O_NONBLOCK \<noteq> 0 \<longleftrightarrow> bit x 11" for x :: "32 word"
    unfolding n by (rule bit_iff_and_push_bit_not_eq_0 [symmetric])
  have or: "bit (x OR O_NONBLOCK) 11" for x :: "32 word"
    unfolding n by (simp add: bit_or_iff bit_push_bit_iff del: push_bit_of_1)
  from run show ?thesis
    unfolding setNonBlocking_def set by (auto simp: or split: if_splits sum.splits option.splits)
qed

section \<open>Owners of descriptors\<close>

record fd_owners =
  fo_fd :: "nat \<Rightarrow> int"
  fo_open :: "int set"
  fo_released :: "int set"
  fo_bad_close :: bool

definition no_owners :: fd_owners where
  "no_owners = \<lparr>fo_fd = (\<lambda>_. kInvalidFd), fo_open = {}, fo_released = {}, fo_bad_close = False\<rparr>"

text \<open>\<open>closeFd\<close>: the descriptor is forgotten and closed; closing one that is not open is an error of the program.\<close>

definition closeFd :: "nat \<Rightarrow> fd_owners \<Rightarrow> fd_owners" where
  "closeFd i w =
     (let fd = fo_fd w i in
      if fd < 0 then w\<lparr>fo_fd := (fo_fd w)(i := kInvalidFd)\<rparr>
      else w\<lparr>fo_fd := (fo_fd w)(i := kInvalidFd), fo_open := fo_open w - {fd},
             fo_bad_close := fo_bad_close w \<or> fd \<notin> fo_open w\<rparr>)"

definition fd_reset :: "nat \<Rightarrow> int \<Rightarrow> fd_owners \<Rightarrow> fd_owners" where
  "fd_reset i fd w =
     (if fo_fd w i = fd then w
      else let w = closeFd i w in w\<lparr>fo_fd := (fo_fd w)(i := fd)\<rparr>)"

definition fd_release :: "nat \<Rightarrow> fd_owners \<Rightarrow> int \<times> fd_owners" where
  "fd_release i w = (fo_fd w i, w\<lparr>fo_fd := (fo_fd w)(i := kInvalidFd)\<rparr>)"

definition fd_move :: "nat \<Rightarrow> nat \<Rightarrow> fd_owners \<Rightarrow> fd_owners" where
  "fd_move i j w = (if i \<noteq> j then let (fd, w) = fd_release j w in fd_reset i fd w else w)"

definition fd_move_construct :: "nat \<Rightarrow> nat \<Rightarrow> fd_owners \<Rightarrow> fd_owners" where
  "fd_move_construct i j w = (let (fd, w) = fd_release j w in w\<lparr>fo_fd := (fo_fd w)(i := fd)\<rparr>)"

definition fd_destroy :: "nat \<Rightarrow> fd_owners \<Rightarrow> fd_owners" where
  "fd_destroy i w = fd_reset i kInvalidFd w"

text \<open>A new descriptor comes from the kernel and is not open yet; a released one is the caller's.\<close>

inductive fd_step :: "fd_owners \<Rightarrow> fd_owners \<Rightarrow> bool" where
  "0 \<le> fd \<Longrightarrow> fd \<notin> fo_open w \<Longrightarrow> fd_step w (fd_reset i fd (w\<lparr>fo_open := insert fd (fo_open w)\<rparr>))"
| "fd_step w (fd_move i j w)"
| "fo_fd w i = kInvalidFd \<Longrightarrow> i \<noteq> j \<Longrightarrow> fd_step w (fd_move_construct i j w)"
| "fd_step w (fd_destroy i w)"
| "fd_release i w = (fd, w') \<Longrightarrow> fd_step w (w'\<lparr>fo_released := fo_released w' \<union> ({fd} \<inter> {0..})\<rparr>)"

definition owns :: "fd_owners \<Rightarrow> nat \<Rightarrow> int \<Rightarrow> bool" where
  "owns w i fd \<longleftrightarrow> fo_fd w i = fd \<and> 0 \<le> fd"

text \<open>
  Every open descriptor has one owner or was released, a released one has no owner, and nothing that is not open is
  owned. No close has hit a descriptor that was not open.
\<close>

definition fd_inv :: "fd_owners \<Rightarrow> bool" where
  "fd_inv w \<longleftrightarrow> \<not> fo_bad_close w \<and> (\<forall>i j fd. owns w i fd \<longrightarrow> owns w j fd \<longrightarrow> i = j) \<and>
     (\<forall>fd. fd \<in> fo_open w \<longleftrightarrow> fd \<in> fo_released w \<or> (\<exists>i. owns w i fd)) \<and>
     (\<forall>fd i. fd \<in> fo_released w \<longrightarrow> \<not> owns w i fd) \<and> (\<forall>fd \<in> fo_released w. 0 \<le> fd)"

lemma fd_invD:
  assumes "fd_inv w"
  shows "\<not> fo_bad_close w" "owns w i fd \<Longrightarrow> owns w j fd \<Longrightarrow> i = j" "owns w i fd \<Longrightarrow> fd \<in> fo_open w"
    "fd \<in> fo_open w \<Longrightarrow> fd \<in> fo_released w \<or> (\<exists>i. owns w i fd)" "fd \<in> fo_released w \<Longrightarrow> \<not> owns w i fd"
    "fd \<in> fo_released w \<Longrightarrow> fd \<in> fo_open w" "fd \<in> fo_released w \<Longrightarrow> 0 \<le> fd"
  using assms unfolding fd_inv_def by blast+

lemma fd_inv_no_owners: "fd_inv no_owners"
  by (simp add: fd_inv_def owns_def no_owners_def kInvalidFd_def)

text \<open>The three ways the table of owners changes: one is closed, one is filled, one is passed on.\<close>

lemma owns_closeFd: "owns (closeFd i w) j fd \<longleftrightarrow> j \<noteq> i \<and> owns w j fd"
  by (auto simp: owns_def closeFd_def Let_def kInvalidFd_def)

lemma fd_inv_closeFd:
  assumes "fd_inv w"
  shows "fd_inv (closeFd i w)"
proof (cases "fo_fd w i < 0")
  case True
  then have "owns (closeFd i w) = owns w" by (intro ext) (auto simp: owns_closeFd, auto simp: owns_def)
  with assms True show ?thesis by (simp add: fd_inv_def closeFd_def)
next
  case False
  let ?fd = "fo_fd w i"
  have own: "owns w i ?fd" using False by (simp add: owns_def)
  have w: "fo_open (closeFd i w) = fo_open w - {?fd}" "fo_released (closeFd i w) = fo_released w"
    "\<not> fo_bad_close (closeFd i w)"
    using False fd_invD(1,3) [OF assms] own by (auto simp: closeFd_def)
  have j: "j = i" if "owns w j ?fd" for j using fd_invD(2) [OF assms that own] .
  have r: "?fd \<notin> fo_released w" using fd_invD(5) [OF assms] own by blast
  have "fd = ?fd" if "owns w i fd" for fd using that by (simp add: owns_def)
  with j r have "fd \<in> fo_open w - {?fd} \<longleftrightarrow> fd \<in> fo_released w \<or> (\<exists>j. j \<noteq> i \<and> owns w j fd)" for fd
    using fd_invD(3,4,6) [OF assms] by (metis Diff_iff singleton_iff)
  then show ?thesis
    using assms w(3) unfolding fd_inv_def w owns_closeFd by (intro conjI) blast+
qed

text \<open>A handle that owns nothing takes a descriptor that is open and has no other owner.\<close>

lemma owns_set: "fo_fd w i < 0 \<Longrightarrow> owns (w\<lparr>fo_fd := (fo_fd w)(i := fd)\<rparr>) j x \<longleftrightarrow> owns w j x \<or> (j = i \<and> x = fd \<and> 0 \<le> fd)"
  by (auto simp: owns_def)

lemma fd_inv_open:
  assumes "fd_inv w" "0 \<le> fd" "fd \<notin> fo_open w" "fo_fd w i < 0"
  shows "fd_inv (w\<lparr>fo_open := insert fd (fo_open w), fo_fd := (fo_fd w)(i := fd)\<rparr>)"
proof -
  have o: "owns (w\<lparr>fo_open := insert fd (fo_open w), fo_fd := (fo_fd w)(i := fd)\<rparr>) j x \<longleftrightarrow> owns w j x \<or> (j = i \<and> x = fd)" for j x
    using owns_set [of w i fd j x] assms(2,4) by (simp add: owns_def)
  have "\<not> owns w j fd" for j using fd_invD(3) [OF assms(1)] assms(3) by blast
  then show ?thesis
    using assms(1,3) fd_invD(6) [OF assms(1)] unfolding fd_inv_def o by (simp, blast)
qed

lemma fd_inv_transfer:
  assumes "fd_inv w" "fo_fd w i < 0" "i \<noteq> j"
  shows "fd_inv (w\<lparr>fo_fd := (fo_fd w)(j := kInvalidFd, i := fo_fd w j)\<rparr>)"
proof -
  let ?v = "w\<lparr>fo_fd := (fo_fd w)(j := kInvalidFd, i := fo_fd w j)\<rparr>"
  define f where "f k = (if k = i then j else if k = j then i else k)" for k
  have f: "f (f k) = k" for k by (simp add: f_def)
  have o: "owns ?v k x \<longleftrightarrow> owns w (f k) x" for k x
    using assms(2,3) by (auto simp: owns_def f_def kInvalidFd_def)
  have ex: "(\<exists>k. owns w (f k) x) \<longleftrightarrow> (\<exists>k. owns w k x)" for x by (metis f)
  have inj: "f k = f l \<Longrightarrow> k = l" for k l by (metis f)
  have v: "fo_bad_close ?v = fo_bad_close w" "fo_open ?v = fo_open w" "fo_released ?v = fo_released w" by simp_all
  have "owns w (f k) x \<Longrightarrow> owns w (f l) x \<Longrightarrow> k = l" for k l x by (rule inj) (rule fd_invD(2) [OF assms(1)])
  with assms(1) show ?thesis
    unfolding fd_inv_def o ex v by blast
qed

lemma fd_inv_release:
  assumes "fd_inv w"
  shows "fd_inv (w\<lparr>fo_fd := (fo_fd w)(i := kInvalidFd), fo_released := fo_released w \<union> ({fo_fd w i} \<inter> {0..})\<rparr>)"
    (is "fd_inv ?v")
proof -
  have o: "owns ?v j x \<longleftrightarrow> j \<noteq> i \<and> owns w j x" for j x by (auto simp: owns_def kInvalidFd_def)
  have r: "x \<in> fo_released ?v \<longleftrightarrow> x \<in> fo_released w \<or> owns w i x" for x by (auto simp: owns_def)
  have v: "fo_open ?v = fo_open w" "fo_bad_close ?v = fo_bad_close w" by simp_all
  have pos: "\<And>x. owns w i x \<Longrightarrow> 0 \<le> x" by (simp add: owns_def)
  have 1: "x \<in> fo_open w \<longleftrightarrow> (x \<in> fo_released w \<or> owns w i x) \<or> (\<exists>j. j \<noteq> i \<and> owns w j x)" for x
    using fd_invD(3,4,6) [OF assms] by metis
  have 2: "x \<in> fo_released w \<or> owns w i x \<Longrightarrow> \<not> (j \<noteq> i \<and> owns w j x)" for x j
    using fd_invD(2,5) [OF assms] by metis
  have 4: "x \<in> fo_released w \<or> owns w i x \<Longrightarrow> 0 \<le> x" for x using fd_invD(7) [OF assms] pos by metis
  show ?thesis
    unfolding fd_inv_def Ball_def o r v
    by (intro conjI allI impI, rule fd_invD(1) [OF assms], elim conjE, rule fd_invD(2) [OF assms], assumption+,
      rule 1, rule 2, assumption, rule 4, assumption)
qed

lemma fd_reset_eq:
  "fd_reset i fd w = (if fo_fd w i = fd then w else (closeFd i w)\<lparr>fo_fd := (fo_fd (closeFd i w))(i := fd)\<rparr>)"
  by (simp add: fd_reset_def Let_def)

lemma closeFd_props: "fo_fd (closeFd i w) = (fo_fd w)(i := kInvalidFd)" "fo_open (closeFd i w) \<subseteq> fo_open w"
  by (auto simp: closeFd_def Let_def)

lemma fd_inv_reset_invalid:
  assumes "fd_inv w"
  shows "fd_inv (fd_reset i kInvalidFd w)"
proof -
  have "(closeFd i w)\<lparr>fo_fd := (fo_fd (closeFd i w))(i := kInvalidFd)\<rparr> = closeFd i w"
    by (simp add: closeFd_def Let_def)
  then show ?thesis using assms fd_inv_closeFd [of w i] by (simp add: fd_reset_eq)
qed

lemma fd_inv_reset_new:
  assumes "fd_inv w" "0 \<le> fd" "fd \<notin> fo_open w"
  shows "fd_inv (fd_reset i fd (w\<lparr>fo_open := insert fd (fo_open w)\<rparr>))"
proof -
  let ?c = "closeFd i w"
  have ne: "fo_fd w i \<noteq> fd" using fd_invD(3) [OF assms(1), of i fd] assms(2,3) by (auto simp: owns_def)
  have "fd_inv (?c\<lparr>fo_open := insert fd (fo_open ?c), fo_fd := (fo_fd ?c)(i := fd)\<rparr>)"
  proof (rule fd_inv_open)
    show "fd \<notin> fo_open ?c" using assms(3) closeFd_props(2) by blast
  qed (simp_all add: fd_inv_closeFd assms closeFd_props(1) kInvalidFd_def)
  moreover have "fd_reset i fd (w\<lparr>fo_open := insert fd (fo_open w)\<rparr>) =
      ?c\<lparr>fo_open := insert fd (fo_open ?c), fo_fd := (fo_fd ?c)(i := fd)\<rparr>"
    using ne fd_invD(3) [OF assms(1), of i "fo_fd w i"]
    by (auto simp: fd_reset_eq closeFd_def Let_def owns_def insert_Diff_if)
  ultimately show ?thesis by simp
qed

lemma fd_inv_move:
  assumes "fd_inv w"
  shows "fd_inv (fd_move i j w)"
proof (cases "i = j")
  case False
  let ?c = "closeFd i w"
  have "fd_inv (?c\<lparr>fo_fd := (fo_fd ?c)(j := kInvalidFd, i := fo_fd ?c j)\<rparr>)"
    by (rule fd_inv_transfer) (simp_all add: fd_inv_closeFd assms False closeFd_props(1) kInvalidFd_def)
  moreover have "fd_move i j w = ?c\<lparr>fo_fd := (fo_fd ?c)(j := kInvalidFd, i := fo_fd ?c j)\<rparr>" if "fo_fd w i \<noteq> fo_fd w j"
    using False that by (auto simp: fd_move_def fd_release_def fd_reset_eq closeFd_def Let_def fun_upd_twist)
  moreover have "fd_move i j w = closeFd j w" if "fo_fd w i = fo_fd w j"
    using that False fd_invD(2) [OF assms, of i "fo_fd w i" j]
    by (auto simp: fd_move_def fd_release_def fd_reset_eq closeFd_def Let_def owns_def not_less)
  ultimately show ?thesis using fd_inv_closeFd [OF assms, of j] by metis
qed (simp add: fd_move_def assms)

lemma fd_inv_move_construct:
  "fd_inv w \<Longrightarrow> fo_fd w i = kInvalidFd \<Longrightarrow> i \<noteq> j \<Longrightarrow> fd_inv (fd_move_construct i j w)"
  using fd_inv_transfer [of w i j] by (simp add: fd_move_construct_def fd_release_def kInvalidFd_def)

lemma fd_step_inv: "fd_step w w' \<Longrightarrow> fd_inv w \<Longrightarrow> fd_inv w'"
proof (induction rule: fd_step.induct)
  case (5 i w fd w')
  then show ?case using fd_inv_release [of w i] by (auto simp: fd_release_def)
qed (simp_all add: fd_inv_reset_new fd_inv_move fd_inv_move_construct fd_destroy_def fd_inv_reset_invalid)

text \<open>
  Descriptors are owned by one handle: whatever sequence of openings, moves, releases and destructions the program
  runs, no handle ever closes a descriptor that is not open, no two handles hold the same descriptor, and every descriptor
  that is still open is held by a handle or was released to the caller.
\<close>

theorem descriptors_owned_once:
  assumes "fd_step\<^sup>*\<^sup>* no_owners w"
  shows "\<not> fo_bad_close w \<and> (\<forall>i j. 0 \<le> fo_fd w i \<and> fo_fd w i = fo_fd w j \<longrightarrow> i = j) \<and>
    (\<forall>fd \<in> fo_open w. fd \<notin> fo_released w \<longrightarrow> (\<exists>i. fo_fd w i = fd))"
proof -
  from assms have "fd_inv w"
    by (induction rule: rtranclp_induct) (auto intro: fd_inv_no_owners fd_step_inv)
  from fd_invD(1,2,4) [OF this] show ?thesis unfolding owns_def by metis
qed

theorem descriptors_owned_once_witness:
  "\<exists>w. fd_step\<^sup>*\<^sup>* no_owners w \<and> fo_open w = {7} \<and> \<not> fo_bad_close w \<and> fo_fd w 4 = 7"
proof -
  let ?s = "fd_reset 3 7 (no_owners\<lparr>fo_open := insert 7 (fo_open no_owners)\<rparr>)"
  have 1: "fd_step no_owners ?s" by (rule fd_step.intros(1)) (simp_all add: no_owners_def)
  have 2: "fd_step ?s (fd_move 4 3 ?s)" by (rule fd_step.intros(2))
  have run: "fd_step\<^sup>*\<^sup>* no_owners (fd_move 4 3 ?s)"
    by (rule converse_rtranclp_into_rtranclp, rule 1, rule r_into_rtranclp, rule 2)
  have "fo_open (fd_move 4 3 ?s) = {7}" "fo_fd (fd_move 4 3 ?s) 4 = 7"
    by (simp_all add: fd_move_def fd_release_def fd_reset_def closeFd_def Let_def no_owners_def kInvalidFd_def)
  with run descriptors_owned_once [OF run] show ?thesis by blast
qed

section \<open>The acceptor\<close>

text \<open>
  The record has the two descriptors, the address and whether the listening channel is registered; its last two fields are
  history: the connections handed to the callback and the descriptors closed.
\<close>

record acceptor =
  ac_listen_fd :: int
  ac_idle_fd :: int
  ac_channel :: bool
  ac_port :: "16 word"
  ac_callback :: bool
  ac_delivered :: "(int \<times> string) list"
  ac_closed :: "int list"

definition closes :: "int \<Rightarrow> acceptor \<Rightarrow> acceptor" where
  "closes fd a = (if fd < 0 then a else a\<lparr>ac_closed := ac_closed a @ [fd]\<rparr>)"

definition acceptor_closeInLoop :: "acceptor \<Rightarrow> acceptor" where
  "acceptor_closeInLoop a =
     (let a = a\<lparr>ac_channel := False\<rparr>;
          a = (closes (ac_listen_fd a) a)\<lparr>ac_listen_fd := kInvalidFd\<rparr>
      in (closes (ac_idle_fd a) a)\<lparr>ac_idle_fd := kInvalidFd\<rparr>)"

definition no_acceptor :: acceptor where
  "no_acceptor = \<lparr>ac_listen_fd = kInvalidFd, ac_idle_fd = kInvalidFd, ac_channel = False, ac_port = 0,
     ac_callback = False, ac_delivered = [], ac_closed = []\<rparr>"

text \<open>The results of the system calls of the constructor, in the order of the calls.\<close>

record listen_calls =
  lc_socket :: "nat + int"
  lc_open :: "nat + int"
  lc_reuse_addr :: "nat option"
  lc_reuse_port :: "nat option"
  lc_address :: bool
  lc_bind :: "nat option"
  lc_listen :: "nat option"
  lc_getsockname :: "nat + 16 word"
  lc_epoll :: "string option"

definition throwIfError :: "'a result \<Rightarrow> string + 'a" where
  "throwIfError r = (case r of Inl st \<Rightarrow> Inl (message st) | Inr x \<Rightarrow> Inr x)"

definition call_result :: "string \<Rightarrow> nat option \<Rightarrow> string + unit" where
  "call_result action failure =
     (case failure of Some e \<Rightarrow> Inl (action @ '' failed with errno '' @ show_nat e) | None \<Rightarrow> Inr ())"

definition openIdleFd :: "nat + int \<Rightarrow> string + int" where
  "openIdleFd opened =
     (case opened of Inl e \<Rightarrow> Inl (''open(/dev/null) failed with errno '' @ show_nat e) | Inr fd \<Rightarrow> Inr fd)"

definition makeListenAddress :: "string \<Rightarrow> bool \<Rightarrow> string + unit" where
  "makeListenAddress listen_ip parsed =
     (if listen_ip = [] \<or> listen_ip = ''0.0.0.0'' then Inr ()
      else if parsed then Inr ()
      else Inl (''listen ip is not a valid IPv4 address: '' @ listen_ip))"

definition boundPort :: "nat + 16 word \<Rightarrow> string + 16 word" where
  "boundPort got =
     (case got of Inl e \<Rightarrow> Inl (''getsockname failed with errno '' @ show_nat e) | Inr p \<Rightarrow> Inr p)"

definition thenT :: "string + 'a \<Rightarrow> acceptor \<Rightarrow> ('a \<Rightarrow> string option \<times> acceptor) \<Rightarrow> string option \<times> acceptor" where
  "thenT r a f = (case r of Inl text \<Rightarrow> (Some text, acceptor_closeInLoop a) | Inr x \<Rightarrow> f x)"

definition make_acceptor :: "string \<Rightarrow> listen_calls \<Rightarrow> string option \<times> acceptor" where
  "make_acceptor listen_ip calls =
     (let a = no_acceptor in
      thenT (throwIfError (createNonBlockingSocket (lc_socket calls))) a (\<lambda>fd.
      let a = a\<lparr>ac_listen_fd := fd\<rparr> in
      thenT (openIdleFd (lc_open calls)) a (\<lambda>idle.
      let a = a\<lparr>ac_idle_fd := idle\<rparr> in
      thenT (throwIfError (setReuseAddr (ac_listen_fd a) (lc_reuse_addr calls))) a (\<lambda>_.
      thenT (throwIfError (setReusePort (ac_listen_fd a) (lc_reuse_port calls))) a (\<lambda>_.
      thenT (makeListenAddress listen_ip (lc_address calls)) a (\<lambda>_.
      thenT (call_result ''bind'' (lc_bind calls)) a (\<lambda>_.
      thenT (call_result ''listen'' (lc_listen calls)) a (\<lambda>_.
      thenT (boundPort (lc_getsockname calls)) a (\<lambda>p.
      let a = a\<lparr>ac_port := p\<rparr> in
      thenT (case lc_epoll calls of None \<Rightarrow> Inr () | Some text \<Rightarrow> Inl text) a (\<lambda>_.
      (None, a\<lparr>ac_channel := True\<rparr>)))))))))))"

text \<open>Every descriptor a constructor that throws had opened is closed; one that returns is listening and has closed none.\<close>

definition opened :: "listen_calls \<Rightarrow> int list" where
  "opened calls = (case lc_socket calls of Inl _ \<Rightarrow> []
     | Inr fd \<Rightarrow> fd # (case lc_open calls of Inl _ \<Rightarrow> [] | Inr idle \<Rightarrow> [idle]))"

lemma thenT_cases:
  assumes "thenT r a f = (x, b)"
  obtains e where "r = Inl e" "x = Some e" "b = acceptor_closeInLoop a" | y where "r = Inr y" "f y = (x, b)"
  using assms by (auto simp: thenT_def split: sum.splits)

lemma acceptor_closeInLoop_props [simp]:
  "\<not> ac_channel (acceptor_closeInLoop a)" "ac_listen_fd (acceptor_closeInLoop a) = kInvalidFd"
  "ac_idle_fd (acceptor_closeInLoop a) = kInvalidFd"
  "ac_closed (acceptor_closeInLoop a) = ac_closed a @ filter (\<lambda>fd. 0 \<le> fd) [ac_listen_fd a, ac_idle_fd a]"
  by (auto simp: acceptor_closeInLoop_def closes_def Let_def)

lemma make_acceptor_all_or_nothing:
  assumes "make_acceptor listen_ip calls = (r, a)" "\<forall>fd \<in> set (opened calls). 0 \<le> fd"
  shows "case r of None \<Rightarrow> ac_channel a \<and> opened calls = [ac_listen_fd a, ac_idle_fd a] \<and> ac_closed a = []
    | Some _ \<Rightarrow> \<not> ac_channel a \<and> ac_listen_fd a < 0 \<and> ac_idle_fd a < 0 \<and> ac_closed a = opened calls"
  using assms unfolding make_acceptor_def Let_def
  by (elim thenT_cases)
    (auto simp: opened_def no_acceptor_def throwIfError_def createNonBlockingSocket_def openIdleFd_def kInvalidFd_def
      split: sum.splits)

section \<open>Accepting\<close>

definition EAGAIN :: nat where "EAGAIN = 11"

definition EWOULDBLOCK :: nat where "EWOULDBLOCK = EAGAIN"

definition ECONNABORTED :: nat where "ECONNABORTED = 103"

definition EMFILE :: nat where "EMFILE = 24"

definition ENFILE :: nat where "ENFILE = 23"

type_synonym accept_result = "nat + int \<times> string"

text \<open>The retry of \<open>accept4\<close> and the reopening of the spare descriptor take the next results of the two calls.\<close>

definition rejectOneConnectionAfterFdExhaustion :: "accept_result \<Rightarrow> nat + int \<Rightarrow> acceptor \<Rightarrow> acceptor" where
  "rejectOneConnectionAfterFdExhaustion retry reopened a =
     (let a = (closes (ac_idle_fd a) a)\<lparr>ac_idle_fd := kInvalidFd\<rparr>;
          a = (case retry of Inr (fd, _) \<Rightarrow> closes fd a | Inl _ \<Rightarrow> a)
      in case reopened of Inl _ \<Rightarrow> a | Inr fd \<Rightarrow> a\<lparr>ac_idle_fd := fd\<rparr>)"

definition handleAcceptError ::
  "nat \<Rightarrow> accept_result list \<Rightarrow> (nat + int) list \<Rightarrow> acceptor \<Rightarrow> (acceptor \<times> accept_result list \<times> (nat + int) list) option" where
  "handleAcceptError error_number accepts opens a =
     (if error_number = ECONNABORTED then Some (a, accepts, opens)
      else if error_number = EMFILE \<or> error_number = ENFILE then
        (case (accepts, opens) of
           (retry # accepts, reopened # opens) \<Rightarrow>
             Some (rejectOneConnectionAfterFdExhaustion retry reopened a, accepts, opens)
         | _ \<Rightarrow> None)
      else Some (a, accepts, opens))"

text \<open>\<open>None\<close> stands for a call whose result is still missing: the loop has not returned.\<close>

fun acceptor_handleRead ::
  "accept_result list \<Rightarrow> (nat + int) list \<Rightarrow> acceptor \<Rightarrow> (acceptor \<times> accept_result list \<times> (nat + int) list) option" where
  "acceptor_handleRead [] opens a = (if ac_listen_fd a < 0 then Some (a, [], opens) else None)"
| "acceptor_handleRead (r # accepts) opens a =
     (if ac_listen_fd a < 0 then Some (a, r # accepts, opens)
      else case r of
          Inr (fd, peer) \<Rightarrow>
            acceptor_handleRead accepts opens
              (if ac_callback a then a\<lparr>ac_delivered := ac_delivered a @ [(fd, peer)]\<rparr> else closes fd a)
        | Inl error_number \<Rightarrow>
            if error_number = EINTR then acceptor_handleRead accepts opens a
            else if error_number = EAGAIN \<or> error_number = EWOULDBLOCK then Some (a, accepts, opens)
            else if error_number = ECONNABORTED then acceptor_handleRead accepts opens a
            else handleAcceptError error_number accepts opens a)"

text \<open>The connections among a list of results.\<close>

fun accepted :: "accept_result list \<Rightarrow> (int \<times> string) list" where
  "accepted [] = []"
| "accepted (Inr c # rs) = c # accepted rs"
| "accepted (Inl _ # rs) = accepted rs"

lemma accepted_append [simp]: "accepted (rs @ ss) = accepted rs @ accepted ss"
  by (induction rs rule: accepted.induct) simp_all

definition retried :: "accept_result \<Rightarrow> bool" where
  "retried r \<longleftrightarrow> (\<exists>c. r = Inr c) \<or> r = Inl EINTR \<or> r = Inl ECONNABORTED"

lemma handleRead_drains:
  assumes "0 \<le> ac_listen_fd a" "ac_callback a" "\<forall>r \<in> set rs. retried r"
  shows "acceptor_handleRead (rs @ rest) opens a =
    acceptor_handleRead rest opens (a\<lparr>ac_delivered := ac_delivered a @ accepted rs\<rparr>)"
  using assms
proof (induction rs arbitrary: a)
  case (Cons r rs)
  then show ?case
    by (auto simp: retried_def EINTR_def ECONNABORTED_def EAGAIN_def EWOULDBLOCK_def)
qed simp

text \<open>
  C26. The acceptor loses no connection: on a listening acceptor with a callback, every connection the kernel accepts is
  handed to the callback once, in order, interrupted and aborted calls notwithstanding, until the call would block. When the
  process runs out of descriptors, the spare one is given up, the next connection is accepted and closed at once, and the
  spare is opened again, so that the backlog shrinks by one and the connections before are unaffected.
\<close>

theorem acceptor_loses_nothing:
  assumes "0 \<le> ac_listen_fd a" "ac_callback a" "\<forall>r \<in> set rs. retried r"
  shows "acceptor_handleRead (rs @ Inl EAGAIN # rest) opens a =
      Some (a\<lparr>ac_delivered := ac_delivered a @ accepted rs\<rparr>, rest, opens) \<and>
    (0 \<le> ac_idle_fd a \<and> 0 \<le> fd \<longrightarrow>
      acceptor_handleRead (rs @ Inl EMFILE # Inr (fd, peer) # rest) (Inr idle # opens) a =
        Some (a\<lparr>ac_delivered := ac_delivered a @ accepted rs, ac_idle_fd := idle,
                ac_closed := ac_closed a @ [ac_idle_fd a, fd]\<rparr>, rest, opens))"
  using handleRead_drains [OF assms] assms(1)
  by (auto simp: EINTR_def ECONNABORTED_def EAGAIN_def EWOULDBLOCK_def EMFILE_def ENFILE_def handleAcceptError_def
      rejectOneConnectionAfterFdExhaustion_def closes_def)

theorem acceptor_loses_nothing_witness:
  "acceptor_handleRead [Inr (8, ''a''), Inl EINTR, Inr (9, ''b''), Inl EAGAIN] []
     (no_acceptor\<lparr>ac_listen_fd := 5, ac_idle_fd := 6, ac_callback := True\<rparr>) =
     Some (no_acceptor\<lparr>ac_listen_fd := 5, ac_idle_fd := 6, ac_callback := True,
             ac_delivered := [(8, ''a''), (9, ''b'')]\<rparr>, [], [])"
  using acceptor_loses_nothing [of "no_acceptor\<lparr>ac_listen_fd := 5, ac_idle_fd := 6, ac_callback := True\<rparr>"
      "[Inr (8, ''a''), Inl EINTR, Inr (9, ''b'')]" "[]" "[]"]
  by (simp add: retried_def no_acceptor_def)

end
