(* ===== verification/Tcp_Server.thy ===== *)
theory Tcp_Server
  imports Session_Core Loop_Pool Net_Sockets
begin

text \<open>
  The server of connections (\<open>src/net/TcpServer.cpp\<close>): accepted connections become sessions on the loops of the pool, a
  table under a mutex holds them until they close, and a heartbeat closes the idle ones. A step of the system is what one
  thread does between two points where others can interfere. The theorems: every session is in the table until it closes
  and its close is reported once, whatever the interleaving; the heartbeat closes exactly the idle sessions; and a
  session that is being made while the server stops stays behind in the table.
\<close>

section \<open>What a relation has to satisfy to hold of every operation of a session\<close>

text \<open>
  An observer relates the session and the world before an operation to those after it. It allows every change that keeps
  the session's closed flag and its queued close, and it knows what closing and a message do.
\<close>

locale session_observer =
  fixes cbs :: "'w session_callbacks" and R :: "session \<times> 'w \<Rightarrow> session \<times> 'w \<Rightarrow> bool"
  assumes trans: "R x y \<Longrightarrow> R y z \<Longrightarrow> R x z"
    and local: "ss_closed s' = ss_closed s \<Longrightarrow> (TaskClose \<in> set (ss_tasks s) \<Longrightarrow> TaskClose \<in> set (ss_tasks s')) \<Longrightarrow>
      R (s, w) (s', w)"
    and closes: "R (s, w) (closeInLoop cbs (s\<lparr>ss_tasks := ts\<rparr>, w))"
    and says: "on_message cbs = Some f \<Longrightarrow> R (s, w) (f p (s, w))"
begin

lemma close_rel: "R (s, w) (closeInLoop cbs (s, w))"
  using closes [of s w "ss_tasks s"] by simp

lemma close_after: "ss_closed s' = ss_closed s \<Longrightarrow> ss_tasks s' = ss_tasks s \<Longrightarrow> R (s, w) (closeInLoop cbs (s', w))"
  by (rule trans [OF local close_rel]) simp_all

lemma refl_rel: "R (s, w) (s, w)"
  by (rule local) simp_all

lemma sendEncoded_rel: "R (s, w) (snd (sendEncodedInLoop cbs bs (s, w)))"
  by (auto simp: sendEncodedInLoop_def Let_def close_rel refl_rel intro!: local split: prod.splits)

lemma session_close_rel: "R (s, w) (session_close cbs b (s, w))"
  by (auto simp: session_close_def close_rel intro!: local)

lemma sendPacket_rel: "R (s, w) (snd (sendPacket cbs b p (s, w)))"
  by (auto simp: sendPacket_def session_close_rel refl_rel sendEncoded_rel intro!: local split: sum.splits)

lemma deliver_rel: "R (s, w) (snd (deliver cbs now_ms ps (s, w)))"
proof (induction ps arbitrary: s w)
  case (Cons p ps)
  let ?s = "s\<lparr>ss_last_active := now_ms\<rparr>"
  have touch: "R (s, w) (?s, w)" by (rule local) simp_all
  show ?case
  proof (cases "on_message cbs")
    case None
    then show ?thesis using trans [OF touch Cons.IH] refl_rel by (simp add: Let_def)
  next
    case (Some f)
    obtain t v where f: "f p (?s, w) = (t, v)" by (rule prod.exhaust)
    with says [OF Some, of ?s w p] have "R (?s, w) (t, v)" by simp
    from trans [OF touch trans [OF this Cons.IH]] Some f refl_rel show ?thesis by (simp add: Let_def)
  qed
qed (simp add: refl_rel)

lemma read_loop_rel: "R (s, w) (read_loop cbs now_ms rs (s, w))"
proof (induction rs arbitrary: s w)
  case (Cons r rs)
  show ?case
  proof (cases r)
    case (ReadBytes bs)
    obtain st ps d where feed: "the (feed_bytes (ss_decoder s) bs) = (st, ps, d)" by (rule prod_cases3)
    let ?s = "s\<lparr>ss_decoder := d\<rparr>"
    have touch: "R (s, w) (?s, w)" by (rule local) simp_all
    obtain b t v where del: "deliver cbs now_ms ps (?s, w) = (b, t, v)" by (rule prod_cases3)
    with trans [OF touch deliver_rel [of ?s w now_ms ps]] have "R (s, w) (t, v)" by simp
    with trans [OF this Cons.IH] show ?thesis
      using ReadBytes feed del refl_rel close_after [of ?s s w] by (cases b) (simp_all add: Let_def)
  qed (simp_all add: refl_rel close_rel Cons.IH)
qed (simp add: refl_rel)

lemma write_loop_rel: "R (s, w) (snd (write_loop cbs rs (s, w)))"
proof (induction rs arbitrary: s w)
  case (Cons r rs)
  show ?case
  proof (cases r)
    case (Wrote n)
    obtain st out where ret: "retrieve (ss_output s) n = (st, out)" by (rule prod.exhaust)
    let ?s = "s\<lparr>ss_wire := ss_wire s @ take n (contents (ss_output s)), ss_output := out\<rparr>"
    have "R (s, w) (?s, w)" by (rule local) simp_all
    from trans [OF this Cons.IH] close_after [of ?s s w] Wrote ret refl_rel show ?thesis by (simp add: Let_def)
  qed (simp_all add: refl_rel close_rel Cons.IH)
qed (simp add: refl_rel)

lemma handleWrite_rel: "R (s, w) (session_handleWrite cbs rs (s, w))"
proof -
  obtain b t v where loop: "write_loop cbs rs (s, w) = (b, t, v)" by (rule prod_cases3)
  with write_loop_rel [of s w rs] have "R (s, w) (t, v)" by simp
  moreover have "R (t, v) (t\<lparr>ss_writing := False\<rparr>, v)" by (rule local) simp_all
  ultimately show ?thesis
    using loop refl_rel trans by (cases b) (auto simp: session_handleWrite_def)
qed

lemma run_task_rel: "R (s, w) (run_session_task cbs (s, w))"
proof (cases "ss_tasks s")
  case (Cons t ts)
  let ?s = "s\<lparr>ss_tasks := ts\<rparr>"
  have drop: "R (s, w) (?s, w)" if "t \<noteq> TaskClose" using that Cons by (intro local) auto
  show ?thesis
  proof (cases t)
    case TaskStart
    have "R (?s, w) (session_startInLoop ?s, w)" by (rule local) (simp_all add: session_startInLoop_def)
    from trans [OF drop this] show ?thesis using TaskStart Cons by (simp add: run_session_task_def)
  next
    case (TaskSend bs)
    from trans [OF drop sendEncoded_rel] show ?thesis using TaskSend Cons by (simp add: run_session_task_def)
  next
    case TaskClose
    from closes show ?thesis using TaskClose Cons by (simp add: run_session_task_def)
  next
    case TaskResetChannel
    have "R (?s, w) (?s\<lparr>ss_channel := False\<rparr>, w)" by (rule local) simp_all
    from trans [OF drop this] drop show ?thesis using TaskResetChannel Cons by (simp add: run_session_task_def Let_def)
  qed
qed (simp add: run_session_task_def refl_rel)

lemma step_rel: "R (s, w) (session_step cbs e (s, w))"
proof (cases e)
  case (EvStart b)
  then show ?thesis by (auto simp: session_start_def session_startInLoop_def intro!: local)
qed (simp_all add: session_close_rel sendPacket_rel handleWrite_rel run_task_rel session_handleRead_def
    refl_rel read_loop_rel)

end

section \<open>State\<close>

text \<open>
  The table is the list of its keys: the session of a key is the object of that number. \<open>ts_closes\<close> is history, the calls of
  \<open>handleSessionClose\<close>. \<open>ts_app\<close> is the state of the application behind the two callbacks.
\<close>

record 'a tcp_server =
  ts_listen_ip :: string
  ts_io_threads :: loop_pool
  ts_acceptor :: "acceptor option"
  ts_heartbeat_timer :: bool
  ts_table :: "u64 list"
  ts_heartbeat_interval :: int
  ts_heartbeat_timeout :: int
  ts_mark :: nat
  ts_port :: "16 word"
  ts_next_session_id :: u64
  ts_started :: bool
  ts_closes :: "u64 list"
  ts_app :: 'a

definition new_tcp_server :: "string \<Rightarrow> nat \<Rightarrow> nat \<Rightarrow> 'a \<Rightarrow> 'a tcp_server" where
  "new_tcp_server listen_ip base io_thread_count app =
     \<lparr>ts_listen_ip = listen_ip, ts_io_threads = new_loop_pool base io_thread_count, ts_acceptor = None,
      ts_heartbeat_timer = False, ts_table = [], ts_heartbeat_interval = 5000, ts_heartbeat_timeout = 90000,
      ts_mark = kSessionDefaultOutputHighWaterMark, ts_port = 0, ts_next_session_id = 1, ts_started = False,
      ts_closes = [], ts_app = app\<rparr>"

text \<open>The message callback uses the session through \<open>sendPacket\<close> and \<open>close\<close>.\<close>

datatype session_call = CallSend packet | CallClose

record 'a tcp_callbacks =
  message_callback :: "(u64 \<Rightarrow> packet \<Rightarrow> 'a \<Rightarrow> session_call list \<times> 'a) option"
  close_callback :: "(u64 \<Rightarrow> 'a \<Rightarrow> 'a) option"

section \<open>Options, start and stop\<close>

definition setHeartbeatOptions :: "int \<Rightarrow> int \<Rightarrow> 'a tcp_server \<Rightarrow> string + 'a tcp_server" where
  "setHeartbeatOptions interval timeout sv =
     (if ts_started sv then Inl ''heartbeat options must be set before TcpServer starts''
      else if interval \<le> 0 \<or> timeout \<le> 0 then Inl ''heartbeat interval and timeout must be positive''
      else Inr (sv\<lparr>ts_heartbeat_interval := interval, ts_heartbeat_timeout := timeout\<rparr>))"

definition setSessionOutputHighWaterMark :: "nat \<Rightarrow> 'a tcp_server \<Rightarrow> string + 'a tcp_server" where
  "setSessionOutputHighWaterMark high_water_mark sv =
     (if ts_started sv then Inl ''session output high water mark must be set before TcpServer starts''
      else if high_water_mark = 0 then Inl ''session output high water mark must be positive''
      else Inr (sv\<lparr>ts_mark := high_water_mark\<rparr>))"

text \<open>The handler of \<open>start\<close> for an exception after the threads have been started.\<close>

definition start_failed :: "'a tcp_server \<Rightarrow> 'a tcp_server" where
  "start_failed sv =
     sv\<lparr>ts_heartbeat_timer := False, ts_acceptor := None, ts_io_threads := loop_pool_stop (ts_io_threads sv),
        ts_port := 0, ts_started := False\<rparr>"

definition startHeartbeatTimer :: "status \<Rightarrow> 'a tcp_server \<Rightarrow> string option \<times> 'a tcp_server" where
  "startHeartbeatTimer timer_status sv =
     (if isOk timer_status then (None, sv\<lparr>ts_heartbeat_timer := True\<rparr>)
      else (Some (message timer_status), sv\<lparr>ts_heartbeat_timer := False\<rparr>))"

definition tcp_start ::
  "(string + nat) list \<Rightarrow> listen_calls \<Rightarrow> status \<Rightarrow> 'a tcp_server \<Rightarrow> string option \<times> 'a tcp_server" where
  "tcp_start threads calls timer_status sv =
     (if ts_started sv then (None, sv)
      else case loop_pool_start threads (ts_io_threads sv) of
          (Some e, io) \<Rightarrow> (Some e, sv\<lparr>ts_io_threads := io\<rparr>)
        | (None, io) \<Rightarrow>
            let sv = sv\<lparr>ts_io_threads := io\<rparr> in
            case make_acceptor (ts_listen_ip sv) calls of
              (Some e, _) \<Rightarrow> (Some e, start_failed sv)
            | (None, a) \<Rightarrow>
                let sv = sv\<lparr>ts_port := ac_port a, ts_acceptor := Some (a\<lparr>ac_callback := True\<rparr>), ts_started := True\<rparr> in
                case startHeartbeatTimer timer_status sv of
                  (Some e, sv) \<Rightarrow> (Some e, start_failed sv)
                | (None, sv) \<Rightarrow> (None, sv))"

section \<open>Sessions and their callbacks\<close>

definition removeSession :: "u64 \<Rightarrow> 'a tcp_server \<Rightarrow> 'a tcp_server" where
  "removeSession session_id sv = sv\<lparr>ts_table := removeAll session_id (ts_table sv)\<rparr>"

definition handleSessionClose :: "'a tcp_callbacks \<Rightarrow> u64 \<Rightarrow> 'a tcp_server \<Rightarrow> 'a tcp_server" where
  "handleSessionClose app session_id sv =
     (let sv = sv\<lparr>ts_closes := ts_closes sv @ [session_id]\<rparr> in
      case close_callback app of
        None \<Rightarrow> sv
      | Some f \<Rightarrow> sv\<lparr>ts_app := f session_id (ts_app sv)\<rparr>)"

definition close_callbacks :: "'a tcp_callbacks \<Rightarrow> u64 \<Rightarrow> 'a tcp_server session_callbacks" where
  "close_callbacks app session_id =
     \<lparr>on_message = None,
      on_close = Some (\<lambda>(s, sv). (s, handleSessionClose app session_id (removeSession session_id sv)))\<rparr>"

text \<open>
  A message callback runs on the loop of the session. The operations it uses call no message callback, so they
  take the callbacks without one.
\<close>

fun run_calls :: "'a tcp_callbacks \<Rightarrow> u64 \<Rightarrow> session_call list \<Rightarrow> session \<times> 'a tcp_server \<Rightarrow> session \<times> 'a tcp_server" where
  "run_calls app i [] sw = sw"
| "run_calls app i (CallSend p # cs) sw = run_calls app i cs (snd (sendPacket (close_callbacks app i) True p sw))"
| "run_calls app i (CallClose # cs) sw = run_calls app i cs (session_close (close_callbacks app i) True sw)"

definition tcp_handleMessage ::
  "'a tcp_callbacks \<Rightarrow> u64 \<Rightarrow> packet \<Rightarrow> session \<times> 'a tcp_server \<Rightarrow> session \<times> 'a tcp_server" where
  "tcp_handleMessage app i p sw =
     (case message_callback app of
        Some f \<Rightarrow> let (s, sv) = sw; (calls, x) = f i p (ts_app sv) in run_calls app i calls (s, sv\<lparr>ts_app := x\<rparr>)
      | None \<Rightarrow> snd (sendPacket (close_callbacks app i) True p sw))"

definition server_callbacks :: "'a tcp_callbacks \<Rightarrow> u64 \<Rightarrow> 'a tcp_server session_callbacks" where
  "server_callbacks app i = (close_callbacks app i)\<lparr>on_message := Some (tcp_handleMessage app i)\<rparr>"

text \<open>
  What an operation on session \<open>i\<close> does to the server: its state changes only when the session closes, and then the
  session leaves the table and its close is reported. A queued close stays queued until the session is closed.
\<close>

definition forget :: "u64 \<Rightarrow> 'a tcp_server \<Rightarrow> 'a tcp_server" where
  "forget i sv = sv\<lparr>ts_table := removeAll i (ts_table sv), ts_closes := ts_closes sv @ [i]\<rparr>"

fun tracks :: "u64 \<Rightarrow> session \<times> 'a tcp_server \<Rightarrow> session \<times> 'a tcp_server \<Rightarrow> bool" where
  "tracks i (s, sv) (s', sv') \<longleftrightarrow> (ss_closed s \<longrightarrow> ss_closed s') \<and>
     (TaskClose \<in> set (ss_tasks s) \<longrightarrow> TaskClose \<in> set (ss_tasks s') \<or> ss_closed s') \<and>
     (\<exists>x. sv' = (if ss_closed s' \<and> \<not> ss_closed s then forget i sv else sv)\<lparr>ts_app := x\<rparr>)"

lemma tracks_trans: "tracks i x y \<Longrightarrow> tracks i y z \<Longrightarrow> tracks i x z"
proof -
  assume xy: "tracks i x y" and yz: "tracks i y z"
  obtain s u t v r w where [simp]: "x = (s, u)" "y = (t, v)" "z = (r, w)" by (metis prod.exhaust)
  from xy obtain a where v: "v = (if ss_closed t \<and> \<not> ss_closed s then forget i u else u)\<lparr>ts_app := a\<rparr>" by auto
  from yz obtain b where w: "w = (if ss_closed r \<and> \<not> ss_closed t then forget i v else v)\<lparr>ts_app := b\<rparr>" by auto
  have closed: "ss_closed s \<longrightarrow> ss_closed t" "ss_closed t \<longrightarrow> ss_closed r" using xy yz by simp_all
  have "forget i (u\<lparr>ts_app := a\<rparr>) = (forget i u)\<lparr>ts_app := a\<rparr>" by (simp add: forget_def)
  with v w closed have "w = (if ss_closed r \<and> \<not> ss_closed s then forget i u else u)\<lparr>ts_app := b\<rparr>"
    by (cases "ss_closed s"; cases "ss_closed t") simp_all
  moreover have "TaskClose \<in> set (ss_tasks s) \<longrightarrow> TaskClose \<in> set (ss_tasks r) \<or> ss_closed r"
    using xy yz by auto
  ultimately show ?thesis using closed by simp blast
qed

lemma tracks_app: "tracks i (s, sv) (s, sv\<lparr>ts_app := x\<rparr>)"
  by auto

lemma tracks_local:
  "ss_closed s' = ss_closed s \<Longrightarrow> (TaskClose \<in> set (ss_tasks s) \<Longrightarrow> TaskClose \<in> set (ss_tasks s')) \<Longrightarrow>
   tracks i (s, w) (s', w)"
  by (auto intro: exI [of _ "ts_app w"])

lemma tracks_close:
  assumes "on_close cbs = on_close (close_callbacks app i)"
  shows "tracks i (s, w) (closeInLoop cbs (s\<lparr>ss_tasks := ts\<rparr>, w))"
proof (cases "ss_closed s")
  case True
  then show ?thesis by (auto simp: closeInLoop_def intro: exI [of _ "ts_app w"])
next
  case False
  then show ?thesis
    using assms
    by (auto simp: closeInLoop_def Let_def close_callbacks_def removeSession_def handleSessionClose_def forget_def
        split: option.splits intro: exI [of _ "ts_app w"])
qed

interpretation closer: session_observer "close_callbacks app i" "tracks i" for app i
  by unfold_locales (blast intro: tracks_trans, blast intro: tracks_local, rule tracks_close, simp_all add: close_callbacks_def)

lemma run_calls_tracks: "tracks i (s, w) (run_calls app i cs (s, w))"
proof (induction cs arbitrary: s w)
  case Nil
  show ?case using closer.refl_rel by simp
next
  case (Cons c cs)
  define x where "x = (case c of CallSend p \<Rightarrow> snd (sendPacket (close_callbacks app i) True p (s, w))
    | CallClose \<Rightarrow> session_close (close_callbacks app i) True (s, w))"
  obtain t v where x: "x = (t, v)" by (rule prod.exhaust)
  have "tracks i (s, w) x"
    unfolding x_def by (cases c) (simp_all add: closer.sendPacket_rel closer.session_close_rel del: tracks.simps)
  with x have "tracks i (s, w) (t, v)" by (simp del: tracks.simps)
  moreover have "run_calls app i (c # cs) (s, w) = run_calls app i cs (t, v)"
    by (cases c) (simp_all add: x [symmetric] x_def)
  ultimately show ?case using tracks_trans Cons.IH by metis
qed

lemma handleMessage_tracks: "tracks i (s, w) (tcp_handleMessage app i p (s, w))"
proof (cases "message_callback app")
  case None
  then show ?thesis using closer.sendPacket_rel by (simp add: tcp_handleMessage_def del: tracks.simps)
next
  case (Some f)
  obtain cs x where "f i p (ts_app w) = (cs, x)" by (rule prod.exhaust)
  with Some tracks_trans [OF tracks_app run_calls_tracks] show ?thesis
    by (simp add: tcp_handleMessage_def del: tracks.simps)
qed

interpretation server: session_observer "server_callbacks app i" "tracks i" for app i
  by unfold_locales (blast intro: tracks_trans, blast intro: tracks_local, rule tracks_close,
    auto simp: server_callbacks_def handleMessage_tracks simp del: tracks.simps)

text \<open>The callbacks keep sessions well formed; both kinds have a close callback, so the invariants agree.\<close>

lemma server_inv_eq: "session_inv (close_callbacks app i) s = session_inv (server_callbacks app i) s"
  by (simp add: session_inv_def server_callbacks_def close_callbacks_def)

lemma server_goes_eq: "goes_to (close_callbacks app i) = goes_to (server_callbacks app i)"
  by (intro ext) (simp add: goes_to_def server_inv_eq)

lemma close_callbacks_ok: "callbacks_ok (close_callbacks app i)"
  by (auto simp: callbacks_ok_def close_callbacks_def goes_to_refl)

lemma run_calls_goes:
  "session_inv (close_callbacks app i) s \<Longrightarrow> goes_to (close_callbacks app i) s (fst (run_calls app i cs (s, w)))"
proof (induction cs arbitrary: s w)
  case (Cons c cs)
  define x where "x = session_step (close_callbacks app i)
    (case c of CallSend p \<Rightarrow> EvSend True p | CallClose \<Rightarrow> EvClose True) (s, w)"
  obtain t v where x: "x = (t, v)" by (rule prod.exhaust)
  then have t: "goes_to (close_callbacks app i) s t"
    using session_step_goes [OF close_callbacks_ok Cons.prems] unfolding x_def by (metis fst_conv)
  have "run_calls app i (c # cs) (s, w) = run_calls app i cs (t, v)"
    by (cases c) (simp_all add: x [symmetric] x_def)
  then show ?case using goes_to_trans [OF t Cons.IH [OF goes_to_inv [OF t]]] by simp
qed (simp add: goes_to_refl)

lemma server_callbacks_ok: "callbacks_ok (server_callbacks app i)"
proof -
  have "goes_to (server_callbacks app i) s (fst (tcp_handleMessage app i p (s, w)))"
    if "session_inv (server_callbacks app i) s" for p s w
    using that run_calls_goes [of app i s] session_step_goes [OF close_callbacks_ok, of app i s "EvSend True p" w]
    by (auto simp: tcp_handleMessage_def server_inv_eq server_goes_eq split: option.splits prod.splits)
  moreover have "goes_to (server_callbacks app i) s (fst (f (s, w)))"
    if "on_close (server_callbacks app i) = Some f" "session_inv (server_callbacks app i) s" for f s w
    using that by (auto simp: server_callbacks_def close_callbacks_def goes_to_refl)
  ultimately show ?thesis by (auto simp: callbacks_ok_def) (auto simp: server_callbacks_def)
qed

section \<open>The system\<close>

text \<open>
  The server with its session objects, the loop each belongs to, the tasks that make sessions, queued on their loops, and
  the sessions that have been made and are not in the table yet.
\<close>

record 'a tcp_system =
  sy_server :: "'a tcp_server"
  sy_objects :: "u64 \<Rightarrow> session option"
  sy_loop :: "u64 \<Rightarrow> nat"
  sy_queued :: "(nat \<times> string) list"
  sy_making :: "u64 list"

definition new_tcp_system :: "'a tcp_server \<Rightarrow> 'a tcp_system" where
  "new_tcp_system sv = \<lparr>sy_server = sv, sy_objects = Map.empty, sy_loop = (\<lambda>_. 0), sy_queued = [], sy_making = []\<rparr>"

text \<open>A connection that no loop can be found for is closed with its handle.\<close>

definition handleNewConnection :: "int \<Rightarrow> string \<Rightarrow> 'a tcp_system \<Rightarrow> 'a tcp_system" where
  "handleNewConnection fd peer_ip sy =
     (let sv = sy_server sy in
      if \<not> ts_started sv \<or> fd < 0 then sy
      else case getNextLoop (ts_io_threads sv) of
          None \<Rightarrow> sy
        | Some (io_loop, io) \<Rightarrow>
            sy\<lparr>sy_server := sv\<lparr>ts_io_threads := io\<rparr>, sy_queued := sy_queued sy @ [(io_loop, peer_ip)]\<rparr>)"

text \<open>
  \<open>createSessionInLoop\<close> in two parts, before and under the lock: the check and the construction, then the insertion
  and the start. The constructor of the session throws when the descriptor cannot be made non-blocking.
\<close>

definition createSession_make :: "nat \<Rightarrow> string \<Rightarrow> int \<Rightarrow> bool \<Rightarrow> 'a tcp_system \<Rightarrow> 'a tcp_system" where
  "createSession_make io_loop peer_ip now_ms nonblocking sy =
     (let sv = sy_server sy in
      if \<not> ts_started sv then sy
      else
        let session_id = ts_next_session_id sv;
            sy = sy\<lparr>sy_server := sv\<lparr>ts_next_session_id := session_id + 1\<rparr>\<rparr>
        in if \<not> nonblocking then sy
           else case setOutputHighWaterMark (ts_mark sv) (new_session session_id peer_ip now_ms) of
               None \<Rightarrow> sy
             | Some s \<Rightarrow>
                 sy\<lparr>sy_objects := (sy_objects sy)(session_id \<mapsto> s), sy_loop := (sy_loop sy)(session_id := io_loop),
                    sy_making := sy_making sy @ [session_id]\<rparr>)"

definition createSession_insert :: "u64 \<Rightarrow> 'a tcp_system \<Rightarrow> 'a tcp_system" where
  "createSession_insert session_id sy =
     (let sv = sy_server sy in
      sy\<lparr>sy_server := sv\<lparr>ts_table := ts_table sv @ [session_id]\<rparr>,
         sy_objects := (sy_objects sy)(session_id := map_option (session_start True) (sy_objects sy session_id)),
         sy_making := removeAll session_id (sy_making sy)\<rparr>)"

text \<open>An operation on one session.\<close>

definition on_session :: "'a tcp_callbacks \<Rightarrow> u64 \<Rightarrow> session_event \<Rightarrow> 'a tcp_system \<Rightarrow> 'a tcp_system" where
  "on_session app i e sy =
     (case sy_objects sy i of
        None \<Rightarrow> sy
      | Some s \<Rightarrow>
          let (s, sv) = session_step (server_callbacks app i) e (s, sy_server sy)
          in sy\<lparr>sy_server := sv, sy_objects := (sy_objects sy)(i \<mapsto> s)\<rparr>)"

definition base_loop :: "'a tcp_system \<Rightarrow> nat" where
  "base_loop sy = lp_base (ts_io_threads (sy_server sy))"

definition sendToSession :: "'a tcp_callbacks \<Rightarrow> bool \<Rightarrow> u64 \<Rightarrow> packet \<Rightarrow> 'a tcp_system \<Rightarrow> status \<times> 'a tcp_system" where
  "sendToSession app in_loop session_id packet sy =
     (let not_found = status_error NotFound ''session was not found'' in
      if session_id \<notin> set (ts_table (sy_server sy)) then (not_found, sy)
      else case sy_objects sy session_id of
          None \<Rightarrow> (not_found, sy)
        | Some s \<Rightarrow>
            if ss_closed s then (not_found, sy)
            else let (st, s, sv) = sendPacket (server_callbacks app session_id) in_loop packet (s, sy_server sy)
                 in (st, sy\<lparr>sy_server := sv, sy_objects := (sy_objects sy)(session_id \<mapsto> s)\<rparr>))"

text \<open>\<open>session->close()\<close> on the base loop.\<close>

definition close_from_base :: "'a tcp_callbacks \<Rightarrow> u64 \<Rightarrow> 'a tcp_system \<Rightarrow> 'a tcp_system" where
  "close_from_base app i sy = on_session app i (EvClose (sy_loop sy i = base_loop sy)) sy"

definition is_idle :: "int \<Rightarrow> int \<Rightarrow> session \<Rightarrow> bool" where
  "is_idle now_ms timeout_ms s \<longleftrightarrow> \<not> ss_closed s \<and> now_ms - ss_last_active s \<ge> timeout_ms"

definition closeIdleSessions :: "'a tcp_callbacks \<Rightarrow> int \<Rightarrow> 'a tcp_system \<Rightarrow> 'a tcp_system" where
  "closeIdleSessions app now_ms sy =
     (let sv = sy_server sy in
      if \<not> ts_started sv then sy
      else
        let expired = filter (\<lambda>i. case sy_objects sy i of None \<Rightarrow> False
              | Some s \<Rightarrow> is_idle now_ms (ts_heartbeat_timeout sv) s) (ts_table sv)
        in fold (close_from_base app) expired sy)"

text \<open>\<open>stopInLoop\<close> up to the joining of the threads, and the joining.\<close>

definition stop_sessions :: "'a tcp_callbacks \<Rightarrow> 'a tcp_system \<Rightarrow> 'a tcp_system" where
  "stop_sessions app sy =
     (let sv = sy_server sy in
      if \<not> ts_started sv \<and> ts_acceptor sv = None then sy
      else
        let sessions = ts_table sv;
            sy = sy\<lparr>sy_server := sv\<lparr>ts_started := False, ts_acceptor := None, ts_heartbeat_timer := False, ts_port := 0,
                                  ts_table := []\<rparr>\<rparr>
        in fold (close_from_base app) sessions sy)"

definition stop_join :: "'a tcp_system \<Rightarrow> 'a tcp_system" where
  "stop_join sy = sy\<lparr>sy_server := (sy_server sy)\<lparr>ts_io_threads := loop_pool_stop (ts_io_threads (sy_server sy))\<rparr>\<rparr>"

text \<open>
  The steps of the base loop, of the loops of the sessions and of other threads that send. A loop runs its tasks in
  order, so a session is made from the first task queued for its loop.
\<close>

inductive tcp_step :: "'a tcp_callbacks \<Rightarrow> 'a tcp_system \<Rightarrow> 'a tcp_system \<Rightarrow> bool" for app where
  starts: "tcp_step app sy (sy\<lparr>sy_server := snd (tcp_start threads calls timer_status (sy_server sy))\<rparr>)"
| connects: "tcp_step app sy (handleNewConnection fd peer_ip sy)"
| makes: "sy_queued sy = before @ (l, peer_ip) # after \<Longrightarrow> l \<notin> fst ` set before \<Longrightarrow>
    tcp_step app sy (createSession_make l peer_ip now_ms nonblocking (sy\<lparr>sy_queued := before @ after\<rparr>))"
| inserts: "i \<in> set (sy_making sy) \<Longrightarrow> tcp_step app sy (createSession_insert i sy)"
| acts: "i \<notin> set (sy_making sy) \<Longrightarrow> tcp_step app sy (on_session app i e sy)"
| sends: "tcp_step app sy (snd (sendToSession app in_loop i p sy))"
| heartbeat: "ts_heartbeat_timer (sy_server sy) \<Longrightarrow> tcp_step app sy (closeIdleSessions app now_ms sy)"
| stops: "tcp_step app sy (stop_sessions app sy)"
| joins: "\<not> ts_started (sy_server sy) \<Longrightarrow> tcp_step app sy (stop_join sy)"

section \<open>Invariant\<close>

text \<open>
  \<open>pend\<close> is a set of sessions that are about to be closed; \<open>n\<close> bounds the number of sessions made so far.
\<close>

definition session_ok :: "'a tcp_callbacks \<Rightarrow> u64 set \<Rightarrow> 'a tcp_system \<Rightarrow> u64 \<Rightarrow> session \<Rightarrow> bool" where
  "session_ok app pend sy i s \<longleftrightarrow> session_inv (server_callbacks app i) s \<and>
     count_list (ts_closes (sy_server sy)) i = (if ss_closed s then 1 else 0) \<and>
     (if ss_closed s then i \<notin> set (ts_table (sy_server sy)) \<and> i \<notin> set (sy_making sy)
      else i \<in> set (ts_table (sy_server sy)) \<or> i \<in> set (sy_making sy) \<or> TaskClose \<in> set (ss_tasks s) \<or> i \<in> pend)"

definition tcp_inv :: "'a tcp_callbacks \<Rightarrow> u64 set \<Rightarrow> nat \<Rightarrow> 'a tcp_system \<Rightarrow> bool" where
  "tcp_inv app pend n sy \<longleftrightarrow> 0 < unat (ts_next_session_id (sy_server sy)) \<and>
     unat (ts_next_session_id (sy_server sy)) \<le> n + 1 \<and>
     distinct (ts_table (sy_server sy) @ sy_making sy) \<and>
     (\<forall>i \<in> set (ts_table (sy_server sy) @ sy_making sy @ ts_closes (sy_server sy)). sy_objects sy i \<noteq> None) \<and>
     (\<forall>i s. sy_objects sy i = Some s \<longrightarrow> unat i < unat (ts_next_session_id (sy_server sy)) \<and> session_ok app pend sy i s)"

lemma tcp_invD:
  assumes "tcp_inv app pend n sy"
  shows "distinct (ts_table (sy_server sy) @ sy_making sy)"
    "i \<in> set (ts_table (sy_server sy) @ sy_making sy @ ts_closes (sy_server sy)) \<Longrightarrow> \<exists>s. sy_objects sy i = Some s"
    "sy_objects sy i = Some s \<Longrightarrow> session_ok app pend sy i s"
    "sy_objects sy i = Some s \<Longrightarrow> unat i < unat (ts_next_session_id (sy_server sy))"
  using assms unfolding tcp_inv_def by auto

text \<open>Only some fields of the server matter.\<close>

lemma tcp_inv_server:
  assumes "ts_table sv = ts_table (sy_server sy)" "ts_closes sv = ts_closes (sy_server sy)"
    "ts_next_session_id sv = ts_next_session_id (sy_server sy)"
  shows "tcp_inv app pend n (sy\<lparr>sy_server := sv\<rparr>) = tcp_inv app pend n sy"
  using assms by (simp add: tcp_inv_def session_ok_def)

lemma session_ok_next:
  "session_ok app pend (sy\<lparr>sy_server := (sy_server sy)\<lparr>ts_next_session_id := k\<rparr>\<rparr>) = session_ok app pend sy"
  by (intro ext) (simp add: session_ok_def)

lemma tcp_inv_queued [simp]: "tcp_inv app pend n (sy\<lparr>sy_queued := q\<rparr>) = tcp_inv app pend n sy"
  by (simp add: tcp_inv_def session_ok_def)

lemma tcp_inv_mono: "tcp_inv app pend n sy \<Longrightarrow> n \<le> m \<Longrightarrow> tcp_inv app pend m sy"
  by (simp add: tcp_inv_def)

lemma new_tcp_system_inv: "tcp_inv app pend n (new_tcp_system (new_tcp_server ip base k x))"
  by (simp add: tcp_inv_def new_tcp_system_def new_tcp_server_def)

text \<open>An operation on a session.\<close>

lemma count_list_snoc: "count_list (xs @ [y]) x = count_list xs x + (if x = y then 1 else 0)"
  by (induction xs) auto

lemma on_session_inv:
  assumes inv: "tcp_inv app pend n sy" and i: "i \<notin> set (sy_making sy)"
  shows "tcp_inv app pend n (on_session app i e sy)"
proof (cases "sy_objects sy i")
  case (Some s)
  obtain t sv where step: "session_step (server_callbacks app i) e (s, sy_server sy) = (t, sv)" by (rule prod.exhaust)
  have sys: "on_session app i e sy = sy\<lparr>sy_server := sv, sy_objects := (sy_objects sy)(i \<mapsto> t)\<rparr>"
    using Some step by (simp add: on_session_def)
  have ok: "session_ok app pend sy i s" using tcp_invD(3) [OF inv Some] .
  have tr: "tracks i (s, sy_server sy) (t, sv)" using server.step_rel [of i s "sy_server sy" app e] step by simp
  have st: "session_inv (server_callbacks app i) t"
    using goes_to_inv [OF session_step_goes [OF server_callbacks_ok, of app i s e "sy_server sy"]] ok step
    by (simp add: session_ok_def)
  let ?c = "ss_closed t \<and> \<not> ss_closed s"
  have sv: "ts_table sv = (if ?c then removeAll i (ts_table (sy_server sy)) else ts_table (sy_server sy))"
    "ts_closes sv = ts_closes (sy_server sy) @ (if ?c then [i] else [])"
    "ts_next_session_id sv = ts_next_session_id (sy_server sy)"
    using tr by (auto simp: forget_def)
  have other: "session_ok app pend (sy\<lparr>sy_server := sv, sy_objects := f\<rparr>) j r = session_ok app pend sy j r"
    if "j \<noteq> i" for f j r
    using that sv by (simp add: session_ok_def count_list_snoc)
  have here: "session_ok app pend (sy\<lparr>sy_server := sv, sy_objects := f\<rparr>) i t" for f
    using ok st tr i by (auto simp: session_ok_def sv count_list_snoc split: if_splits)
  show ?thesis
    using inv Some here other unfolding tcp_inv_def sys by (auto simp: sv distinct_removeAll)
qed (simp add: on_session_def inv)

lemma tcp_inv_drop:
  assumes "tcp_inv app pend n sy" "\<And>s. sy_objects sy i = Some s \<Longrightarrow> ss_closed s \<or> TaskClose \<in> set (ss_tasks s)"
  shows "tcp_inv app (pend - {i}) n sy"
proof -
  have "session_ok app (pend - {i}) sy j s" if "sy_objects sy j = Some s" for j s
    using tcp_invD(3) [OF assms(1) that] assms(2) [of s] that by (auto simp: session_ok_def)
  with assms(1) show ?thesis by (simp add: tcp_inv_def)
qed

lemma server_close_closes: "ss_closed (fst (closeInLoop (server_callbacks app i) (s, w)))"
  by (cases "ss_closed s") (simp_all add: closeInLoop_def Let_def server_callbacks_def close_callbacks_def)

lemma closed_or_queued:
  assumes "session_close (server_callbacks app i) b (s, w) = (t, v)"
  shows "ss_closed t \<or> TaskClose \<in> set (ss_tasks t)"
  using assms server_close_closes [of app i s w] by (cases b) (auto simp: session_close_def)

lemma close_from_base_inv:
  assumes "tcp_inv app pend n sy" "i \<notin> set (sy_making sy)"
  shows "tcp_inv app (pend - {i}) n (close_from_base app i sy)"
  unfolding close_from_base_def
  by (rule tcp_inv_drop [OF on_session_inv [OF assms]])
    (auto simp: on_session_def split: option.splits prod.splits dest: closed_or_queued)

lemma close_from_base_making [simp]: "sy_making (close_from_base app i sy) = sy_making sy"
  by (simp add: close_from_base_def on_session_def split: option.splits prod.splits)

lemma close_all_inv:
  "tcp_inv app pend n sy \<Longrightarrow> set is \<inter> set (sy_making sy) = {} \<Longrightarrow>
   tcp_inv app (pend - set is) n (fold (close_from_base app) is sy)"
proof (induction "is" arbitrary: pend sy)
  case (Cons i "is")
  have "tcp_inv app (pend - {i}) n (close_from_base app i sy)" using Cons.prems by (intro close_from_base_inv) auto
  from Cons.IH [OF this] Cons.prems(2) show ?case by (simp add: Diff_insert2 [symmetric])
qed simp

lemma closeIdleSessions_inv:
  assumes "tcp_inv app {} n sy"
  shows "tcp_inv app {} n (closeIdleSessions app now_ms sy)"
proof -
  have "set (ts_table (sy_server sy)) \<inter> set (sy_making sy) = {}" using tcp_invD(1) [OF assms] by auto
  then show ?thesis
    using assms close_all_inv [OF assms, of "filter (\<lambda>i. case sy_objects sy i of None \<Rightarrow> False
      | Some s \<Rightarrow> is_idle now_ms (ts_heartbeat_timeout (sy_server sy)) s) (ts_table (sy_server sy))"]
    by (auto simp: closeIdleSessions_def Let_def)
qed

lemma stop_sessions_inv:
  assumes "tcp_inv app {} n sy"
  shows "tcp_inv app {} n (stop_sessions app sy)"
proof -
  let ?sv = "(sy_server sy)\<lparr>ts_started := False, ts_acceptor := None, ts_heartbeat_timer := False, ts_port := 0, ts_table := []\<rparr>"
  let ?table = "ts_table (sy_server sy)"
  have "session_ok app (set ?table) (sy\<lparr>sy_server := ?sv\<rparr>) i s" if "sy_objects sy i = Some s" for i s
    using tcp_invD(3) [OF assms that] by (auto simp: session_ok_def split: if_splits)
  with assms have "tcp_inv app (set ?table) n (sy\<lparr>sy_server := ?sv\<rparr>)"
    by (auto simp: tcp_inv_def)
  from close_all_inv [OF this, of ?table] tcp_invD(1) [OF assms] assms show ?thesis
    by (auto simp: stop_sessions_def Let_def)
qed

lemma sendToSession_inv:
  assumes "tcp_inv app {} n sy"
  shows "tcp_inv app {} n (snd (sendToSession app in_loop i p sy))"
proof -
  have "snd (sendToSession app in_loop i p sy) = sy \<or>
      i \<notin> set (sy_making sy) \<and> snd (sendToSession app in_loop i p sy) = on_session app i (EvSend in_loop p) sy"
    using tcp_invD(1) [OF assms]
    by (auto simp: sendToSession_def on_session_def Let_def split: option.splits prod.splits)
  then show ?thesis using on_session_inv [OF assms] assms by metis
qed

lemma createSession_make_inv:
  assumes inv: "tcp_inv app {} n sy" and n: "n < 2 ^ 64 - 2"
  shows "tcp_inv app {} (Suc n) (createSession_make l ip now_ms nb sy)"
proof -
  let ?i = "ts_next_session_id (sy_server sy)"
  have "unat ?i \<le> n + 1" using inv by (simp add: tcp_inv_def)
  with n have next': "unat (?i + 1) = unat ?i + 1"
    using unat_add_lem [of ?i 1] by simp
  have fresh: "sy_objects sy ?i = None" using tcp_invD(4) [OF inv, of ?i] by (cases "sy_objects sy ?i") auto
  have no: "?i \<notin> set (ts_table (sy_server sy) @ sy_making sy @ ts_closes (sy_server sy))"
    using tcp_invD(2) [OF inv, of ?i] fresh by auto
  have skip: "tcp_inv app {} (Suc n) (sy\<lparr>sy_server := (sy_server sy)\<lparr>ts_next_session_id := ?i + 1\<rparr>\<rparr>)"
    using inv by (auto simp: tcp_inv_def next' session_ok_next less_SucI)
  have "tcp_inv app {} (Suc n) (sy\<lparr>sy_server := (sy_server sy)\<lparr>ts_next_session_id := ?i + 1\<rparr>,
      sy_objects := (sy_objects sy)(?i \<mapsto> s), sy_loop := f, sy_making := sy_making sy @ [?i]\<rparr>)" (is "tcp_inv _ _ _ ?v")
    if "session_inv (server_callbacks app ?i) s" "\<not> ss_closed s" for s f
  proof -
    have "session_ok app {} ?v j r = session_ok app {} sy j r" if "j \<noteq> ?i" for j r
      using that by (simp add: session_ok_def)
    moreover have "session_ok app {} ?v ?i s" using that no by (simp add: session_ok_def)
    ultimately show ?thesis using inv no fresh by (auto simp: tcp_inv_def next' less_SucI)
  qed
  moreover have "session_inv (server_callbacks app ?i) s \<and> \<not> ss_closed s"
    if "setOutputHighWaterMark (ts_mark (sy_server sy)) (new_session ?i ip now_ms) = Some s" for s
    using marked_session_inv [OF that] that by (auto simp: setOutputHighWaterMark_def new_session_def split: if_splits)
  ultimately show ?thesis
    using skip tcp_inv_mono [OF inv, of "Suc n"] by (auto simp: createSession_make_def Let_def split: option.splits)
qed

lemma createSession_insert_inv:
  assumes inv: "tcp_inv app {} n sy" and i: "i \<in> set (sy_making sy)"
  shows "tcp_inv app {} n (createSession_insert i sy)"
proof -
  obtain s where s: "sy_objects sy i = Some s" using tcp_invD(2) [OF inv, of i] i by auto
  have ok: "session_ok app {} sy i s" using tcp_invD(3) [OF inv s] .
  then have "session_inv (server_callbacks app i) s" by (simp add: session_ok_def)
  from goes_to_inv [OF startInLoop_goes [OF this]] have "session_inv (server_callbacks app i) (session_start True s)"
    by (simp add: session_start_def)
  moreover have "ss_closed (session_start True s) = ss_closed s"
    by (simp add: session_start_def session_startInLoop_def)
  ultimately have "session_ok app {} (createSession_insert i sy) i (session_start True s)"
    using ok i by (auto simp: session_ok_def createSession_insert_def Let_def split: if_splits)
  moreover have "session_ok app {} (createSession_insert i sy) j r = session_ok app {} sy j r" if "j \<noteq> i" for j r
    using that by (simp add: session_ok_def createSession_insert_def Let_def)
  ultimately show ?thesis
    using inv i s
    by (auto simp: tcp_inv_def createSession_insert_def Let_def distinct_removeAll split: if_splits)
qed

lemma handleNewConnection_inv: "tcp_inv app {} n sy \<Longrightarrow> tcp_inv app {} n (handleNewConnection fd ip sy)"
proof -
  assume inv: "tcp_inv app {} n sy"
  then have "tcp_inv app {} n (sy\<lparr>sy_server := (sy_server sy)\<lparr>ts_io_threads := io\<rparr>, sy_queued := q\<rparr>)" for io q
    by (subst tcp_inv_queued, subst tcp_inv_server) simp_all
  with inv show ?thesis by (auto simp: handleNewConnection_def Let_def split: option.splits)
qed

lemma tcp_start_keeps:
  "ts_table (snd (tcp_start threads calls st sv)) = ts_table sv"
  "ts_closes (snd (tcp_start threads calls st sv)) = ts_closes sv"
  "ts_next_session_id (snd (tcp_start threads calls st sv)) = ts_next_session_id sv"
  by (auto simp: tcp_start_def start_failed_def startHeartbeatTimer_def Let_def split: option.splits prod.splits)

lemma tcp_step_inv:
  assumes "tcp_step app sy sy'" "tcp_inv app {} n sy" "n < 2 ^ 64 - 2"
  shows "tcp_inv app {} (Suc n) sy'"
  using assms(1)
proof cases
  case (starts threads calls st)
  then show ?thesis using tcp_inv_mono [OF assms(2), of "Suc n"] by (simp add: tcp_inv_server tcp_start_keeps)
next
  case (makes before l ip after t nb)
  then show ?thesis using createSession_make_inv [of app n "sy\<lparr>sy_queued := before @ after\<rparr>"] assms(2,3) by simp
next
  case joins
  then show ?thesis using tcp_inv_mono [OF assms(2), of "Suc n"] by (simp add: stop_join_def tcp_inv_server)
qed (simp_all add: tcp_inv_mono [OF _ le_SucI [OF order_refl]] handleNewConnection_inv createSession_insert_inv on_session_inv
  sendToSession_inv closeIdleSessions_inv stop_sessions_inv assms(2))

lemma tcp_run_inv:
  "(tcp_step app ^^ n) (new_tcp_system (new_tcp_server ip base k x)) sy \<Longrightarrow> n < 2 ^ 64 - 1 \<Longrightarrow> tcp_inv app {} n sy"
proof (induction n arbitrary: sy)
  case 0
  then show ?case using new_tcp_system_inv by auto
next
  case (Suc n)
  then obtain sy' where run: "(tcp_step app ^^ n) (new_tcp_system (new_tcp_server ip base k x)) sy'" "tcp_step app sy' sy"
    by auto
  show ?case by (rule tcp_step_inv, rule run(2), rule Suc.IH, rule run(1)) (use Suc.prems(2) in simp_all)
qed

lemma close_idle_queued:
  assumes "distinct is" "\<forall>i \<in> set is. sy_loop sy i \<noteq> base_loop sy"
  shows "fold (close_from_base app) is sy =
    sy\<lparr>sy_objects := (\<lambda>i. if i \<in> set is then map_option (\<lambda>s. s\<lparr>ss_tasks := ss_tasks s @ [TaskClose]\<rparr>) (sy_objects sy i)
      else sy_objects sy i)\<rparr>"
  using assms
proof (induction "is" arbitrary: sy)
  case (Cons i "is")
  have "close_from_base app i sy = sy\<lparr>sy_objects := (sy_objects sy)
      (i := map_option (\<lambda>s. s\<lparr>ss_tasks := ss_tasks s @ [TaskClose]\<rparr>) (sy_objects sy i))\<rparr>"
    using Cons.prems(2) by (auto simp: close_from_base_def on_session_def session_close_def fun_upd_idem split: option.splits)
  then show ?case using Cons by (auto simp: base_loop_def fun_eq_iff)
qed simp

section \<open>Properties\<close>

text \<open>
  C7. The server keeps track of its sessions: after any interleaving of starts, connections, session events, sends, heartbeat
  checks and stops, no session is in the table twice; a session that has closed has given up its descriptor, is not in the table and
  its close has been reported exactly once; and a session that has not closed has had no close reported, and is in the table, is
  being inserted into it, or has its close queued. The number of steps is bounded by the 64 bits of the session numbers.
\<close>

theorem tcp_sessions_tracked:
  assumes "(tcp_step app ^^ n) (new_tcp_system (new_tcp_server ip base k x)) sy" "n < 2 ^ 64 - 1" "sy_objects sy i = Some s"
  shows "distinct (ts_table (sy_server sy)) \<and>
    count_list (ts_closes (sy_server sy)) i = (if ss_closed s then 1 else 0) \<and>
    (if ss_closed s then \<not> ss_fd s \<and> i \<notin> set (ts_table (sy_server sy))
     else i \<in> set (ts_table (sy_server sy)) \<or> i \<in> set (sy_making sy) \<or> TaskClose \<in> set (ss_tasks s))"
proof -
  have inv: "tcp_inv app {} n sy" by (rule tcp_run_inv, rule assms(1), rule assms(2))
  from tcp_invD(1) [OF inv] tcp_invD(3) [OF inv assms(3)] show ?thesis by (auto simp: session_ok_def session_inv_def)
qed

text \<open>
  C27. The heartbeat closes the idle sessions and no others: with the sessions on loops of their own, the check asks exactly
  those sessions of the table to close that are open and whose last packet is at least the timeout ago, once each, and
  changes nothing else.
\<close>

theorem heartbeat_closes_idle:
  assumes "ts_started (sy_server sy)" "distinct (ts_table (sy_server sy))"
    "\<forall>i \<in> set (ts_table (sy_server sy)). sy_loop sy i \<noteq> base_loop sy"
  shows "closeIdleSessions app now_ms sy =
    sy\<lparr>sy_objects := (\<lambda>i. map_option (\<lambda>s.
      if i \<in> set (ts_table (sy_server sy)) \<and> \<not> ss_closed s \<and> ss_last_active s + ts_heartbeat_timeout (sy_server sy) \<le> now_ms
      then s\<lparr>ss_tasks := ss_tasks s @ [TaskClose]\<rparr> else s) (sy_objects sy i))\<rparr>"
proof -
  let ?idle = "\<lambda>i. case sy_objects sy i of None \<Rightarrow> False | Some s \<Rightarrow> is_idle now_ms (ts_heartbeat_timeout (sy_server sy)) s"
  have "closeIdleSessions app now_ms sy = fold (close_from_base app) (filter ?idle (ts_table (sy_server sy))) sy"
    using assms(1) by (simp add: closeIdleSessions_def Let_def)
  also have "\<dots> = sy\<lparr>sy_objects := (\<lambda>i. if i \<in> set (filter ?idle (ts_table (sy_server sy)))
      then map_option (\<lambda>s. s\<lparr>ss_tasks := ss_tasks s @ [TaskClose]\<rparr>) (sy_objects sy i) else sy_objects sy i)\<rparr>"
    by (rule close_idle_queued) (use assms(2,3) in simp_all)
  finally show ?thesis
    by (auto simp: is_idle_def fun_eq_iff option.map_id intro!: arg_cong [where f = "\<lambda>f. sy\<lparr>sy_objects := f\<rparr>"] split: option.splits)
qed

section \<open>A session made while the server stops\<close>

text \<open>A server with one thread, whose system calls all succeed.\<close>

definition good_calls :: listen_calls where
  "good_calls = \<lparr>lc_socket = Inr 3, lc_open = Inr 4, lc_reuse_addr = None, lc_reuse_port = None, lc_address = True,
     lc_bind = None, lc_listen = None, lc_getsockname = Inr 9000, lc_epoll = None\<rparr>"

definition started_server :: "'a \<Rightarrow> 'a tcp_system" where
  "started_server x =
     (let sy = new_tcp_system (new_tcp_server [] 0 (Suc 0) x)
      in sy\<lparr>sy_server := snd (tcp_start [Inr 2] good_calls status_ok (sy_server sy))\<rparr>)"

definition made_session :: "'a \<Rightarrow> 'a tcp_system" where
  "made_session x =
     (let sy = handleNewConnection 7 [] (started_server x)
      in createSession_make 2 [] 100 True (sy\<lparr>sy_queued := []\<rparr>))"

lemma started_server_eq:
  "started_server x = new_tcp_system ((new_tcp_server [] 0 (Suc 0) x)\<lparr>ts_io_threads := (new_loop_pool 0 (Suc 0))\<lparr>lp_loops := [2], lp_started := True\<rparr>,
     ts_port := 9000, ts_heartbeat_timer := True, ts_started := True,
     ts_acceptor := Some (no_acceptor\<lparr>ac_listen_fd := 3, ac_idle_fd := 4, ac_port := 9000, ac_callback := True, ac_channel := True\<rparr>)\<rparr>)"
  by (simp add: started_server_def tcp_start_def new_tcp_system_def new_tcp_server_def loop_pool_start_def new_loop_pool_def
      make_acceptor_def good_calls_def thenT_def throwIfError_def createNonBlockingSocket_def openIdleFd_def
      setReuseAddr_def setReusePort_def setSocketOption_def makeListenAddress_def call_result_def boundPort_def
      startHeartbeatTimer_def Let_def no_acceptor_def)

lemma made_session_eq:
  "made_session x = (started_server x)\<lparr>
     sy_server := (sy_server (started_server x))\<lparr>ts_next_session_id := 2\<rparr>,
     sy_objects := [1 \<mapsto> new_session 1 [] 100], sy_loop := (\<lambda>_. 0)(1 := 2), sy_making := [1]\<rparr>"
  by (simp add: made_session_def started_server_eq new_tcp_system_def new_tcp_server_def handleNewConnection_def getNextLoop_def
      new_loop_pool_def createSession_make_def setOutputHighWaterMark_def Let_def kSessionDefaultOutputHighWaterMark_def
      new_session_def)

lemma made_session_run: "(tcp_step app ^^ 3) (new_tcp_system (new_tcp_server [] 0 (Suc 0) x)) (made_session x)"
proof -
  let ?s = "new_tcp_system (new_tcp_server [] 0 (Suc 0) x)"
  have 1: "tcp_step app ?s (started_server x)" unfolding started_server_def Let_def by (rule tcp_step.starts)
  have 2: "tcp_step app (started_server x) (handleNewConnection 7 [] (started_server x))" by (rule tcp_step.connects)
  have q: "sy_queued (handleNewConnection 7 [] (started_server x)) = [] @ (2, []) # []"
    by (simp add: started_server_eq new_tcp_system_def new_tcp_server_def handleNewConnection_def getNextLoop_def new_loop_pool_def)
  have 3: "tcp_step app (handleNewConnection 7 [] (started_server x)) (made_session x)"
    using tcp_step.makes [OF q, of app 100 True] by (simp add: made_session_def)
  show ?thesis unfolding numeral_3_eq_3
    by (rule relpowp_Suc_I, rule relpowp_Suc_I, rule relpowp_Suc_I, rule relpowp_0_I) (rule 1 2 3)+
qed


section \<open>Witnesses\<close>

theorem tcp_sessions_tracked_witness:
  "\<exists>sy s. (tcp_step \<lparr>message_callback = None, close_callback = None\<rparr> ^^ 3)
       (new_tcp_system (new_tcp_server [] 0 (Suc 0) ())) sy \<and> sy_objects sy 1 = Some s \<and> \<not> ss_closed s \<and>
     count_list (ts_closes (sy_server sy)) 1 = 0"
proof -
  have obj: "sy_objects (made_session ()) 1 = Some (new_session 1 [] 100)" by (simp add: made_session_eq)
  have "count_list (ts_closes (sy_server (made_session ()))) 1 = 0"
    using tcp_sessions_tracked [OF made_session_run _ obj] by (simp add: new_session_def)
  then show ?thesis
    by (intro exI [of _ "made_session ()"] exI [of _ "new_session 1 [] 100"])
      (simp add: made_session_run obj, simp add: new_session_def)
qed

theorem heartbeat_closes_idle_witness:
  "\<exists>(sy :: unit tcp_system) s. sy_objects sy 1 = Some s \<and> ts_table (sy_server sy) = [1] \<and> ts_started (sy_server sy) \<and>
     sy_objects (closeIdleSessions \<lparr>message_callback = None, close_callback = None\<rparr> 90100 sy) 1 =
       Some (s\<lparr>ss_tasks := [TaskClose]\<rparr>)"
proof -
  let ?sy = "createSession_insert 1 (made_session ())"
  let ?s = "session_start True (new_session 1 [] 100)"
  have obj: "sy_objects ?sy 1 = Some ?s" "ts_table (sy_server ?sy) = [1]" "ts_started (sy_server ?sy)"
    "sy_loop ?sy 1 \<noteq> base_loop ?sy" "ts_heartbeat_timeout (sy_server ?sy) = 90000"
    by (simp_all add: createSession_insert_def made_session_eq started_server_eq new_tcp_system_def new_tcp_server_def
        base_loop_def new_loop_pool_def)
  have "sy_objects (closeIdleSessions \<lparr>message_callback = None, close_callback = None\<rparr> 90100 ?sy) 1 =
      Some (?s\<lparr>ss_tasks := [TaskClose]\<rparr>)"
    by (subst heartbeat_closes_idle) (simp_all add: obj, simp_all add: session_start_def session_startInLoop_def new_session_def)
  with obj show ?thesis by (intro exI [of _ ?sy] exI [of _ ?s]) simp
qed

end
