(* ===== verification/Spec2Isabelle.thy ===== *)
theory Spec2Isabelle
  imports Tlv_Codec Session_Core Timer_Manager Thread_Pool Server_Main Login_Limit Sql_Server Client_Net
    Event_Loop Tcp_Server
begin

text \<open>
  LiteIM is an instant messaging server in C++.
\<close>

end
